(* ===== verification/GEDS_Prelude.thy ===== *)
theory GEDS_Prelude
  imports Main "HOL-Library.Word" "HOL-Library.Char_ord" "HOL-Library.List_Lexorder"
    "HOL-Library.Sublist"
begin

text \<open>
  Shared vocabulary of the development: the machine types of the C++ code, the operations of
  \<open>std::string\<close> that the sources use, decimal printing of integers, and the generic lemmas on
  lists that the component theories rely on. A \<open>std::string\<close> is a HOL \<open>string\<close> (a list of 8-bit
  characters); \<open>operator<\<close> on strings is the lexicographic order of List-Lexorder over the
  unsigned character order of Char-ord, which is what \<open>std::char_traits<char>\<close> prescribes.
\<close>

named_theorems str_simps \<open>characteristic equations of the string operations\<close>
named_theorems handler_defs \<open>definitions of the operations of a component\<close>

section \<open>Machine types\<close>

type_synonym byte = "8 word"
type_synonym u16 = "16 word"
type_synonym u64 = "64 word"

text \<open>
  A \<open>size_t\<close> that takes part in index arithmetic is a natural number below \<open>2 ^ 64\<close>; the operators
  write the wrap-around of the unsigned arithmetic out.
\<close>

type_synonym size_t = nat

definition wrap64 :: "nat \<Rightarrow> size_t" where
  "wrap64 n = n mod 2 ^ 64"

definition sz_sub :: "size_t \<Rightarrow> size_t \<Rightarrow> size_t" where
  "sz_sub a b = (if b \<le> a then a - b else wrap64 (2 ^ 64 + a - b))"

lemma wrap64_id [simp]: "n < 2 ^ 64 \<Longrightarrow> wrap64 n = n"
  by (simp add: wrap64_def)

text \<open>For evaluation, the modulus is computed on binary integers.\<close>

lemma wrap64_code [code]: "wrap64 n = nat (int n mod 18446744073709551616)"
  by (simp add: wrap64_def zmod_int nat_mod_distrib)

lemma wrap64_less [simp]: "wrap64 n < 2 ^ 64"
  by (simp add: wrap64_def)

lemma sz_sub_le [simp]: "b \<le> a \<Longrightarrow> sz_sub a b = a - b"
  by (simp add: sz_sub_def)

text \<open>The outcome of code that may leave by a C++ exception: its \<open>what()\<close> text, or its type.\<close>

datatype 'a outcome = Returns 'a | Raises string

section \<open>std::string\<close>

text \<open>\<open>s.find(c)\<close>: the first position of \<open>c\<close>; \<open>std::string::npos\<close> is \<^const>\<open>None\<close>.\<close>

primrec str_find :: "char \<Rightarrow> string \<Rightarrow> nat option" where
  "str_find c [] = None"
| "str_find c (x # xs) = (if x = c then Some 0 else map_option Suc (str_find c xs))"

text \<open>\<open>s.find(c, pos)\<close>: a start behind the end finds nothing.\<close>

definition str_find_from :: "char \<Rightarrow> string \<Rightarrow> nat \<Rightarrow> nat option" where
  "str_find_from c s pos = map_option (\<lambda>i. pos + i) (str_find c (drop pos s))"

text \<open>\<open>s.rfind(c)\<close>: the last position of \<open>c\<close>.\<close>

definition str_rfind :: "char \<Rightarrow> string \<Rightarrow> nat option" where
  "str_rfind c s = map_option (\<lambda>i. length s - Suc i) (str_find c (rev s))"

text \<open>\<open>s.find(t)\<close> for a string \<open>t\<close>, as a test against \<open>npos\<close>.\<close>

definition str_contains :: "string \<Rightarrow> string \<Rightarrow> bool" where
  "str_contains t s \<longleftrightarrow> sublist t s"

lemma str_find_None [str_simps]: "str_find c s = None \<longleftrightarrow> c \<notin> set s"
  by (induction s) auto

lemma str_find_append_notin [str_simps]:
  "c \<notin> set s \<Longrightarrow> str_find c (s @ c # t) = Some (length s)"
  by (induction s) auto

lemma str_find_SomeD:
  "str_find c s = Some i \<Longrightarrow> i < length s \<and> s ! i = c \<and> c \<notin> set (take i s)"
proof (induction s arbitrary: i)
  case Nil
  then show ?case by simp
next
  case (Cons x xs)
  then show ?case by (cases i) (auto split: if_splits)
qed

lemma str_find_Some_split:
  assumes "str_find c s = Some i"
  shows "s = take i s @ c # drop (Suc i) s"
  using str_find_SomeD [OF assms] by (metis id_take_nth_drop)

lemma str_find_Some_iff:
  "str_find c s = Some i \<longleftrightarrow> i < length s \<and> s ! i = c \<and> c \<notin> set (take i s)"
proof
  assume "i < length s \<and> s ! i = c \<and> c \<notin> set (take i s)"
  then have "str_find c (take i s @ c # drop (Suc i) s) = Some i"
    by (simp add: str_find_append_notin)
  moreover have "s = take i s @ c # drop (Suc i) s"
    using \<open>i < length s \<and> _\<close> by (metis id_take_nth_drop)
  ultimately show "str_find c s = Some i" by simp
qed (simp add: str_find_SomeD)

section \<open>Decimal printing\<close>

text \<open>\<open>std::to_string\<close> of an unsigned integer: decimal digits without leading zeros.\<close>

definition digit_char :: "nat \<Rightarrow> char" where
  "digit_char d = char_of (48 + d)"

fun show_nat :: "nat \<Rightarrow> string" where
  "show_nat n = (if n < 10 then [digit_char n] else show_nat (n div 10) @ [digit_char (n mod 10)])"

declare show_nat.simps [simp del]

definition is_digit :: "char \<Rightarrow> bool" where
  "is_digit c \<longleftrightarrow> CHR ''0'' \<le> c \<and> c \<le> CHR ''9''"

text \<open>The value of a digit string, as \<open>std::stoull\<close> computes it before its range check.\<close>

definition digit_val :: "char \<Rightarrow> nat" where
  "digit_val c = of_char c - 48"

definition read_nat :: "string \<Rightarrow> nat" where
  "read_nat s = foldl (\<lambda>n c. 10 * n + digit_val c) 0 s"

lemma is_digit_iff: "is_digit c \<longleftrightarrow> 48 \<le> (of_char c :: nat) \<and> (of_char c :: nat) \<le> 57"
  by (simp add: is_digit_def less_eq_char_def)

lemma of_char_digit_char: "d < 10 \<Longrightarrow> (of_char (digit_char d) :: nat) = 48 + d"
  by (simp add: digit_char_def)

lemma is_digit_digit_char [simp]: "d < 10 \<Longrightarrow> is_digit (digit_char d)"
  by (simp add: is_digit_iff of_char_digit_char)

lemma digit_val_digit_char [simp]: "d < 10 \<Longrightarrow> digit_val (digit_char d) = d"
  by (simp add: digit_val_def of_char_digit_char)

lemma show_nat_nonempty [simp]: "show_nat n \<noteq> []"
  by (subst show_nat.simps) simp

lemma show_nat_digits: "c \<in> set (show_nat n) \<Longrightarrow> is_digit c"
proof (induction n arbitrary: c rule: show_nat.induct)
  case (1 n)
  show ?case
  proof (cases "n < 10")
    case True
    with "1.prems" show ?thesis by (simp add: show_nat.simps [of n])
  next
    case False
    with "1.prems" "1.IH" show ?thesis by (auto simp: show_nat.simps [of n])
  qed
qed

lemma read_nat_append: "read_nat (s @ [c]) = 10 * read_nat s + digit_val c"
  by (simp add: read_nat_def)

lemma read_show_nat [simp]: "read_nat (show_nat n) = n"
proof (induction n rule: show_nat.induct)
  case (1 n)
  show ?case
  proof (cases "n < 10")
    case True
    then show ?thesis by (simp add: show_nat.simps [of n]) (simp add: read_nat_def)
  next
    case False
    with "1.IH" show ?thesis by (simp add: show_nat.simps [of n] read_nat_append)
  qed
qed

lemma show_nat_inject [simp]: "show_nat m = show_nat n \<longleftrightarrow> m = n"
  by (metis read_show_nat)

lemma digit_not_special:
  "is_digit c \<Longrightarrow> c \<noteq> CHR ''_'' \<and> c \<noteq> CHR '' '' \<and> c \<noteq> CHR 0x0A \<and> c \<noteq> CHR ''/'' \<and> c \<noteq> CHR 0x00"
  by (auto simp: is_digit_def less_eq_char_def)

section \<open>Lists\<close>

lemma takeWhile_all_append:
  assumes "\<And>x. x \<in> set xs \<Longrightarrow> P x"
  shows "takeWhile P (xs @ y # ys) = (if P y then xs @ y # takeWhile P ys else xs)"
  using assms by (induction xs) auto

lemma dropWhile_all_append:
  assumes "\<And>x. x \<in> set xs \<Longrightarrow> P x"
  shows "dropWhile P (xs @ ys) = dropWhile P ys"
  using assms by (induction xs) auto

lemma takeWhile_sep: "d \<notin> set u \<Longrightarrow> takeWhile (\<lambda>c. c \<noteq> d) (u @ d # v) = u"
  by (induction u) auto

lemma dropWhile_sep: "d \<notin> set u \<Longrightarrow> dropWhile (\<lambda>c. c \<noteq> d) (u @ d # v) = d # v"
  by (induction u) auto

lemma min_nat_0_iff [simp]: "min a b = 0 \<longleftrightarrow> a = 0 \<or> b = (0::nat)"
  by (auto simp: min_def)

lemma take_min_drop: "take (min n (length xs - p)) (drop p xs) = take n (drop p xs)"
  by (simp add: min_def)

lemma append_eq_sep_iff:
  fixes c :: char
  assumes "c \<notin> set a" and "c \<notin> set b"
  shows "a @ c # x = b @ c # y \<longleftrightarrow> a = b \<and> x = y"
proof
  assume eq: "a @ c # x = b @ c # y"
  have "length a = length b"
    using arg_cong [OF eq, of "str_find c"] assms
    by (simp add: str_find_append_notin)
  then show "a = b \<and> x = y" using eq by simp
qed simp

end
