(* ===== verification/Absl_Status.thy ===== *)
theory Absl_Status
  imports GEDS_Prelude
begin

text \<open>
  \<open>absl::Status\<close> and \<open>absl::StatusOr\<close> as values, and the conversions of
  \<^verbatim>\<open>src/protos/Status.h\<close> between them and the \<open>StatusResponse\<close> message of the wire protocol.
  A \<open>StatusOr<T>\<close> is a sum whose left side is the error. Following absl, a status with code
  \<open>kOk\<close> carries no message.
\<close>

section \<open>Status codes\<close>

datatype StatusCode =
    kOk | kCancelled | kUnknown | kInvalidArgument | kDeadlineExceeded | kNotFound
  | kAlreadyExists | kPermissionDenied | kResourceExhausted | kFailedPrecondition | kAborted
  | kOutOfRange | kUnimplemented | kInternal | kUnavailable | kDataLoss | kUnauthenticated

text \<open>The enumeration of \<^verbatim>\<open>status.proto\<close>, as generated for \<open>geds::rpc\<close>.\<close>

datatype rpc_StatusCode =
    RPC_OK | RPC_CANCELLED | RPC_UNKNOWN | RPC_INVALID_ARGUMENT | RPC_DEADLINE_EXCEEDED
  | RPC_NOT_FOUND | RPC_ALREADY_EXISTS | RPC_PERMISSION_DENIED | RPC_RESOURCE_EXHAUSTED
  | RPC_FAILED_PRECONDITION | RPC_ABORTED | RPC_OUT_OF_RANGE | RPC_UNIMPLEMENTED | RPC_INTERNAL
  | RPC_UNAVAILABLE | RPC_DATA_LOSS | RPC_UNAUTHENTICATED

definition absl_codes :: "StatusCode list" where
  "absl_codes = [kOk, kCancelled, kUnknown, kInvalidArgument, kDeadlineExceeded, kNotFound,
     kAlreadyExists, kPermissionDenied, kResourceExhausted, kFailedPrecondition, kAborted,
     kOutOfRange, kUnimplemented, kInternal, kUnavailable, kDataLoss, kUnauthenticated]"

definition rpc_codes :: "rpc_StatusCode list" where
  "rpc_codes = [RPC_OK, RPC_CANCELLED, RPC_UNKNOWN, RPC_INVALID_ARGUMENT, RPC_DEADLINE_EXCEEDED,
     RPC_NOT_FOUND, RPC_ALREADY_EXISTS, RPC_PERMISSION_DENIED, RPC_RESOURCE_EXHAUSTED,
     RPC_FAILED_PRECONDITION, RPC_ABORTED, RPC_OUT_OF_RANGE, RPC_UNIMPLEMENTED, RPC_INTERNAL,
     RPC_UNAVAILABLE, RPC_DATA_LOSS, RPC_UNAUTHENTICATED]"

text \<open>The integer value of an enumerator is its position in the declaration.\<close>

fun enum_index :: "'a \<Rightarrow> 'a list \<Rightarrow> nat" where
  "enum_index c [] = 0"
| "enum_index c (x # xs) = (if x = c then 0 else Suc (enum_index c xs))"

definition code_int :: "StatusCode \<Rightarrow> int" where
  "code_int c = int (enum_index c absl_codes)"

definition rpc_code_int :: "rpc_StatusCode \<Rightarrow> int" where
  "rpc_code_int c = int (enum_index c rpc_codes)"

text \<open>The two \<open>static_cast\<close> conversions.\<close>

definition convertStatus_code :: "rpc_StatusCode \<Rightarrow> StatusCode" where
  "convertStatus_code c = absl_codes ! nat (rpc_code_int c)"

definition convertStatus_rpc_code :: "StatusCode \<Rightarrow> rpc_StatusCode" where
  "convertStatus_rpc_code c = rpc_codes ! nat (code_int c)"

section \<open>Status and StatusOr\<close>

datatype Status = Status (status_code: StatusCode) (status_message: string)

type_synonym 'a StatusOr = "Status + 'a"

definition OkStatus :: Status where
  "OkStatus = Status kOk []"

text \<open>The constructor \<open>absl::Status(code, message)\<close> drops the message of an OK status.\<close>

definition mk_Status :: "StatusCode \<Rightarrow> string \<Rightarrow> Status" where
  "mk_Status c m = (if c = kOk then OkStatus else Status c m)"

definition status_ok :: "Status \<Rightarrow> bool" where
  "status_ok s \<longleftrightarrow> status_code s = kOk"

text \<open>Statuses as absl can build them.\<close>

definition status_wf :: "Status \<Rightarrow> bool" where
  "status_wf s \<longleftrightarrow> (status_code s = kOk \<longrightarrow> status_message s = [])"

abbreviation "NotFoundError \<equiv> Status kNotFound"
abbreviation "AlreadyExistsError \<equiv> Status kAlreadyExists"
abbreviation "UnknownError \<equiv> Status kUnknown"
abbreviation "AbortedError \<equiv> Status kAborted"
abbreviation "InvalidArgumentError \<equiv> Status kInvalidArgument"
abbreviation "FailedPreconditionError \<equiv> Status kFailedPrecondition"
abbreviation "UnavailableError \<equiv> Status kUnavailable"
abbreviation "InternalError \<equiv> Status kInternal"

fun is_ok :: "'a StatusOr \<Rightarrow> bool" where
  "is_ok (Inl _) = False"
| "is_ok (Inr _) = True"

text \<open>\<open>StatusOr::status()\<close>.\<close>

fun statusOr_status :: "'a StatusOr \<Rightarrow> Status" where
  "statusOr_status (Inl s) = s"
| "statusOr_status (Inr _) = OkStatus"

section \<open>The wire message\<close>

record StatusResponse =
  resp_code :: rpc_StatusCode
  resp_message :: "string option"

text \<open>A default-constructed protobuf message: the first enumerator, no message.\<close>

definition empty_StatusResponse :: StatusResponse where
  "empty_StatusResponse = \<lparr>resp_code = RPC_OK, resp_message = None\<rparr>"

text \<open>\<open>response.message()\<close> of an unset optional string is the empty string.\<close>

definition convertStatus_from :: "StatusResponse \<Rightarrow> Status" where
  "convertStatus_from r =
     (let code = convertStatus_code (resp_code r)
      in if code = kOk then OkStatus
         else mk_Status code (case resp_message r of None \<Rightarrow> [] | Some m \<Rightarrow> m))"

definition convertStatus_to :: "StatusResponse \<Rightarrow> Status \<Rightarrow> StatusResponse" where
  "convertStatus_to response status =
     (let r = response\<lparr>resp_code := convertStatus_rpc_code (status_code status)\<rparr>
      in if \<not> status_ok status then r\<lparr>resp_message := Some (status_message status)\<rparr> else r)"

section \<open>Lemmas\<close>

lemma OkStatus_simps [simp]:
  "status_code OkStatus = kOk" "status_message OkStatus = []" "status_ok OkStatus"
  "status_wf OkStatus"
  by (simp_all add: OkStatus_def status_ok_def status_wf_def)

lemma status_ok_Status [simp]: "status_ok (Status c m) \<longleftrightarrow> c = kOk"
  by (simp add: status_ok_def)

lemma error_neq_OkStatus [simp]:
  "c \<noteq> kOk \<Longrightarrow> Status c m \<noteq> OkStatus" "c \<noteq> kOk \<Longrightarrow> OkStatus \<noteq> Status c m"
  by (auto simp: OkStatus_def)

lemma status_wf_Status [simp]: "status_wf (Status c m) \<longleftrightarrow> (c = kOk \<longrightarrow> m = [])"
  by (simp add: status_wf_def)

lemma status_ok_wf: "status_wf s \<Longrightarrow> status_ok s \<longleftrightarrow> s = OkStatus"
  by (cases s) (auto simp: status_wf_def OkStatus_def)

lemma convert_code_inverse [simp]: "convertStatus_code (convertStatus_rpc_code c) = c"
  by (cases c) (simp_all add: convertStatus_code_def convertStatus_rpc_code_def code_int_def
      rpc_code_int_def absl_codes_def rpc_codes_def)

lemma convert_rpc_code_inverse [simp]: "convertStatus_rpc_code (convertStatus_code c) = c"
  by (cases c) (simp_all add: convertStatus_code_def convertStatus_rpc_code_def code_int_def
      rpc_code_int_def absl_codes_def rpc_codes_def)

lemma convertStatus_rpc_kOk [simp]: "convertStatus_rpc_code kOk = RPC_OK"
  by (simp add: convertStatus_rpc_code_def code_int_def absl_codes_def rpc_codes_def)

lemma convertStatus_code_OK [simp]: "convertStatus_code RPC_OK = kOk"
  by (metis convert_code_inverse convertStatus_rpc_kOk)

text \<open>What the client decodes from a reply that the server encoded is the server's status.\<close>

lemma convertStatus_roundtrip [simp]:
  "status_wf s \<Longrightarrow> convertStatus_from (convertStatus_to empty_StatusResponse s) = s"
  by (cases s) (auto simp: convertStatus_from_def convertStatus_to_def empty_StatusResponse_def
      mk_Status_def Let_def status_wf_def OkStatus_def)

lemma is_ok_iff: "is_ok r \<longleftrightarrow> (\<exists>x. r = Inr x)"
  by (cases r) simp_all

end
