(* ===== verification/Acceptors.thy ===== *)
theory Acceptors
  imports Absl_Status
begin

text \<open>
  The two acceptors of a node, \<^verbatim>\<open>src/libgeds/TcpServer.cpp\<close> for data connections and \<^verbatim>\<open>HttpServer.cpp\<close> for metrics:
  starting, stopping, and the loop that re-arms itself after every accepted connection. A
  connection is a number; the results of \<open>async_accept\<close> are a list of events. Both loops meet one contract, the
  locale \<open>accept_loop\<close>.
\<close>

section \<open>Accept loops\<close>

datatype accept_event = Accepted nat | AcceptFailed string

fun sockets_until_failure :: "accept_event list \<Rightarrow> nat list" where
  "sockets_until_failure [] = []"
| "sockets_until_failure (Accepted socket # evs) = socket # sockets_until_failure evs"
| "sockets_until_failure (AcceptFailed reason # evs) = []"

locale accept_loop =
  fixes on_accept :: "accept_event \<Rightarrow> 's \<Rightarrow> 's" and accepting :: "'s \<Rightarrow> bool" and served :: "'s \<Rightarrow> nat list"
  assumes accepted: "accepting s \<Longrightarrow> accepting (on_accept (Accepted socket) s)"
    and accepted_served: "accepting s \<Longrightarrow> served (on_accept (Accepted socket) s) = served s @ [socket]"
    and failed: "accepting s \<Longrightarrow> \<not> accepting (on_accept (AcceptFailed reason) s)"
    and failed_served: "accepting s \<Longrightarrow> served (on_accept (AcceptFailed reason) s) = served s"
    and idle: "\<not> accepting s \<Longrightarrow> on_accept ev s = s"
begin

lemma idle_run: "\<not> accepting s \<Longrightarrow> fold on_accept evs s = s"
  by (induction evs) (simp_all add: idle)

text \<open>The loop serves what arrives before the first failure and nothing after it.\<close>

lemma run_served: "accepting s \<Longrightarrow> served (fold on_accept evs s) = served s @ sockets_until_failure evs"
  by (induction evs arbitrary: s rule: sockets_until_failure.induct)
    (simp_all add: accepted accepted_served failed failed_served idle_run)

lemma run_accepting:
  "accepting s \<Longrightarrow> accepting (fold on_accept evs s) \<longleftrightarrow> length (sockets_until_failure evs) = length evs"
proof (induction evs arbitrary: s rule: sockets_until_failure.induct)
  case (3 reason evs)
  then show ?case by (simp add: failed idle_run)
qed (simp_all add: accepted)

end

section \<open>The web server\<close>

text \<open>The acceptor is a null pointer before the first start; otherwise it is open or closed.\<close>

record HttpServer =
  hs_port :: u16
  hs_acceptor :: "bool option"
  hs_joinable :: bool
  hs_ioStopped :: bool
  hs_accepting :: bool
  hs_sessions :: "nat list"

definition HttpServer_new :: "u16 \<Rightarrow> HttpServer" where
  "HttpServer_new port = \<lparr>hs_port = port, hs_acceptor = None, hs_joinable = False, hs_ioStopped = False,
     hs_accepting = False, hs_sessions = []\<rparr>"

text \<open>\<open>bindError\<close> is the diagnostic of the exception with which the constructor of the acceptor fails.\<close>

definition HttpServer_start :: "string option \<Rightarrow> HttpServer \<Rightarrow> Status \<times> HttpServer" where
  "HttpServer_start bindError s =
     (if hs_acceptor s \<noteq> None then (UnknownError ''The server is already running!'', s)
      else case bindError of
          Some diag \<Rightarrow> (InternalError (''Unable to start webserver: '' @ diag), s)
        | None \<Rightarrow> (OkStatus, s\<lparr>hs_acceptor := Some True, hs_joinable := True, hs_accepting := True\<rparr>))"

text \<open>\<open>stop\<close> uses the acceptor without a test. Joining a thread a second time throws.\<close>

definition HttpServer_stop :: "HttpServer \<Rightarrow> HttpServer outcome" where
  "HttpServer_stop s =
     (case hs_acceptor s of
        None \<Rightarrow> Raises ''null pointer''
      | Some _ \<Rightarrow>
          if \<not> hs_joinable s then Raises ''std::system_error''
          else Returns (s\<lparr>hs_ioStopped := True, hs_acceptor := Some False, hs_joinable := False\<rparr>))"

definition HttpServer_on_accept :: "accept_event \<Rightarrow> HttpServer \<Rightarrow> HttpServer" where
  "HttpServer_on_accept ev s =
     (if hs_accepting s \<and> \<not> hs_ioStopped s
      then case ev of
          AcceptFailed reason \<Rightarrow> s\<lparr>hs_accepting := False\<rparr>
        | Accepted socket \<Rightarrow> s\<lparr>hs_sessions := hs_sessions s @ [socket], hs_accepting := True\<rparr>
      else s)"

interpretation http_loop: accept_loop HttpServer_on_accept "\<lambda>s. hs_accepting s \<and> \<not> hs_ioStopped s" hs_sessions
  by unfold_locales (auto simp: HttpServer_on_accept_def)

section \<open>The TCP server\<close>

definition MAXIMUM_TCP_THREADS :: "nat \<Rightarrow> nat" where
  "MAXIMUM_TCP_THREADS hardware_concurrency = min 8 (hardware_concurrency * 2)"

text \<open>A thread is represented by whether it can be joined.\<close>

record TcpServer =
  ts_started :: bool
  ts_port :: u16
  ts_threads :: "bool list"
  ts_open :: bool
  ts_ioStopped :: bool
  ts_accepting :: bool
  ts_connections :: "nat list"

definition TcpServer_new :: "string option \<Rightarrow> u16 \<Rightarrow> TcpServer outcome" where
  "TcpServer_new bindError port =
     (case bindError of
        Some what \<Rightarrow> Raises what
      | None \<Rightarrow> Returns \<lparr>ts_started = False, ts_port = port, ts_threads = [], ts_open = True, ts_ioStopped = False,
          ts_accepting = False, ts_connections = []\<rparr>)"

definition TcpServer_start :: "nat \<Rightarrow> TcpServer \<Rightarrow> Status \<times> TcpServer" where
  "TcpServer_start hardware_concurrency s =
     (if ts_started s then (UnknownError ''Already started!'', s)
      else (OkStatus, s\<lparr>ts_accepting := True,
        ts_threads := ts_threads s @ replicate (MAXIMUM_TCP_THREADS hardware_concurrency) True, ts_started := True\<rparr>))"

definition TcpServer_stop :: "TcpServer \<Rightarrow> TcpServer outcome" where
  "TcpServer_stop s =
     (let s1 = s\<lparr>ts_started := False, ts_open := False, ts_ioStopped := True\<rparr>
      in if list_all id (ts_threads s1) then Returns (s1\<lparr>ts_threads := map (\<lambda>_. False) (ts_threads s1)\<rparr>)
         else Raises ''std::system_error'')"

text \<open>A failure is logged while the server is started; either way no new accept is issued.\<close>

definition TcpServer_on_accept :: "accept_event \<Rightarrow> TcpServer \<Rightarrow> TcpServer" where
  "TcpServer_on_accept ev s =
     (if ts_accepting s \<and> \<not> ts_ioStopped s
      then case ev of
          AcceptFailed reason \<Rightarrow> s\<lparr>ts_accepting := False\<rparr>
        | Accepted socket \<Rightarrow> s\<lparr>ts_connections := ts_connections s @ [socket], ts_accepting := True\<rparr>
      else s)"

interpretation tcp_loop: accept_loop TcpServer_on_accept "\<lambda>s. ts_accepting s \<and> \<not> ts_ioStopped s" ts_connections
  by unfold_locales (auto simp: TcpServer_on_accept_def)

section \<open>Results\<close>

lemma TcpServer_on_accept_started [simp]: "ts_started (fold TcpServer_on_accept evs s) = ts_started s"
  by (induction evs arbitrary: s) (simp_all add: TcpServer_on_accept_def split: accept_event.splits)

text \<open>
  A TCP server that has been started on a free port serves the connections that arrive before the first failed
  accept and none after it, although it still counts as started and refuses to be started again.
\<close>

theorem TcpServer_serves_until_failure:
  assumes "TcpServer_new None port = Returns s0" and "TcpServer_start hw s0 = (st, s1)"
  shows "ts_connections (fold TcpServer_on_accept evs s1) = sockets_until_failure evs"
    and "TcpServer_start hw (fold TcpServer_on_accept evs s1) =
      (UnknownError ''Already started!'', fold TcpServer_on_accept evs s1)"
proof -
  have s1: "ts_started s1" "ts_accepting s1 \<and> \<not> ts_ioStopped s1" "ts_connections s1 = []"
    using assms by (auto simp: TcpServer_new_def TcpServer_start_def)
  show "ts_connections (fold TcpServer_on_accept evs s1) = sockets_until_failure evs"
    using tcp_loop.run_served [OF s1(2)] s1(3) by simp
  show "TcpServer_start hw (fold TcpServer_on_accept evs s1) =
      (UnknownError ''Already started!'', fold TcpServer_on_accept evs s1)"
    using s1(1) by (simp add: TcpServer_start_def)
qed

theorem HttpServer_serves_until_failure:
  assumes "HttpServer_start None (HttpServer_new port) = (st, s1)"
  shows "hs_sessions (fold HttpServer_on_accept evs s1) = sockets_until_failure evs"
proof -
  have s1: "hs_accepting s1 \<and> \<not> hs_ioStopped s1" "hs_sessions s1 = []"
    using assms by (auto simp: HttpServer_new_def HttpServer_start_def)
  then show ?thesis using http_loop.run_served [OF s1(1)] by simp
qed

text \<open>The web server can be stopped once after a successful start, and at no other time.\<close>

theorem HttpServer_stop_once:
  "HttpServer_stop (snd (HttpServer_start (Some diag) (HttpServer_new port))) = Raises ''null pointer''"
  "HttpServer_start None (HttpServer_new port) = (OkStatus, s) \<Longrightarrow>
     HttpServer_stop s = Returns s' \<Longrightarrow> HttpServer_stop (snd (HttpServer_start bindError s')) = Raises ''std::system_error''"
  by (auto simp: HttpServer_stop_def HttpServer_start_def HttpServer_new_def)

end
