(* ===== verification/Std_Map.thy ===== *)
theory Std_Map
  imports GEDS_Prelude
begin

text \<open>
  \<open>std::map\<close> as the sources use it: the in-order sequence of its nodes, an association list whose
  keys strictly increase. \<open>find\<close> is \<^const>\<open>map_of\<close>; assignment through \<open>operator[]\<close> and
  \<open>erase\<close> keep the order; \<open>equal_range\<close> with a heterogeneous probe cuts the sequence at its lower
  and upper bound. The two interfaces the other theories rely on are the locales
  \<open>keyed_store\<close> (find after assign and erase) and \<open>range_probe\<close> (what a
  heterogeneous comparison must satisfy so that \<open>equal_range\<close> finds exactly the matching nodes).
\<close>

type_synonym ('k, 'v) std_map = "('k \<times> 'v) list"

definition map_sorted :: "('k::linorder, 'v) std_map \<Rightarrow> bool" where
  "map_sorted m \<longleftrightarrow> sorted_wrt (<) (map fst m)"

definition map_assign :: "'k::linorder \<Rightarrow> 'v \<Rightarrow> ('k, 'v) std_map \<Rightarrow> ('k, 'v) std_map" where
  "map_assign k v m =
     takeWhile (\<lambda>e. fst e < k) m @ (k, v) # dropWhile (\<lambda>e. fst e \<le> k) m"

definition map_erase :: "'k::linorder \<Rightarrow> ('k, 'v) std_map \<Rightarrow> ('k, 'v) std_map" where
  "map_erase k m = takeWhile (\<lambda>e. fst e < k) m @ dropWhile (\<lambda>e. fst e \<le> k) m"

text \<open>
  \<open>equal_range\<close> for a probe: \<open>before k\<close> is the comparison node before probe, \<open>after k\<close> the
  comparison probe before node. The result is the part in front of the range, the range, and the
  rest; the lower bound is \<open>end()\<close> when range and rest are both empty.
\<close>

definition equal_range ::
  "('k \<Rightarrow> bool) \<Rightarrow> ('k \<Rightarrow> bool) \<Rightarrow> ('k, 'v) std_map
     \<Rightarrow> ('k, 'v) std_map \<times> ('k, 'v) std_map \<times> ('k, 'v) std_map" where
  "equal_range before after m =
     (let front = takeWhile (\<lambda>e. before (fst e)) m; rear = dropWhile (\<lambda>e. before (fst e)) m
      in (front, takeWhile (\<lambda>e. \<not> after (fst e)) rear, dropWhile (\<lambda>e. \<not> after (fst e)) rear))"

section \<open>Order and contents\<close>

lemma map_sorted_Nil [simp]: "map_sorted []"
  by (simp add: map_sorted_def)

lemma map_sorted_Cons [simp]:
  "map_sorted (e # m) \<longleftrightarrow> (\<forall>x \<in> set m. fst e < fst x) \<and> map_sorted m"
  by (auto simp: map_sorted_def)

lemma map_sorted_append:
  "map_sorted (xs @ ys) \<longleftrightarrow>
     map_sorted xs \<and> map_sorted ys \<and> (\<forall>x \<in> set xs. \<forall>y \<in> set ys. fst x < fst y)"
  by (auto simp: map_sorted_def sorted_wrt_append)

lemma map_sorted_distinct: "map_sorted m \<Longrightarrow> distinct (map fst m)"
  by (simp add: map_sorted_def strict_sorted_iff)

lemma map_sorted_filter: "map_sorted m \<Longrightarrow> map_sorted (filter P m)"
  by (induction m) auto

lemma map_of_in_sorted: "map_sorted m \<Longrightarrow> map_of m k = Some v \<longleftrightarrow> (k, v) \<in> set m"
  by (simp add: map_of_eq_Some_iff map_sorted_distinct)

lemma map_of_filter_key:
  "map_sorted m \<Longrightarrow> map_of (filter (\<lambda>e. P (fst e)) m) k = (if P k then map_of m k else None)"
proof (induction m)
  case Nil
  then show ?case by simp
next
  case (Cons e m)
  then show ?case by (cases e) (auto simp: map_of_eq_None_iff)
qed

lemma sorted_dropWhile_eq:
  assumes "map_sorted m" and "\<And>x y. P y \<Longrightarrow> x < y \<Longrightarrow> P x"
  shows "dropWhile (\<lambda>e. P (fst e)) m = filter (\<lambda>e. \<not> P (fst e)) m"
  using assms
proof (induction m)
  case Nil
  then show ?case by simp
next
  case (Cons e m)
  show ?case
  proof (cases "P (fst e)")
    case True
    with Cons show ?thesis by simp
  next
    case False
    then have "\<not> P (fst x)" if "x \<in> set m" for x
      using that Cons.prems by auto
    then have "filter (\<lambda>e. \<not> P (fst e)) m = m"
      by (simp add: filter_id_conv)
    with False show ?thesis by simp
  qed
qed

lemma sorted_takeWhile_eq:
  assumes "map_sorted m" and "\<And>x y. P y \<Longrightarrow> x < y \<Longrightarrow> P x"
  shows "takeWhile (\<lambda>e. P (fst e)) m = filter (\<lambda>e. P (fst e)) m"
  using assms
proof (induction m)
  case Nil
  then show ?case by simp
next
  case (Cons e m)
  show ?case
  proof (cases "P (fst e)")
    case True
    with Cons show ?thesis by simp
  next
    case False
    then have "\<not> P (fst x)" if "x \<in> set m" for x
      using that Cons.prems by auto
    then have "filter (\<lambda>e. P (fst e)) m = []"
      by (simp add: filter_empty_conv)
    with False show ?thesis by simp
  qed
qed

lemma map_assign_eq_filter:
  "map_sorted m \<Longrightarrow>
     map_assign k v m = filter (\<lambda>e. fst e < k) m @ (k, v) # filter (\<lambda>e. k < fst e) m"
  unfolding map_assign_def
  by (simp add: sorted_takeWhile_eq [where P = "\<lambda>x. x < k"]
      sorted_dropWhile_eq [where P = "\<lambda>x. x \<le> k"] not_le)

lemma map_erase_eq_filter: "map_sorted m \<Longrightarrow> map_erase k m = filter (\<lambda>e. fst e \<noteq> k) m"
proof -
  assume s: "map_sorted m"
  have "filter (\<lambda>e. fst e < k) m @ filter (\<lambda>e. k < fst e) m = filter (\<lambda>e. fst e \<noteq> k) m"
    using s
  proof (induction m)
    case Nil
    then show ?case by simp
  next
    case (Cons e m)
    consider "fst e < k" | "fst e = k" | "k < fst e" by (metis neqE)
    then show ?case
    proof cases
      case 3
      then have "filter (\<lambda>e. fst e < k) m = []"
        using Cons.prems by (force simp: filter_empty_conv)
      with 3 Cons show ?thesis by auto
    next
      case 2
      then have "filter (\<lambda>e. fst e < k) m = []"
        using Cons.prems by (force simp: filter_empty_conv)
      with 2 Cons show ?thesis by auto
    next
      case 1
      with Cons show ?thesis by auto
    qed
  qed
  with s show ?thesis
    by (simp add: map_erase_def sorted_takeWhile_eq [where P = "\<lambda>x. x < k"]
        sorted_dropWhile_eq [where P = "\<lambda>x. x \<le> k"] not_le)
qed

lemma map_sorted_assign [simp]: "map_sorted m \<Longrightarrow> map_sorted (map_assign k v m)"
  by (auto simp: map_assign_eq_filter map_sorted_append map_sorted_filter)

lemma map_sorted_erase [simp]: "map_sorted m \<Longrightarrow> map_sorted (map_erase k m)"
  by (simp add: map_erase_eq_filter map_sorted_filter)

lemma map_of_assign [simp]: "map_sorted m \<Longrightarrow> map_of (map_assign k v m) = (map_of m)(k \<mapsto> v)"
  by (auto simp: map_assign_eq_filter map_add_def fun_eq_iff
      map_of_filter_key [where P = "\<lambda>x. x < k"] map_of_filter_key [where P = "\<lambda>x. k < x"]
      split: option.splits)

lemma map_of_erase [simp]: "map_sorted m \<Longrightarrow> map_of (map_erase k m) = (map_of m)(k := None)"
  by (auto simp: map_erase_eq_filter map_of_filter_key [where P = "\<lambda>x. x \<noteq> k"] fun_eq_iff)

lemma map_rebuild: "distinct (map fst m) \<Longrightarrow> map (\<lambda>k. (k, the (map_of m k))) (map fst m) = m"
proof (induction m)
  case Nil
  then show ?case by simp
next
  case (Cons e m)
  have "map (\<lambda>k. (k, the (map_of (e # m) k))) (map fst m)
      = map (\<lambda>k. (k, the (map_of m k))) (map fst m)"
    using Cons.prems by (cases e) (auto simp: image_iff)
  with Cons show ?case by (cases e) simp
qed

lemma map_sorted_eqI:
  assumes "map_sorted m" and "map_sorted m'" and "map_of m = map_of m'"
  shows "m = m'"
proof -
  have "set (map fst m) = set (map fst m')"
    using assms(3) by (metis dom_map_of_conv_image_fst list.set_map)
  then have "map fst m = map fst m'"
    using assms(1,2) by (metis map_sorted_def strict_sorted_equal)
  then show ?thesis
    using map_rebuild [of m] map_rebuild [of m'] assms by (metis map_sorted_distinct)
qed

lemma map_erase_absent: "map_sorted m \<Longrightarrow> map_of m k = None \<Longrightarrow> map_erase k m = m"
  by (auto simp: map_erase_eq_filter filter_id_conv map_of_eq_None_iff)

section \<open>The interface of a keyed store\<close>

text \<open>
  What every client of a map relies on: the effect of assignment and erasure on lookups, and that
  both keep the representation invariant.
\<close>

locale keyed_store =
  fixes find :: "'m \<Rightarrow> 'k \<Rightarrow> 'v option"
    and assign :: "'k \<Rightarrow> 'v \<Rightarrow> 'm \<Rightarrow> 'm"
    and erase :: "'k \<Rightarrow> 'm \<Rightarrow> 'm"
    and inv :: "'m \<Rightarrow> bool"
  assumes find_assign: "inv m \<Longrightarrow> find (assign k v m) = (find m)(k \<mapsto> v)"
    and find_erase: "inv m \<Longrightarrow> find (erase k m) = (find m)(k := None)"
    and inv_assign: "inv m \<Longrightarrow> inv (assign k v m)"
    and inv_erase: "inv m \<Longrightarrow> inv (erase k m)"
begin

lemma find_assign_same: "inv m \<Longrightarrow> find (assign k v m) k = Some v"
  by (simp add: find_assign)

lemma find_assign_other: "inv m \<Longrightarrow> j \<noteq> k \<Longrightarrow> find (assign k v m) j = find m j"
  by (simp add: find_assign)

lemma find_erase_same: "inv m \<Longrightarrow> find (erase k m) k = None"
  by (simp add: find_erase)

lemma find_erase_other: "inv m \<Longrightarrow> j \<noteq> k \<Longrightarrow> find (erase k m) j = find m j"
  by (simp add: find_erase)

text \<open>A batch of assignments: the last value for a key wins.\<close>

lemma inv_fold_assign: "inv m \<Longrightarrow> inv (fold (\<lambda>(k, v). assign k v) kvs m)"
  by (induction kvs arbitrary: m) (auto simp: inv_assign)

lemma find_fold_assign:
  "inv m \<Longrightarrow> find (fold (\<lambda>(k, v). assign k v) kvs m) = find m ++ map_of (rev kvs)"
  by (induction kvs arbitrary: m) (auto simp: inv_assign find_assign map_add_upd_left dom_def)

end

interpretation smap: keyed_store map_of map_assign map_erase map_sorted
  by unfold_locales simp_all

section \<open>Heterogeneous probes\<close>

text \<open>
  \<open>std::map::equal_range\<close> requires that the comparisons partition the sequence: what lies before
  the probe is closed downwards, what lies after it upwards, and nothing is both. Under that
  contract the range consists of exactly the nodes that are neither before nor after.
\<close>

locale range_probe =
  fixes before after :: "'k::linorder \<Rightarrow> bool"
  assumes before_down: "before y \<Longrightarrow> x < y \<Longrightarrow> before x"
    and after_up: "after x \<Longrightarrow> x < y \<Longrightarrow> after y"
    and before_not_after: "before x \<Longrightarrow> \<not> after x"
begin

abbreviation hit :: "'k \<Rightarrow> bool" where
  "hit k \<equiv> \<not> before k \<and> \<not> after k"

lemma range_eq_filter:
  assumes "map_sorted m"
  shows "equal_range before after m =
    (filter (\<lambda>e. before (fst e)) m, filter (\<lambda>e. hit (fst e)) m, filter (\<lambda>e. after (fst e)) m)"
proof -
  let ?rear = "filter (\<lambda>e. \<not> before (fst e)) m"
  have s: "map_sorted ?rear" using assms by (rule map_sorted_filter)
  have "takeWhile (\<lambda>e. \<not> after (fst e)) ?rear = filter (\<lambda>e. \<not> after (fst e)) ?rear"
    by (rule sorted_takeWhile_eq [OF s]) (use after_up in blast)
  moreover have "dropWhile (\<lambda>e. \<not> after (fst e)) ?rear = filter (\<lambda>e. \<not> \<not> after (fst e)) ?rear"
    by (rule sorted_dropWhile_eq [OF s]) (use after_up in blast)
  moreover have "filter (\<lambda>e. \<not> before (fst e) \<and> after (fst e)) m = filter (\<lambda>e. after (fst e)) m"
    using before_not_after by (metis (mono_tags, lifting))
  ultimately show ?thesis
    using assms before_down
    by (simp add: equal_range_def Let_def sorted_takeWhile_eq [where P = before]
        sorted_dropWhile_eq [where P = before] conj_commute)
qed

text \<open>Erasing the range keeps the order and removes exactly the hits.\<close>

lemma erase_range_eq_filter:
  assumes "map_sorted m"
  shows "(case equal_range before after m of (f, r, b) \<Rightarrow> f @ b) = filter (\<lambda>e. \<not> hit (fst e)) m"
proof -
  have "filter (\<lambda>e. before (fst e)) m @ filter (\<lambda>e. after (fst e)) m
      = filter (\<lambda>e. \<not> hit (fst e)) m"
    using assms
  proof (induction m)
    case Nil
    then show ?case by simp
  next
    case (Cons e m)
    have none: "after (fst e) \<Longrightarrow> filter (\<lambda>e. before (fst e)) m = []"
      using Cons.prems before_not_after before_down by (fastforce simp: filter_empty_conv)
    show ?case
      using Cons before_not_after none by (cases "after (fst e)") auto
  qed
  with assms show ?thesis by (simp add: range_eq_filter)
qed

end

section \<open>std::set\<close>

text \<open>A \<open>std::set\<close> is the strictly increasing list of its elements; \<open>insert\<close> keeps it so.\<close>

definition set_insert :: "'k::linorder \<Rightarrow> 'k list \<Rightarrow> 'k list" where
  "set_insert k s =
     (if k \<in> set s then s else takeWhile (\<lambda>x. x < k) s @ k # dropWhile (\<lambda>x. x < k) s)"

lemma set_set_insert [simp]: "set (set_insert k s) = insert k (set s)"
proof -
  have "set (takeWhile P s) \<union> set (dropWhile P s) = set s" for P
    by (metis set_append takeWhile_dropWhile_id)
  then show ?thesis by (auto simp: set_insert_def)
qed

lemma sorted_set_insert [simp]: "sorted_wrt (<) s \<Longrightarrow> sorted_wrt (<) (set_insert k s)"
proof (induction s)
  case Nil
  then show ?case by (simp add: set_insert_def)
next
  case (Cons x s)
  show ?case
  proof (cases "x < k")
    case True
    then have "set_insert k (x # s) = x # set_insert k s" by (auto simp: set_insert_def)
    with Cons True show ?thesis by auto
  next
    case False
    with Cons.prems show ?thesis by (auto simp: set_insert_def)
  qed
qed

lemma sorted_list_of_set_eq: "sorted_wrt (<) s \<Longrightarrow> sorted_list_of_set (set s) = s"
  by (metis List.finite_set sorted_list_of_set.strict_sorted_key_list_of_set
      sorted_list_of_set.set_sorted_key_list_of_set strict_sorted_equal)

end
