(* ===== verification/Path.thy ===== *)
theory Path
  imports Std_Map
begin

text \<open>
  \<^verbatim>\<open>src/utility/Path.h\<close> and \<^verbatim>\<open>Path.cpp\<close>: the key type of the object maps and the probe that
  turns a heterogeneous \<open>equal_range\<close> into a prefix search. The main result is that the two
  comparisons satisfy the contract of \<open>std::map\<close>, so that \<open>prefixSearch\<close> returns exactly the
  nodes whose name starts with the prefix.
\<close>

datatype Path = Path (path_name: string)

datatype PathPrefixProbe = PathPrefixProbe (probe_prefix: string)

instantiation Path :: linorder
begin

definition less_Path :: "Path \<Rightarrow> Path \<Rightarrow> bool" where
  "less_Path p q \<longleftrightarrow> path_name p < path_name q"

definition less_eq_Path :: "Path \<Rightarrow> Path \<Rightarrow> bool" where
  "less_eq_Path p q \<longleftrightarrow> path_name p \<le> path_name q"

instance
  by standard (auto simp: less_Path_def less_eq_Path_def path_name_def split: Path.splits)

end

text \<open>The member comparisons of \<open>Path\<close> and \<open>PathPrefixProbe\<close>.\<close>

definition Path_less_string :: "Path \<Rightarrow> string \<Rightarrow> bool" where
  "Path_less_string p other \<longleftrightarrow> path_name p < other"

definition Path_less :: "Path \<Rightarrow> Path \<Rightarrow> bool" where
  "Path_less p other \<longleftrightarrow> path_name p < path_name other"

definition Path_less_probe :: "Path \<Rightarrow> PathPrefixProbe \<Rightarrow> bool" where
  "Path_less_probe p probe \<longleftrightarrow>
     take (length (probe_prefix probe)) (path_name p) < probe_prefix probe"

definition PathPrefixProbe_less :: "PathPrefixProbe \<Rightarrow> Path \<Rightarrow> bool" where
  "PathPrefixProbe_less probe p \<longleftrightarrow>
     probe_prefix probe < take (length (probe_prefix probe)) (path_name p)"

definition prefixSearch ::
  "(Path, 'v) std_map \<Rightarrow> string
     \<Rightarrow> (Path, 'v) std_map \<times> (Path, 'v) std_map \<times> (Path, 'v) std_map" where
  "prefixSearch container pfx =
     equal_range (\<lambda>p. Path_less_probe p (PathPrefixProbe pfx))
       (\<lambda>p. PathPrefixProbe_less (PathPrefixProbe pfx) p) container"

section \<open>The probe respects the order of the map\<close>

lemma Path_less_eq: "Path_less p q \<longleftrightarrow> p < q"
  by (simp add: Path_less_def less_Path_def)

lemma take_mono_lex: "(xs :: 'a::linorder list) \<le> ys \<Longrightarrow> take n xs \<le> take n ys"
proof (induction n arbitrary: xs ys)
  case 0
  then show ?case by simp
next
  case (Suc n)
  then show ?case by (cases xs; cases ys) auto
qed

lemma take_eq_prefix: "take (length p) s = p \<longleftrightarrow> prefix p s"
  by (metis append_take_drop_id prefix_def append_eq_conv_conj)

interpretation path_probe: range_probe
  "\<lambda>q. Path_less_probe q (PathPrefixProbe p)" "\<lambda>q. PathPrefixProbe_less (PathPrefixProbe p) q" for p
proof
  fix x y :: Path
  assume "x < y"
  then have le: "take (length p) (path_name x) \<le> take (length p) (path_name y)"
    by (intro take_mono_lex) (simp add: less_Path_def)
  show "Path_less_probe x (PathPrefixProbe p)" if "Path_less_probe y (PathPrefixProbe p)"
    using that le by (simp add: Path_less_probe_def)
  show "PathPrefixProbe_less (PathPrefixProbe p) y" if "PathPrefixProbe_less (PathPrefixProbe p) x"
    using that le by (simp add: PathPrefixProbe_less_def)
qed (simp add: Path_less_probe_def PathPrefixProbe_less_def)

lemma probe_hit:
  "\<not> Path_less_probe q (PathPrefixProbe p) \<and> \<not> PathPrefixProbe_less (PathPrefixProbe p) q
     \<longleftrightarrow> prefix p (path_name q)"
  by (auto simp: Path_less_probe_def PathPrefixProbe_less_def take_eq_prefix [symmetric] not_less)

lemma prefixSearch_range:
  "map_sorted m \<Longrightarrow>
     fst (snd (prefixSearch m p)) = filter (\<lambda>e. prefix p (path_name (fst e))) m"
  by (simp add: prefixSearch_def path_probe.range_eq_filter probe_hit)

lemma prefixSearch_erase:
  "map_sorted m \<Longrightarrow>
     (case prefixSearch m p of (f, r, b) \<Rightarrow> f @ b)
       = filter (\<lambda>e. \<not> prefix p (path_name (fst e))) m"
  using path_probe.erase_range_eq_filter [of m p] by (simp add: prefixSearch_def probe_hit)

text \<open>
  The lower bound is \<open>end()\<close> exactly when every name in the map sorts before the prefix.
\<close>

lemma take_le_lex: "take n (xs :: 'a::linorder list) \<le> xs"
proof (induction n arbitrary: xs)
  case 0
  then show ?case by simp
next
  case (Suc n)
  then show ?case by (cases xs) auto
qed

lemma take_less_iff: "take (length p) q < p \<longleftrightarrow> q < (p :: 'a::linorder list)"
proof
  assume "take (length p) q < p"
  moreover have "p \<le> take (length p) q" if "p \<le> q"
    using take_mono_lex [OF that, of "length p"] by simp
  ultimately show "q < p" by (meson not_le)
next
  assume "q < p"
  moreover have "p \<le> q" if "p \<le> take (length p) q"
    using that take_le_lex [of "length p" q] by simp
  ultimately show "take (length p) q < p" by (meson not_le)
qed

lemma prefixSearch_at_end:
  assumes "map_sorted m"
  shows "(case prefixSearch m p of (f, r, b) \<Rightarrow> r @ b = []) \<longleftrightarrow>
    (\<forall>q \<in> fst ` set m. path_name q < p)"
proof -
  have "(case prefixSearch m p of (f, r, b) \<Rightarrow> r @ b = []) \<longleftrightarrow>
      (\<forall>e \<in> set m. Path_less_probe (fst e) (PathPrefixProbe p))"
    using path_probe.before_not_after
    by (auto simp: prefixSearch_def path_probe.range_eq_filter [OF assms] filter_empty_conv)
  then show ?thesis
    by (simp add: Path_less_probe_def take_less_iff)
qed

end
