(* ===== verification/Concurrent.thy ===== *)
theory Concurrent
  imports Path
begin

text \<open>
  The lock-protected containers of \<^verbatim>\<open>src/utility\<close>: \<open>ConcurrentMap\<close>, \<open>ConcurrentSet\<close> and
  \<open>ConcurrentQueue\<close>. Every method takes the object's mutex for its whole body, so each is one
  atomic step on the container's state and a concurrent execution is a sequence of such steps; the
  datatype \<open>cm_op\<close> names the steps of a map and \<open>cm_run\<close> executes a history. Values behind
  \<open>std::shared_ptr\<close> are the pointers themselves.
\<close>

section \<open>ConcurrentMap\<close>

definition ConcurrentMap_get :: "('k, 'v) std_map \<Rightarrow> 'k \<Rightarrow> 'v option" where
  "ConcurrentMap_get m key = (case map_of m key of Some v \<Rightarrow> Some v | None \<Rightarrow> None)"

definition ConcurrentMap_insertOrExists ::
  "'k::linorder \<Rightarrow> 'v \<Rightarrow> ('k, 'v) std_map \<Rightarrow> 'v \<times> ('k, 'v) std_map" where
  "ConcurrentMap_insertOrExists key value m =
     (case map_of m key of None \<Rightarrow> (value, map_assign key value m) | Some v \<Rightarrow> (v, m))"

definition ConcurrentMap_insertOrReplace ::
  "'k::linorder \<Rightarrow> 'v \<Rightarrow> ('k, 'v) std_map \<Rightarrow> ('k, 'v) std_map" where
  "ConcurrentMap_insertOrReplace key value m = map_assign key value m"

definition ConcurrentMap_remove ::
  "'k::linorder \<Rightarrow> ('k, 'v) std_map \<Rightarrow> bool \<times> ('k, 'v) std_map" where
  "ConcurrentMap_remove key m =
     (case map_of m key of None \<Rightarrow> (False, m) | Some _ \<Rightarrow> (True, map_erase key m))"

definition ConcurrentMap_size :: "('k, 'v) std_map \<Rightarrow> nat" where
  "ConcurrentMap_size m = length m"

definition ConcurrentMap_clear :: "('k, 'v) std_map \<Rightarrow> ('k, 'v) std_map" where
  "ConcurrentMap_clear m = []"

definition ConcurrentMap_getAndRemove ::
  "'k::linorder \<Rightarrow> ('k, 'v) std_map \<Rightarrow> 'v option \<times> ('k, 'v) std_map" where
  "ConcurrentMap_getAndRemove key m =
     (case map_of m key of None \<Rightarrow> (None, m) | Some v \<Rightarrow> (Some v, map_erase key m))"

definition ConcurrentMap_exists :: "('k, 'v) std_map \<Rightarrow> 'k \<Rightarrow> bool" where
  "ConcurrentMap_exists m key \<longleftrightarrow> map_of m key \<noteq> None"

text \<open>\<open>removeRange\<close> erases the probe's range unless its lower bound is \<open>end()\<close>.\<close>

definition ConcurrentMap_removeRange ::
  "('k \<Rightarrow> bool) \<Rightarrow> ('k \<Rightarrow> bool) \<Rightarrow> ('k, 'v) std_map \<Rightarrow> ('k, 'v) std_map" where
  "ConcurrentMap_removeRange before after m =
     (case equal_range before after m of (f, r, b) \<Rightarrow> if r @ b \<noteq> [] then f @ b else m)"

text \<open>
  The selector of the filtering \<open>remove\<close> receives the value by reference: it answers whether to
  erase the node and leaves a possibly changed value behind.
\<close>

definition ConcurrentMap_remove_selector ::
  "('k \<Rightarrow> 'v \<Rightarrow> bool \<times> 'v) \<Rightarrow> ('k, 'v) std_map \<Rightarrow> ('k, 'v) std_map" where
  "ConcurrentMap_remove_selector selector m =
     concat (map (\<lambda>(k, v). case selector k v of (del, v') \<Rightarrow> if del then [] else [(k, v')]) m)"

definition ConcurrentMap_removeIf ::
  "'k::linorder \<Rightarrow> ('v \<Rightarrow> bool) \<Rightarrow> ('k, 'v) std_map \<Rightarrow> bool \<times> ('k, 'v) std_map" where
  "ConcurrentMap_removeIf key selector m =
     (case map_of m key of
        None \<Rightarrow> (False, m)
      | Some v \<Rightarrow> if selector v then (True, map_erase key m) else (False, m))"

text \<open>\<open>forall\<close> runs an action with effects on some state, on copies of the nodes in key order.\<close>

definition ConcurrentMap_forall :: "('v \<Rightarrow> 's \<Rightarrow> 's) \<Rightarrow> ('k, 'v) std_map \<Rightarrow> 's \<Rightarrow> 's" where
  "ConcurrentMap_forall action m s = fold (\<lambda>(k, v). action v) m s"

definition ConcurrentMap_forall_items ::
  "('k \<Rightarrow> 'v \<Rightarrow> 's \<Rightarrow> 's) \<Rightarrow> ('k, 'v) std_map \<Rightarrow> 's \<Rightarrow> 's" where
  "ConcurrentMap_forall_items action m s = fold (\<lambda>(k, v). action k v) m s"

lemmas ConcurrentMap_defs [handler_defs] =
  ConcurrentMap_get_def ConcurrentMap_insertOrExists_def ConcurrentMap_insertOrReplace_def
  ConcurrentMap_remove_def ConcurrentMap_clear_def ConcurrentMap_getAndRemove_def
  ConcurrentMap_exists_def ConcurrentMap_removeIf_def

lemma ConcurrentMap_sorted:
  assumes "map_sorted m"
  shows "map_sorted (snd (ConcurrentMap_insertOrExists k v m))"
    and "map_sorted (ConcurrentMap_insertOrReplace k v m)"
    and "map_sorted (snd (ConcurrentMap_remove k m))"
    and "map_sorted (ConcurrentMap_clear m)"
    and "map_sorted (snd (ConcurrentMap_getAndRemove k m))"
    and "map_sorted (snd (ConcurrentMap_removeIf k sel m))"
  using assms by (auto simp: handler_defs split: option.splits)

lemma ConcurrentMap_remove_selector_sorted:
  "map_sorted m \<Longrightarrow> map_sorted (ConcurrentMap_remove_selector sel m)"
proof (induction m)
  case Nil
  then show ?case by (simp add: ConcurrentMap_remove_selector_def)
next
  case (Cons e m)
  moreover have "fst ` set (ConcurrentMap_remove_selector sel m) \<subseteq> fst ` set m"
    by (force simp: ConcurrentMap_remove_selector_def split: prod.splits if_splits)
  ultimately show ?case
    by (cases e) (force simp: ConcurrentMap_remove_selector_def split: prod.splits)
qed

lemma ConcurrentMap_removeRange_prefix:
  assumes "map_sorted m"
  shows "ConcurrentMap_removeRange (\<lambda>q. Path_less_probe q (PathPrefixProbe p))
      (\<lambda>q. PathPrefixProbe_less (PathPrefixProbe p) q) m
    = filter (\<lambda>e. \<not> prefix p (path_name (fst e))) m"
proof -
  obtain f r b where s: "prefixSearch m p = (f, r, b)" by (metis surj_pair)
  have fb: "f @ b = filter (\<lambda>e. \<not> prefix p (path_name (fst e))) m"
    using prefixSearch_erase [OF assms, of p] s by simp
  have "m = f @ r @ b"
    using s by (auto simp: prefixSearch_def equal_range_def Let_def)
  then show ?thesis
    using s fb by (auto simp: ConcurrentMap_removeRange_def prefixSearch_def)
qed

section \<open>Histories of a concurrent map\<close>

datatype ('k, 'v) cm_op =
    Get 'k | InsertOrExists 'k 'v | InsertOrReplace 'k 'v | Remove 'k | GetAndRemove 'k
  | Exists 'k | RemoveIf 'k "'v \<Rightarrow> bool" | Clear | Size
  | RemoveRange "'k \<Rightarrow> bool" "'k \<Rightarrow> bool" | RemoveSelected "'k \<Rightarrow> 'v \<Rightarrow> bool \<times> 'v"
  | ForAll | ForAllItems

text \<open>A \<open>forall\<close> answers with what its action received, in the order of the calls.\<close>

datatype ('k, 'v) cm_result =
    Value 'v | Optional "'v option" | Flag bool | Unit | Count nat | Values "'v list"
  | Items "('k \<times> 'v) list"

fun cm_step :: "('k::linorder, 'v) cm_op \<Rightarrow> ('k, 'v) std_map
    \<Rightarrow> ('k, 'v) cm_result \<times> ('k, 'v) std_map" where
  "cm_step (Get k) m = (Optional (ConcurrentMap_get m k), m)"
| "cm_step (InsertOrExists k v) m = apfst Value (ConcurrentMap_insertOrExists k v m)"
| "cm_step (InsertOrReplace k v) m = (Unit, ConcurrentMap_insertOrReplace k v m)"
| "cm_step (Remove k) m = apfst Flag (ConcurrentMap_remove k m)"
| "cm_step (GetAndRemove k) m = apfst Optional (ConcurrentMap_getAndRemove k m)"
| "cm_step (Exists k) m = (Flag (ConcurrentMap_exists m k), m)"
| "cm_step (RemoveIf k sel) m = apfst Flag (ConcurrentMap_removeIf k sel m)"
| "cm_step Clear m = (Unit, ConcurrentMap_clear m)"
| "cm_step Size m = (Count (ConcurrentMap_size m), m)"
| "cm_step (RemoveRange before after) m = (Unit, ConcurrentMap_removeRange before after m)"
| "cm_step (RemoveSelected sel) m = (Unit, ConcurrentMap_remove_selector sel m)"
| "cm_step ForAll m = (Values (ConcurrentMap_forall (\<lambda>v vs. vs @ [v]) m []), m)"
| "cm_step ForAllItems m = (Items (ConcurrentMap_forall_items (\<lambda>k v vs. vs @ [(k, v)]) m []), m)"

text \<open>
  What \<open>std::map::equal_range\<close> requires of a probe: its comparisons partition the order of the keys.
\<close>

fun cm_probe_ok :: "('k::linorder, 'v) cm_op \<Rightarrow> bool" where
  "cm_probe_ok (RemoveRange before after) \<longleftrightarrow> range_probe before after"
| "cm_probe_ok _ \<longleftrightarrow> True"

fun cm_run :: "('k::linorder, 'v) cm_op list \<Rightarrow> ('k, 'v) std_map
    \<Rightarrow> ('k, 'v) cm_result list \<times> ('k, 'v) std_map" where
  "cm_run [] m = ([], m)"
| "cm_run (x # xs) m =
     (fst (cm_step x m) # fst (cm_run xs (snd (cm_step x m))), snd (cm_run xs (snd (cm_step x m))))"

text \<open>Whether a step may unbind or rebind a key.\<close>

fun cm_disturbs :: "'k \<Rightarrow> ('k, 'v) cm_op \<Rightarrow> bool" where
  "cm_disturbs k (InsertOrReplace j _) = (j = k)"
| "cm_disturbs k (Remove j) = (j = k)"
| "cm_disturbs k (GetAndRemove j) = (j = k)"
| "cm_disturbs k (RemoveIf j _) = (j = k)"
| "cm_disturbs k Clear = True"
| "cm_disturbs k (RemoveRange before after) = (\<not> before k \<and> \<not> after k)"
| "cm_disturbs k (RemoveSelected sel) = (\<exists>v. sel k v \<noteq> (False, v))"
| "cm_disturbs k _ = False"

lemma removeRange_filter:
  assumes "map_sorted m" "range_probe before after"
  shows "ConcurrentMap_removeRange before after m =
    filter (\<lambda>e. before (fst e) \<or> after (fst e)) m"
proof -
  obtain f r b where e: "equal_range before after m = (f, r, b)" by (metis surj_pair)
  have m: "m = f @ r @ b" using e by (auto simp: equal_range_def Let_def)
  have "f @ b = filter (\<lambda>e. before (fst e) \<or> after (fst e)) m"
    using range_probe.erase_range_eq_filter [OF assms(2,1)] e by simp
  with e m show ?thesis by (auto simp: ConcurrentMap_removeRange_def)
qed

lemma map_of_remove_selector:
  "map_sorted m \<Longrightarrow> map_of (ConcurrentMap_remove_selector sel m) k =
     (case map_of m k of None \<Rightarrow> None
      | Some v \<Rightarrow> if fst (sel k v) then None else Some (snd (sel k v)))"
proof (induction m)
  case Nil
  then show ?case by (simp add: ConcurrentMap_remove_selector_def)
next
  case (Cons e m)
  then have "map_of m (fst e) = None" by (auto simp: map_of_eq_None_iff)
  with Cons show ?case
    by (cases e) (auto simp: ConcurrentMap_remove_selector_def case_prod_unfold split: option.splits)
qed

lemma forall_visits:
  "ConcurrentMap_forall (\<lambda>v vs. vs @ [v]) m vs = vs @ map snd m"
  "ConcurrentMap_forall_items (\<lambda>k v vs. vs @ [(k, v)]) m es = es @ m"
  by (induction m arbitrary: vs es)
    (auto simp: ConcurrentMap_forall_def ConcurrentMap_forall_items_def)

lemma cm_step_sorted: "map_sorted m \<Longrightarrow> cm_probe_ok x \<Longrightarrow> map_sorted (snd (cm_step x m))"
  by (cases x) (simp_all add: ConcurrentMap_sorted ConcurrentMap_remove_selector_sorted
      removeRange_filter map_sorted_filter)

lemma cm_step_keeps:
  "map_sorted m \<Longrightarrow> cm_probe_ok x \<Longrightarrow> \<not> cm_disturbs k x \<Longrightarrow> map_of m k = Some v \<Longrightarrow>
     map_of (snd (cm_step x m)) k = Some v"
  by (cases x) (auto simp: handler_defs map_of_remove_selector removeRange_filter
      map_of_filter_key [where P = "\<lambda>k. _ k \<or> _ k"] split: option.splits)

lemma cm_run_keeps:
  "map_sorted m \<Longrightarrow> \<forall>x \<in> set xs. cm_probe_ok x \<and> \<not> cm_disturbs k x \<Longrightarrow> map_of m k = Some v \<Longrightarrow>
     map_of (snd (cm_run xs m)) k = Some v"
proof (induction xs arbitrary: m)
  case Nil
  then show ?case by simp
next
  case (Cons x xs)
  then show ?case
    using cm_step_keeps [of m x k v] cm_step_sorted [of m x] by simp
qed

lemma cm_run_append:
  "cm_run (xs @ ys) m =
     (fst (cm_run xs m) @ fst (cm_run ys (snd (cm_run xs m))), snd (cm_run ys (snd (cm_run xs m))))"
  by (induction xs arbitrary: m) auto

lemma cm_run_sorted:
  "map_sorted m \<Longrightarrow> \<forall>x \<in> set xs. cm_probe_ok x \<Longrightarrow> map_sorted (snd (cm_run xs m))"
  by (induction xs arbitrary: m) (auto dest: cm_step_sorted)

text \<open>
  The abstract specification: the same history on a partial function. The association list never
  shows: results and contents agree.
\<close>

fun spec_step :: "('k::linorder, 'v) cm_op \<Rightarrow> ('k \<rightharpoonup> 'v) \<Rightarrow> ('k, 'v) cm_result \<times> ('k \<rightharpoonup> 'v)" where
  "spec_step (Get k) f = (Optional (f k), f)"
| "spec_step (InsertOrExists k v) f =
     (case f k of None \<Rightarrow> (Value v, f(k \<mapsto> v)) | Some w \<Rightarrow> (Value w, f))"
| "spec_step (InsertOrReplace k v) f = (Unit, f(k \<mapsto> v))"
| "spec_step (Remove k) f = (Flag (f k \<noteq> None), f(k := None))"
| "spec_step (GetAndRemove k) f = (Optional (f k), f(k := None))"
| "spec_step (Exists k) f = (Flag (f k \<noteq> None), f)"
| "spec_step (RemoveIf k sel) f =
     (let b = (\<exists>v. f k = Some v \<and> sel v) in (Flag b, if b then f(k := None) else f))"
| "spec_step Clear f = (Unit, Map.empty)"
| "spec_step Size f = (Count (card (dom f)), f)"
| "spec_step (RemoveRange before after) f = (Unit, \<lambda>k. if before k \<or> after k then f k else None)"
| "spec_step (RemoveSelected sel) f =
     (Unit, \<lambda>k. case f k of None \<Rightarrow> None
        | Some v \<Rightarrow> if fst (sel k v) then None else Some (snd (sel k v)))"
| "spec_step ForAll f = (Values (map (\<lambda>k. the (f k)) (sorted_list_of_set (dom f))), f)"
| "spec_step ForAllItems f = (Items (map (\<lambda>k. (k, the (f k))) (sorted_list_of_set (dom f))), f)"

fun spec_run :: "('k::linorder, 'v) cm_op list \<Rightarrow> ('k \<rightharpoonup> 'v)
    \<Rightarrow> ('k, 'v) cm_result list \<times> ('k \<rightharpoonup> 'v)" where
  "spec_run [] f = ([], f)"
| "spec_run (x # xs) f =
     (fst (spec_step x f) # fst (spec_run xs (snd (spec_step x f))),
      snd (spec_run xs (snd (spec_step x f))))"

lemma sorted_keys:
  "map_sorted m \<Longrightarrow> sorted_list_of_set (dom (map_of m)) = map fst m"
  by (metis dom_map_of_conv_image_fst list.set_map map_sorted_def sorted_list_of_set.idem_if_sorted_distinct
      strict_sorted_iff)

lemma card_keys: "map_sorted m \<Longrightarrow> card (dom (map_of m)) = length m"
  by (metis length_map length_sorted_list_of_set sorted_keys)

lemma map_the_values: "map_sorted m \<Longrightarrow> map (\<lambda>k. the (map_of m k)) (map fst m) = map snd m"
  using arg_cong [OF map_rebuild [OF map_sorted_distinct], of m "map snd"] by (simp add: comp_def)

lemma cm_step_refines:
  assumes "map_sorted m" "cm_probe_ok x"
  shows "fst (spec_step x (map_of m)) = fst (cm_step x m)"
    and "snd (spec_step x (map_of m)) = map_of (snd (cm_step x m))"
proof -
  show "fst (spec_step x (map_of m)) = fst (cm_step x m)"
    using assms map_rebuild [OF map_sorted_distinct [OF assms(1)]] map_the_values [OF assms(1)]
    by (cases x)
      (auto simp: handler_defs Let_def sorted_keys card_keys ConcurrentMap_size_def forall_visits
        simp del: map_map split: option.splits)
  show "snd (spec_step x (map_of m)) = map_of (snd (cm_step x m))"
    using assms
    by (cases x)
      (auto simp: handler_defs Let_def map_of_remove_selector removeRange_filter fun_eq_iff
        map_of_filter_key [where P = "\<lambda>k. _ k \<or> _ k"] split: option.splits)
qed

text \<open>
  C12. Refinement of \<open>ConcurrentMap\<close>: for every interleaving of atomic calls of its methods,
  \<open>removeRange\<close>, the filtering \<open>remove\<close>, \<open>size\<close> and the two \<open>forall\<close> included, the sorted association
  list returns the same results as a partial function, and ends with the same contents. \<open>size\<close> is
  the number of bound keys, a \<open>forall\<close> visits them in increasing order, \<open>removeRange\<close> unbinds exactly
  the keys that lie neither before nor after the probe. The probes satisfy the requirement of
  \<open>std::map::equal_range\<close>; selectors and predicates are functions of what they receive.
\<close>

theorem cm_run_refines:
  assumes "map_sorted m" "\<forall>x \<in> set xs. cm_probe_ok x"
  shows "apsnd map_of (cm_run xs m) = spec_run xs (map_of m)"
  using assms
proof (induction xs arbitrary: m)
  case Nil
  then show ?case by simp
next
  case (Cons x xs)
  then have x: "cm_probe_ok x" by simp
  have "map_sorted (snd (cm_step x m))" using Cons.prems(1) x by (rule cm_step_sorted)
  from Cons.IH [OF this] cm_step_refines [OF Cons.prems(1) x] Cons.prems(2) show ?case
    by (cases "cm_run xs (snd (cm_step x m))") (simp, metis fst_conv snd_conv)
qed

theorem cm_run_refines_witness:
  "map_sorted [(1::nat, ''a'')] \<and>
   apsnd map_of (cm_run [InsertOrExists 1 ''b'', InsertOrReplace 3 ''c'', RemoveRange (\<lambda>k. k < 1) (\<lambda>k. 1 < k),
       Size, ForAll, RemoveSelected (\<lambda>k v. (k = 3, v)), Get 3] [(1::nat, ''a'')]) =
     ([Value ''a'', Unit, Unit, Count 1, Values [''c''], Unit, Optional None], Map.empty)"
proof -
  let ?xs = "[InsertOrExists 1 ''b'', InsertOrReplace 3 ''c'', RemoveRange (\<lambda>k. k < 1) (\<lambda>k. 1 < k),
    Size, ForAll, RemoveSelected (\<lambda>k v. (k = 3, v)), Get 3] :: (nat, string) cm_op list"
  have s: "map_sorted [(1::nat, ''a'')]" and p: "\<forall>x \<in> set ?xs. cm_probe_ok x"
    by (simp_all add: range_probe_def)
  have "apsnd map_of (cm_run ?xs [(1, ''a'')]) = spec_run ?xs (map_of [(1, ''a'')])"
    by (rule cm_run_refines [OF s p])
  moreover have "fst (cm_run ?xs [(1, ''a'')]) =
      [Value ''a'', Unit, Unit, Count 1, Values [''c''], Unit, Optional None]"
    "snd (cm_run ?xs [(1, ''a'')]) = []"
    by (simp_all add: handler_defs ConcurrentMap_size_def forall_visits ConcurrentMap_removeRange_def
        equal_range_def ConcurrentMap_remove_selector_def map_assign_def)
  ultimately show ?thesis using s by (simp add: prod_eq_iff)
qed

text \<open>
  Agreement: in any history in which no step unbinds or rebinds key \<open>k\<close>, all callers of
  \<open>insertOrExists\<close> for \<open>k\<close> receive the same value, the one that was inserted first.
\<close>

theorem insertOrExists_agreement:
  assumes "map_sorted m"
    and "\<forall>x \<in> set ys. cm_probe_ok x \<and> \<not> cm_disturbs k x"
  shows "\<exists>w. fst (cm_step (InsertOrExists k u) m) = Value w \<and>
    fst (cm_step (InsertOrExists k v) (snd (cm_run (InsertOrExists k u # ys) m))) = Value w \<and>
    (map_of m k = None \<longrightarrow> w = u)"
proof -
  let ?m = "snd (cm_step (InsertOrExists k u) m)"
  obtain w where w: "fst (cm_step (InsertOrExists k u) m) = Value w" "map_of ?m k = Some w"
    "map_of m k = None \<longrightarrow> w = u"
    using assms(1) by (cases "map_of m k") (auto simp: handler_defs)
  have "map_sorted ?m" using assms(1) by (rule cm_step_sorted) simp
  then have "map_of (snd (cm_run ys ?m)) k = Some w"
    using assms(2) w(2) by (rule cm_run_keeps)
  then have "fst (cm_step (InsertOrExists k v) (snd (cm_run (InsertOrExists k u # ys) m))) = Value w"
    by (simp add: ConcurrentMap_insertOrExists_def del: cm_run.simps(1))
  with w show ?thesis by (intro exI [of _ w] conjI)
qed

theorem insertOrExists_agreement_witness:
  "map_sorted ([] :: (nat \<times> string) list) \<and>
   (\<exists>w. fst (cm_step (InsertOrExists 7 ''x'') ([] :: (nat \<times> string) list)) = Value w \<and>
      fst (cm_step (InsertOrExists (7::nat) ''y'')
        (snd (cm_run (InsertOrExists 7 ''x'' # [Get 7, InsertOrReplace 8 ''z'']) []))) = Value w \<and>
      (map_of ([] :: (nat \<times> string) list) 7 = None \<longrightarrow> w = ''x''))"
  by (rule conjI [OF _ insertOrExists_agreement]) simp_all

section \<open>ConcurrentSet\<close>

definition ConcurrentSet_exists :: "'k::linorder list \<Rightarrow> 'k \<Rightarrow> bool" where
  "ConcurrentSet_exists s key \<longleftrightarrow> key \<in> set s"

definition ConcurrentSet_insert :: "'k::linorder \<Rightarrow> 'k list \<Rightarrow> 'k list" where
  "ConcurrentSet_insert key s = set_insert key s"

definition ConcurrentSet_remove :: "'k::linorder \<Rightarrow> 'k list \<Rightarrow> 'k list" where
  "ConcurrentSet_remove key s = filter (\<lambda>x. x \<noteq> key) s"

lemma set_ConcurrentSet_insert [simp]: "set (ConcurrentSet_insert k s) = insert k (set s)"
  by (simp add: ConcurrentSet_insert_def)

lemma set_ConcurrentSet_remove [simp]: "set (ConcurrentSet_remove k s) = set s - {k}"
  by (auto simp: ConcurrentSet_remove_def)

lemma ConcurrentSet_exists_iff [simp]: "ConcurrentSet_exists s k \<longleftrightarrow> k \<in> set s"
  by (simp add: ConcurrentSet_exists_def)

section \<open>ConcurrentQueue\<close>

text \<open>The front of the queue is the head of the list.\<close>

definition ConcurrentQueue_front :: "'a list \<Rightarrow> 'a option" where
  "ConcurrentQueue_front q = (case q of [] \<Rightarrow> None | x # _ \<Rightarrow> Some x)"

definition ConcurrentQueue_pop :: "'a list \<Rightarrow> 'a option \<times> 'a list" where
  "ConcurrentQueue_pop q = (case q of [] \<Rightarrow> (None, q) | x # xs \<Rightarrow> (Some x, xs))"

definition ConcurrentQueue_empty :: "'a list \<Rightarrow> bool" where
  "ConcurrentQueue_empty q \<longleftrightarrow> q = []"

definition ConcurrentQueue_push :: "'a \<Rightarrow> 'a list \<Rightarrow> 'a list" where
  "ConcurrentQueue_push k q = q @ [k]"

definition ConcurrentQueue_emplace :: "'a \<Rightarrow> 'a list \<Rightarrow> 'a list" where
  "ConcurrentQueue_emplace k q = q @ [k]"

text \<open>
  \<open>pop_wait_until_available\<close> polls the queue. Between two polls other threads change it; the
  changes are an argument, one list of pushed elements per waiting period. \<^const>\<open>None\<close> means
  that the caller is still waiting when the given periods are over.
\<close>

fun ConcurrentQueue_pop_wait :: "'a list list \<Rightarrow> 'a list \<Rightarrow> ('a \<times> 'a list) option" where
  "ConcurrentQueue_pop_wait periods q =
     (case ConcurrentQueue_pop q of
        (Some x, q') \<Rightarrow> Some (x, q')
      | (None, q') \<Rightarrow> (case periods of
            [] \<Rightarrow> None
          | pushed # rest \<Rightarrow> ConcurrentQueue_pop_wait rest (fold ConcurrentQueue_push pushed q')))"

text \<open>The interface of a queue, over the list of its elements.\<close>

locale fifo_queue =
  fixes contents :: "'q \<Rightarrow> 'a list"
    and enqueue :: "'a \<Rightarrow> 'q \<Rightarrow> 'q"
    and dequeue :: "'q \<Rightarrow> 'a option \<times> 'q"
  assumes contents_enqueue: "contents (enqueue x q) = contents q @ [x]"
    and dequeue_empty: "contents q = [] \<Longrightarrow> fst (dequeue q) = None"
    and dequeue_front: "contents q \<noteq> [] \<Longrightarrow> fst (dequeue q) = Some (hd (contents q))"
    and contents_dequeue: "contents (snd (dequeue q)) = tl (contents q)"
begin

text \<open>A history of pushes (\<open>Some x\<close>) and pops (\<open>None\<close>), with what the pops returned.\<close>

fun run :: "'a option list \<Rightarrow> 'q \<Rightarrow> 'a list \<times> 'q" where
  "run [] q = ([], q)"
| "run (Some x # ops) q = run ops (enqueue x q)"
| "run (None # ops) q =
     (case run ops (snd (dequeue q)) of (out, q') \<Rightarrow>
        ((case fst (dequeue q) of None \<Rightarrow> out | Some x \<Rightarrow> x # out), q'))"

lemma run_conserves:
  "fst (run ops q) @ contents (snd (run ops q)) = contents q @ List.map_filter id ops"
proof (induction ops q rule: run.induct)
  case (1 q)
  then show ?case by simp
next
  case (2 x ops q)
  then show ?case by (simp add: contents_enqueue)
next
  case (3 ops q)
  then show ?case
    by (cases "contents q")
      (auto simp: dequeue_empty dequeue_front contents_dequeue split: prod.splits)
qed

end

interpretation cqueue: fifo_queue "\<lambda>q. q" ConcurrentQueue_push ConcurrentQueue_pop
  by unfold_locales
    (auto simp: ConcurrentQueue_push_def ConcurrentQueue_pop_def split: list.splits)

text \<open>
  A waiting pop returns the oldest element, waits only while the queue is empty, and loses nothing
  that was pushed meanwhile.
\<close>

declare ConcurrentQueue_pop_wait.simps [simp del]

lemma fold_push [simp]: "fold ConcurrentQueue_push xs q = q @ xs"
  by (induction xs arbitrary: q) (simp_all add: ConcurrentQueue_push_def)

lemma pop_wait_Cons [simp]: "ConcurrentQueue_pop_wait ps (x # q) = Some (x, q)"
  by (simp add: ConcurrentQueue_pop_wait.simps [of ps] ConcurrentQueue_pop_def)

lemma pop_wait_Nil [simp]:
  "ConcurrentQueue_pop_wait [] [] = None"
  "ConcurrentQueue_pop_wait (p # ps) [] = ConcurrentQueue_pop_wait ps p"
  by (simp_all add: ConcurrentQueue_pop_wait.simps [of "[]"]
      ConcurrentQueue_pop_wait.simps [of "p # ps"] ConcurrentQueue_pop_def)

lemma pop_wait_None_iff:
  "ConcurrentQueue_pop_wait ps q = None \<longleftrightarrow> q = [] \<and> (\<forall>p \<in> set ps. p = [])"
proof (induction ps arbitrary: q)
  case Nil
  then show ?case by (cases q) simp_all
next
  case (Cons p ps)
  then show ?case by (cases q) auto
qed

lemma pop_wait_front:
  "ConcurrentQueue_pop_wait ps q = Some (x, q') \<Longrightarrow> \<exists>n. x # q' = q @ concat (take n ps)"
proof (induction ps arbitrary: q)
  case Nil
  then show ?case by (cases q) auto
next
  case (Cons p ps)
  show ?case
  proof (cases q)
    case Nil
    with Cons.prems have "ConcurrentQueue_pop_wait ps p = Some (x, q')" by simp
    from Cons.IH [OF this] obtain n where "x # q' = p @ concat (take n ps)" by blast
    with Nil show ?thesis by (intro exI [of _ "Suc n"]) simp
  next
    case (Cons y ys)
    with Cons.prems show ?thesis by (intro exI [of _ 0]) simp
  qed
qed

text \<open>A history of pushes (\<open>Some x\<close>) and pops (\<open>None\<close>) on the queue of the code.\<close>

fun cq_run :: "'a option list \<Rightarrow> 'a list \<Rightarrow> 'a list \<times> 'a list" where
  "cq_run [] q = ([], q)"
| "cq_run (Some x # ops) q = cq_run ops (ConcurrentQueue_push x q)"
| "cq_run (None # ops) q =
     (case ConcurrentQueue_pop q of (r, q') \<Rightarrow> case cq_run ops q' of (out, q'') \<Rightarrow>
        ((case r of None \<Rightarrow> out | Some x \<Rightarrow> x # out), q''))"

lemma cq_run_eq: "cq_run ops q = cqueue.run ops q"
  by (induction ops q rule: cq_run.induct) (auto split: prod.splits)

text \<open>
  FIFO conservation of \<open>ConcurrentQueue\<close>: over any history of pushes and pops, the elements
  popped so far followed by the elements still queued are the initial elements followed by the pushed
  ones, in order; nothing is lost, duplicated or reordered.
\<close>

theorem ConcurrentQueue_fifo:
  "fst (cq_run ops q) @ snd (cq_run ops q) = q @ List.map_filter id ops"
  unfolding cq_run_eq by (rule cqueue.run_conserves)

end
