(* ===== verification/Objects.thy ===== *)
theory Objects
  imports Absl_Status Std_Map
begin

text \<open>
  The plain data of the system: \<^verbatim>\<open>src/protos/Object.h\<close>, \<^verbatim>\<open>ObjectStoreConfig.h\<close> and
  \<^verbatim>\<open>PubSub.h\<close>, and the directory marker of \<^verbatim>\<open>src/common\<close>. Equality of records is the
  member-wise \<open>operator==\<close> of the sources.
\<close>

record ObjectInfo =
  info_location :: string
  info_size :: u64
  info_sealedOffset :: u64
  info_metadata :: "string option"

record ObjectID =
  id_bucket :: string
  id_key :: string

record Object =
  obj_id :: ObjectID
  obj_info :: ObjectInfo

record ObjectStoreConfig =
  cfg_bucket :: string
  cfg_endpointURL :: string
  cfg_accessKey :: string
  cfg_secretKey :: string

datatype SubscriptionType = NO_SUBSCRIPTION | SUB_BUCKET | SUB_OBJECT | SUB_PREFIX

record SubscriptionEvent =
  ev_subscriber_id :: string
  ev_bucket :: string
  ev_key :: string
  ev_subscriptionType :: SubscriptionType

definition mk_ObjectID :: "string \<Rightarrow> string \<Rightarrow> ObjectID" where
  "mk_ObjectID b k = \<lparr>id_bucket = b, id_key = k\<rparr>"

definition mk_Object :: "string \<Rightarrow> string \<Rightarrow> ObjectInfo \<Rightarrow> Object" where
  "mk_Object b k i = \<lparr>obj_id = mk_ObjectID b k, obj_info = i\<rparr>"

definition Default_DirectoryMarker :: string where
  "Default_DirectoryMarker = ''_$folder$''"

abbreviation obj_bucket :: "Object \<Rightarrow> string" where
  "obj_bucket o' \<equiv> id_bucket (obj_id o')"

abbreviation obj_key :: "Object \<Rightarrow> string" where
  "obj_key o' \<equiv> id_key (obj_id o')"

lemma mk_ObjectID_simps [simp]:
  "id_bucket (mk_ObjectID b k) = b" "id_key (mk_ObjectID b k) = k"
  "mk_ObjectID (id_bucket i) (id_key i) = i"
  "mk_ObjectID b k = mk_ObjectID b' k' \<longleftrightarrow> b = b' \<and> k = k'"
  by (simp_all add: mk_ObjectID_def)

lemma mk_Object_simps [simp]:
  "obj_id (mk_Object b k i) = mk_ObjectID b k" "obj_info (mk_Object b k i) = i"
  "mk_Object (obj_bucket x) (obj_key x) (obj_info x) = x"
  "mk_Object b k i = mk_Object b' k' i' \<longleftrightarrow> b = b' \<and> k = k' \<and> i = i'"
  by (simp_all add: mk_Object_def mk_ObjectID_def)

end
