(* ===== verification/Object_Names.thy ===== *)
theory Object_Names
  imports Concurrent Objects Path
begin

text \<open>
  The names of objects in \<^verbatim>\<open>src/libgeds/GEDS.cpp\<close>: which bucket and key names are valid, how an object
  name is split into bucket and key and joined again, and which local file an object is stored in.
  The results are that valid names and paths determine each other, and under which condition
  different objects get different files.
\<close>

section \<open>Valid names\<close>

definition is_lower_or_digit :: "char \<Rightarrow> bool" where
  "is_lower_or_digit c \<longleftrightarrow> (CHR ''a'' \<le> c \<and> c \<le> CHR ''z'') \<or> is_digit c"

text \<open>The regular expression \<open>[a-z\d][a-z\d\.\-]+[a-z\d]\<close>, matched against the whole name.\<close>

definition bucket_regex :: "string \<Rightarrow> bool" where
  "bucket_regex s \<longleftrightarrow> 3 \<le> length s \<and> is_lower_or_digit (hd s) \<and> is_lower_or_digit (last s) \<and>
     list_all (\<lambda>c. is_lower_or_digit c \<or> c = CHR ''.'' \<or> c = CHR ''-'') (butlast (tl s))"

definition isValidBucketName :: "string \<Rightarrow> Status" where
  "isValidBucketName bucket =
     (if bucket_regex bucket then
        (if length bucket \<ge> 4 \<and> take 4 bucket = ''xn--'' then FailedPreconditionError ''Invalid bucket name.''
         else OkStatus)
      else FailedPreconditionError ''Invalid bucket name.'')"

text \<open>The third test compares one character with two, as the source does.\<close>

definition isValidKeyName :: "string \<Rightarrow> Status" where
  "isValidKeyName key =
     (if length key = 0 then FailedPreconditionError ''Zero-length keys are not allowed.''
      else if last key = CHR ''/'' then FailedPreconditionError ''Keys are not allowed to end with \"/\".''
      else if length key \<ge> 2 \<and> take 1 key = ''./''
      then FailedPreconditionError ''Keys are not allowed to start with \"./\".''
      else if length key \<ge> 3 \<and> take 3 key = ''../''
      then FailedPreconditionError ''Keys are not allowed to start with \"../\".''
      else if str_contains ''/../'' key then FailedPreconditionError ''Keys are not allowed to contain \"/../\"''
      else OkStatus)"

definition isValid_name :: "string \<Rightarrow> string \<Rightarrow> Status" where
  "isValid_name bucket key =
     (let result = isValidBucketName bucket in
      if \<not> status_ok result then result
      else let result = isValidKeyName key in if \<not> status_ok result then result else OkStatus)"

definition parseObjectName :: "string \<Rightarrow> (string \<times> string) StatusOr" where
  "parseObjectName objectName =
     (case str_find CHR ''/'' objectName of
        None \<Rightarrow> Inl (InvalidArgumentError (''cannot create file: '' @ objectName @ '' invalid format!''))
      | Some separator \<Rightarrow> Inr (take separator objectName, drop (separator + 1) objectName))"

definition getPath :: "string \<Rightarrow> string \<Rightarrow> Path" where
  "getPath bucket key = Path (bucket @ ''/'' @ key)"

definition computeHostUri :: "string \<Rightarrow> u16 \<Rightarrow> string" where
  "computeHostUri hostname port = ''geds://'' @ hostname @ '':'' @ show_nat (unat port)"

section \<open>Paths and names\<close>

lemma lower_or_digit_no_slash: "is_lower_or_digit c \<Longrightarrow> c \<noteq> CHR ''/''"
  by (auto simp: is_lower_or_digit_def is_digit_def less_eq_char_def)

lemma bucket_regex_no_slash:
  assumes "bucket_regex b"
  shows "CHR ''/'' \<notin> set b"
proof -
  obtain x m y where b: "b = x # m @ [y]"
    using assms by (cases b; cases "tl b" rule: rev_cases) (auto simp: bucket_regex_def)
  have "is_lower_or_digit x" "is_lower_or_digit y"
    "\<forall>c\<in>set m. is_lower_or_digit c \<or> c = CHR ''.'' \<or> c = CHR ''-''"
    using assms by (auto simp: bucket_regex_def b butlast_append list_all_iff)
  then show ?thesis using lower_or_digit_no_slash by (auto simp: b)
qed

lemma isValid_bucket_regex: "status_ok (isValidBucketName b) \<Longrightarrow> bucket_regex b"
  by (auto simp: isValidBucketName_def split: if_splits)

lemmas bucket_no_slash = bucket_regex_no_slash [OF isValid_bucket_regex]

lemma isValid_name_ok:
  "status_ok (isValid_name b k) \<longleftrightarrow> status_ok (isValidBucketName b) \<and> status_ok (isValidKeyName k)"
  by (simp add: isValid_name_def Let_def)

lemma parse_path:
  assumes "CHR ''/'' \<notin> set b"
  shows "parseObjectName (b @ ''/'' @ k) = Inr (b, k)"
  using str_find_append_notin [OF assms, of k] by (simp add: parseObjectName_def)

lemma getPath_inject:
  "CHR ''/'' \<notin> set b \<Longrightarrow> CHR ''/'' \<notin> set b' \<Longrightarrow> getPath b k = getPath b' k' \<longleftrightarrow> b = b' \<and> k = k'"
  by (simp add: getPath_def append_eq_sep_iff)

text \<open>
  C37. The table of file handles is keyed by path, and for valid names the path is as good as the pair:
  splitting the path of a valid object at its first slash gives bucket and key again, an object name
  that splits is the path of its parts, and objects of valid buckets have equal paths only if they are
  the same object.
\<close>

theorem object_path_roundtrip:
  "(status_ok (isValid_name b k) \<longrightarrow> parseObjectName (path_name (getPath b k)) = Inr (b, k)) \<and>
   (parseObjectName name = Inr (b', k') \<longrightarrow> path_name (getPath b' k') = name) \<and>
   (status_ok (isValid_name b k) \<longrightarrow> status_ok (isValid_name b' k') \<longrightarrow>
      (getPath b k = getPath b' k' \<longleftrightarrow> b = b' \<and> k = k'))"
proof (intro conjI impI)
  assume "status_ok (isValid_name b k)"
  then show "parseObjectName (path_name (getPath b k)) = Inr (b, k)"
    using parse_path [OF bucket_no_slash, of b k] by (simp add: getPath_def isValid_name_ok)
next
  assume "parseObjectName name = Inr (b', k')"
  then obtain i where i: "str_find CHR ''/'' name = Some i" "b' = take i name" "k' = drop (i + 1) name"
    by (auto simp: parseObjectName_def split: option.splits)
  then show "path_name (getPath b' k') = name"
    using str_find_Some_split [OF i(1)] by (simp add: getPath_def)
next
  assume "status_ok (isValid_name b k)" "status_ok (isValid_name b' k')"
  then show "getPath b k = getPath b' k' \<longleftrightarrow> b = b' \<and> k = k'"
    by (intro getPath_inject) (auto simp: isValid_name_ok dest: bucket_no_slash)
qed

theorem object_path_roundtrip_witness:
  "parseObjectName (path_name (getPath ''data'' ''dir/file'')) = Inr (''data'', ''dir/file'')"
proof -
  have "status_ok (isValid_name ''data'' ''dir/file'')"
    by (simp add: isValid_name_def isValidBucketName_def isValidKeyName_def bucket_regex_def
        is_lower_or_digit_def is_digit_def less_eq_char_def str_contains_def sublist_code)
  then show ?thesis using object_path_roundtrip [of "''data''" "''dir/file''"] by blast
qed

text \<open>
  The keys that are accepted are the non-empty ones that do not end in a slash, do not start with
  \<open>../\<close> and do not contain \<open>/../\<close>. The intended test for \<open>./\<close> never applies: every key that
  is accepted without this prefix is accepted with it, and \<open>..\<close> itself is a valid key.
\<close>

theorem isValidKeyName_exact:
  "(status_ok (isValidKeyName k) \<longleftrightarrow>
      k \<noteq> [] \<and> last k \<noteq> CHR ''/'' \<and> take 3 k \<noteq> ''../'' \<and> \<not> sublist ''/../'' k) \<and>
   status_ok (isValidKeyName ''./a'') \<and> status_ok (isValidKeyName ''..'')"
proof -
  have "take 1 k \<noteq> ''./''" by (cases k) simp_all
  moreover have "take 3 k = ''../'' \<Longrightarrow> 3 \<le> length k"
    by (metis le_refl length_Cons list.size(3) length_take min.absorb_iff2 numeral_3_eq_3)
  ultimately have "status_ok (isValidKeyName k) \<longleftrightarrow>
      k \<noteq> [] \<and> last k \<noteq> CHR ''/'' \<and> take 3 k \<noteq> ''../'' \<and> \<not> sublist ''/../'' k"
    by (auto simp: isValidKeyName_def str_contains_def)
  then show ?thesis by (simp add: isValidKeyName_def str_contains_def sublist_code)
qed
section \<open>Local files\<close>

text \<open>
  \<open>_fileNames\<close> and \<open>_fileNameCounter\<close>. The lookup uses \<open>bucket/key\<close>, the insertion the key alone. The
  test-and-insert is one atomic step only for a single caller; concurrent callers are ordered by the
  map.
\<close>

record file_names =
  fn_counter :: size_t
  fn_names :: "(string, size_t) std_map"

definition getLocalPath :: "string \<Rightarrow> string \<Rightarrow> string \<Rightarrow> file_names \<Rightarrow> string \<times> file_names" where
  "getLocalPath pathPrefix bucket key fn =
     (case ConcurrentMap_get (fn_names fn) (bucket @ ''/'' @ key) of
        Some n \<Rightarrow> (pathPrefix @ ''/'' @ bucket @ ''/'' @ show_nat n, fn)
      | None \<Rightarrow>
          (case ConcurrentMap_insertOrExists key (fn_counter fn) (fn_names fn) of (n2, names) \<Rightarrow>
             (pathPrefix @ ''/'' @ bucket @ ''/'' @ show_nat n2,
              \<lparr>fn_counter = wrap64 (fn_counter fn + 1), fn_names = names\<rparr>)))"

definition no_names :: file_names where
  "no_names = \<lparr>fn_counter = 0, fn_names = []\<rparr>"

fun local_paths :: "string \<Rightarrow> (string \<times> string) list \<Rightarrow> file_names \<Rightarrow> string list \<times> file_names" where
  "local_paths pathPrefix [] fn = ([], fn)"
| "local_paths pathPrefix ((b, k) # rest) fn =
     (case getLocalPath pathPrefix b k fn of
        (p, fn1) \<Rightarrow> (case local_paths pathPrefix rest fn1 of (ps, fn2) \<Rightarrow> (p # ps, fn2)))"

text \<open>Numbers are handed out once.\<close>

definition names_inv :: "file_names \<Rightarrow> bool" where
  "names_inv fn \<longleftrightarrow> map_sorted (fn_names fn) \<and> inj_on (map_of (fn_names fn)) (dom (map_of (fn_names fn))) \<and>
     (\<forall>k n. map_of (fn_names fn) k = Some n \<longrightarrow> n < fn_counter fn)"

text \<open>No requested key is the path of a requested object.\<close>

definition plain_requests :: "(string \<times> string) list \<Rightarrow> bool" where
  "plain_requests reqs \<longleftrightarrow> (\<forall>(b, k) \<in> set reqs. b @ ''/'' @ k \<notin> snd ` set reqs)"

lemma getLocalPath_new:
  assumes "names_inv fn" "map_of (fn_names fn) (b @ ''/'' @ k) = None" "fn_counter fn + 1 < 2 ^ 64"
  obtains n fn' where "getLocalPath p b k fn = (p @ ''/'' @ b @ ''/'' @ show_nat n, fn')"
    "names_inv fn'" "map_of (fn_names fn') k = Some n" "map_of (fn_names fn) \<subseteq>\<^sub>m map_of (fn_names fn')"
    "dom (map_of (fn_names fn')) = insert k (dom (map_of (fn_names fn)))" "fn_counter fn' = fn_counter fn + 1"
proof (cases "map_of (fn_names fn) k")
  case None
  let ?fn = "\<lparr>fn_counter = fn_counter fn + 1, fn_names = map_assign k (fn_counter fn) (fn_names fn)\<rparr>"
  have s: "map_sorted (fn_names fn)" using assms(1) by (simp add: names_inv_def)
  have lt: "n < fn_counter fn" if "map_of (fn_names fn) x = Some n" for x n
    using assms(1) that by (auto simp: names_inv_def)
  have "inj_on (map_of (fn_names ?fn)) (dom (map_of (fn_names ?fn)))"
    using assms(1) s by (auto simp: names_inv_def inj_on_def dest: lt)
  then have "names_inv ?fn"
    using s by (auto simp: names_inv_def less_SucI dest: lt split: if_splits)
  moreover have "getLocalPath p b k fn = (p @ ''/'' @ b @ ''/'' @ show_nat (fn_counter fn), ?fn)"
    using None assms(2,3)
    by (simp add: getLocalPath_def ConcurrentMap_get_def ConcurrentMap_insertOrExists_def)
  moreover have "map_of (fn_names fn) \<subseteq>\<^sub>m map_of (fn_names ?fn)"
    using s None by (auto simp: map_le_def)
  ultimately show ?thesis using that [of "fn_counter fn" ?fn] s by simp
next
  case (Some n)
  let ?fn = "\<lparr>fn_counter = fn_counter fn + 1, fn_names = fn_names fn\<rparr>"
  have "names_inv ?fn" using assms(1) by (auto simp: names_inv_def less_SucI)
  moreover have "getLocalPath p b k fn = (p @ ''/'' @ b @ ''/'' @ show_nat n, ?fn)"
    using Some assms(2,3)
    by (simp add: getLocalPath_def ConcurrentMap_get_def ConcurrentMap_insertOrExists_def)
  ultimately show ?thesis using that [of n ?fn] Some by (auto simp: insert_absorb domI)
qed

lemma local_paths_names:
  assumes "names_inv fn" "\<forall>(b, k) \<in> set reqs. b @ ''/'' @ k \<notin> snd ` set reqs \<union> dom (map_of (fn_names fn))"
    and "fn_counter fn + length reqs < 2 ^ 64"
  shows "\<exists>fn'. names_inv fn' \<and> map_of (fn_names fn) \<subseteq>\<^sub>m map_of (fn_names fn') \<and>
    snd ` set reqs \<subseteq> dom (map_of (fn_names fn')) \<and>
    fst (local_paths p reqs fn) =
      map (\<lambda>(b, k). p @ ''/'' @ b @ ''/'' @ show_nat (the (map_of (fn_names fn') k))) reqs"
  using assms
proof (induction reqs arbitrary: fn)
  case (Cons r reqs)
  obtain b k where r: "r = (b, k)" by fastforce
  have "map_of (fn_names fn) (b @ ''/'' @ k) = None" using Cons.prems(2) by (auto simp: r)
  then obtain n fn1 where f1: "getLocalPath p b k fn = (p @ ''/'' @ b @ ''/'' @ show_nat n, fn1)"
    "names_inv fn1" "map_of (fn_names fn1) k = Some n" "map_of (fn_names fn) \<subseteq>\<^sub>m map_of (fn_names fn1)"
    "dom (map_of (fn_names fn1)) = insert k (dom (map_of (fn_names fn)))" "fn_counter fn1 = fn_counter fn + 1"
    using getLocalPath_new [OF Cons.prems(1), of b k p] Cons.prems(3) by auto
  obtain fn' where f': "names_inv fn'" "map_of (fn_names fn1) \<subseteq>\<^sub>m map_of (fn_names fn')"
    "snd ` set reqs \<subseteq> dom (map_of (fn_names fn'))"
    "fst (local_paths p reqs fn1) =
      map (\<lambda>(b, k). p @ ''/'' @ b @ ''/'' @ show_nat (the (map_of (fn_names fn') k))) reqs"
    using Cons.IH [OF f1(2)] Cons.prems(2,3) f1(5,6) by (auto simp: r)
  have "map_of (fn_names fn') k = Some n" using f'(2) f1(3) by (metis domI map_le_def)
  moreover have "map_of (fn_names fn) \<subseteq>\<^sub>m map_of (fn_names fn')"
    using f1(4) f'(2) by (rule map_le_trans)
  ultimately show ?case
    using f'(1,3,4) f1(1) by (intro exI [of _ fn']) (auto simp: r split: prod.splits)
qed auto

lemma local_path_inject:
  assumes "CHR ''/'' \<notin> set b" "CHR ''/'' \<notin> set b'"
  shows "p @ ''/'' @ b @ ''/'' @ show_nat n = p @ ''/'' @ b' @ ''/'' @ show_nat n' \<longleftrightarrow> b = b' \<and> n = n'"
  using append_eq_sep_iff [OF assms] by simp

text \<open>
  C38. Every object has its own local file, as long as no key in use is the path of another object in
  use: in any history of requests for valid objects, two requests get the same path exactly when
  they are for the same object. The side condition is needed: an object whose key is
  the path of a second one shares its file with it.
\<close>

theorem getLocalPath_distinct:
  assumes "plain_requests reqs" "\<forall>(b, k) \<in> set reqs. status_ok (isValid_name b k)"
    and "length reqs < 2 ^ 64" "i < length reqs" "j < length reqs"
  shows "(fst (local_paths p reqs no_names) ! i = fst (local_paths p reqs no_names) ! j \<longleftrightarrow>
      reqs ! i = reqs ! j) \<and>
    fst (local_paths p [(''abc'', ''abc/x''), (''abc'', ''x'')] no_names) =
      [p @ ''/abc/0'', p @ ''/abc/0'']"
proof -
  have "names_inv no_names" by (simp add: names_inv_def no_names_def)
  then obtain fn' where fn': "names_inv fn'" "snd ` set reqs \<subseteq> dom (map_of (fn_names fn'))"
    "fst (local_paths p reqs no_names) =
      map (\<lambda>(b, k). p @ ''/'' @ b @ ''/'' @ show_nat (the (map_of (fn_names fn') k))) reqs"
    using local_paths_names [of no_names reqs p] assms(1,3) by (auto simp: plain_requests_def no_names_def)
  obtain b k b' k' where ij: "reqs ! i = (b, k)" "reqs ! j = (b', k')" by fastforce
  have mem: "(b, k) \<in> set reqs" "(b', k') \<in> set reqs"
    using ij assms(4,5) by (metis nth_mem)+
  then have "CHR ''/'' \<notin> set b" "CHR ''/'' \<notin> set b'"
    using assms(2) bucket_no_slash by (auto simp: isValid_name_ok)
  moreover have "the (map_of (fn_names fn') k) = the (map_of (fn_names fn') k') \<longleftrightarrow> k = k'"
    using fn'(1,2) mem by (auto simp: names_inv_def inj_on_def image_subset_iff domD)
      (metis (mono_tags, lifting) domD domI option.sel snd_conv)
  ultimately have "fst (local_paths p reqs no_names) ! i = fst (local_paths p reqs no_names) ! j \<longleftrightarrow>
      reqs ! i = reqs ! j"
    using fn'(3) ij assms(4,5) local_path_inject by simp
  moreover have "digit_char 0 = CHR ''0''" by code_simp
  then have "fst (local_paths p [(''abc'', ''abc/x''), (''abc'', ''x'')] no_names) =
      [p @ ''/abc/0'', p @ ''/abc/0'']"
    by (simp add: getLocalPath_def no_names_def ConcurrentMap_get_def ConcurrentMap_insertOrExists_def
        map_assign_def show_nat.simps)
  ultimately show ?thesis by blast
qed

theorem getLocalPath_distinct_witness:
  "fst (local_paths ''/tmp'' [(''abc'', ''x''), (''abc'', ''y''), (''abc'', ''x'')] no_names) ! 0 \<noteq>
     fst (local_paths ''/tmp'' [(''abc'', ''x''), (''abc'', ''y''), (''abc'', ''x'')] no_names) ! 1"
proof -
  have "\<forall>(b, k) \<in> set [(''abc'', ''x''), (''abc'', ''y''), (''abc'', ''x'')]. status_ok (isValid_name b k)"
    by (simp add: isValid_name_def isValidBucketName_def isValidKeyName_def bucket_regex_def
        is_lower_or_digit_def is_digit_def less_eq_char_def str_contains_def sublist_code)
  from getLocalPath_distinct [OF _ this, of 0 1 "''/tmp''"] show ?thesis
    by (simp add: plain_requests_def del: local_paths.simps)
qed

end
