(* ===== verification/GEDS_Config.thy ===== *)
theory GEDS_Config
  imports Complex_Main Absl_Status "HOL-Library.Log_Nat"
begin

text \<open>
  \<^verbatim>\<open>src/libgeds/GEDSConfig.h\<close> and \<^verbatim>\<open>GEDSConfig.cpp\<close>, the options of a GEDS instance, and
  \<^verbatim>\<open>StorageCounter.h\<close>, the accounting of local storage. A \<open>double\<close> is a rational number:
  the sources only store it and multiply it once. The main results are the round trip between the
  setters and the getters, and that the free space of a counter is what is left of its allocation.
\<close>

section \<open>Options\<close>

record GEDSConfig =
  gc_metadataServiceAddress :: string
  gc_listenAddress :: string
  gc_hostname :: "string option"
  gc_port :: u16
  gc_portHttpServer :: u16
  gc_localStoragePath :: string
  gc_cacheBlockSize :: size_t
  gc_io_thread_pool_size :: size_t
  gc_available_local_storage :: size_t
  gc_available_local_memory :: size_t
  gc_pubSubEnabled :: bool
  gc_cache_objects_from_s3 :: bool
  gc_force_relocation_when_stopping :: bool
  gc_storage_spilling_fraction :: rat

definition defaultPrometheusPort :: u16 where "defaultPrometheusPort = 4380"
definition defaultGEDSPort :: u16 where "defaultGEDSPort = 4382"
definition INT16_MAX :: nat where "INT16_MAX = 32767"

text \<open>\<open>cores\<close> is \<open>std::thread::hardware_concurrency()\<close>.\<close>

definition GEDSConfig_new :: "nat \<Rightarrow> string \<Rightarrow> GEDSConfig" where
  "GEDSConfig_new cores metadataServiceAddressArg =
     (let c = \<lparr>gc_metadataServiceAddress = metadataServiceAddressArg, gc_listenAddress = ''0.0.0.0'',
        gc_hostname = None, gc_port = defaultGEDSPort, gc_portHttpServer = defaultPrometheusPort,
        gc_localStoragePath = ''/tmp/GEDS_XXXXXX'', gc_cacheBlockSize = 32 * 1024 * 1024,
        gc_io_thread_pool_size = max (cores div 2) 8,
        gc_available_local_storage = 100 * 1024 * 1024 * 1024,
        gc_available_local_memory = 16 * 1024 * 1024 * 1024, gc_pubSubEnabled = False,
        gc_cache_objects_from_s3 = False, gc_force_relocation_when_stopping = False,
        gc_storage_spilling_fraction = 7 / 10\<rparr>
      in if gc_available_local_storage c \<le> 4 * 1024 * 1024 * 1024
         then c\<lparr>gc_io_thread_pool_size := min (gc_io_thread_pool_size c) 6,
                gc_storage_spilling_fraction := 9 / 10\<rparr>
         else c)"

abbreviation key_not_found :: "string \<Rightarrow> Status" where
  "key_not_found key \<equiv> NotFoundError (''Key '' @ key @ '' not found.'')"

abbreviation out_of_range :: "string \<Rightarrow> string \<Rightarrow> Status" where
  "out_of_range value key \<equiv> InvalidArgumentError (''Value '' @ value @ '' is out of range for '' @ key)"

definition set_string :: "string \<Rightarrow> string \<Rightarrow> GEDSConfig \<Rightarrow> Status \<times> GEDSConfig" where
  "set_string key value c =
     (if key = ''listen_address'' then (OkStatus, c\<lparr>gc_listenAddress := value\<rparr>)
      else if key = ''hostname''
      then (OkStatus, c\<lparr>gc_hostname := (if value = '''' then None else Some value)\<rparr>)
      else if key = ''local_storage_path'' then (OkStatus, c\<lparr>gc_localStoragePath := value\<rparr>)
      else if key = ''pub_sub_enabled'' \<and> value = ''true'' then (OkStatus, c\<lparr>gc_pubSubEnabled := True\<rparr>)
      else (key_not_found key, c))"

definition set_unsigned :: "string \<Rightarrow> size_t \<Rightarrow> GEDSConfig \<Rightarrow> Status \<times> GEDSConfig" where
  "set_unsigned key value c =
     (if value = 0 then (out_of_range (show_nat value) key, c)
      else if key = ''port'' then
        (if value > INT16_MAX then (out_of_range (show_nat value) key, c)
         else (OkStatus, c\<lparr>gc_port := of_nat value\<rparr>))
      else if key = ''http_server_port'' then
        (if value > INT16_MAX then (out_of_range (show_nat value) key, c)
         else (OkStatus, c\<lparr>gc_portHttpServer := of_nat value\<rparr>))
      else if key = ''cache_block_size'' then (OkStatus, c\<lparr>gc_cacheBlockSize := value\<rparr>)
      else if key = ''io_thread_pool_size'' then (OkStatus, c\<lparr>gc_io_thread_pool_size := value\<rparr>)
      else if key = ''available_local_storage'' then (OkStatus, c\<lparr>gc_available_local_storage := value\<rparr>)
      else if key = ''available_local_memory'' then (OkStatus, c\<lparr>gc_available_local_memory := value\<rparr>)
      else if key = ''pub_sub_enabled'' then (OkStatus, c\<lparr>gc_pubSubEnabled := (value \<noteq> 0)\<rparr>)
      else if key = ''cache_objects_from_s3''
      then (OkStatus, c\<lparr>gc_cache_objects_from_s3 := (value \<noteq> 0)\<rparr>)
      else if key = ''force_relocation_when_stopping''
      then (OkStatus, c\<lparr>gc_force_relocation_when_stopping := (value \<noteq> 0)\<rparr>)
      else (key_not_found key, c))"

text \<open>\<open>std::to_string\<close> of a signed number.\<close>

definition show_int :: "int \<Rightarrow> string" where
  "show_int i = (if i < 0 then CHR ''-'' # show_nat (nat (- i)) else show_nat (nat i))"

definition set_signed :: "string \<Rightarrow> int \<Rightarrow> GEDSConfig \<Rightarrow> Status \<times> GEDSConfig" where
  "set_signed key value c =
     (if value < 0 then (out_of_range (show_int value) key, c) else set_unsigned key (nat value) c)"

definition set_double :: "string \<Rightarrow> rat \<Rightarrow> GEDSConfig \<Rightarrow> Status \<times> GEDSConfig" where
  "set_double key value c =
     (if key = ''storage_spilling_fraction'' then (OkStatus, c\<lparr>gc_storage_spilling_fraction := value\<rparr>)
      else (key_not_found key, c))"

definition getString :: "string \<Rightarrow> GEDSConfig \<Rightarrow> string StatusOr" where
  "getString key c =
     (if key = ''listen_address'' then Inr (gc_listenAddress c)
      else if key = ''hostname'' then Inr (case gc_hostname c of None \<Rightarrow> '''' | Some h \<Rightarrow> h)
      else if key = ''local_storage_path'' then Inr (gc_localStoragePath c)
      else Inl (key_not_found key))"

definition getUnsignedInt :: "string \<Rightarrow> GEDSConfig \<Rightarrow> size_t StatusOr" where
  "getUnsignedInt key c =
     (if key = ''port'' then Inr (unat (gc_port c))
      else if key = ''http_server_port'' then Inr (unat (gc_portHttpServer c))
      else if key = ''cache_block_size'' then Inr (gc_cacheBlockSize c)
      else if key = ''io_thread_pool_size'' then Inr (gc_io_thread_pool_size c)
      else if key = ''available_local_storage'' then Inr (gc_available_local_storage c)
      else if key = ''available_local_memory'' then Inr (gc_available_local_memory c)
      else Inl (key_not_found key))"

text \<open>The conversion of a \<open>size_t\<close> to \<open>int64_t\<close>.\<close>

definition to_int64 :: "size_t \<Rightarrow> int" where
  "to_int64 n = (if n < 2 ^ 63 then int n else int n - 2 ^ 64)"

definition getSignedInt :: "string \<Rightarrow> GEDSConfig \<Rightarrow> int StatusOr" where
  "getSignedInt key c =
     (case getUnsignedInt key c of Inr value \<Rightarrow> Inr (to_int64 value) | Inl s \<Rightarrow> Inl s)"

definition getDouble :: "string \<Rightarrow> GEDSConfig \<Rightarrow> rat StatusOr" where
  "getDouble key c =
     (if key = ''storage_spilling_fraction'' then Inr (gc_storage_spilling_fraction c)
      else Inl (NotFoundError (''Key '' @ key @ '' (double) not found.'')))"

section \<open>Setters and getters\<close>

definition readable_ints :: "string list" where
  "readable_ints = [''port'', ''http_server_port'', ''cache_block_size'', ''io_thread_pool_size'',
     ''available_local_storage'', ''available_local_memory'']"

text \<open>The effect of a setter on its status and on each field.\<close>

lemma set_unsigned_ok:
  "status_ok (fst (set_unsigned key value c)) \<longleftrightarrow> value \<noteq> 0 \<and>
     (if key \<in> {''port'', ''http_server_port''} then value \<le> INT16_MAX
      else key \<in> set readable_ints \<or>
        key \<in> {''pub_sub_enabled'', ''cache_objects_from_s3'', ''force_relocation_when_stopping''})"
  by (simp add: set_unsigned_def readable_ints_def)

lemma set_unsigned_fields:
  "gc_port (snd (set_unsigned key value c)) =
     (if key = ''port'' \<and> value \<noteq> 0 \<and> value \<le> INT16_MAX then of_nat value else gc_port c)"
  "gc_portHttpServer (snd (set_unsigned key value c)) =
     (if key = ''http_server_port'' \<and> value \<noteq> 0 \<and> value \<le> INT16_MAX then of_nat value
      else gc_portHttpServer c)"
  "gc_cacheBlockSize (snd (set_unsigned key value c)) =
     (if key = ''cache_block_size'' \<and> value \<noteq> 0 then value else gc_cacheBlockSize c)"
  "gc_io_thread_pool_size (snd (set_unsigned key value c)) =
     (if key = ''io_thread_pool_size'' \<and> value \<noteq> 0 then value else gc_io_thread_pool_size c)"
  "gc_available_local_storage (snd (set_unsigned key value c)) =
     (if key = ''available_local_storage'' \<and> value \<noteq> 0 then value else gc_available_local_storage c)"
  "gc_available_local_memory (snd (set_unsigned key value c)) =
     (if key = ''available_local_memory'' \<and> value \<noteq> 0 then value else gc_available_local_memory c)"
  "gc_pubSubEnabled c \<longrightarrow> gc_pubSubEnabled (snd (set_unsigned key value c))"
  "gc_cache_objects_from_s3 c \<longrightarrow> gc_cache_objects_from_s3 (snd (set_unsigned key value c))"
  "gc_force_relocation_when_stopping c \<longrightarrow>
     gc_force_relocation_when_stopping (snd (set_unsigned key value c))"
  by (simp_all add: set_unsigned_def)

lemma set_unsigned_error:
  "status_ok (fst (set_unsigned key value c)) \<or> snd (set_unsigned key value c) = c"
  by (simp only: set_unsigned_def fst_conv snd_conv OkStatus_simps simp_thms split: if_split)

lemma unat_port: "n \<le> INT16_MAX \<Longrightarrow> unat (of_nat n :: u16) = n"
  by (simp add: INT16_MAX_def unat_of_nat)

lemma set_unsigned_stored:
  assumes "status_ok (fst (set_unsigned key value c))" "key \<in> set readable_ints"
  shows "getUnsignedInt key (snd (set_unsigned key value c)) = Inr value"
  using assms(2) assms(1)
  by (simp add: readable_ints_def, elim disjE)
    (simp_all add: set_unsigned_ok getUnsignedInt_def set_unsigned_fields readable_ints_def unat_port)

lemma set_unsigned_frame:
  assumes "key' \<noteq> key"
  shows "getUnsignedInt key' (snd (set_unsigned key value c)) = getUnsignedInt key' c"
proof (cases "key' \<in> set readable_ints")
  case True
  then show ?thesis
    using assms
    by (simp add: readable_ints_def, elim disjE) (simp_all add: getUnsignedInt_def set_unsigned_fields)
qed (simp add: getUnsignedInt_def readable_ints_def)

text \<open>
  What a setter accepts is what the getter returns, and nothing else changes: after a successful
  \<open>set\<close> of an integer option, reading any integer option gives the new value for that key and the old
  value for every other one, for ports too, which are kept in 16 bits. A refused value leaves
  the whole configuration as it was. Zero is always refused, so the three switches can be turned
  on and never off by an integer.
\<close>

theorem set_unsigned_roundtrip:
  assumes "set_unsigned key value c = (s, c')"
  shows "(status_ok s \<longrightarrow> key \<in> set readable_ints \<longrightarrow>
        getUnsignedInt key' c' = (if key' = key then Inr value else getUnsignedInt key' c)) \<and>
    (\<not> status_ok s \<longrightarrow> c' = c) \<and> (value = 0 \<longrightarrow> \<not> status_ok s) \<and>
    (gc_pubSubEnabled c \<longrightarrow> gc_pubSubEnabled c') \<and>
    (gc_cache_objects_from_s3 c \<longrightarrow> gc_cache_objects_from_s3 c') \<and>
    (gc_force_relocation_when_stopping c \<longrightarrow> gc_force_relocation_when_stopping c')"
proof -
  have res: "fst (set_unsigned key value c) = s" "snd (set_unsigned key value c) = c'"
    using assms by simp_all
  note facts = set_unsigned_stored [of key "value" c] set_unsigned_frame [of key' key "value" c]
    set_unsigned_error [of key "value" c] set_unsigned_ok [of key "value" c]
    set_unsigned_fields(7-9) [of c key "value"]
  show ?thesis using facts unfolding res by argo
qed

theorem set_unsigned_roundtrip_witness:
  "getUnsignedInt ''port'' (snd (set_unsigned ''port'' 4000 (GEDSConfig_new 4 ''mds:4381''))) = Inr 4000"
proof -
  have "set_unsigned ''port'' 4000 (GEDSConfig_new 4 ''mds:4381'') =
      (OkStatus, (GEDSConfig_new 4 ''mds:4381'')\<lparr>gc_port := 4000\<rparr>)"
    by (simp add: set_unsigned_def INT16_MAX_def)
  from set_unsigned_roundtrip [OF this, of "''port''"] this show ?thesis by (simp add: readable_ints_def)
qed

section \<open>Storage counters\<close>

record StorageCounter =
  sc_allocated :: size_t
  sc_used :: size_t
  sc_free :: size_t

definition StorageCounter_new :: "size_t \<Rightarrow> StorageCounter" where
  "StorageCounter_new allocated = \<lparr>sc_allocated = allocated, sc_used = 0, sc_free = 0\<rparr>"

definition updateUsed :: "size_t \<Rightarrow> StorageCounter \<Rightarrow> StorageCounter" where
  "updateUsed used c = c\<lparr>sc_used := used,
     sc_free := (if used > sc_allocated c then 0 else sc_allocated c - used)\<rparr>"

definition updateAllocated :: "size_t \<Rightarrow> StorageCounter \<Rightarrow> StorageCounter" where
  "updateAllocated allocated c = c\<lparr>sc_allocated := allocated,
     sc_free := (if sc_used c > allocated then 0 else allocated - sc_used c)\<rparr>"

text \<open>After the first update, the free space is the allocation less the use, and never wraps.\<close>

definition counter_inv :: "StorageCounter \<Rightarrow> bool" where
  "counter_inv c \<longleftrightarrow> sc_free c = sc_allocated c - sc_used c"

lemma updateUsed_inv [simp]: "counter_inv (updateUsed n c)"
  by (simp add: counter_inv_def updateUsed_def)

lemma updateAllocated_inv [simp]: "counter_inv (updateAllocated n c)"
  by (simp add: counter_inv_def updateAllocated_def)
section \<open>Arithmetic in double\<close>

text \<open>
  A \<open>double\<close> has 53 significant bits; a result is rounded to the nearest one, ties to even. The exponent
  of a value of at least one follows from the length of its integer part. Values below one are rounded on the
  grid of the numbers between one half and one: the only use is followed by a cast to an integer,
  which does not show the finer grid below one half. Values are not negative and far below the
  largest \<open>double\<close>.
\<close>

definition half_even :: "rat \<Rightarrow> int" where
  "half_even y =
     (let n = \<lfloor>y\<rfloor>; d = y - of_int n
      in if d < 1 / 2 \<or> d = 1 / 2 \<and> even n then n else n + 1)"

definition double_round :: "rat \<Rightarrow> rat" where
  "double_round x =
     (let e = (if x < 1 then - 53 else int (floorlog 2 (nat \<lfloor>x\<rfloor>)) - 53)
      in of_int (half_even (x / 2 powi e)) * 2 powi e)"

lemma half_even_int [simp]: "half_even (of_int n) = n"
  by (simp add: half_even_def)

lemma half_even_near: "\<bar>of_int (half_even y) - y\<bar> \<le> 1 / 2"
  using floor_correct [of y] by (auto simp: half_even_def Let_def abs_le_iff)

text \<open>Integers of at most 53 bits are not changed, and any value of at least one is changed by less than \<open>2\<^sup>-\<^sup>5\<^sup>3\<close> of it.\<close>

lemma double_round_exact:
  assumes "n < 2 ^ 53"
  shows "double_round (of_nat n) = of_nat n"
proof (cases "n = 0")
  case True
  have "half_even 0 = 0" using half_even_int [of 0] by (simp del: half_even_int)
  with True show ?thesis by (simp add: double_round_def Let_def)
next
  case False
  let ?l = "floorlog 2 n"
  have "2 ^ (?l - 1) \<le> n" using False floorlog_bounds [of n 2] by simp
  with assms have "(2::nat) ^ (?l - 1) < 2 ^ 53" by linarith
  then have l: "?l \<le> 53" using power_less_imp_less_exp [of "2::nat" "?l - 1" 53] by simp
  define d where "d = 53 - ?l"
  have e: "int ?l - 53 = - int d" using l by (simp add: d_def)
  have "(of_nat n :: rat) / 2 powi (- int d) = of_int (int (n * 2 ^ d))"
    by (simp add: power_int_minus field_simps)
  then have h: "half_even ((of_nat n :: rat) / 2 powi (- int d)) = int (n * 2 ^ d)"
    by (simp only: half_even_int)
  have "double_round (of_nat n) =
      (let e = int ?l - 53 in of_int (half_even (of_nat n / 2 powi e)) * 2 powi e)"
    using False by (simp add: double_round_def)
  also have "\<dots> = of_nat n" unfolding e Let_def h by (simp add: power_int_minus)
  finally show ?thesis .
qed

lemma double_round_near:
  assumes "1 \<le> x"
  shows "\<bar>double_round x - x\<bar> \<le> x / 2 ^ 53"
proof -
  let ?n = "nat \<lfloor>x\<rfloor>" and ?l = "floorlog 2 (nat \<lfloor>x\<rfloor>)"
  define e where "e = int ?l - 53"
  have n: "0 < ?n" using assms by simp
  then have "2 ^ (?l - 1) \<le> ?n" "0 < ?l" using floorlog_bounds [of ?n 2] by (auto simp: floorlog_def)
  then have "(of_nat (2 ^ (?l - 1)) :: rat) \<le> of_nat ?n" by (simp only: of_nat_le_iff)
  also have "\<dots> \<le> x" using assms by (simp add: of_nat_nat)
  finally have x: "(2::rat) ^ (?l - 1) \<le> x" by simp
  have "(2::rat) powi e = 2 powi int ?l / 2 powi 53" by (simp add: e_def power_int_diff)
  also have "\<dots> = 2 * 2 ^ (?l - 1) / 2 ^ 53"
    using \<open>0 < ?l\<close> by (simp add: power_int_def flip: power_Suc)
  finally have p: "(2::rat) powi e \<le> 2 * x / 2 ^ 53" using x by simp
  have "double_round x - x = (of_int (half_even (x / 2 powi e)) - x / 2 powi e) * 2 powi e"
    using assms by (simp add: double_round_def e_def Let_def algebra_simps)
  then have "\<bar>double_round x - x\<bar> = \<bar>of_int (half_even (x / 2 powi e)) - x / 2 powi e\<bar> * 2 powi e"
    by (simp add: abs_mult)
  also have "\<dots> \<le> 1 / 2 * 2 powi e" by (intro mult_right_mono half_even_near) simp
  also have "\<dots> \<le> x / 2 ^ 53" using p by simp
  finally show ?thesis .
qed

end
