(* ===== verification/S3_Endpoint.thy ===== *)
theory S3_Endpoint
  imports Objects
begin

text \<open>
  \<^verbatim>\<open>src/s3/S3Endpoint.cpp\<close> and \<^verbatim>\<open>src/common/GEDSFileStatus.h\<close>: the adaptor to an S3 object store.
  The AWS client is third-party code and a parameter: a record with one function per request the
  sources send, over a remote state of arbitrary type. The two statistics counters of an endpoint
  are part of the threaded state.
\<close>

section \<open>GEDSFileStatus\<close>

record GEDSFileStatus =
  fs_key :: string
  fs_size :: u64
  fs_isDirectory :: bool

definition GEDSFileStatus_less :: "GEDSFileStatus \<Rightarrow> GEDSFileStatus \<Rightarrow> bool" where
  "GEDSFileStatus_less a other =
     (if fs_isDirectory a \<and> \<not> fs_isDirectory other then True else fs_key a < fs_key other)"

definition GEDSFileStatus_equal :: "GEDSFileStatus \<Rightarrow> GEDSFileStatus \<Rightarrow> bool" where
  "GEDSFileStatus_equal a other \<longleftrightarrow>
     fs_key a = fs_key other \<and> fs_isDirectory a = fs_isDirectory other"

definition mk_FileStatus :: "string \<Rightarrow> u64 \<Rightarrow> bool \<Rightarrow> GEDSFileStatus" where
  "mk_FileStatus k n d = \<lparr>fs_key = k, fs_size = n, fs_isDirectory = d\<rparr>"

lemma mk_FileStatus_simps [simp]:
  "fs_key (mk_FileStatus k n d) = k" "fs_size (mk_FileStatus k n d) = n"
  "fs_isDirectory (mk_FileStatus k n d) = d"
  by (simp_all add: mk_FileStatus_def)

text \<open>
  \<open>std::set<GEDSFileStatus>::emplace\<close>: the new element goes in front of the first element that is
  not smaller, unless that element is equivalent to it.
\<close>

fun fs_emplace :: "GEDSFileStatus \<Rightarrow> GEDSFileStatus list \<Rightarrow> GEDSFileStatus list" where
  "fs_emplace x [] = [x]"
| "fs_emplace x (y # ys) =
     (if GEDSFileStatus_less y x then y # fs_emplace x ys
      else if GEDSFileStatus_less x y then x # y # ys
      else y # ys)"

section \<open>The S3 client\<close>

datatype S3Errors = NO_SUCH_KEY | ACCESS_DENIED | OTHER_S3_ERROR

text \<open>The response code is the HTTP status: \<open>NOT_FOUND\<close> is 404, \<open>UNAUTHORIZED\<close> is 401.\<close>

record S3Error =
  err_type :: S3Errors
  err_code :: nat
  err_name :: string
  err_message :: string

record ListObjectsV2Request =
  lr_bucket :: string
  lr_prefix :: string
  lr_delimiter :: "string option"
  lr_token :: "string option"
  lr_maxKeys :: "nat option"

record ListObjectsV2Result =
  lres_contents :: "(string \<times> int) list"
  lres_commonPrefixes :: "string list"
  lres_nextToken :: string

record GetObjectRequest =
  gr_bucket :: string
  gr_key :: string
  gr_range :: "string option"

record GetObjectResult =
  gres_contentLength :: int
  gres_body :: "byte list"

text \<open>The result of a put is an outcome or an exception, with its text when it has one.\<close>

datatype 'r put_result = Outcome 'r | Thrown "string option"

record 'w S3Client =
  cl_ListObjectsV2 :: "ListObjectsV2Request \<Rightarrow> 'w \<Rightarrow> (S3Error + ListObjectsV2Result) \<times> 'w"
  cl_HeadObject :: "string \<times> string \<Rightarrow> 'w \<Rightarrow> (S3Error + int) \<times> 'w"
  cl_DeleteObject :: "string \<times> string \<Rightarrow> 'w \<Rightarrow> (S3Error + unit) \<times> 'w"
  cl_DeleteObjects :: "string \<times> string list \<Rightarrow> 'w \<Rightarrow> (S3Error + unit) \<times> 'w"
  cl_PutObject :: "string \<times> string \<times> byte list \<Rightarrow> 'w \<Rightarrow> (S3Error + unit) put_result \<times> 'w"
  cl_GetObject :: "GetObjectRequest \<Rightarrow> 'w \<Rightarrow> (S3Error + GetObjectResult) \<times> 'w"

record 'w s3_state =
  s3_remote :: 'w
  s3_totalRequestsSent :: u64
  s3_numBytesRead :: u64

text \<open>Every request is counted before it is sent.\<close>

definition s3_send :: "('q \<Rightarrow> 'w \<Rightarrow> 'r \<times> 'w) \<Rightarrow> 'q \<Rightarrow> 'w s3_state \<Rightarrow> 'r \<times> 'w s3_state" where
  "s3_send call q st =
     (case call q (s3_remote st) of (r, w) \<Rightarrow>
        (r, st\<lparr>s3_remote := w, s3_totalRequestsSent := s3_totalRequestsSent st + 1\<rparr>))"

section \<open>The endpoint\<close>

definition urlIsHttps :: "string \<Rightarrow> bool" where
  "urlIsHttps url =
     (if length url \<ge> length ''http://'' \<and> take (length ''http://'') url = ''http://''
      then False else True)"

definition stripHttp :: "string \<Rightarrow> string" where
  "stripHttp url =
     (if length url \<ge> length ''http://'' \<and> take (length ''http://'') url = ''http://''
      then drop (length ''http://'') url
      else if length url \<ge> length ''http://'' \<and> take (length ''http://'') url = ''http://''
      then drop (length ''http://'') url
      else url)"

datatype Scheme = HTTP | HTTPS

record Endpoint =
  ep_endpointUrl :: string
  ep_accessKey :: string
  ep_credentials :: "string \<times> string"
  ep_endpointOverride :: string
  ep_scheme :: Scheme

definition Endpoint_new :: "string \<Rightarrow> string \<Rightarrow> string \<Rightarrow> Endpoint" where
  "Endpoint_new argEndpointUrl argAccessKey secretKey =
     \<lparr>ep_endpointUrl = argEndpointUrl, ep_accessKey = argAccessKey,
      ep_credentials = (argAccessKey, secretKey),
      ep_endpointOverride = stripHttp argEndpointUrl,
      ep_scheme = (if urlIsHttps argEndpointUrl then HTTPS else HTTP)\<rparr>"

definition convertS3Error :: "S3Error \<Rightarrow> string \<Rightarrow> string \<Rightarrow> Status" where
  "convertS3Error error action key =
     (if err_type error = NO_SUCH_KEY \<or> err_code error = 404
      then NotFoundError (''Unable to '' @ action @ '': the '' @ key @ '' does not exist!'')
      else if err_code error = 401 \<or> err_type error = ACCESS_DENIED
      then Status kPermissionDenied (err_message error)
      else UnknownError (''Unable to '' @ action @ '': '' @ key @ '': '' @ err_message error))"

text \<open>
  Adding one page to the result set. Keys that end with the delimiter and the directory marker stand
  for the listed directory itself and are left out when a delimiter is given.
\<close>

definition Endpoint_list_page ::
  "char \<Rightarrow> ListObjectsV2Result \<Rightarrow> GEDSFileStatus list \<Rightarrow> GEDSFileStatus list" where
  "Endpoint_list_page delimiter s3result result =
     (let folderString = delimiter # Default_DirectoryMarker;
          objs = filter (\<lambda>(key, _). \<not> (delimiter \<noteq> CHR 0x00 \<and> suffix folderString key))
                   (lres_contents s3result);
          result' = fold (\<lambda>(key, n). fs_emplace (mk_FileStatus key (word_of_int n) False)) objs result
      in fold (\<lambda>key. fs_emplace (mk_FileStatus key 0 True)) (lres_commonPrefixes s3result) result')"

text \<open>
  A listing follows the continuation tokens; the sub-request runs before the page itself is added.
  The number of pages is up to the service, so the recursion takes fuel; \<^const>\<open>None\<close> means that
  the pages are not exhausted yet.
\<close>

fun Endpoint_list_into ::
  "nat \<Rightarrow> 'w S3Client \<Rightarrow> string \<Rightarrow> string \<Rightarrow> char \<Rightarrow> string option \<Rightarrow> GEDSFileStatus list \<Rightarrow> 'w s3_state
     \<Rightarrow> (GEDSFileStatus list StatusOr \<times> 'w s3_state) option" where
  "Endpoint_list_into 0 cl bucket pfx delimiter token result st = None"
| "Endpoint_list_into (Suc fuel) cl bucket pfx delimiter token result st =
     (case s3_send (cl_ListObjectsV2 cl)
             \<lparr>lr_bucket = bucket, lr_prefix = pfx,
              lr_delimiter = (if delimiter \<noteq> CHR 0x00 then Some [delimiter] else None),
              lr_token = token, lr_maxKeys = None\<rparr> st of
        (Inl error, st') \<Rightarrow> Some (Inl (convertS3Error error ''list'' pfx), st')
      | (Inr s3result, st') \<Rightarrow>
          if lres_nextToken s3result \<noteq> '''' then
            (case Endpoint_list_into fuel cl bucket pfx delimiter (Some (lres_nextToken s3result))
                    result st' of
               None \<Rightarrow> None
             | Some (Inl s, st'') \<Rightarrow> Some (Inl s, st'')
             | Some (Inr result', st'') \<Rightarrow>
                 Some (Inr (Endpoint_list_page delimiter s3result result'), st''))
          else Some (Inr (Endpoint_list_page delimiter s3result result), st'))"

definition Endpoint_list ::
  "nat \<Rightarrow> 'w S3Client \<Rightarrow> string \<Rightarrow> string \<Rightarrow> char \<Rightarrow> 'w s3_state
     \<Rightarrow> (GEDSFileStatus list StatusOr \<times> 'w s3_state) option" where
  "Endpoint_list fuel cl bucket pfx delimiter st =
     Endpoint_list_into fuel cl bucket pfx delimiter None [] st"

definition Endpoint_listAsFolder ::
  "nat \<Rightarrow> 'w S3Client \<Rightarrow> string \<Rightarrow> string \<Rightarrow> 'w s3_state
     \<Rightarrow> (GEDSFileStatus list StatusOr \<times> 'w s3_state) option" where
  "Endpoint_listAsFolder fuel cl bucket pfx st = Endpoint_list fuel cl bucket pfx CHR ''/'' st"

definition Endpoint_fileStatus ::
  "'w S3Client \<Rightarrow> string \<Rightarrow> string \<Rightarrow> 'w s3_state \<Rightarrow> GEDSFileStatus StatusOr \<times> 'w s3_state" where
  "Endpoint_fileStatus cl bucket key st =
     (case s3_send (cl_HeadObject cl) (bucket, key) st of
        (Inl error, st') \<Rightarrow> (Inl (convertS3Error error ''file status'' key), st')
      | (Inr contentLength, st') \<Rightarrow> (Inr (mk_FileStatus key (word_of_int contentLength) False), st'))"

definition Endpoint_folderStatus ::
  "'w S3Client \<Rightarrow> string \<Rightarrow> string \<Rightarrow> char \<Rightarrow> 'w s3_state \<Rightarrow> GEDSFileStatus StatusOr \<times> 'w s3_state"
where
  "Endpoint_folderStatus cl bucket key delimiter st =
     (case s3_send (cl_ListObjectsV2 cl)
             \<lparr>lr_bucket = bucket, lr_prefix = key, lr_delimiter = None, lr_token = None,
              lr_maxKeys = Some 1\<rparr> st of
        (Inl error, st') \<Rightarrow> (Inl (convertS3Error error ''folder status'' key), st')
      | (Inr result, st') \<Rightarrow>
          if lres_contents result \<noteq> [] \<or> lres_commonPrefixes result \<noteq> [] \<or> key = [delimiter]
          then (Inr (mk_FileStatus key 0 True), st')
          else (Inl (NotFoundError (''Folder '' @ key @ '' not found.'')), st'))"

definition Endpoint_deleteObject ::
  "'w S3Client \<Rightarrow> string \<Rightarrow> string \<Rightarrow> 'w s3_state \<Rightarrow> Status \<times> 'w s3_state" where
  "Endpoint_deleteObject cl bucket key st =
     (case s3_send (cl_DeleteObject cl) (bucket, key) st of
        (Inl error, st') \<Rightarrow> (convertS3Error error ''delete object'' key, st')
      | (Inr _, st') \<Rightarrow> (OkStatus, st'))"

text \<open>The batch loop of \<open>deletePrefix\<close>: \<open>startPos\<close> advances by at most 1000 objects per request.\<close>

function Endpoint_deletePrefix_loop ::
  "'w S3Client \<Rightarrow> string \<Rightarrow> string \<Rightarrow> GEDSFileStatus list \<Rightarrow> nat \<Rightarrow> 'w s3_state \<Rightarrow> Status \<times> 'w s3_state"
where
  "Endpoint_deletePrefix_loop cl bucket pfx files startPos st =
     (if startPos < length files then
        (let endPos = min (startPos + 1000) (length files);
             objects = map (\<lambda>i. fs_key (files ! i)) [startPos..<endPos]
         in case s3_send (cl_DeleteObjects cl) (bucket, objects) st of
              (Inl error, st') \<Rightarrow> (convertS3Error error ''delete prefix'' pfx, st')
            | (Inr _, st') \<Rightarrow> Endpoint_deletePrefix_loop cl bucket pfx files endPos st')
      else (OkStatus, st))"
  by pat_completeness auto

termination Endpoint_deletePrefix_loop
  by (relation "measure (\<lambda>(_, _, _, files, startPos, _). length files - startPos)") auto

declare Endpoint_deletePrefix_loop.simps [simp del]

definition Endpoint_deletePrefix ::
  "nat \<Rightarrow> 'w S3Client \<Rightarrow> string \<Rightarrow> string \<Rightarrow> 'w s3_state \<Rightarrow> (Status \<times> 'w s3_state) option" where
  "Endpoint_deletePrefix fuel cl bucket pfx st =
     (case Endpoint_list fuel cl bucket pfx CHR 0x00 st of
        None \<Rightarrow> None
      | Some (Inl s, st') \<Rightarrow> Some (s, st')
      | Some (Inr files, st') \<Rightarrow> Some (Endpoint_deletePrefix_loop cl bucket pfx files 0 st'))"

definition Endpoint_putObject ::
  "'w S3Client \<Rightarrow> string \<Rightarrow> string \<Rightarrow> byte list \<Rightarrow> 'w s3_state \<Rightarrow> Status \<times> 'w s3_state" where
  "Endpoint_putObject cl bucket key bytes st =
     (case s3_send (cl_PutObject cl) (bucket, key, bytes) st of
        (Outcome (Inr _), st') \<Rightarrow> (OkStatus, st')
      | (Outcome (Inl error), st') \<Rightarrow> (convertS3Error error ''put'' key, st')
      | (Thrown (Some what), st') \<Rightarrow>
          (UnknownError (''Caught exception using put: '' @ bucket @ ''/'' @ key @ '': '' @ what), st')
      | (Thrown None, st') \<Rightarrow>
          (UnknownError (''Caught exception using an unknown error for put: '' @ bucket @ ''/'' @ key),
           st'))"

text \<open>
  \<open>Endpoint::read\<close> of a range: the number of bytes copied to the output stream, and the bytes. An
  \<open>InvalidRange\<close> answer is retried once with a count cut at the object's size.
\<close>

definition range_header :: "size_t option \<Rightarrow> size_t option \<Rightarrow> string" where
  "range_header position length' =
     (let startPos = (case position of None \<Rightarrow> 0 | Some p \<Rightarrow> p);
          endPos = sz_sub (wrap64 (startPos + (case length' of None \<Rightarrow> 0 | Some n \<Rightarrow> n))) 1
      in ''bytes='' @ (if position \<noteq> None then show_nat startPos else '''') @ ''-'' @
         (if length' \<noteq> None then show_nat endPos else ''''))"

function Endpoint_read ::
  "'w S3Client \<Rightarrow> string \<Rightarrow> string \<Rightarrow> size_t option \<Rightarrow> size_t option \<Rightarrow> bool \<Rightarrow> 'w s3_state
     \<Rightarrow> (size_t \<times> byte list) StatusOr \<times> 'w s3_state" where
  "Endpoint_read cl bucket key position length' retry st =
     (if length' = Some 0 then (Inr (0, []), st)
      else
        let request = \<lparr>gr_bucket = bucket, gr_key = key,
              gr_range = (if position \<noteq> None \<or> length' \<noteq> None
                          then Some (range_header position length') else None)\<rparr>
        in case s3_send (cl_GetObject cl) request st of
          (Inl error, st1) \<Rightarrow>
            if err_name error = ''InvalidRange'' \<and> \<not> retry then
              (case Endpoint_fileStatus cl bucket key st1 of
                 (Inl s, st2) \<Rightarrow> (Inl s, st2)
               | (Inr fileInfo, st2) \<Rightarrow>
                   let pos = (case position of None \<Rightarrow> 0 | Some p \<Rightarrow> p); sz = unat (fs_size fileInfo) in
                   if position \<noteq> None \<and> pos \<ge> sz then (Inr (0, []), st2)
                   else (case length' of
                       Some n \<Rightarrow>
                         let newCount = sz_sub (min (wrap64 (pos + n)) sz) pos in
                         if newCount = 0 then (Inr (0, []), st2)
                         else Endpoint_read cl bucket key position (Some newCount) True st2
                     | None \<Rightarrow>
                         (Inl (InternalError (''Unable to read '' @ bucket @ ''/'' @ key @ '':'' @
                            err_message error)), st2)))
            else (Inl (convertS3Error error ''readBytes'' key), st1)
        | (Inr result, st1) \<Rightarrow>
            let cnt = unat (word_of_int (gres_contentLength result) :: u64);
                count = (case length' of None \<Rightarrow> cnt | Some n \<Rightarrow> min n cnt)
            in (Inr (count, take count (gres_body result)),
                st1\<lparr>s3_numBytesRead := s3_numBytesRead st1 + of_nat count\<rparr>))"
  by pat_completeness auto

termination Endpoint_read
  by (relation "measure (\<lambda>(_, _, _, _, _, retry, _). if retry then 0 else (1::nat))") auto

declare Endpoint_read.simps [simp del]

definition s3_chunk :: nat where
  "s3_chunk = 1024 * 1024 * 1024"

text \<open>
  \<open>readBytes\<close>: chunks of at most 1 GiB until the buffer is full or a chunk is empty; the bytes are
  those written to the front of the caller's buffer.
\<close>

function Endpoint_readBytes_loop ::
  "'w S3Client \<Rightarrow> string \<Rightarrow> string \<Rightarrow> size_t \<Rightarrow> size_t \<Rightarrow> size_t \<Rightarrow> byte list \<Rightarrow> 'w s3_state
     \<Rightarrow> (size_t \<times> byte list) StatusOr \<times> 'w s3_state" where
  "Endpoint_readBytes_loop cl bucket key position length' count bytes st =
     (if count < length' then
        (case Endpoint_read cl bucket key (Some (wrap64 (position + count)))
                (Some (min s3_chunk (length' - count))) False st of
           (Inl s, st') \<Rightarrow> (Inl s, st')
         | (Inr (n, chunk), st') \<Rightarrow>
             if n = 0 then (Inr (count, bytes), st')
             else Endpoint_readBytes_loop cl bucket key position length' (count + n)
                    (bytes @ chunk) st')
      else (Inr (count, bytes), st))"
  by pat_completeness auto

termination Endpoint_readBytes_loop
  by (relation "measure (\<lambda>(_, _, _, _, length', count, _, _). length' - count)") auto

declare Endpoint_readBytes_loop.simps [simp del]

definition Endpoint_readBytes ::
  "'w S3Client \<Rightarrow> string \<Rightarrow> string \<Rightarrow> size_t \<Rightarrow> size_t \<Rightarrow> 'w s3_state
     \<Rightarrow> (size_t \<times> byte list) StatusOr \<times> 'w s3_state" where
  "Endpoint_readBytes cl bucket key position length' st =
     Endpoint_readBytes_loop cl bucket key position length' 0 [] st"

section \<open>The order of file statuses\<close>

text \<open>On statuses of one kind the order is the order of the keys, and \<open>emplace\<close> keeps a set.\<close>

definition fs_sorted :: "GEDSFileStatus list \<Rightarrow> bool" where
  "fs_sorted xs \<longleftrightarrow> sorted_wrt (<) (map fs_key xs) \<and> (\<forall>x \<in> set xs. \<not> fs_isDirectory x)"

lemma fs_emplace_files:
  assumes "fs_sorted xs" and "\<not> fs_isDirectory x"
  shows "fs_sorted (fs_emplace x xs) \<and>
    set (map fs_key (fs_emplace x xs)) = insert (fs_key x) (set (map fs_key xs)) \<and>
    set xs \<subseteq> set (fs_emplace x xs) \<and> set (fs_emplace x xs) \<subseteq> insert x (set xs)"
  using assms
proof (induction xs)
  case Nil
  then show ?case by (simp add: fs_sorted_def)
next
  case (Cons y ys)
  then have y: "\<not> fs_isDirectory y" "fs_sorted ys" by (simp_all add: fs_sorted_def)
  consider "fs_key y < fs_key x" | "fs_key y = fs_key x" | "fs_key x < fs_key y" by (metis neqE)
  then show ?case
  proof cases
    case 1
    with Cons y show ?thesis by (auto simp: GEDSFileStatus_less_def fs_sorted_def)
  next
    case 2
    with Cons y show ?thesis by (auto simp: GEDSFileStatus_less_def fs_sorted_def)
  next
    case 3
    with Cons y show ?thesis by (auto simp: GEDSFileStatus_less_def fs_sorted_def)
  qed
qed

section \<open>Reading a range\<close>

text \<open>
  The documented behaviour of a ranged \<open>GetObject\<close>: an object of the service is a byte sequence. The
  header \<open>Range: bytes=first-last\<close> names the bytes from \<open>first\<close> to \<open>last\<close>, both included; a range
  that starts inside the object yields the part that exists, one that starts behind its end is an
  \<open>InvalidRange\<close> error. The text of the header is spelled out here and not taken from the code.
\<close>

definition s3_serves :: "'w S3Client \<Rightarrow> 'w \<Rightarrow> string \<Rightarrow> string \<Rightarrow> byte list \<Rightarrow> bool" where
  "s3_serves cl w bucket key content \<longleftrightarrow>
     length content < 2 ^ 63 \<and>
     cl_HeadObject cl (bucket, key) w = (Inr (int (length content)), w) \<and>
     (\<forall>first last. first \<le> last \<longrightarrow> last < 2 ^ 64 \<longrightarrow>
        (let r = cl_GetObject cl \<lparr>gr_bucket = bucket, gr_key = key,
               gr_range = Some (''bytes='' @ show_nat first @ ''-'' @ show_nat last)\<rparr> w
         in snd r = w \<and>
            (if first < length content
             then fst r = Inr \<lparr>gres_contentLength =
                                int (length (take (last + 1 - first) (drop first content))),
                               gres_body = take (last + 1 - first) (drop first content)\<rparr>
             else (\<exists>e. fst r = Inl e \<and> err_name e = ''InvalidRange''))))"

text \<open>The header \<open>Endpoint::read\<close> sends for \<open>n\<close> bytes at \<open>p\<close>.\<close>

lemma range_header_bytes:
  "0 < n \<Longrightarrow> p + n < 2 ^ 64 \<Longrightarrow>
     range_header (Some p) (Some n) = ''bytes='' @ show_nat p @ ''-'' @ show_nat (p + n - 1)"
  by (simp add: range_header_def Let_def)

lemma s3_serves_get:
  assumes "s3_serves cl w bucket key content" "0 < n" "p + n < 2 ^ 64"
    and "q = \<lparr>gr_bucket = bucket, gr_key = key, gr_range = Some (range_header (Some p) (Some n))\<rparr>"
  shows "snd (cl_GetObject cl q w) = w"
    and "p < length content \<Longrightarrow> fst (cl_GetObject cl q w) =
      Inr \<lparr>gres_contentLength = int (length (take n (drop p content))),
           gres_body = take n (drop p content)\<rparr>"
    and "\<not> p < length content \<Longrightarrow>
      \<exists>e. fst (cl_GetObject cl q w) = Inl e \<and> err_name e = ''InvalidRange''"
proof -
  have "p \<le> p + n - 1" "p + n - 1 < 2 ^ 64" "p + n - 1 + 1 - p = n" using assms(2,3) by auto
  with assms show "snd (cl_GetObject cl q w) = w"
    and "p < length content \<Longrightarrow> fst (cl_GetObject cl q w) =
      Inr \<lparr>gres_contentLength = int (length (take n (drop p content))),
           gres_body = take n (drop p content)\<rparr>"
    and "\<not> p < length content \<Longrightarrow>
      \<exists>e. fst (cl_GetObject cl q w) = Inl e \<and> err_name e = ''InvalidRange''"
    unfolding s3_serves_def Let_def range_header_bytes [OF assms(2,3)] by metis+
qed

lemma unat_word_of_length: "n < 2 ^ 64 \<Longrightarrow> unat (word_of_int (int n) :: u64) = n"
  by (simp add: unsigned_of_nat take_bit_nat_eq_self)

lemma Endpoint_read_range:
  assumes "s3_serves cl (s3_remote st) bucket key content" "0 < n" "p + n < 2 ^ 64"
  shows "fst (Endpoint_read cl bucket key (Some p) (Some n) False st) =
      Inr (length (take n (drop p content)), take n (drop p content)) \<and>
    s3_remote (snd (Endpoint_read cl bucket key (Some p) (Some n) False st)) = s3_remote st"
proof -
  let ?q = "\<lparr>gr_bucket = bucket, gr_key = key, gr_range = Some (range_header (Some p) (Some n))\<rparr>"
  have len: "length content < 2 ^ 63"
    and head: "cl_HeadObject cl (bucket, key) (s3_remote st) = (Inr (int (length content)), s3_remote st)"
    and get: "snd (cl_GetObject cl ?q (s3_remote st)) = s3_remote st"
      "p < length content \<Longrightarrow> fst (cl_GetObject cl ?q (s3_remote st)) =
         Inr \<lparr>gres_contentLength = int (length (take n (drop p content))),
              gres_body = take n (drop p content)\<rparr>"
      "\<not> p < length content \<Longrightarrow>
         \<exists>e. fst (cl_GetObject cl ?q (s3_remote st)) = Inl e \<and> err_name e = ''InvalidRange''"
    using assms(1) s3_serves_get [OF assms refl] by (simp_all add: s3_serves_def)
  show ?thesis
  proof (cases "p < length content")
    case True
    then have g: "cl_GetObject cl ?q (s3_remote st) =
        (Inr \<lparr>gres_contentLength = int (length (take n (drop p content))),
              gres_body = take n (drop p content)\<rparr>, s3_remote st)"
      using get(1,2) by (metis prod.collapse)
    moreover have "min (length content - p) n < 2 ^ 64" using len by simp
    ultimately show ?thesis
      using assms(2) unat_word_of_length [of "min (length content - p) n"]
      by (subst (1 2) Endpoint_read.simps) (simp add: s3_send_def Let_def min.commute take_min_drop)
  next
    case False
    then obtain e where g: "cl_GetObject cl ?q (s3_remote st) = (Inl e, s3_remote st)"
      "err_name e = ''InvalidRange''"
      using get(1,3) by (metis prod.collapse)
    with False head len assms(2) unat_word_of_length [of "length content"] show ?thesis
      by (subst (1 2) Endpoint_read.simps) (simp add: s3_send_def Endpoint_fileStatus_def Let_def)
  qed
qed

lemma take_chunks: "take m xs @ take (n - m) (drop m xs) = take n xs" if "m \<le> n"
  using that by (metis le_add_diff_inverse take_add)

lemma Endpoint_readBytes_loop_range:
  assumes "s3_serves cl (s3_remote st) bucket key content" "position + length' < 2 ^ 64"
    and "count \<le> length'"
  shows "fst (Endpoint_readBytes_loop cl bucket key position length' count bytes st) =
    (let rest = take (length' - count) (drop (position + count) content)
     in Inr (count + length rest, bytes @ rest))"
  using assms
proof (induction "length' - count" arbitrary: count bytes st rule: less_induct)
  case less
  show ?case
  proof (cases "count < length'")
    case False
    with less.prems show ?thesis
      by (subst Endpoint_readBytes_loop.simps) (simp add: Let_def)
  next
    case True
    let ?n = "min s3_chunk (length' - count)" and ?p = "position + count"
    let ?c = "take ?n (drop ?p content)"
    have n: "0 < ?n" "?p + ?n < 2 ^ 64" "wrap64 ?p = ?p"
      using True less.prems by (auto simp: s3_chunk_def)
    obtain st' where r: "Endpoint_read cl bucket key (Some ?p) (Some ?n) False st =
        (Inr (length ?c, ?c), st')" "s3_remote st' = s3_remote st"
      using Endpoint_read_range [OF less.prems(1) n(1,2)] by (metis prod.collapse)
    have step: "Endpoint_readBytes_loop cl bucket key position length' count bytes st =
        (if length ?c = 0 then (Inr (count, bytes), st')
         else Endpoint_readBytes_loop cl bucket key position length' (count + length ?c) (bytes @ ?c) st')"
      using True n r by (subst Endpoint_readBytes_loop.simps) (simp del: length_take length_0_conv)
    show ?thesis
    proof (cases "length ?c = 0")
      case True
      then have "length content \<le> ?p" using n(1) by auto
      with True step show ?thesis by (simp add: Let_def)
    next
      case False
      let ?k = "count + length ?c"
      have k: "?k \<le> length'" "length' - ?k < length' - count" using \<open>count < length'\<close> False by auto
      have "take (length' - count) (drop ?p content) =
          ?c @ take (length' - ?k) (drop (position + ?k) content)"
      proof (cases "?n \<le> length (drop ?p content)")
        case True
        then have "length ?c = ?n" by simp
        then show ?thesis
          using take_chunks [of ?n "length' - count" "drop ?p content"] by (simp add: ac_simps)
      next
        case False
        then have l: "length (drop ?p content) \<le> ?n" by (meson nat_le_linear)
        then have "?c = drop ?p content" by (rule take_all)
        moreover have "take (length' - count) (drop ?p content) = drop ?p content"
          using l by (intro take_all) simp
        ultimately show ?thesis by simp
      qed
      moreover have "fst (Endpoint_readBytes_loop cl bucket key position length' ?k (bytes @ ?c) st') =
          (let rest = take (length' - ?k) (drop (position + ?k) content)
           in Inr (?k + length rest, (bytes @ ?c) @ rest))"
        by (rule less.hyps [OF k(2)]) (use less.prems k(1) r(2) in \<open>simp_all only:\<close>)
      ultimately show ?thesis
        using step False by (simp only: Let_def if_False length_append append_assoc add.assoc)
    qed
  qed
qed

text \<open>
  C27. Against a service that follows the documented \<open>Range\<close> semantics, \<open>Endpoint::readBytes\<close> returns
  exactly the requested range of the object, cut at its end, for every object size and every request
  that does not wrap the address space: the chunk loop and the \<open>InvalidRange\<close> retry neither lose nor
  repeat bytes. The header sent for \<open>length\<close> bytes at \<open>position\<close> asks for exactly these bytes: its
  last position is the last one wanted, both ends of an HTTP range being included.
\<close>

theorem Endpoint_readBytes_range:
  assumes "s3_serves cl (s3_remote st) bucket key content" "position + length' < 2 ^ 64"
  shows "fst (Endpoint_readBytes cl bucket key position length' st) =
      Inr (min length' (length content - position), take length' (drop position content)) \<and>
    (0 < length' \<longrightarrow> range_header (Some position) (Some length') =
      ''bytes='' @ show_nat position @ ''-'' @ show_nat (position + length' - 1))"
  using Endpoint_readBytes_loop_range [OF assms, of 0 "[]"] range_header_bytes [OF _ assms(2)]
  by (simp add: Endpoint_readBytes_def Let_def min.commute)

text \<open>
  A small service that keeps its objects in memory; it shows that the assumed behaviour of the
  client can be met.
\<close>

definition parse_range :: "string \<Rightarrow> nat \<times> nat" where
  "parse_range h =
     (let d = drop 6 h
      in (read_nat (takeWhile (\<lambda>c. c \<noteq> CHR ''-'') d),
          read_nat (tl (dropWhile (\<lambda>c. c \<noteq> CHR ''-'') d))))"

lemma show_nat_no_dash: "CHR ''-'' \<notin> set (show_nat n)"
  using show_nat_digits [of "CHR ''-''" n] by (auto simp: is_digit_def less_eq_char_def)

lemma parse_range_bytes:
  "parse_range (''bytes='' @ show_nat first @ ''-'' @ show_nat l) = (first, l)"
  by (simp add: parse_range_def Let_def takeWhile_sep dropWhile_sep show_nat_no_dash)

definition invalid_range :: S3Error where
  "invalid_range = \<lparr>err_type = OTHER_S3_ERROR, err_code = 416, err_name = ''InvalidRange'',
     err_message = ''''\<rparr>"

definition no_such_key :: S3Error where
  "no_such_key = \<lparr>err_type = NO_SUCH_KEY, err_code = 404, err_name = ''NoSuchKey'',
     err_message = ''''\<rparr>"

type_synonym memory_s3 = "(string \<times> byte list) list"

definition memory_client :: "memory_s3 S3Client" where
  "memory_client =
     \<lparr>cl_ListObjectsV2 = (\<lambda>q w. (Inr \<lparr>lres_contents = map (\<lambda>(k, c). (k, int (length c)))
          (filter (\<lambda>e. prefix (lr_prefix q) (fst e)) w), lres_commonPrefixes = [],
          lres_nextToken = ''''\<rparr>, w)),
      cl_HeadObject = (\<lambda>(b, k) w. (case map_of w k of None \<Rightarrow> Inl no_such_key
          | Some c \<Rightarrow> Inr (int (length c)), w)),
      cl_DeleteObject = (\<lambda>(b, k) w. (Inr (), filter (\<lambda>e. fst e \<noteq> k) w)),
      cl_DeleteObjects = (\<lambda>(b, ks) w. (Inr (), filter (\<lambda>e. fst e \<notin> set ks) w)),
      cl_PutObject = (\<lambda>(b, k, c) w. (Outcome (Inr ()), (k, c) # filter (\<lambda>e. fst e \<noteq> k) w)),
      cl_GetObject = (\<lambda>q w. (case map_of w (gr_key q) of
            None \<Rightarrow> Inl no_such_key
          | Some c \<Rightarrow> (case gr_range q of
                None \<Rightarrow> Inr \<lparr>gres_contentLength = int (length c), gres_body = c\<rparr>
              | Some h \<Rightarrow> (case parse_range h of (s, e) \<Rightarrow>
                  if s < length c
                  then Inr \<lparr>gres_contentLength = int (length (take (e + 1 - s) (drop s c))),
                            gres_body = take (e + 1 - s) (drop s c)\<rparr>
                  else Inl invalid_range)), w))\<rparr>"

lemma memory_client_serves:
  "map_of w key = Some c \<Longrightarrow> length c < 2 ^ 63 \<Longrightarrow> s3_serves memory_client w bucket key c"
  by (simp add: s3_serves_def memory_client_def parse_range_bytes [simplified] invalid_range_def
      del: map_of_eq_None_iff)

definition memory_state :: "memory_s3 \<Rightarrow> memory_s3 s3_state" where
  "memory_state w = \<lparr>s3_remote = w, s3_totalRequestsSent = 0, s3_numBytesRead = 0\<rparr>"

theorem Endpoint_readBytes_range_witness:
  "s3_serves memory_client (s3_remote (memory_state [(''k'', [1, 2, 3])])) ''b'' ''k'' [1, 2, 3] \<and>
   fst (Endpoint_readBytes memory_client ''b'' ''k'' 1 5 (memory_state [(''k'', [1, 2, 3])]))
     = Inr (2, [2, 3])"
proof -
  have s: "s3_serves memory_client (s3_remote (memory_state [(''k'', [1, 2, 3])])) ''b'' ''k'' [1, 2, 3]"
    by (rule memory_client_serves) (simp_all add: memory_state_def)
  with Endpoint_readBytes_range [OF s, of 1 5] show ?thesis by simp
qed

section \<open>Listing and deleting\<close>

text \<open>The pages a service returns for a listing without delimiter, linked by their tokens.\<close>

fun s3_pages ::
  "'w S3Client \<Rightarrow> 'w \<Rightarrow> string \<Rightarrow> string \<Rightarrow> string option \<Rightarrow> ListObjectsV2Result list \<Rightarrow> bool" where
  "s3_pages cl w bucket pfx token [] = False"
| "s3_pages cl w bucket pfx token (page # pages) =
     (cl_ListObjectsV2 cl \<lparr>lr_bucket = bucket, lr_prefix = pfx, lr_delimiter = None, lr_token = token,
        lr_maxKeys = None\<rparr> w = (Inr page, w) \<and> lres_commonPrefixes page = [] \<and>
      (if pages = [] then lres_nextToken page = ''''
       else lres_nextToken page \<noteq> '''' \<and>
            s3_pages cl w bucket pfx (Some (lres_nextToken page)) pages))"

definition page_status :: "string \<times> int \<Rightarrow> GEDSFileStatus" where
  "page_status e = mk_FileStatus (fst e) (word_of_int (snd e)) False"

lemma fold_emplace_files:
  "fs_sorted res \<Longrightarrow> fs_sorted (fold (\<lambda>e. fs_emplace (page_status e)) es res) \<and>
     set (map fs_key (fold (\<lambda>e. fs_emplace (page_status e)) es res)) =
       fst ` set es \<union> set (map fs_key res) \<and>
     set (fold (\<lambda>e. fs_emplace (page_status e)) es res) \<subseteq> page_status ` set es \<union> set res"
proof (induction es arbitrary: res)
  case Nil
  then show ?case by simp
next
  case (Cons e es)
  have "\<not> fs_isDirectory (page_status e)" "fs_key (page_status e) = fst e"
    by (simp_all add: page_status_def)
  with fs_emplace_files [OF Cons.prems, of "page_status e"]
    Cons.IH [of "fs_emplace (page_status e) res"] show ?case by auto
qed

lemma Endpoint_list_page_files:
  "lres_commonPrefixes page = [] \<Longrightarrow>
     Endpoint_list_page CHR 0x00 page res = fold (\<lambda>e. fs_emplace (page_status e)) (lres_contents page) res"
  by (simp add: Endpoint_list_page_def Let_def page_status_def case_prod_unfold)

lemma Endpoint_list_into_pages:
  assumes "s3_pages cl (s3_remote st) bucket pfx token pages" "length pages \<le> fuel"
  shows "\<exists>files st'. Endpoint_list_into fuel cl bucket pfx CHR 0x00 token [] st = Some (Inr files, st') \<and>
    s3_remote st' = s3_remote st \<and> fs_sorted files \<and>
    fs_key ` set files = (\<Union>p \<in> set pages. fst ` set (lres_contents p)) \<and>
    set files \<subseteq> page_status ` (\<Union>p \<in> set pages. set (lres_contents p))"
  using assms
proof (induction pages arbitrary: fuel token st)
  case Nil
  then show ?case by simp
next
  case (Cons page pages)
  obtain fuel' where fuel: "fuel = Suc fuel'" using Cons.prems(2) by (cases fuel) auto
  let ?q = "\<lparr>lr_bucket = bucket, lr_prefix = pfx, lr_delimiter = None, lr_token = token,
    lr_maxKeys = None\<rparr>"
  let ?st = "st\<lparr>s3_remote := s3_remote st, s3_totalRequestsSent := s3_totalRequestsSent st + 1\<rparr>"
  have send: "s3_send (cl_ListObjectsV2 cl) ?q st = (Inr page, ?st)"
    and cp: "lres_commonPrefixes page = []"
    using Cons.prems(1) by (simp_all add: s3_send_def)
  show ?case
  proof (cases "pages = []")
    case True
    then show ?thesis
      using Cons.prems(1) send cp fold_emplace_files [of "[]" "lres_contents page"]
      by (simp add: fuel Endpoint_list_page_files fs_sorted_def)
  next
    case False
    with Cons.prems have "s3_pages cl (s3_remote ?st) bucket pfx (Some (lres_nextToken page)) pages"
      "length pages \<le> fuel'" "lres_nextToken page \<noteq> ''''" by (simp_all add: fuel)
    with Cons.IH [of ?st "Some (lres_nextToken page)" fuel'] obtain files st' where ih:
      "Endpoint_list_into fuel' cl bucket pfx CHR 0x00 (Some (lres_nextToken page)) [] ?st =
         Some (Inr files, st')" "s3_remote st' = s3_remote st" "fs_sorted files"
      "fs_key ` set files = (\<Union>p \<in> set pages. fst ` set (lres_contents p))"
      "set files \<subseteq> page_status ` (\<Union>p \<in> set pages. set (lres_contents p))" by auto
    then show ?thesis
      using \<open>lres_nextToken page \<noteq> ''''\<close> send cp
        fold_emplace_files [OF ih(3), of "lres_contents page"]
      by (auto simp: fuel Endpoint_list_page_files image_Un)
  qed
qed

text \<open>
  The pages a service returns for a listing with any delimiter: the request carries the delimiter
  when one is given, and with one the pages may hold common prefixes beside the keys.
\<close>

fun s3_listing ::
  "'w S3Client \<Rightarrow> 'w \<Rightarrow> string \<Rightarrow> string \<Rightarrow> string option \<Rightarrow> string option \<Rightarrow> ListObjectsV2Result list
     \<Rightarrow> bool" where
  "s3_listing cl w bucket pfx delim token [] = False"
| "s3_listing cl w bucket pfx delim token (page # pages) =
     (cl_ListObjectsV2 cl \<lparr>lr_bucket = bucket, lr_prefix = pfx, lr_delimiter = delim, lr_token = token,
        lr_maxKeys = None\<rparr> w = (Inr page, w) \<and>
      (if pages = [] then lres_nextToken page = ''''
       else lres_nextToken page \<noteq> '''' \<and>
            s3_listing cl w bucket pfx delim (Some (lres_nextToken page)) pages))"

text \<open>The elements a page adds to the result set, in the order they are added.\<close>

definition page_entries :: "char \<Rightarrow> ListObjectsV2Result \<Rightarrow> GEDSFileStatus list" where
  "page_entries delimiter page =
     map page_status (filter (\<lambda>e. \<not> (delimiter \<noteq> CHR 0x00 \<and> suffix (delimiter # ''_$folder$'') (fst e)))
       (lres_contents page)) @
     map (\<lambda>key. mk_FileStatus key 0 True) (lres_commonPrefixes page)"

lemma Endpoint_list_page_entries:
  "Endpoint_list_page delimiter page res = fold fs_emplace (page_entries delimiter page) res"
  by (simp add: Endpoint_list_page_def page_entries_def Let_def Default_DirectoryMarker_def
      page_status_def fold_map comp_def case_prod_unfold)

definition fs_kind :: "GEDSFileStatus \<Rightarrow> string \<times> bool" where
  "fs_kind f = (fs_key f, fs_isDirectory f)"

lemma fs_kind_simps [simp]:
  "fs_kind (page_status e) = (fst e, False)" "fs_kind (mk_FileStatus k n d) = (k, d)"
  by (simp_all add: fs_kind_def page_status_def)

lemma tagged_union:
  "(k, d) \<in> (\<lambda>e. (fst e, False)) ` {e \<in> A. P (fst e)} \<union> (\<lambda>k. (k, True)) ` B \<longleftrightarrow>
     (if d then k \<in> B else k \<in> fst ` A \<and> P k)"
  by (cases d) force+

lemma page_entries_kinds:
  "(k, d) \<in> fs_kind ` set (page_entries delimiter page) \<longleftrightarrow>
     (if d then k \<in> set (lres_commonPrefixes page)
      else k \<in> fst ` set (lres_contents page) \<and>
           (delimiter = CHR 0x00 \<or> \<not> suffix (delimiter # ''_$folder$'') k))"
  unfolding tagged_union [symmetric, where P = "\<lambda>k. delimiter = CHR 0x00 \<or> \<not> suffix (delimiter # ''_$folder$'') k"]
  by (simp add: page_entries_def image_Un image_image)

lemma entry_kinds:
  "(k, d) \<in> fs_kind ` set (concat (map (page_entries delimiter) (rev pages))) \<longleftrightarrow>
     (if d then k \<in> (\<Union>p \<in> set pages. set (lres_commonPrefixes p))
      else (\<exists>p n. p \<in> set pages \<and> (k, n) \<in> set (lres_contents p)) \<and>
           (delimiter = CHR 0x00 \<or> \<not> suffix (delimiter # ''_$folder$'') k))"
  by (simp add: image_UN page_entries_kinds) force

text \<open>
  \<open>operator<\<close> is no strict weak order once files and directories meet (of a directory and a file
  with a smaller key each is less than the other), so a result with both has no order to speak of.
  An element is left out only when one of the same key and kind is there: two statuses of different
  key or kind are never equivalent.
\<close>

lemma fs_less_total:
  "fs_kind a \<noteq> fs_kind b \<Longrightarrow> GEDSFileStatus_less a b \<or> GEDSFileStatus_less b a"
  by (auto simp: fs_kind_def GEDSFileStatus_less_def)

lemma fs_emplace_kinds:
  "fs_kind ` set (fs_emplace x xs) = insert (fs_kind x) (fs_kind ` set xs) \<and>
   set (fs_emplace x xs) \<subseteq> insert x (set xs)"
proof (induction xs)
  case (Cons y ys)
  then show ?case using fs_less_total [of x y] by auto
qed simp

lemma fold_emplace_kinds:
  "fs_kind ` set (fold fs_emplace es res) = fs_kind ` (set es \<union> set res) \<and>
   set (fold fs_emplace es res) \<subseteq> set es \<union> set res"
proof (induction es arbitrary: res)
  case (Cons e es)
  from Cons.IH [of "fs_emplace e res"] fs_emplace_kinds [of e res] show ?case
    by (simp add: image_Un) blast
qed simp

lemma fold_emplace_sorted:
  "fs_sorted res \<Longrightarrow> (\<And>e. e \<in> set es \<Longrightarrow> \<not> fs_isDirectory e) \<Longrightarrow> fs_sorted (fold fs_emplace es res)"
  by (induction es arbitrary: res) (simp_all add: fs_emplace_files)

text \<open>A listing adds the entries of the last page first.\<close>

lemma Endpoint_list_into_listing:
  assumes "s3_listing cl (s3_remote st) bucket pfx
      (if delimiter = CHR 0x00 then None else Some [delimiter]) token pages" "length pages \<le> fuel"
  shows "Endpoint_list_into fuel cl bucket pfx delimiter token res st =
    Some (Inr (fold fs_emplace (concat (map (page_entries delimiter) (rev pages))) res),
      st\<lparr>s3_totalRequestsSent := s3_totalRequestsSent st + of_nat (length pages)\<rparr>)"
  using assms
proof (induction pages arbitrary: fuel token st)
  case Nil
  then show ?case by simp
next
  case (Cons page pages)
  obtain fuel' where fuel: "fuel = Suc fuel'" using Cons.prems(2) by (cases fuel) auto
  let ?st = "st\<lparr>s3_totalRequestsSent := s3_totalRequestsSent st + 1\<rparr>"
  have send: "s3_send (cl_ListObjectsV2 cl) \<lparr>lr_bucket = bucket, lr_prefix = pfx,
      lr_delimiter = (if delimiter \<noteq> CHR 0x00 then Some [delimiter] else None), lr_token = token,
      lr_maxKeys = None\<rparr> st = (Inr page, ?st)"
    using Cons.prems(1) by (simp add: s3_send_def if_not_P split: if_splits)
  show ?case
  proof (cases "pages = []")
    case True
    with Cons.prems(1) send show ?thesis by (simp add: fuel Endpoint_list_page_entries)
  next
    case False
    with Cons.prems have "lres_nextToken page \<noteq> ''''"
      "s3_listing cl (s3_remote ?st) bucket pfx (if delimiter = CHR 0x00 then None else Some [delimiter])
         (Some (lres_nextToken page)) pages" "length pages \<le> fuel'"
      by (simp_all add: fuel)
    with Cons.IH [of ?st "Some (lres_nextToken page)" fuel'] send show ?thesis
      by (simp add: fuel Endpoint_list_page_entries add.assoc)
  qed
qed

text \<open>
  C28. Paged listing with any delimiter: when the service hands out finitely many pages,
  \<open>Endpoint::list\<close> returns after one request per page. The files of its result are the keys of all
  pages, less, when a delimiter is given, the markers of folders (the keys that end with the
  delimiter and \<open>_$folder$\<close>), each with a size the service reported for it; the directories are the
  common prefixes of all pages, with size 0. A result without directories, in particular one of a
  listing without delimiter, is strictly increasing in the keys.
\<close>

theorem Endpoint_list_complete:
  assumes "s3_listing cl (s3_remote st) bucket pfx
      (if delimiter = CHR 0x00 then None else Some [delimiter]) None pages" "length pages \<le> fuel"
  shows "\<exists>files. Endpoint_list fuel cl bucket pfx delimiter st = Some (Inr files,
      st\<lparr>s3_totalRequestsSent := s3_totalRequestsSent st + of_nat (length pages)\<rparr>) \<and>
    {fs_key f | f. f \<in> set files \<and> \<not> fs_isDirectory f} =
      {k. (\<exists>p n. p \<in> set pages \<and> (k, n) \<in> set (lres_contents p)) \<and>
          (delimiter = CHR 0x00 \<or> \<not> suffix ([delimiter] @ ''_$folder$'') k)} \<and>
    {fs_key f | f. f \<in> set files \<and> fs_isDirectory f} = (\<Union>p \<in> set pages. set (lres_commonPrefixes p)) \<and>
    (\<forall>f \<in> set files. if fs_isDirectory f then fs_size f = 0
       else \<exists>p n. p \<in> set pages \<and> (fs_key f, n) \<in> set (lres_contents p) \<and> fs_size f = word_of_int n) \<and>
    ((\<forall>p \<in> set pages. lres_commonPrefixes p = []) \<longrightarrow> sorted_wrt (<) (map fs_key files))"
proof -
  let ?es = "concat (map (page_entries delimiter) (rev pages))"
  let ?files = "fold fs_emplace ?es []"
  have kinds: "(k, d) \<in> fs_kind ` set ?files \<longleftrightarrow> (k, d) \<in> fs_kind ` set ?es" for k d
    using fold_emplace_kinds [of ?es "[]"] by simp
  have sub: "set ?files \<subseteq> set ?es" using fold_emplace_kinds [of ?es "[]"] by simp
  have sel: "k \<in> {fs_key f | f. f \<in> set ?files \<and> fs_isDirectory f = d} \<longleftrightarrow>
      (k, d) \<in> fs_kind ` set ?es" for k d
    unfolding kinds [symmetric] by (auto simp: fs_kind_def)
  have es: "(k, False) \<in> fs_kind ` set ?es \<longleftrightarrow>
      (\<exists>p n. p \<in> set pages \<and> (k, n) \<in> set (lres_contents p)) \<and>
      (delimiter = CHR 0x00 \<or> \<not> suffix ([delimiter] @ ''_$folder$'') k)"
    "(k, True) \<in> fs_kind ` set ?es \<longleftrightarrow> k \<in> (\<Union>p \<in> set pages. set (lres_commonPrefixes p))" for k
    unfolding entry_kinds by simp_all
  have "\<forall>f \<in> set ?files. if fs_isDirectory f then fs_size f = 0
      else \<exists>p n. p \<in> set pages \<and> (fs_key f, n) \<in> set (lres_contents p) \<and> fs_size f = word_of_int n"
    using sub by (fastforce simp: page_entries_def page_status_def)
  moreover have "sorted_wrt (<) (map fs_key ?files)" if "\<forall>p \<in> set pages. lres_commonPrefixes p = []"
  proof -
    have "\<not> fs_isDirectory e" if "e \<in> set ?es" for e
      using that \<open>\<forall>p \<in> set pages. lres_commonPrefixes p = []\<close>
      by (auto simp: page_entries_def page_status_def)
    then show ?thesis using fold_emplace_sorted [of "[]" ?es] by (simp add: fs_sorted_def)
  qed
  moreover have "{fs_key f | f. f \<in> set ?files \<and> \<not> fs_isDirectory f} =
      {k. (\<exists>p n. p \<in> set pages \<and> (k, n) \<in> set (lres_contents p)) \<and>
          (delimiter = CHR 0x00 \<or> \<not> suffix ([delimiter] @ ''_$folder$'') k)}"
    using sel [of _ False] es(1) by auto
  moreover have "{fs_key f | f. f \<in> set ?files \<and> fs_isDirectory f} =
      (\<Union>p \<in> set pages. set (lres_commonPrefixes p))"
    using sel [of _ True] es(2) by auto
  ultimately show ?thesis
    using Endpoint_list_into_listing [OF assms, of "[]"] by (simp add: Endpoint_list_def)
qed

definition two_pages :: "unit S3Client" where
  "two_pages =
     \<lparr>cl_ListObjectsV2 = (\<lambda>q w. (Inr (if lr_token q = None
          then \<lparr>lres_contents = [(''b'', 1), (''d/_$folder$'', 0)], lres_commonPrefixes = [''e/''],
                lres_nextToken = ''t''\<rparr>
          else \<lparr>lres_contents = [(''a'', 2)], lres_commonPrefixes = [''c/''], lres_nextToken = ''''\<rparr>),
        w)),
      cl_HeadObject = (\<lambda>_ w. (Inl no_such_key, w)), cl_DeleteObject = (\<lambda>_ w. (Inr (), w)),
      cl_DeleteObjects = (\<lambda>_ w. (Inr (), w)), cl_PutObject = (\<lambda>_ w. (Thrown None, w)),
      cl_GetObject = (\<lambda>_ w. (Inl no_such_key, w))\<rparr>"

definition unit_state :: "unit s3_state" where
  "unit_state = \<lparr>s3_remote = (), s3_totalRequestsSent = 0, s3_numBytesRead = 0\<rparr>"

theorem Endpoint_list_complete_witness:
  "\<exists>files. Endpoint_list 2 two_pages ''bkt'' '''' CHR ''/'' unit_state =
      Some (Inr files, unit_state\<lparr>s3_totalRequestsSent := 2\<rparr>) \<and>
    {fs_key f | f. f \<in> set files \<and> \<not> fs_isDirectory f} = {''a'', ''b''} \<and>
    {fs_key f | f. f \<in> set files \<and> fs_isDirectory f} = {''c/'', ''e/''}"
proof -
  let ?pages = "[\<lparr>lres_contents = [(''b'', 1), (''d/_$folder$'', 0)], lres_commonPrefixes = [''e/''],
      lres_nextToken = ''t''\<rparr>,
    \<lparr>lres_contents = [(''a'', 2)], lres_commonPrefixes = [''c/''], lres_nextToken = ''''\<rparr>]"
  have p: "s3_listing two_pages (s3_remote unit_state) ''bkt'' ''''
      (if CHR ''/'' = CHR 0x00 then None else Some ''/'') None ?pages"
    by (simp add: two_pages_def)
  have "length ?pages \<le> 2" by simp
  from Endpoint_list_complete [OF p this] obtain files where
    "Endpoint_list 2 two_pages ''bkt'' '''' CHR ''/'' unit_state = Some (Inr files,
       unit_state\<lparr>s3_totalRequestsSent := s3_totalRequestsSent unit_state + of_nat (length ?pages)\<rparr>)"
    "{fs_key f | f. f \<in> set files \<and> \<not> fs_isDirectory f} =
       {k. (\<exists>p n. p \<in> set ?pages \<and> (k, n) \<in> set (lres_contents p)) \<and>
           (CHR ''/'' = CHR 0x00 \<or> \<not> suffix (''/'' @ ''_$folder$'') k)}"
    "{fs_key f | f. f \<in> set files \<and> fs_isDirectory f} = (\<Union>p \<in> set ?pages. set (lres_commonPrefixes p))"
    by (elim exE conjE) (rule that)
  moreover have "{k. (\<exists>p n. p \<in> set ?pages \<and> (k, n) \<in> set (lres_contents p)) \<and>
      (CHR ''/'' = CHR 0x00 \<or> \<not> suffix (''/'' @ ''_$folder$'') k)} = {''a'', ''b''}"
    by (auto simp: suffix_to_prefix)
  moreover have "(\<Union>p \<in> set ?pages. set (lres_commonPrefixes p)) = {''c/'', ''e/''}" by auto
  ultimately show ?thesis by (intro exI conjI) (simp_all add: unit_state_def)
qed

text \<open>The reference for the batches of \<open>deletePrefix\<close>.\<close>

fun chunks :: "nat \<Rightarrow> 'a list \<Rightarrow> 'a list list" where
  "chunks n xs = (if xs = [] \<or> n = 0 then [] else take n xs # chunks n (drop n xs))"

declare chunks.simps [simp del]

lemma chunks_Nil [simp]: "chunks n [] = []"
  by (simp add: chunks.simps)

lemma concat_chunks: "0 < n \<Longrightarrow> concat (chunks n xs) = xs"
proof (induction n xs rule: chunks.induct)
  case (1 n xs)
  then show ?case by (cases "xs = []") (simp_all add: chunks.simps [of n xs])
qed

lemma chunks_bound: "c \<in> set (chunks n xs) \<Longrightarrow> c \<noteq> [] \<and> length c \<le> n"
proof (induction n xs rule: chunks.induct)
  case (1 n xs)
  then show ?case by (cases "xs = [] \<or> n = 0") (auto simp: chunks.simps [of n xs])
qed

lemma deletePrefix_loop_chunks:
  assumes "\<And>ks w. cl_DeleteObjects cl (bucket, ks) w = (Inr (), del ks w)"
  shows "fst (Endpoint_deletePrefix_loop cl bucket pfx files i st) = OkStatus \<and>
    s3_remote (snd (Endpoint_deletePrefix_loop cl bucket pfx files i st)) =
      fold del (chunks 1000 (map fs_key (drop i files))) (s3_remote st)"
proof (induction "length files - i" arbitrary: i st rule: less_induct)
  case less
  show ?case
  proof (cases "i < length files")
    case False
    then show ?thesis by (subst (1 2) Endpoint_deletePrefix_loop.simps) simp
  next
    case True
    let ?e = "min (i + 1000) (length files)"
    let ?ks = "map (\<lambda>i. fs_key (files ! i)) [i..<?e]"
    let ?st = "st\<lparr>s3_remote := del ?ks (s3_remote st), s3_totalRequestsSent := s3_totalRequestsSent st + 1\<rparr>"
    have step: "Endpoint_deletePrefix_loop cl bucket pfx files i st =
        Endpoint_deletePrefix_loop cl bucket pfx files ?e ?st"
      using True by (subst Endpoint_deletePrefix_loop.simps) (simp add: s3_send_def assms Let_def)
    have ks: "?ks = take 1000 (map fs_key (drop i files))"
      by (rule nth_equalityI) (auto simp: min_def split: if_splits)
    have "chunks 1000 (map fs_key (drop i files)) =
        ?ks # chunks 1000 (map fs_key (drop ?e files))"
    proof -
      have "drop 1000 (map fs_key (drop i files)) = map fs_key (drop ?e files)"
        by (simp add: drop_map min_def ac_simps)
      with True ks show ?thesis by (subst chunks.simps) simp
    qed
    moreover have "length files - ?e < length files - i" using True by auto
    ultimately show ?thesis
      using less.hyps [of ?e ?st] by (simp only: step list.simps fold_simps s3_state.simps s3_state.select_convs
          s3_state.update_convs s3_state.surjective [symmetric] simp_thms) simp
  qed
qed

text \<open>
  \<open>Endpoint::deletePrefix\<close> deletes every listed key exactly once, in batches of at most 1000
  keys: when the service accepts the deletions, the requests sent after the listing are the chunks of
  the listed keys in order.
\<close>

theorem Endpoint_deletePrefix_batches:
  assumes "\<And>ks w. cl_DeleteObjects cl (bucket, ks) w = (Inr (), del ks w)"
    and "s3_pages cl (s3_remote st) bucket pfx None pages" and "length pages \<le> fuel"
  shows "\<exists>batches st'. Endpoint_deletePrefix fuel cl bucket pfx st = Some (OkStatus, st') \<and>
    s3_remote st' = fold del batches (s3_remote st) \<and>
    (\<forall>b \<in> set batches. 0 < length b \<and> length b \<le> 1000) \<and>
    sorted_wrt (<) (concat batches) \<and>
    set (concat batches) = (\<Union>p \<in> set pages. fst ` set (lres_contents p))"
proof -
  obtain files st1 where l: "Endpoint_list fuel cl bucket pfx CHR 0x00 st = Some (Inr files, st1)"
    "s3_remote st1 = s3_remote st" "fs_sorted files"
    "fs_key ` set files = (\<Union>p \<in> set pages. fst ` set (lres_contents p))"
    using Endpoint_list_into_pages [OF assms(2,3)] by (auto simp: Endpoint_list_def)
  let ?b = "chunks 1000 (map fs_key files)"
  have "concat ?b = map fs_key files" by (simp add: concat_chunks)
  with l have "sorted_wrt (<) (concat ?b)"
    "set (concat ?b) = (\<Union>p \<in> set pages. fst ` set (lres_contents p))"
    by (simp_all add: fs_sorted_def)
  moreover have "\<forall>b \<in> set ?b. 0 < length b \<and> length b \<le> 1000"
    using chunks_bound by blast
  moreover obtain st' where "Endpoint_deletePrefix fuel cl bucket pfx st = Some (OkStatus, st')"
    "s3_remote st' = fold del ?b (s3_remote st)"
    using deletePrefix_loop_chunks [where cl = cl and bucket = bucket and del = del and i = 0
        and files = files and st = st1 and pfx = pfx] assms(1) l(1,2)
    by (auto simp: Endpoint_deletePrefix_def prod_eq_iff)
  ultimately show ?thesis by blast
qed

definition memory_pages :: "memory_s3 \<Rightarrow> ListObjectsV2Result list" where
  "memory_pages w = [\<lparr>lres_contents = map (\<lambda>(k, c). (k, int (length c))) w, lres_commonPrefixes = [],
     lres_nextToken = ''''\<rparr>]"

theorem Endpoint_deletePrefix_batches_witness:
  "\<exists>batches st'. Endpoint_deletePrefix 1 memory_client ''bkt'' '''' (memory_state [(''k'', [7])])
      = Some (OkStatus, st') \<and>
    s3_remote st' = fold (\<lambda>ks. filter (\<lambda>e. fst e \<notin> set ks)) batches [(''k'', [7])] \<and>
    set (concat batches) = {''k''}"
proof -
  let ?st = "memory_state [(''k'', [7])]"
  have p: "s3_pages memory_client (s3_remote ?st) ''bkt'' '''' None (memory_pages [(''k'', [7])])"
    by (simp add: memory_client_def memory_pages_def memory_state_def)
  have d: "cl_DeleteObjects memory_client (''bkt'', ks) w = (Inr (), filter (\<lambda>e. fst e \<notin> set ks) w)"
    for ks w by (simp add: memory_client_def)
  have "length (memory_pages [(''k'', [7])]) \<le> 1" by (simp add: memory_pages_def)
  from Endpoint_deletePrefix_batches [OF d p this] obtain batches st' where
    "Endpoint_deletePrefix 1 memory_client ''bkt'' '''' ?st = Some (OkStatus, st')"
    "s3_remote st' = fold (\<lambda>ks. filter (\<lambda>e. fst e \<notin> set ks)) batches (s3_remote ?st)"
    "set (concat batches) = (\<Union>p \<in> set (memory_pages [(''k'', [7])]). fst ` set (lres_contents p))"
    by blast
  moreover have "(\<Union>p \<in> set (memory_pages [(''k'', [7])]). fst ` set (lres_contents p)) = {''k''}"
    by (simp add: memory_pages_def)
  ultimately show ?thesis by (intro exI conjI) (simp_all only: memory_state_def s3_state.simps)
qed

end
