(* ===== verification/Object_Stores.thy ===== *)
theory Object_Stores
  imports S3_Endpoint Concurrent
begin

text \<open>
  \<^verbatim>\<open>src/s3/S3ObjectStores.cpp\<close>: the S3 endpoints an instance knows, by bucket. A bucket is registered
  once; a second registration has to agree with the first one.
\<close>

type_synonym ObjectStores = "(string, Endpoint) std_map"

definition registerStore ::
  "string \<Rightarrow> string \<Rightarrow> string \<Rightarrow> string \<Rightarrow> ObjectStores \<Rightarrow> Status \<times> ObjectStores" where
  "registerStore label endpointUrl accessKey secretKey m =
     (case map_of m label of
        Some endpoint \<Rightarrow>
          if ep_accessKey endpoint = accessKey \<and> ep_endpointUrl endpoint = endpointUrl then (OkStatus, m)
          else (AlreadyExistsError (label @ '' already exists with different values!''), m)
      | None \<Rightarrow> (OkStatus, map_assign label (Endpoint_new endpointUrl accessKey secretKey) m))"

definition isRegistered :: "string \<Rightarrow> ObjectStores \<Rightarrow> bool" where
  "isRegistered label m \<longleftrightarrow> map_of m label \<noteq> None"

definition ObjectStores_get :: "string \<Rightarrow> ObjectStores \<Rightarrow> Endpoint StatusOr" where
  "ObjectStores_get label m =
     (case map_of m label of
        None \<Rightarrow> Inl (NotFoundError (label @ '' is not registered!''))
      | Some endpoint \<Rightarrow> Inr endpoint)"

lemma registerStore_sorted [simp]:
  "map_sorted m \<Longrightarrow> map_sorted (snd (registerStore l u a s m))"
  by (simp add: registerStore_def split: option.splits)

lemma registerStore_keeps:
  assumes "map_sorted m" "map_of m label = Some e"
  shows "map_of (snd (registerStore l u a s m)) label = Some e"
  using assms by (auto simp: registerStore_def split: option.splits)

lemma registerStore_get:
  assumes "map_sorted m" "registerStore l u a s m = (st, m')" "status_ok st"
  shows "\<exists>e. ObjectStores_get l m' = Inr e \<and> ep_endpointUrl e = u \<and> ep_accessKey e = a"
  using assms
  by (auto simp: registerStore_def ObjectStores_get_def Endpoint_new_def split: option.splits if_splits)

end
