(* ===== verification/Metadata_Store.thy ===== *)
theory Metadata_Store
  imports Objects Path
begin

text \<open>
  The in-memory key-value store of the metadata service: \<^verbatim>\<open>src/utility/MDSKVSBucket.{h,cpp}\<close> and
  \<^verbatim>\<open>MDSKVS.{h,cpp}\<close>. A bucket maps paths to object descriptions, the store maps bucket names to
  buckets. Both are \<open>std::map\<close>s behind a read-write lock; a bucket is held by \<open>shared_ptr\<close>, and
  an operation that obtained it mutates it in place, which here stores the changed bucket again.
  Every definition is one call executed without interference.
\<close>

section \<open>MDSKVSBucket\<close>

record MDSKVSBucket =
  bucket_map :: "(Path, ObjectInfo) std_map"
  bucket_name :: string

definition MDSKVSBucket_new :: "string \<Rightarrow> MDSKVSBucket" where
  "MDSKVSBucket_new name = \<lparr>bucket_map = [], bucket_name = name\<rparr>"

definition MDSKVSBucket_getObject :: "MDSKVSBucket \<Rightarrow> string \<Rightarrow> ObjectInfo StatusOr" where
  "MDSKVSBucket_getObject b key =
     (case map_of (bucket_map b) (Path key) of
        None \<Rightarrow> Inl (NotFoundError (''Key '' @ key @ '' does not exist.''))
      | Some c \<Rightarrow> Inr c)"

definition MDSKVSBucket_createObject :: "MDSKVSBucket \<Rightarrow> Object \<Rightarrow> Status \<times> MDSKVSBucket" where
  "MDSKVSBucket_createObject b obj =
     (OkStatus, b\<lparr>bucket_map := map_assign (Path (obj_key obj)) (obj_info obj) (bucket_map b)\<rparr>)"

definition MDSKVSBucket_updateObject :: "MDSKVSBucket \<Rightarrow> Object \<Rightarrow> Status \<times> MDSKVSBucket" where
  "MDSKVSBucket_updateObject b obj =
     (case MDSKVSBucket_getObject b (obj_key obj) of
        Inl s \<Rightarrow> (s, b)
      | Inr _ \<Rightarrow>
          (OkStatus, b\<lparr>bucket_map := map_assign (Path (obj_key obj)) (obj_info obj) (bucket_map b)\<rparr>))"

definition MDSKVSBucket_deleteObject :: "MDSKVSBucket \<Rightarrow> string \<Rightarrow> Status \<times> MDSKVSBucket" where
  "MDSKVSBucket_deleteObject b key =
     (case map_of (bucket_map b) (Path key) of
        None \<Rightarrow> (NotFoundError (''Key '' @ key @ '' does not exist.''), b)
      | Some _ \<Rightarrow> (OkStatus, b\<lparr>bucket_map := map_erase (Path key) (bucket_map b)\<rparr>))"

definition MDSKVSBucket_deleteObjectPrefix :: "MDSKVSBucket \<Rightarrow> string \<Rightarrow> Status \<times> MDSKVSBucket" where
  "MDSKVSBucket_deleteObjectPrefix b pfx =
     (case prefixSearch (bucket_map b) pfx of (front, rng, rear) \<Rightarrow>
        if rng @ rear = []
        then (NotFoundError (''No objects starting with '' @ pfx @ '' found.''), b)
        else (OkStatus, b\<lparr>bucket_map := front @ rear\<rparr>))"

definition MDSKVSBucket_lookup :: "MDSKVSBucket \<Rightarrow> string \<Rightarrow> Object StatusOr" where
  "MDSKVSBucket_lookup b key =
     (case MDSKVSBucket_getObject b key of
        Inl s \<Rightarrow> Inl s
      | Inr c \<Rightarrow> Inr (mk_Object (bucket_name b) key c))"

text \<open>
  The loop of \<open>listObjects\<close> over the range; a \<open>delimiter\<close> of 0 switches the folding into common
  prefixes off.
\<close>

fun listObjects_loop ::
  "string \<Rightarrow> nat \<Rightarrow> char \<Rightarrow> (Path, ObjectInfo) std_map \<Rightarrow> Object list \<Rightarrow> string list
     \<Rightarrow> Object list \<times> string list" where
  "listObjects_loop name prefixLength delimiter [] result commonPrefixes = (result, commonPrefixes)"
| "listObjects_loop name prefixLength delimiter ((path, info) # rest) result commonPrefixes =
     (case (if delimiter \<noteq> CHR 0x00 then str_find_from delimiter (path_name path) prefixLength
            else None) of
        Some loc \<Rightarrow>
          listObjects_loop name prefixLength delimiter rest result
            (set_insert (take (loc + 1) (path_name path)) commonPrefixes)
      | None \<Rightarrow>
          listObjects_loop name prefixLength delimiter rest
            (result @ [mk_Object name (path_name path) info]) commonPrefixes)"

definition MDSKVSBucket_listObjects ::
  "MDSKVSBucket \<Rightarrow> string \<Rightarrow> char \<Rightarrow> (Object list \<times> string list) StatusOr" where
  "MDSKVSBucket_listObjects b keyPrefix delimiter =
     (case prefixSearch (bucket_map b) keyPrefix of (_, rng, _) \<Rightarrow>
        Inr (listObjects_loop (bucket_name b) (length keyPrefix) delimiter rng [] []))"

definition MDSKVSBucket_forall ::
  "(Path \<Rightarrow> ObjectInfo \<Rightarrow> 's \<Rightarrow> 's) \<Rightarrow> MDSKVSBucket \<Rightarrow> 's \<Rightarrow> 's" where
  "MDSKVSBucket_forall action b s = fold (\<lambda>(k, v). action k v) (bucket_map b) s"

section \<open>MDSKVS\<close>

type_synonym MDSKVS = "(string, MDSKVSBucket) std_map"

definition MDSKVS_getBucket :: "MDSKVS \<Rightarrow> string \<Rightarrow> MDSKVSBucket StatusOr" where
  "MDSKVS_getBucket kvs bucket =
     (case map_of kvs bucket of
        None \<Rightarrow> Inl (NotFoundError (''Bucket '' @ bucket @ '' does not exist.''))
      | Some b \<Rightarrow> Inr b)"

definition MDSKVS_createBucket :: "MDSKVS \<Rightarrow> string \<Rightarrow> Status \<times> MDSKVS" where
  "MDSKVS_createBucket kvs bucket =
     (if map_of kvs bucket \<noteq> None
      then (AlreadyExistsError (''Bucket '' @ bucket @ '' already exists.''), kvs)
      else (OkStatus, map_assign bucket (MDSKVSBucket_new bucket) kvs))"

text \<open>The constructor, for a build that names a default bucket or not.\<close>

definition MDSKVS_new :: "string option \<Rightarrow> MDSKVS" where
  "MDSKVS_new default_bucket =
     (case default_bucket of None \<Rightarrow> [] | Some name \<Rightarrow> snd (MDSKVS_createBucket [] name))"

definition MDSKVS_deleteBucket :: "MDSKVS \<Rightarrow> string \<Rightarrow> Status \<times> MDSKVS" where
  "MDSKVS_deleteBucket kvs bucket =
     (case map_of kvs bucket of
        None \<Rightarrow> (NotFoundError (''Bucket '' @ bucket @ '' does not exist.''), kvs)
      | Some _ \<Rightarrow> (OkStatus, map_erase bucket kvs))"

definition MDSKVS_listBuckets :: "MDSKVS \<Rightarrow> string list StatusOr" where
  "MDSKVS_listBuckets kvs = Inr (map fst kvs)"

definition MDSKVS_bucketStatus :: "MDSKVS \<Rightarrow> string \<Rightarrow> Status" where
  "MDSKVS_bucketStatus kvs bucket =
     (if map_of kvs bucket \<noteq> None then OkStatus
      else NotFoundError (''Bucket '' @ bucket @ '' does not exist.''))"

text \<open>The effect, on the store, of mutating the bucket behind its shared pointer.\<close>

definition write_back :: "string \<Rightarrow> MDSKVS \<Rightarrow> Status \<times> MDSKVSBucket \<Rightarrow> Status \<times> MDSKVS" where
  "write_back bucket kvs r = (fst r, map_assign bucket (snd r) kvs)"

definition MDSKVS_createObject :: "MDSKVS \<Rightarrow> Object \<Rightarrow> bool \<Rightarrow> Status \<times> MDSKVS" where
  "MDSKVS_createObject kvs obj forceCreateBucket =
     (case MDSKVS_getBucket kvs (obj_bucket obj) of
        Inr b \<Rightarrow> write_back (obj_bucket obj) kvs (MDSKVSBucket_createObject b obj)
      | Inl s \<Rightarrow>
          if \<not> forceCreateBucket then (s, kvs)
          else case MDSKVS_createBucket kvs (obj_bucket obj) of (s', kvs') \<Rightarrow>
            if \<not> status_ok s' then (s', kvs')
            else case MDSKVS_getBucket kvs' (obj_bucket obj) of
                Inl s'' \<Rightarrow> (s'', kvs')
              | Inr b \<Rightarrow> write_back (obj_bucket obj) kvs' (MDSKVSBucket_createObject b obj))"

definition MDSKVS_updateObject :: "MDSKVS \<Rightarrow> Object \<Rightarrow> Status \<times> MDSKVS" where
  "MDSKVS_updateObject kvs obj =
     (case MDSKVS_getBucket kvs (obj_bucket obj) of
        Inl s \<Rightarrow> (s, kvs)
      | Inr b \<Rightarrow> write_back (obj_bucket obj) kvs (MDSKVSBucket_updateObject b obj))"

definition MDSKVS_deleteObject :: "MDSKVS \<Rightarrow> string \<Rightarrow> string \<Rightarrow> Status \<times> MDSKVS" where
  "MDSKVS_deleteObject kvs bucket key =
     (case MDSKVS_getBucket kvs bucket of
        Inl s \<Rightarrow> (s, kvs)
      | Inr b \<Rightarrow> write_back bucket kvs (MDSKVSBucket_deleteObject b key))"

definition MDSKVS_deleteObjectPrefix :: "MDSKVS \<Rightarrow> string \<Rightarrow> string \<Rightarrow> Status \<times> MDSKVS" where
  "MDSKVS_deleteObjectPrefix kvs bucket pfx =
     (case MDSKVS_getBucket kvs bucket of
        Inl s \<Rightarrow> (s, kvs)
      | Inr b \<Rightarrow> write_back bucket kvs (MDSKVSBucket_deleteObjectPrefix b pfx))"

definition MDSKVS_lookup :: "MDSKVS \<Rightarrow> string \<Rightarrow> string \<Rightarrow> Object StatusOr" where
  "MDSKVS_lookup kvs bucket key =
     (case MDSKVS_getBucket kvs bucket of
        Inl s \<Rightarrow> Inl s
      | Inr b \<Rightarrow> MDSKVSBucket_lookup b key)"

definition MDSKVS_listObjects ::
  "MDSKVS \<Rightarrow> string \<Rightarrow> string \<Rightarrow> char \<Rightarrow> (Object list \<times> string list) StatusOr" where
  "MDSKVS_listObjects kvs bucket pfx delimiter =
     (case MDSKVS_getBucket kvs bucket of
        Inl s \<Rightarrow> Inl s
      | Inr b \<Rightarrow> MDSKVSBucket_listObjects b pfx delimiter)"

text \<open>The overloads that take an \<open>ObjectID\<close>.\<close>

definition MDSKVS_getBucket_id :: "MDSKVS \<Rightarrow> ObjectID \<Rightarrow> MDSKVSBucket StatusOr" where
  "MDSKVS_getBucket_id kvs i = MDSKVS_getBucket kvs (id_bucket i)"

definition MDSKVS_deleteObject_id :: "MDSKVS \<Rightarrow> ObjectID \<Rightarrow> Status \<times> MDSKVS" where
  "MDSKVS_deleteObject_id kvs i =
     (case MDSKVS_getBucket_id kvs i of
        Inl s \<Rightarrow> (s, kvs)
      | Inr b \<Rightarrow> write_back (id_bucket i) kvs (MDSKVSBucket_deleteObject b (id_key i)))"

definition MDSKVS_deleteObjectPrefix_id :: "MDSKVS \<Rightarrow> ObjectID \<Rightarrow> Status \<times> MDSKVS" where
  "MDSKVS_deleteObjectPrefix_id kvs i =
     (case MDSKVS_getBucket_id kvs i of
        Inl s \<Rightarrow> (s, kvs)
      | Inr b \<Rightarrow> write_back (id_bucket i) kvs (MDSKVSBucket_deleteObjectPrefix b (id_key i)))"

definition MDSKVS_lookup_id :: "MDSKVS \<Rightarrow> ObjectID \<Rightarrow> Object StatusOr" where
  "MDSKVS_lookup_id kvs i =
     (case MDSKVS_getBucket_id kvs i of
        Inl s \<Rightarrow> Inl s
      | Inr b \<Rightarrow> MDSKVSBucket_lookup b (id_key i))"

definition MDSKVS_listObjects_id ::
  "MDSKVS \<Rightarrow> ObjectID \<Rightarrow> char \<Rightarrow> (Object list \<times> string list) StatusOr" where
  "MDSKVS_listObjects_id kvs i delimiter =
     (case MDSKVS_getBucket_id kvs i of
        Inl s \<Rightarrow> Inl s
      | Inr b \<Rightarrow> MDSKVSBucket_listObjects b (id_key i) delimiter)"

lemma MDSKVS_id_overloads [simp]:
  "MDSKVS_deleteObject_id kvs i = MDSKVS_deleteObject kvs (id_bucket i) (id_key i)"
  "MDSKVS_deleteObjectPrefix_id kvs i = MDSKVS_deleteObjectPrefix kvs (id_bucket i) (id_key i)"
  "MDSKVS_lookup_id kvs i = MDSKVS_lookup kvs (id_bucket i) (id_key i)"
  "MDSKVS_listObjects_id kvs i d = MDSKVS_listObjects kvs (id_bucket i) (id_key i) d"
  by (simp_all add: MDSKVS_deleteObject_id_def MDSKVS_deleteObject_def
      MDSKVS_deleteObjectPrefix_id_def MDSKVS_deleteObjectPrefix_def MDSKVS_lookup_id_def
      MDSKVS_lookup_def MDSKVS_listObjects_id_def MDSKVS_listObjects_def MDSKVS_getBucket_id_def)

section \<open>Representation invariant and abstraction\<close>

definition bucket_inv :: "MDSKVSBucket \<Rightarrow> bool" where
  "bucket_inv b \<longleftrightarrow> map_sorted (bucket_map b)"

definition kvs_inv :: "MDSKVS \<Rightarrow> bool" where
  "kvs_inv kvs \<longleftrightarrow> map_sorted kvs \<and>
     (\<forall>n b. map_of kvs n = Some b \<longrightarrow> bucket_name b = n \<and> bucket_inv b)"

text \<open>The contents of a bucket and of the store, as partial functions.\<close>

definition bucket_abs :: "MDSKVSBucket \<Rightarrow> string \<rightharpoonup> ObjectInfo" where
  "bucket_abs b = (\<lambda>k. map_of (bucket_map b) (Path k))"

definition kvs_abs :: "MDSKVS \<Rightarrow> string \<rightharpoonup> (string \<rightharpoonup> ObjectInfo)" where
  "kvs_abs kvs = (\<lambda>n. map_option bucket_abs (map_of kvs n))"

lemmas bucket_op_defs =
  MDSKVSBucket_getObject_def MDSKVSBucket_createObject_def MDSKVSBucket_updateObject_def
  MDSKVSBucket_deleteObject_def MDSKVSBucket_lookup_def

lemmas kvs_op_defs =
  MDSKVS_getBucket_def MDSKVS_createBucket_def MDSKVS_deleteBucket_def MDSKVS_bucketStatus_def
  MDSKVS_createObject_def MDSKVS_updateObject_def MDSKVS_deleteObject_def
  MDSKVS_deleteObjectPrefix_def MDSKVS_lookup_def write_back_def

lemma bucket_inv_new [simp]: "bucket_inv (MDSKVSBucket_new n)" "bucket_name (MDSKVSBucket_new n) = n"
  by (simp_all add: bucket_inv_def MDSKVSBucket_new_def)

lemma bucket_abs_new [simp]: "bucket_abs (MDSKVSBucket_new n) = Map.empty"
  by (simp add: bucket_abs_def MDSKVSBucket_new_def)

lemma bucket_deleteObjectPrefix_map:
  "bucket_inv b \<Longrightarrow> bucket_map (snd (MDSKVSBucket_deleteObjectPrefix b p))
     = filter (\<lambda>e. \<not> prefix p (path_name (fst e))) (bucket_map b)"
proof -
  assume i: "bucket_inv b"
  obtain f r t where s: "prefixSearch (bucket_map b) p = (f, r, t)" by (metis surj_pair)
  have "f @ t = filter (\<lambda>e. \<not> prefix p (path_name (fst e))) (bucket_map b)"
    using prefixSearch_erase [of "bucket_map b" p] s i by (simp add: bucket_inv_def)
  moreover have "bucket_map b = f @ r @ t"
    using s by (auto simp: prefixSearch_def equal_range_def Let_def)
  ultimately show ?thesis
    using s by (auto simp: MDSKVSBucket_deleteObjectPrefix_def)
qed

lemma bucket_ops_inv:
  assumes "bucket_inv b"
  shows "bucket_inv (snd (MDSKVSBucket_createObject b obj))"
    and "bucket_inv (snd (MDSKVSBucket_updateObject b obj))"
    and "bucket_inv (snd (MDSKVSBucket_deleteObject b k))"
    and "bucket_inv (snd (MDSKVSBucket_deleteObjectPrefix b p))"
  using assms bucket_deleteObjectPrefix_map [OF assms, of p]
  by (auto simp: bucket_op_defs bucket_inv_def map_sorted_filter split: option.splits sum.splits)

lemma bucket_ops_name [simp]:
  "bucket_name (snd (MDSKVSBucket_createObject b obj)) = bucket_name b"
  "bucket_name (snd (MDSKVSBucket_updateObject b obj)) = bucket_name b"
  "bucket_name (snd (MDSKVSBucket_deleteObject b k)) = bucket_name b"
  "bucket_name (snd (MDSKVSBucket_deleteObjectPrefix b p)) = bucket_name b"
  by (auto simp: bucket_op_defs MDSKVSBucket_deleteObjectPrefix_def
      split: option.splits sum.splits prod.splits)

lemma bucket_ops_abs:
  assumes "bucket_inv b"
  shows "bucket_abs (snd (MDSKVSBucket_createObject b obj))
      = (bucket_abs b)(obj_key obj \<mapsto> obj_info obj)"
    and "bucket_abs (snd (MDSKVSBucket_updateObject b obj)) =
      (if bucket_abs b (obj_key obj) = None then bucket_abs b
       else (bucket_abs b)(obj_key obj \<mapsto> obj_info obj))"
    and "bucket_abs (snd (MDSKVSBucket_deleteObject b k)) = (bucket_abs b)(k := None)"
    and "bucket_abs (snd (MDSKVSBucket_deleteObjectPrefix b p))
      = bucket_abs b |` {k. \<not> prefix p k}"
  using assms bucket_deleteObjectPrefix_map [OF assms, of p]
  by (auto simp: bucket_op_defs bucket_abs_def bucket_inv_def fun_eq_iff restrict_map_def
      map_of_filter_key [where P = "\<lambda>q. \<not> prefix p (path_name q)"]
      split: option.splits sum.splits)

lemma kvs_inv_get: "kvs_inv kvs \<Longrightarrow> map_of kvs n = Some b \<Longrightarrow> bucket_inv b \<and> bucket_name b = n"
  by (simp add: kvs_inv_def)

lemma kvs_inv_sorted [simp]: "kvs_inv kvs \<Longrightarrow> map_sorted kvs"
  by (simp add: kvs_inv_def)

lemma kvs_inv_assign:
  "kvs_inv kvs \<Longrightarrow> bucket_inv b \<Longrightarrow> bucket_name b = n \<Longrightarrow> kvs_inv (map_assign n b kvs)"
  by (simp add: kvs_inv_def)

lemma kvs_inv_erase: "kvs_inv kvs \<Longrightarrow> kvs_inv (map_erase n kvs)"
  by (simp add: kvs_inv_def)

lemma kvs_inv_new: "kvs_inv (MDSKVS_new d)"
  by (auto simp: MDSKVS_new_def MDSKVS_createBucket_def kvs_inv_def split: option.splits)

lemma kvs_ops_inv:
  assumes "kvs_inv kvs"
  shows "kvs_inv (snd (MDSKVS_createBucket kvs n))"
    and "kvs_inv (snd (MDSKVS_deleteBucket kvs n))"
    and "kvs_inv (snd (MDSKVS_createObject kvs obj force))"
    and "kvs_inv (snd (MDSKVS_updateObject kvs obj))"
    and "kvs_inv (snd (MDSKVS_deleteObject kvs n k))"
    and "kvs_inv (snd (MDSKVS_deleteObjectPrefix kvs n p))"
  using assms
  by (auto simp: kvs_op_defs kvs_inv_get kvs_inv_assign kvs_inv_erase bucket_ops_inv
      split: option.splits sum.splits prod.splits)

lemma kvs_abs_assign [simp]:
  "kvs_inv kvs \<Longrightarrow> kvs_abs (map_assign n b kvs) = (kvs_abs kvs)(n \<mapsto> bucket_abs b)"
  by (auto simp: kvs_abs_def kvs_inv_def fun_eq_iff)

lemma kvs_abs_erase [simp]: "kvs_inv kvs \<Longrightarrow> kvs_abs (map_erase n kvs) = (kvs_abs kvs)(n := None)"
  by (auto simp: kvs_abs_def kvs_inv_def fun_eq_iff)

section \<open>Listing\<close>

text \<open>
  The common prefix an object name is folded into: the searched prefix, the name up to the next
  delimiter, and the delimiter.
\<close>

definition common_prefix :: "string \<Rightarrow> char \<Rightarrow> string \<Rightarrow> string option" where
  "common_prefix p d k =
     (if d \<noteq> CHR 0x00 \<and> d \<in> set (drop (length p) k)
      then Some (p @ takeWhile (\<lambda>c. c \<noteq> d) (drop (length p) k) @ [d]) else None)"

lemma str_find_takeWhile:
  "str_find d s = Some i \<Longrightarrow> take (Suc i) s = takeWhile (\<lambda>c. c \<noteq> d) s @ [d]"
  by (induction s arbitrary: i) (auto split: if_splits)

lemma common_prefix_find:
  assumes "prefix p k"
  shows "(if d \<noteq> CHR 0x00 then map_option (\<lambda>loc. take (loc + 1) k) (str_find_from d k (length p))
      else None) = common_prefix p d k"
proof -
  from assms obtain t where k: "k = p @ t" by (auto simp: prefix_def)
  show ?thesis
    by (cases "str_find d t") (auto simp: k common_prefix_def str_find_from_def str_simps
        str_find_takeWhile dest: str_find_SomeD)
qed

lemma listObjects_loop_eq:
  assumes "\<forall>e \<in> set rng. prefix p (path_name (fst e))"
  shows "listObjects_loop n (length p) d rng res cps =
    (res @ map (\<lambda>(q, i). mk_Object n (path_name q) i)
        (filter (\<lambda>e. common_prefix p d (path_name (fst e)) = None) rng),
     fold set_insert (List.map_filter (\<lambda>e. common_prefix p d (path_name (fst e))) rng) cps)"
  using assms
proof (induction rng arbitrary: res cps)
  case Nil
  then show ?case by simp
next
  case (Cons e rng)
  obtain q i where e: "e = (q, i)" by force
  then have c: "common_prefix p d (path_name q) =
      (if d \<noteq> CHR 0x00 then map_option (\<lambda>loc. take (loc + 1) (path_name q))
         (str_find_from d (path_name q) (length p)) else None)"
    using Cons.prems common_prefix_find [of p "path_name q" d] by auto
  show ?case
    using Cons.IH Cons.prems c
    by (cases "if d \<noteq> CHR 0x00 then str_find_from d (path_name q) (length p) else None")
      (auto simp: e split: if_splits)
qed

lemma fold_set_insert:
  "sorted_wrt (<) s \<Longrightarrow> fold set_insert xs s = sorted_list_of_set (set xs \<union> set s)"
proof (induction xs arbitrary: s)
  case Nil
  then show ?case by (simp add: sorted_list_of_set_eq)
next
  case (Cons x xs)
  then show ?case by (simp add: Un_commute insert_commute)
qed

text \<open>What a listing of a bucket must contain, in terms of the abstract contents.\<close>

definition listing_spec ::
  "string \<Rightarrow> (string \<rightharpoonup> ObjectInfo) \<Rightarrow> string \<Rightarrow> char \<Rightarrow> Object list \<times> string list" where
  "listing_spec n f p d =
     (map (\<lambda>k. mk_Object n k (the (f k)))
        (sorted_list_of_set {k \<in> dom f. prefix p k \<and> common_prefix p d k = None}),
      sorted_list_of_set {c. \<exists>k \<in> dom f. prefix p k \<and> common_prefix p d k = Some c})"

lemma map_sorted_names:
  fixes m :: "(Path, 'v) std_map"
  assumes "map_sorted m" and "\<And>q i. (q, i) \<in> set m \<Longrightarrow> g (path_name q) = Some i"
  shows "map (\<lambda>(q, i). F (path_name q) i) m
    = map (\<lambda>k. F k (the (g k))) (sorted_list_of_set ((path_name \<circ> fst) ` set m))"
proof -
  have "sorted_wrt (<) (map (path_name \<circ> fst) m)"
    using assms(1) by (simp add: map_sorted_def sorted_wrt_map less_Path_def)
  then have "sorted_list_of_set ((path_name \<circ> fst) ` set m) = map (path_name \<circ> fst) m"
    by (metis list.set_map sorted_list_of_set_eq)
  with assms(2) show ?thesis by auto
qed

lemma MDSKVSBucket_listObjects_spec:
  assumes "bucket_inv b"
  shows "MDSKVSBucket_listObjects b p d = Inr (listing_spec (bucket_name b) (bucket_abs b) p d)"
proof -
  let ?m = "bucket_map b" and ?c = "\<lambda>e :: Path \<times> ObjectInfo. common_prefix p d (path_name (fst e))"
  let ?r = "filter (\<lambda>e. prefix p (path_name (fst e))) ?m"
  have s: "map_sorted ?m" using assms by (simp add: bucket_inv_def)
  have r: "fst (snd (prefixSearch ?m p)) = ?r" using s by (rule prefixSearch_range)
  let ?k = "\<lambda>q. prefix p (path_name q) \<and> common_prefix p d (path_name q) = None"
  have kept: "filter (\<lambda>e. ?c e = None) ?r = filter (\<lambda>e. ?k (fst e)) ?m"
    by (simp add: conj_commute)
  have dom: "dom (bucket_abs b) = (path_name \<circ> fst) ` set ?m"
    by (auto simp: bucket_abs_def dom_def image_iff map_of_in_sorted [OF s] Bex_def)
      (metis Path.sel)
  have val: "bucket_abs b (path_name q) = Some i" if "(q, i) \<in> set ?m" for q i
    using that s by (simp add: bucket_abs_def map_of_in_sorted)
  have "map (\<lambda>(q, i). mk_Object (bucket_name b) (path_name q) i) (filter (\<lambda>e. ?c e = None) ?r)
      = fst (listing_spec (bucket_name b) (bucket_abs b) p d)"
    using s unfolding kept listing_spec_def dom
    by (subst map_sorted_names [where g = "bucket_abs b"])
      (auto simp: map_sorted_filter val intro!: arg_cong [where f = "\<lambda>S. map _ (sorted_list_of_set S)"])
  moreover have "fold set_insert (List.map_filter ?c ?r) []
      = snd (listing_spec (bucket_name b) (bucket_abs b) p d)"
    by (simp add: fold_set_insert listing_spec_def)
      (rule arg_cong [where f = sorted_list_of_set], force simp: dom map_filter_def)
  moreover obtain f t where "prefixSearch ?m p = (f, ?r, t)"
    using r by (metis prod.collapse)
  ultimately show ?thesis
    by (simp add: MDSKVSBucket_listObjects_def listObjects_loop_eq)
qed

lemma finite_dom_bucket_abs [simp]: "finite (dom (bucket_abs b))"
proof -
  have "dom (bucket_abs b) = Path -` dom (map_of (bucket_map b))"
    by (auto simp: bucket_abs_def dom_def)
  then show ?thesis
    by (simp add: finite_vimageI finite_dom_map_of inj_def)
qed

lemma common_prefix_dom: "{c. \<exists>k \<in> D. Q k \<and> common_prefix p d k = Some c}
    = (\<lambda>k. the (common_prefix p d k)) ` {k \<in> D. Q k \<and> common_prefix p d k \<noteq> None}"
  by (force simp: image_iff)

lemma listing_spec_sorted:
  "sorted_wrt (<) (map obj_key (fst (listing_spec n f p d)))"
  "sorted_wrt (<) (snd (listing_spec n f p d))"
  by (simp_all add: listing_spec_def comp_def sorted_list_of_set.strict_sorted_key_list_of_set)

lemma listing_spec_objects:
  assumes "finite (dom f)"
  shows "set (fst (listing_spec n f p d)) = {mk_Object n k i | k i. f k = Some i \<and> prefix p k \<and>
    (d = CHR 0x00 \<or> d \<notin> set (drop (length p) k))}"
  using assms by (force simp: listing_spec_def common_prefix_def image_iff)

lemma common_prefix_Some:
  assumes "prefix p k"
  shows "common_prefix p d k = Some c \<longleftrightarrow>
    (\<exists>s. c = p @ s @ [d] \<and> d \<noteq> CHR 0x00 \<and> d \<notin> set s \<and> prefix c k)"
proof -
  from assms obtain t where k: "k = p @ t" by (auto simp: prefix_def)
  let ?w = "takeWhile (\<lambda>c. c \<noteq> d) t"
  have uniq: "?w = s \<and> d \<in> set t" if "prefix (s @ [d]) t" "d \<notin> set s" for s
    using that by (auto simp: prefix_def takeWhile_sep)
  have w: "d \<notin> set ?w" by (auto dest: set_takeWhileD)
  have "prefix (?w @ [d]) t" if "d \<in> set t"
    using split_list_first [OF that] by (auto simp: takeWhile_sep prefix_def)
  with w uniq have "d \<in> set t \<and> c = p @ ?w @ [d] \<longleftrightarrow>
      (\<exists>s. c = p @ s @ [d] \<and> d \<notin> set s \<and> prefix (s @ [d]) t)" by blast
  then show ?thesis
    by (auto simp: k common_prefix_def)
qed

lemma listing_spec_prefixes:
  assumes "finite (dom f)"
  shows "set (snd (listing_spec n f p d)) = {p @ s @ [d] | s. d \<noteq> CHR 0x00 \<and> d \<notin> set s \<and>
    (\<exists>k \<in> dom f. prefix (p @ s @ [d]) k)}"
proof -
  have "set (snd (listing_spec n f p d)) = {c. \<exists>k \<in> dom f. prefix p k \<and> common_prefix p d k = Some c}"
    using assms by (simp add: listing_spec_def common_prefix_dom)
  also have "\<dots> = {c. \<exists>k \<in> dom f. \<exists>s. c = p @ s @ [d] \<and> d \<noteq> CHR 0x00 \<and> d \<notin> set s \<and> prefix c k}"
    using common_prefix_Some append_prefixD by (metis (lifting))
  also have "\<dots> = {p @ s @ [d] | s. d \<noteq> CHR 0x00 \<and> d \<notin> set s \<and>
      (\<exists>k \<in> dom f. prefix (p @ s @ [d]) k)}"
    by blast
  finally show ?thesis .
qed

section \<open>Histories of the store\<close>

datatype kvs_op =
    CreateBucket string | DeleteBucket string | ListBuckets | BucketStatus string
  | CreateObject Object bool | UpdateObject Object | DeleteObject string string
  | DeletePrefix string string | Lookup string string | ListObjects string string char

datatype kvs_result =
    RStatus Status | RObject "Object StatusOr" | RBuckets "string list StatusOr"
  | RListing "(Object list \<times> string list) StatusOr"

fun kvs_step :: "kvs_op \<Rightarrow> MDSKVS \<Rightarrow> kvs_result \<times> MDSKVS" where
  "kvs_step (CreateBucket n) s = apfst RStatus (MDSKVS_createBucket s n)"
| "kvs_step (DeleteBucket n) s = apfst RStatus (MDSKVS_deleteBucket s n)"
| "kvs_step ListBuckets s = (RBuckets (MDSKVS_listBuckets s), s)"
| "kvs_step (BucketStatus n) s = (RStatus (MDSKVS_bucketStatus s n), s)"
| "kvs_step (CreateObject obj force) s = apfst RStatus (MDSKVS_createObject s obj force)"
| "kvs_step (UpdateObject obj) s = apfst RStatus (MDSKVS_updateObject s obj)"
| "kvs_step (DeleteObject n k) s = apfst RStatus (MDSKVS_deleteObject s n k)"
| "kvs_step (DeletePrefix n p) s = apfst RStatus (MDSKVS_deleteObjectPrefix s n p)"
| "kvs_step (Lookup n k) s = (RObject (MDSKVS_lookup s n k), s)"
| "kvs_step (ListObjects n p d) s = (RListing (MDSKVS_listObjects s n p d), s)"

fun kvs_run :: "kvs_op list \<Rightarrow> MDSKVS \<Rightarrow> kvs_result list \<times> MDSKVS" where
  "kvs_run [] s = ([], s)"
| "kvs_run (x # xs) s =
     (fst (kvs_step x s) # fst (kvs_run xs (snd (kvs_step x s))),
      snd (kvs_run xs (snd (kvs_step x s))))"

text \<open>
  The contract of the metadata service: a two-level partial function. A missing bucket is reported
  before anything else; deleting a prefix reports \<open>kNotFound\<close> only when every name sorts
  before the prefix.
\<close>

type_synonym kvs_spec = "string \<rightharpoonup> (string \<rightharpoonup> ObjectInfo)"

definition no_bucket :: "string \<Rightarrow> Status" where
  "no_bucket n = NotFoundError (''Bucket '' @ n @ '' does not exist.'')"

definition no_key :: "string \<Rightarrow> Status" where
  "no_key k = NotFoundError (''Key '' @ k @ '' does not exist.'')"

definition in_bucket ::
  "(Status \<Rightarrow> 'r) \<Rightarrow> string \<Rightarrow> ((string \<rightharpoonup> ObjectInfo) \<Rightarrow> 'r \<times> (string \<rightharpoonup> ObjectInfo))
     \<Rightarrow> kvs_spec \<Rightarrow> 'r \<times> kvs_spec" where
  "in_bucket err n F f =
     (case f n of None \<Rightarrow> (err (no_bucket n), f) | Some g \<Rightarrow> (fst (F g), f(n \<mapsto> snd (F g))))"

fun spec_kvs_step :: "kvs_op \<Rightarrow> kvs_spec \<Rightarrow> kvs_result \<times> kvs_spec" where
  "spec_kvs_step (CreateBucket n) f =
     (if f n \<noteq> None then (RStatus (AlreadyExistsError (''Bucket '' @ n @ '' already exists.'')), f)
      else (RStatus OkStatus, f(n \<mapsto> Map.empty)))"
| "spec_kvs_step (DeleteBucket n) f =
     (RStatus (if f n = None then no_bucket n else OkStatus), f(n := None))"
| "spec_kvs_step ListBuckets f = (RBuckets (Inr (sorted_list_of_set (dom f))), f)"
| "spec_kvs_step (BucketStatus n) f =
     (RStatus (if f n = None then no_bucket n else OkStatus), f)"
| "spec_kvs_step (CreateObject obj force) f =
     in_bucket RStatus (obj_bucket obj) (\<lambda>g. (RStatus OkStatus, g(obj_key obj \<mapsto> obj_info obj)))
       (if force \<and> f (obj_bucket obj) = None then f(obj_bucket obj \<mapsto> Map.empty) else f)"
| "spec_kvs_step (UpdateObject obj) f =
     in_bucket RStatus (obj_bucket obj)
       (\<lambda>g. if g (obj_key obj) = None then (RStatus (no_key (obj_key obj)), g)
            else (RStatus OkStatus, g(obj_key obj \<mapsto> obj_info obj))) f"
| "spec_kvs_step (DeleteObject n k) f =
     in_bucket RStatus n
       (\<lambda>g. (RStatus (if g k = None then no_key k else OkStatus), g(k := None))) f"
| "spec_kvs_step (DeletePrefix n p) f =
     in_bucket RStatus n
       (\<lambda>g. (RStatus (if \<forall>k \<in> dom g. k < p
               then NotFoundError (''No objects starting with '' @ p @ '' found.'') else OkStatus),
             g |` {k. \<not> prefix p k})) f"
| "spec_kvs_step (Lookup n k) f =
     in_bucket (RObject \<circ> Inl) n
       (\<lambda>g. (RObject (case g k of None \<Rightarrow> Inl (no_key k) | Some i \<Rightarrow> Inr (mk_Object n k i)), g)) f"
| "spec_kvs_step (ListObjects n p d) f =
     in_bucket (RListing \<circ> Inl) n (\<lambda>g. (RListing (Inr (listing_spec n g p d)), g)) f"

fun spec_kvs_run :: "kvs_op list \<Rightarrow> kvs_spec \<Rightarrow> kvs_result list \<times> kvs_spec" where
  "spec_kvs_run [] f = ([], f)"
| "spec_kvs_run (x # xs) f =
     (fst (spec_kvs_step x f) # fst (spec_kvs_run xs (snd (spec_kvs_step x f))),
      snd (spec_kvs_run xs (snd (spec_kvs_step x f))))"

lemma kvs_step_inv: "kvs_inv s \<Longrightarrow> kvs_inv (snd (kvs_step x s))"
  by (cases x) (simp_all add: kvs_ops_inv)

lemma kvs_abs_None [simp]: "kvs_abs s n = None \<longleftrightarrow> map_of s n = None"
  by (simp add: kvs_abs_def)

lemma kvs_abs_NoneI: "map_of s n = None \<Longrightarrow> kvs_abs s n = None"
  by simp

lemma kvs_abs_Some: "map_of s n = Some b \<Longrightarrow> kvs_abs s n = Some (bucket_abs b)"
  by (simp add: kvs_abs_def)

lemma kvs_abs_upd_same [simp]: "map_of s n = Some b \<Longrightarrow> (kvs_abs s)(n \<mapsto> bucket_abs b) = kvs_abs s"
  by (auto simp: kvs_abs_def)

lemma deleteObjectPrefix_status:
  assumes "bucket_inv b"
  shows "fst (MDSKVSBucket_deleteObjectPrefix b p) =
    (if \<forall>k \<in> dom (bucket_abs b). k < p
     then NotFoundError (''No objects starting with '' @ p @ '' found.'') else OkStatus)"
proof -
  have "(\<forall>k \<in> dom (bucket_abs b). k < p) \<longleftrightarrow> (\<forall>q \<in> fst ` set (bucket_map b). path_name q < p)"
    using assms by (auto simp: bucket_abs_def bucket_inv_def dom_def map_of_in_sorted Ball_def)
      (metis Path.collapse)
  then show ?thesis
    using prefixSearch_at_end [of "bucket_map b" p] assms
    by (auto simp: MDSKVSBucket_deleteObjectPrefix_def bucket_inv_def split: prod.splits)
qed

lemma bucket_ops_status:
  "fst (MDSKVSBucket_createObject b obj) = OkStatus"
  "fst (MDSKVSBucket_updateObject b obj) =
     (if bucket_abs b (obj_key obj) = None then no_key (obj_key obj) else OkStatus)"
  "fst (MDSKVSBucket_deleteObject b k) = (if bucket_abs b k = None then no_key k else OkStatus)"
  "MDSKVSBucket_lookup b k = (case bucket_abs b k of None \<Rightarrow> Inl (no_key k)
     | Some i \<Rightarrow> Inr (mk_Object (bucket_name b) k i))"
  by (auto simp: bucket_op_defs bucket_abs_def no_key_def split: option.splits sum.splits)

lemmas kvs_refine_simps =
  in_bucket_def kvs_abs_Some kvs_abs_NoneI bucket_ops_abs bucket_ops_status deleteObjectPrefix_status
  MDSKVSBucket_listObjects_spec no_bucket_def

lemma kvs_step_refines:
  assumes "kvs_inv s"
  shows "spec_kvs_step x (kvs_abs s) = apsnd kvs_abs (kvs_step x s)"
proof (cases x)
  case ListBuckets
  have "dom (kvs_abs s) = fst ` set s"
    by (auto simp: kvs_abs_def dom_map_option dom_map_of_conv_image_fst)
  moreover have "sorted_wrt (<) (map fst s)"
    using kvs_inv_sorted [OF assms] by (simp add: map_sorted_def)
  ultimately show ?thesis
    using sorted_list_of_set_eq [of "map fst s"] ListBuckets by (simp add: MDSKVS_listBuckets_def)
next
  case (CreateObject obj force)
  then show ?thesis
    using assms kvs_inv_get [OF assms, of "obj_bucket obj"]
    by (cases "map_of s (obj_bucket obj)")
      (auto simp: kvs_op_defs kvs_refine_simps kvs_inv_assign split: prod.splits)
qed (use assms kvs_inv_get [OF assms] in
    \<open>auto simp: kvs_op_defs MDSKVS_listObjects_def kvs_refine_simps split: option.splits prod.splits\<close>)

text \<open>
  C3. Refinement of the metadata store: for every sequence of calls on a well-formed store, the
  sorted maps of buckets and paths answer exactly as the two-level partial function does (statuses
  with their messages, looked-up objects, bucket lists and listings), and end with its contents.
\<close>

theorem kvs_run_refines:
  assumes "kvs_inv s"
  shows "apsnd kvs_abs (kvs_run xs s) = spec_kvs_run xs (kvs_abs s)"
  using assms
proof (induction xs arbitrary: s)
  case Nil
  then show ?case by simp
next
  case (Cons x xs)
  from Cons.IH [OF kvs_step_inv [OF Cons.prems, of x]] show ?case
    by (cases "kvs_run xs (snd (kvs_step x s))")
      (simp add: kvs_step_refines [OF Cons.prems], metis fst_conv snd_conv)
qed

text \<open>A store on which the hypotheses are evaluated: one bucket with three objects.\<close>

definition sample_info :: ObjectInfo where
  "sample_info = \<lparr>info_location = ''geds://h:1'', info_size = 4, info_sealedOffset = 4,
     info_metadata = None\<rparr>"

definition sample_kvs :: MDSKVS where
  "sample_kvs = snd (kvs_run
     [CreateBucket ''bkt'', CreateObject (mk_Object ''bkt'' ''a/x'' sample_info) False,
      CreateObject (mk_Object ''bkt'' ''a'' sample_info) False,
      CreateObject (mk_Object ''bkt'' ''c'' sample_info) False] (MDSKVS_new None))"

lemma kvs_run_inv: "kvs_inv s \<Longrightarrow> kvs_inv (snd (kvs_run xs s))"
  by (induction xs arbitrary: s) (simp_all add: kvs_step_inv)

lemma sample_kvs_inv [simp]: "kvs_inv sample_kvs"
  unfolding sample_kvs_def by (rule kvs_run_inv [OF kvs_inv_new])

theorem kvs_run_refines_witness:
  "kvs_inv sample_kvs \<and>
   apsnd kvs_abs (kvs_run [DeletePrefix ''bkt'' ''a/'', Lookup ''bkt'' ''a/x''] sample_kvs)
     = spec_kvs_run [DeletePrefix ''bkt'' ''a/'', Lookup ''bkt'' ''a/x''] (kvs_abs sample_kvs)"
  by (rule conjI [OF _ kvs_run_refines]) simp_all

text \<open>
  C13. The listing of a bucket is complete and duplicate-free: every stored name with the prefix is
  either returned as an object or folded into one common prefix, never both; every returned object
  is a stored one with its own description, in increasing order of names; and every common prefix
  stands for at least one stored name that starts with it.
\<close>

theorem MDSKVSBucket_listObjects_complete:
  assumes "bucket_inv b"
    and "MDSKVSBucket_listObjects b p d = Inr (objs, cps)"
  shows "sorted_wrt (<) (map obj_key objs) \<and> sorted_wrt (<) cps \<and>
    set objs = {mk_Object (bucket_name b) k i | k i.
      bucket_abs b k = Some i \<and> prefix p k \<and> (d = CHR 0x00 \<or> d \<notin> set (drop (length p) k))} \<and>
    set cps = {p @ s @ [d] | s. d \<noteq> CHR 0x00 \<and> d \<notin> set s \<and>
      (\<exists>k \<in> dom (bucket_abs b). prefix (p @ s @ [d]) k)}"
proof -
  let ?l = "listing_spec (bucket_name b) (bucket_abs b) p d"
  have "objs = fst ?l" "cps = snd ?l"
    using assms by (simp_all add: MDSKVSBucket_listObjects_spec)
  then show ?thesis
    by (simp only: listing_spec_sorted listing_spec_objects [OF finite_dom_bucket_abs]
        listing_spec_prefixes [OF finite_dom_bucket_abs] simp_thms)
qed

theorem MDSKVSBucket_listObjects_complete_witness:
  "bucket_inv (snd (hd sample_kvs)) \<and>
   MDSKVSBucket_listObjects (snd (hd sample_kvs)) ''a'' CHR ''/'' =
     Inr ([mk_Object ''bkt'' ''a'' sample_info], [''a/'']) \<and>
   set [''a/''] = {''a'' @ s @ [CHR ''/''] | s. CHR ''/'' \<noteq> CHR 0x00 \<and> CHR ''/'' \<notin> set s \<and>
      (\<exists>k \<in> dom (bucket_abs (snd (hd sample_kvs))). prefix (''a'' @ s @ [CHR ''/'']) k)}"
proof -
  have i: "bucket_inv (snd (hd sample_kvs))" by code_simp
  have l: "MDSKVSBucket_listObjects (snd (hd sample_kvs)) ''a'' CHR ''/'' =
     Inr ([mk_Object ''bkt'' ''a'' sample_info], [''a/''])" by code_simp
  from i l MDSKVSBucket_listObjects_complete [OF i l] show ?thesis by blast
qed

text \<open>
  C14. Deleting a prefix removes exactly the objects whose name starts with it and keeps every other
  object; it reports \<open>kNotFound\<close>, changing nothing, when every name sorts before the prefix. (A name
  that sorts behind the prefix without starting with it makes an empty deletion report success.)
\<close>

theorem MDSKVSBucket_deleteObjectPrefix_exact:
  assumes "bucket_inv b"
  shows "bucket_abs (snd (MDSKVSBucket_deleteObjectPrefix b p)) = bucket_abs b |` {k. \<not> prefix p k} \<and>
    (status_code (fst (MDSKVSBucket_deleteObjectPrefix b p)) = kNotFound
       \<longleftrightarrow> (\<forall>k \<in> dom (bucket_abs b). k < p))"
  using assms by (simp add: bucket_ops_abs deleteObjectPrefix_status)

theorem MDSKVSBucket_deleteObjectPrefix_exact_witness:
  "bucket_inv (snd (hd sample_kvs)) \<and>
   bucket_abs (snd (MDSKVSBucket_deleteObjectPrefix (snd (hd sample_kvs)) ''b''))
     = bucket_abs (snd (hd sample_kvs)) |` {k. \<not> prefix ''b'' k} \<and>
   fst (MDSKVSBucket_deleteObjectPrefix (snd (hd sample_kvs)) ''b'') = OkStatus"
proof -
  have i: "bucket_inv (snd (hd sample_kvs))" by code_simp
  have "fst (MDSKVSBucket_deleteObjectPrefix (snd (hd sample_kvs)) ''b'') = OkStatus" by code_simp
  with i MDSKVSBucket_deleteObjectPrefix_exact [OF i] show ?thesis by blast
qed

end
