(* ===== verification/Metadata_Server.thy ===== *)
theory Metadata_Server
  imports Metadata_Store S3_Endpoint
begin

text \<open>
  The metadata server: \<^verbatim>\<open>src/metadataservice/GRPCServer.cpp\<close>, \<^verbatim>\<open>ObjectStoreHandler.cpp\<close>,
  \<^verbatim>\<open>S3Helper.cpp\<close> and \<^verbatim>\<open>src/protos/ParseGRPC.cpp\<close>. The messages are those of \<^verbatim>\<open>geds.proto\<close>;
  a handler takes the request and the server state and gives the response and the new state. Access
  logging is left out. Every handler returns \<open>grpc::Status::OK\<close>; failures travel in the response.
\<close>

section \<open>Messages\<close>

record rpc_Object =
  ro_bucket :: string
  ro_key :: string
  ro_location :: string
  ro_size :: u64
  ro_sealedoffset :: u64
  ro_metadata :: "string option"

definition empty_rpc_Object :: rpc_Object where
  "empty_rpc_Object = \<lparr>ro_bucket = '''', ro_key = '''', ro_location = '''', ro_size = 0,
     ro_sealedoffset = 0, ro_metadata = None\<rparr>"

record ConnectionInformation =
  ci_remoteaddress :: string
  ci_error :: "StatusResponse option"

record BucketListResponse =
  bl_results :: "string list"
  bl_error :: "StatusResponse option"

record ObjectListRequest =
  olr_prefix :: ObjectID
  olr_delimiter :: "int option"

record ObjectListResponse =
  ol_results :: "rpc_Object list"
  ol_commonprefixes :: "string list"
  ol_error :: "StatusResponse option"

record ObjectResponse =
  or_result :: rpc_Object
  or_error :: "StatusResponse option"

definition convert_Object :: "rpc_Object \<Rightarrow> Object" where
  "convert_Object r = mk_Object (ro_bucket r) (ro_key r)
     \<lparr>info_location = ro_location r, info_size = ro_size r, info_sealedOffset = ro_sealedoffset r,
      info_metadata = ro_metadata r\<rparr>"

text \<open>Filling the message of an object, as the \<open>Lookup\<close> handler does field by field.\<close>

definition encode_Object :: "Object \<Rightarrow> rpc_Object" where
  "encode_Object x =
     \<lparr>ro_bucket = obj_bucket x, ro_key = obj_key x, ro_location = info_location (obj_info x),
      ro_size = info_size (obj_info x), ro_sealedoffset = info_sealedOffset (obj_info x),
      ro_metadata = info_metadata (obj_info x)\<rparr>"

lemma convert_encode [simp]: "convert_Object (encode_Object x) = x"
  by (simp add: convert_Object_def encode_Object_def mk_Object_def mk_ObjectID_def)

lemma encode_convert [simp]: "encode_Object (convert_Object r) = r"
  by (simp add: convert_Object_def encode_Object_def)

definition error_response :: "Status \<Rightarrow> StatusResponse" where
  "error_response s = convertStatus_to empty_StatusResponse s"

section \<open>Peer addresses\<close>

text \<open>
  \<open>peerInfo.substr(5)\<close> throws \<open>std::out_of_range\<close> when the string has fewer than five characters;
  \<open>substr(0, npos)\<close> is the whole string.
\<close>

definition GetAddressFromGRPCPeer :: "string \<Rightarrow> string StatusOr outcome" where
  "GetAddressFromGRPCPeer peerInfo =
     (if CHR '','' \<in> set peerInfo
      then Returns (Inl (UnknownError (''Peer information '' @ peerInfo @
             '' contains multiple IP addresses!'')))
      else if length peerInfo < 5 then Raises ''std::out_of_range''
      else
        let view = drop 5 peerInfo in
        if take 5 peerInfo = ''ipv4:'' then
          (case str_find CHR '':'' view of
             Some 0 \<Rightarrow> Returns (Inl (UnknownError (''Unable to parse ip from peer '' @ peerInfo @
                         '' (unexpected length)'')))
           | Some pos \<Rightarrow> Returns (Inr (take pos view))
           | None \<Rightarrow> Returns (Inr view))
        else if take 5 peerInfo = ''ipv6:'' then
          (case str_find CHR '']'' view of
             Some 0 \<Rightarrow> Returns (Inl (UnknownError (''Invalid IPv6 peer '' @ peerInfo)))
           | Some pos \<Rightarrow> Returns (Inr (take (pos + 1) view))
           | None \<Rightarrow> Returns (Inr view))
        else Returns (Inl (UnknownError (''Unable to parse peer '' @ peerInfo @
               '' (unknown GRPC peer format)''))))"

section \<open>Object store configurations\<close>

type_synonym ObjectStoreHandler = "(string, ObjectStoreConfig) std_map"

definition ObjectStoreHandler_insertConfig ::
  "ObjectStoreHandler \<Rightarrow> ObjectStoreConfig \<Rightarrow> Status \<times> ObjectStoreHandler" where
  "ObjectStoreHandler_insertConfig h config =
     (let key = cfg_bucket config in
      if map_of h key \<noteq> None
      then (AlreadyExistsError (''ObjectStore config for bucket already exists: '' @ [CHR 0x27] @ key @
              [CHR 0x27] @ ''.''), h)
      else (OkStatus, map_assign key config h))"

definition ObjectStoreHandler_listConfigs :: "ObjectStoreHandler \<Rightarrow> ObjectStoreConfig list" where
  "ObjectStoreHandler_listConfigs h = map snd h"

text \<open>
  \<open>PopulateKVS\<close>: the objects that exist in the S3 bucket become objects of the store, at an
  \<open>s3://\<close> location. The bucket pointer is held over the loop; its changes are stored at the end.
\<close>

definition populate_object :: "string \<Rightarrow> GEDSFileStatus \<Rightarrow> Object" where
  "populate_object bucket f =
     (let slash = (length (fs_key f) > 0 \<and> fs_key f ! 0 = CHR ''/'')
      in mk_Object bucket (fs_key f)
           \<lparr>info_location = ''s3://'' @ bucket @ (if slash then '''' else ''/'') @ fs_key f,
            info_size = fs_size f, info_sealedOffset = fs_size f, info_metadata = None\<rparr>)"

definition populate_file :: "string \<Rightarrow> GEDSFileStatus \<Rightarrow> MDSKVSBucket \<Rightarrow> MDSKVSBucket" where
  "populate_file bucket f b =
     (if fs_isDirectory f then b
      else snd (MDSKVSBucket_createObject b (populate_object bucket f)))"

definition PopulateKVS ::
  "nat \<Rightarrow> (Endpoint \<Rightarrow> 'w S3Client) \<Rightarrow> ObjectStoreConfig \<Rightarrow> MDSKVS \<times> 'w s3_state
     \<Rightarrow> (Status \<times> MDSKVS \<times> 'w s3_state) option" where
  "PopulateKVS fuel clients config st =
     (case st of (kvs, w) \<Rightarrow>
      case MDSKVS_createBucket kvs (cfg_bucket config) of (status, kvs1) \<Rightarrow>
        if \<not> status_ok status \<and> status_code status \<noteq> kAlreadyExists then Some (status, kvs1, w)
        else case MDSKVS_getBucket kvs1 (cfg_bucket config) of
            Inl s \<Rightarrow> Some (s, kvs1, w)
          | Inr b \<Rightarrow>
              let endpoint = Endpoint_new (cfg_endpointURL config) (cfg_accessKey config)
                               (cfg_secretKey config)
              in case Endpoint_list fuel (clients endpoint) (cfg_bucket config) '''' CHR 0x00 w of
                  None \<Rightarrow> None
                | Some (Inl s, w') \<Rightarrow> Some (s, kvs1, w')
                | Some (Inr files, w') \<Rightarrow>
                    Some (OkStatus,
                      map_assign (cfg_bucket config)
                        (fold (populate_file (cfg_bucket config)) files b) kvs1, w'))"

section \<open>The handlers\<close>

record MetadataServiceImpl =
  srv_kvs :: MDSKVS
  srv_objectStores :: ObjectStoreHandler

definition MetadataServiceImpl_new :: "string option \<Rightarrow> MetadataServiceImpl" where
  "MetadataServiceImpl_new default_bucket =
     \<lparr>srv_kvs = MDSKVS_new default_bucket, srv_objectStores = []\<rparr>"

definition GetConnectionInformation :: "string \<Rightarrow> ConnectionInformation outcome" where
  "GetConnectionInformation peer =
     (case GetAddressFromGRPCPeer peer of
        Raises e \<Rightarrow> Raises e
      | Returns (Inr address) \<Rightarrow> Returns \<lparr>ci_remoteaddress = address, ci_error = None\<rparr>
      | Returns (Inl s) \<Rightarrow> Returns \<lparr>ci_remoteaddress = '''', ci_error = Some (error_response s)\<rparr>)"

text \<open>The effect of a handler that only runs one operation of the store and encodes its status.\<close>

definition on_kvs ::
  "(MDSKVS \<Rightarrow> Status \<times> MDSKVS) \<Rightarrow> MetadataServiceImpl \<Rightarrow> StatusResponse \<times> MetadataServiceImpl" where
  "on_kvs f s = (case f (srv_kvs s) of (r, kvs) \<Rightarrow>
     (convertStatus_to empty_StatusResponse r, s\<lparr>srv_kvs := kvs\<rparr>))"

definition RegisterObjectStore ::
  "nat \<Rightarrow> (Endpoint \<Rightarrow> 'w S3Client) \<Rightarrow> ObjectStoreConfig \<Rightarrow> MetadataServiceImpl \<times> 'w s3_state
     \<Rightarrow> (StatusResponse \<times> MetadataServiceImpl \<times> 'w s3_state) option" where
  "RegisterObjectStore fuel clients config st =
     (case st of (s, w) \<Rightarrow>
      case ObjectStoreHandler_insertConfig (srv_objectStores s) config of (status, h) \<Rightarrow>
        let s1 = s\<lparr>srv_objectStores := h\<rparr> in
        if status_ok status then
          (case PopulateKVS fuel clients config (srv_kvs s1, w) of
             None \<Rightarrow> None
           | Some (status', kvs, w') \<Rightarrow>
               Some (convertStatus_to empty_StatusResponse status', s1\<lparr>srv_kvs := kvs\<rparr>, w'))
        else Some (convertStatus_to empty_StatusResponse status, s1, w))"

definition ListObjectStores :: "MetadataServiceImpl \<Rightarrow> ObjectStoreConfig list" where
  "ListObjectStores s = ObjectStoreHandler_listConfigs (srv_objectStores s)"

definition srv_CreateBucket where
  "srv_CreateBucket bucket = on_kvs (\<lambda>kvs. MDSKVS_createBucket kvs bucket)"

definition srv_DeleteBucket where
  "srv_DeleteBucket bucket = on_kvs (\<lambda>kvs. MDSKVS_deleteBucket kvs bucket)"

definition srv_ListBuckets :: "MetadataServiceImpl \<Rightarrow> BucketListResponse" where
  "srv_ListBuckets s =
     (case MDSKVS_listBuckets (srv_kvs s) of
        Inr buckets \<Rightarrow> \<lparr>bl_results = buckets, bl_error = None\<rparr>
      | Inl e \<Rightarrow> \<lparr>bl_results = [], bl_error = Some (error_response e)\<rparr>)"

definition srv_LookupBucket :: "string \<Rightarrow> MetadataServiceImpl \<Rightarrow> StatusResponse" where
  "srv_LookupBucket bucket s =
     convertStatus_to empty_StatusResponse (MDSKVS_bucketStatus (srv_kvs s) bucket)"

text \<open>\<open>createObject\<close> is called with its default: the bucket is not created on the fly.\<close>

definition srv_Create where
  "srv_Create request = on_kvs (\<lambda>kvs. MDSKVS_createObject kvs (convert_Object request) False)"

definition srv_Update where
  "srv_Update request = on_kvs (\<lambda>kvs. MDSKVS_updateObject kvs (convert_Object request))"

definition srv_Delete where
  "srv_Delete request = on_kvs (\<lambda>kvs. MDSKVS_deleteObject_id kvs request)"

definition srv_DeletePrefix where
  "srv_DeletePrefix request = on_kvs (\<lambda>kvs. MDSKVS_deleteObjectPrefix_id kvs request)"

definition srv_Lookup :: "ObjectID \<Rightarrow> MetadataServiceImpl \<Rightarrow> ObjectResponse" where
  "srv_Lookup request s =
     (case MDSKVS_lookup_id (srv_kvs s) request of
        Inr result \<Rightarrow> \<lparr>or_result = encode_Object result, or_error = None\<rparr>
      | Inl e \<Rightarrow> \<lparr>or_result = empty_rpc_Object, or_error = Some (error_response e)\<rparr>)"

text \<open>The cast \<open>(char)request->delimiter()\<close> keeps the low eight bits.\<close>

definition int_to_char :: "int \<Rightarrow> char" where
  "int_to_char d = char_of (nat (d mod 256))"

definition srv_List :: "ObjectListRequest \<Rightarrow> MetadataServiceImpl \<Rightarrow> ObjectListResponse" where
  "srv_List request s =
     (let delimiter = (case olr_delimiter request of Some d \<Rightarrow> int_to_char d | None \<Rightarrow> CHR 0x00) in
      case MDSKVS_listObjects_id (srv_kvs s) (olr_prefix request) delimiter of
        Inr (objects, commonPrefixes) \<Rightarrow>
          \<lparr>ol_results = map encode_Object objects, ol_commonprefixes = commonPrefixes, ol_error = None\<rparr>
      | Inl e \<Rightarrow> \<lparr>ol_results = [], ol_commonprefixes = [], ol_error = Some (error_response e)\<rparr>)"

section \<open>Peer addresses: what is accepted\<close>

text \<open>
  Peer parsing: \<open>GetAddressFromGRPCPeer\<close> inverts the documented peer formats. An IPv4 peer with
  or without port gives the address, an IPv6 peer gives the bracketed address; the call leaves by an
  exception exactly for a comma-free peer of fewer than five characters.
\<close>

theorem GetAddressFromGRPCPeer_formats:
  assumes "a \<noteq> []" and "set a \<inter> {CHR '':'', CHR '','', CHR '']''} = {}" and "CHR '','' \<notin> set port"
    and "set a6 \<inter> {CHR '','', CHR '']''} = {}"
  shows "GetAddressFromGRPCPeer (''ipv4:'' @ a @ '':'' @ port) = Returns (Inr a) \<and>
    GetAddressFromGRPCPeer (''ipv4:'' @ a) = Returns (Inr a) \<and>
    GetAddressFromGRPCPeer (''ipv6:['' @ a6 @ '']:'' @ port) = Returns (Inr (''['' @ a6 @ '']'')) \<and>
    ((\<exists>e. GetAddressFromGRPCPeer peer = Raises e) \<longleftrightarrow> length peer < 5 \<and> CHR '','' \<notin> set peer)"
proof -
  have "str_find CHR '':'' (a @ CHR '':'' # port) = Some (length a)" "str_find CHR '':'' a = None"
    using assms(2) by (auto simp: str_simps)
  moreover have "str_find CHR '']'' (CHR ''['' # a6 @ CHR '']'' # CHR '':'' # port) = Some (Suc (length a6))"
    using assms(4) by (simp add: str_simps)
  moreover have "(\<exists>e. GetAddressFromGRPCPeer peer = Raises e) \<longleftrightarrow> length peer < 5 \<and> CHR '','' \<notin> set peer"
    by (auto simp: GetAddressFromGRPCPeer_def Let_def split: option.splits nat.splits)
  ultimately show ?thesis
    using assms by (auto simp: GetAddressFromGRPCPeer_def Let_def neq_Nil_conv split: nat.splits)
qed

theorem GetAddressFromGRPCPeer_formats_witness:
  "GetAddressFromGRPCPeer ''ipv4:10.0.0.1:8080'' = Returns (Inr ''10.0.0.1'') \<and>
   GetAddressFromGRPCPeer ''ipv6:[::1]:443'' = Returns (Inr ''[::1]'') \<and>
   (\<exists>e. GetAddressFromGRPCPeer ''unix'' = Raises e)"
  using GetAddressFromGRPCPeer_formats [of "''10.0.0.1''" "''8080''" "''::1''" "''unix''"]
    GetAddressFromGRPCPeer_formats [of "''10.0.0.1''" "''443''" "''::1''" "''unix''"]
  by simp

section \<open>Server invariant\<close>

definition server_inv :: "MetadataServiceImpl \<Rightarrow> bool" where
  "server_inv s \<longleftrightarrow> kvs_inv (srv_kvs s) \<and> map_sorted (srv_objectStores s) \<and>
     (\<forall>b c. map_of (srv_objectStores s) b = Some c \<longrightarrow> cfg_bucket c = b)"

lemma server_inv_kvs [simp]: "server_inv s \<Longrightarrow> kvs_inv (srv_kvs s)"
  by (simp add: server_inv_def)

lemma server_inv_new: "server_inv (MetadataServiceImpl_new d)"
  by (simp add: server_inv_def MetadataServiceImpl_new_def kvs_inv_new)

lemma on_kvs_inv:
  "server_inv s \<Longrightarrow> kvs_inv (snd (f (srv_kvs s))) \<Longrightarrow> server_inv (snd (on_kvs f s))"
  by (cases "f (srv_kvs s)") (simp add: server_inv_def on_kvs_def)

lemma fold_populate_inv:
  "bucket_inv b \<Longrightarrow> bucket_inv (fold (populate_file n) files b) \<and>
     bucket_name (fold (populate_file n) files b) = bucket_name b"
  by (induction files arbitrary: b) (auto simp: populate_file_def bucket_ops_inv)

lemma fold_populate_abs:
  "bucket_inv b \<Longrightarrow> bucket_abs (fold (populate_file n) files b) = bucket_abs b ++
     map_of (rev (map (\<lambda>f. (fs_key f, obj_info (populate_object n f)))
       (filter (\<lambda>f. \<not> fs_isDirectory f) files)))"
proof (induction files arbitrary: b)
  case Nil
  then show ?case by simp
next
  case (Cons f files)
  have key: "obj_key (populate_object n f) = fs_key f" by (simp add: populate_object_def Let_def)
  have "bucket_inv (populate_file n f b)"
    using Cons.prems by (simp add: populate_file_def bucket_ops_inv)
  from Cons.IH [OF this] Cons.prems show ?case
    by (auto simp: populate_file_def bucket_ops_abs key map_add_upd_left dom_def fun_eq_iff
        map_add_def split: option.splits)
qed

lemma PopulateKVS_inv:
  assumes "kvs_inv kvs" and "PopulateKVS fuel clients config (kvs, w) = Some (r, kvs', w')"
  shows "kvs_inv kvs'"
proof -
  have "kvs_inv (snd (MDSKVS_createBucket kvs (cfg_bucket config)))"
    using assms(1) by (rule kvs_ops_inv)
  with assms(2) show ?thesis
    by (auto simp: PopulateKVS_def Let_def MDSKVS_getBucket_def kvs_inv_get fold_populate_inv
        intro!: kvs_inv_assign split: prod.splits sum.splits option.splits if_splits)
qed

lemma handlers_inv:
  assumes "server_inv s"
  shows "server_inv (snd (srv_CreateBucket n s))" "server_inv (snd (srv_DeleteBucket n s))"
    "server_inv (snd (srv_Create r s))" "server_inv (snd (srv_Update r s))"
    "server_inv (snd (srv_Delete i s))" "server_inv (snd (srv_DeletePrefix i s))"
  using assms
  by (simp_all add: srv_CreateBucket_def srv_DeleteBucket_def srv_Create_def srv_Update_def
      srv_Delete_def srv_DeletePrefix_def on_kvs_inv kvs_ops_inv)

lemma RegisterObjectStore_inv:
  assumes "server_inv s" and "RegisterObjectStore fuel clients config (s, w) = Some (r, s', w')"
  shows "server_inv s'"
  using assms PopulateKVS_inv [of "srv_kvs s"]
  by (auto simp: RegisterObjectStore_def ObjectStoreHandler_insertConfig_def server_inv_def Let_def
      split: prod.splits option.splits if_splits)

lemma PopulateKVS_listed:
  assumes "kvs_inv kvs" and "n = cfg_bucket c"
    and "Endpoint_list fuel (clients (Endpoint_new (cfg_endpointURL c) (cfg_accessKey c)
      (cfg_secretKey c))) n '''' CHR 0x00 w = Some (Inr files, w')"
  shows "\<exists>kvs'. PopulateKVS fuel clients c (kvs, w) = Some (OkStatus, kvs', w') \<and>
    kvs_abs kvs' = (kvs_abs kvs)(n \<mapsto>
      (case kvs_abs kvs n of None \<Rightarrow> Map.empty | Some g \<Rightarrow> g) ++
      map_of (rev (map (\<lambda>f. (fs_key f, obj_info (populate_object n f)))
        (filter (\<lambda>f. \<not> fs_isDirectory f) files))))"
proof (cases "map_of kvs n")
  case None
  let ?b = "MDSKVSBucket_new n"
  have "kvs_inv (map_assign n ?b kvs)" using assms(1) by (simp add: kvs_inv_assign)
  with None assms fold_populate_abs [of ?b n files] show ?thesis
    by (simp add: PopulateKVS_def MDSKVS_createBucket_def MDSKVS_getBucket_def Let_def kvs_abs_NoneI)
next
  case (Some b)
  with assms fold_populate_abs [of b n files] kvs_inv_get [OF assms(1) Some] show ?thesis
    by (simp add: PopulateKVS_def MDSKVS_createBucket_def MDSKVS_getBucket_def Let_def kvs_abs_Some)
qed

text \<open>
  C31. Registering an object store: when the S3 service lists its pages, the registration succeeds,
  every key of the bucket becomes an object of the store at its \<open>s3://\<close> location, sealed at its
  size, and all other objects of the store stay as they were.
\<close>

theorem RegisterObjectStore_populates:
  assumes "server_inv s" and "map_of (srv_objectStores s) (cfg_bucket c) = None"
    and "s3_pages (clients (Endpoint_new (cfg_endpointURL c) (cfg_accessKey c) (cfg_secretKey c)))
      (s3_remote w) (cfg_bucket c) '''' None pages"
    and "length pages \<le> fuel"
  shows "\<exists>resp s' w' objs. RegisterObjectStore fuel clients c (s, w) = Some (resp, s', w') \<and>
    convertStatus_from resp = OkStatus \<and> server_inv s' \<and>
    dom objs = (\<Union>p \<in> set pages. fst ` set (lres_contents p)) \<and>
    (\<forall>k i. objs k = Some i \<longrightarrow> info_sealedOffset i = info_size i \<and>
       info_location i = ''s3://'' @ cfg_bucket c @ (if prefix ''/'' k then '''' else ''/'') @ k) \<and>
    kvs_abs (srv_kvs s') = (kvs_abs (srv_kvs s))(cfg_bucket c \<mapsto>
      (case kvs_abs (srv_kvs s) (cfg_bucket c) of None \<Rightarrow> Map.empty | Some g \<Rightarrow> g) ++ objs)"
proof -
  let ?n = "cfg_bucket c" and ?e = "Endpoint_new (cfg_endpointURL c) (cfg_accessKey c) (cfg_secretKey c)"
  obtain files w' where l: "Endpoint_list fuel (clients ?e) ?n '''' CHR 0x00 w = Some (Inr files, w')"
    "fs_sorted files" "fs_key ` set files = (\<Union>p \<in> set pages. fst ` set (lres_contents p))"
    using Endpoint_list_into_pages [OF assms(3,4)] by (auto simp: Endpoint_list_def)
  define objs where "objs = map_of (rev (map (\<lambda>f. (fs_key f, obj_info (populate_object ?n f))) files))"
  have files: "filter (\<lambda>f. \<not> fs_isDirectory f) files = files"
    using l(2) by (simp add: fs_sorted_def filter_id_conv)
  obtain kvs' where "PopulateKVS fuel clients c (srv_kvs s, w) = Some (OkStatus, kvs', w')"
    and k: "kvs_abs kvs' = (kvs_abs (srv_kvs s))(?n \<mapsto>
      (case kvs_abs (srv_kvs s) ?n of None \<Rightarrow> Map.empty | Some g \<Rightarrow> g) ++ objs)"
    using PopulateKVS_listed [where clients = clients and c = c, OF server_inv_kvs [OF assms(1)]
        refl l(1)] files
    by (auto simp: objs_def)
  then have r: "RegisterObjectStore fuel clients c (s, w) = Some (empty_StatusResponse,
      s\<lparr>srv_objectStores := map_assign ?n c (srv_objectStores s), srv_kvs := kvs'\<rparr>, w')"
    using assms(2) by (simp add: RegisterObjectStore_def ObjectStoreHandler_insertConfig_def
        convertStatus_to_def empty_StatusResponse_def Let_def)
  moreover have "dom objs = (\<Union>p \<in> set pages. fst ` set (lres_contents p))"
    using l(3) by (simp add: objs_def dom_map_of_conv_image_fst image_image)
  moreover have "info_sealedOffset i = info_size i \<and>
      info_location i = ''s3://'' @ ?n @ (if prefix ''/'' k then '''' else ''/'') @ k"
    if "objs k = Some i" for k i
    using map_of_SomeD [OF that [unfolded objs_def]]
    by (auto simp: populate_object_def Let_def prefix_def neq_Nil_conv)
  ultimately show ?thesis
    using r k RegisterObjectStore_inv [OF assms(1) r]
    by (intro exI [of _ objs] exI conjI allI impI)
      (auto simp: convertStatus_from_def empty_StatusResponse_def)
qed

definition sample_config :: ObjectStoreConfig where
  "sample_config = \<lparr>cfg_bucket = ''bkt'', cfg_endpointURL = ''http://s3'', cfg_accessKey = ''a'',
     cfg_secretKey = ''s''\<rparr>"

theorem RegisterObjectStore_populates_witness:
  "\<exists>resp s' w' objs. RegisterObjectStore 1 (\<lambda>_. memory_client) sample_config
      (MetadataServiceImpl_new None, memory_state [(''k'', [7])]) = Some (resp, s', w') \<and>
    dom objs = {''k''} \<and>
    kvs_abs (srv_kvs s') = (kvs_abs (srv_kvs (MetadataServiceImpl_new None)))(''bkt'' \<mapsto>
      (case kvs_abs (srv_kvs (MetadataServiceImpl_new None)) ''bkt'' of None \<Rightarrow> Map.empty
       | Some g \<Rightarrow> g) ++ objs)"
proof -
  let ?w = "memory_state [(''k'', [7])]" and ?p = "memory_pages [(''k'', [7])]"
  have "map_of (srv_objectStores (MetadataServiceImpl_new None)) (cfg_bucket sample_config) = None"
    by (simp add: MetadataServiceImpl_new_def)
  moreover have "s3_pages memory_client (s3_remote ?w) (cfg_bucket sample_config) '''' None ?p"
    by (simp add: memory_client_def memory_pages_def memory_state_def)
  moreover have "length ?p \<le> 1" "(\<Union>p \<in> set ?p. fst ` set (lres_contents p)) = {''k''}"
    "cfg_bucket sample_config = ''bkt''"
    by (simp_all add: memory_pages_def sample_config_def)
  ultimately obtain resp s' w' objs where
    "RegisterObjectStore 1 (\<lambda>_. memory_client) sample_config
       (MetadataServiceImpl_new None, ?w) = Some (resp, s', w')" "dom objs = {''k''}"
    "kvs_abs (srv_kvs s') = (kvs_abs (srv_kvs (MetadataServiceImpl_new None)))(''bkt'' \<mapsto>
       (case kvs_abs (srv_kvs (MetadataServiceImpl_new None)) ''bkt'' of None \<Rightarrow> Map.empty
        | Some g \<Rightarrow> g) ++ objs)"
    using RegisterObjectStore_populates [where clients = "\<lambda>_. memory_client" and c = sample_config
        and s = "MetadataServiceImpl_new None" and w = ?w and pages = ?p and fuel = 1]
      server_inv_new by (smt (verit))
  then show ?thesis by blast
qed

end
