(* ===== verification/Metadata_Client.thy ===== *)
theory Metadata_Client
  imports Metadata_Server
begin

text \<open>
  The client side of the metadata service: \<^verbatim>\<open>src/libgeds/MetadataService.{h,cpp}\<close>. The generated gRPC
  stub is a parameter, a record with one function per remote call over the state of the remote side;
  a call either fails with a gRPC status or delivers the response message. \<open>server_stub\<close> is the
  stub of a reliable connection to the handlers of the metadata server.
\<close>

section \<open>The stub\<close>

record grpc_Status =
  grpc_code :: nat
  grpc_message :: string

type_synonym ('q, 'r, 's) rpc = "'q \<Rightarrow> 's \<Rightarrow> (grpc_Status + 'r) \<times> 's"

record 's Stub =
  stub_GetConnectionInformation :: "(unit, ConnectionInformation, 's) rpc"
  stub_RegisterObjectStore :: "(ObjectStoreConfig, StatusResponse, 's) rpc"
  stub_ListObjectStores :: "(unit, ObjectStoreConfig list, 's) rpc"
  stub_CreateBucket :: "(string, StatusResponse, 's) rpc"
  stub_DeleteBucket :: "(string, StatusResponse, 's) rpc"
  stub_ListBuckets :: "(unit, BucketListResponse, 's) rpc"
  stub_LookupBucket :: "(string, StatusResponse, 's) rpc"
  stub_Create :: "(rpc_Object, StatusResponse, 's) rpc"
  stub_Update :: "(rpc_Object, StatusResponse, 's) rpc"
  stub_Delete :: "(ObjectID, StatusResponse, 's) rpc"
  stub_DeletePrefix :: "(ObjectID, StatusResponse, 's) rpc"
  stub_Lookup :: "(ObjectID, ObjectResponse, 's) rpc"
  stub_List :: "(ObjectListRequest, ObjectListResponse, 's) rpc"
  stub_Subscribe :: "(SubscriptionEvent, StatusResponse, 's) rpc"
  stub_Unsubscribe :: "(SubscriptionEvent, StatusResponse, 's) rpc"

section \<open>State of the client\<close>

datatype ConnectionState = Disconnected | Connected | Unknown

record MetadataService =
  ms_connectionState :: ConnectionState
  ms_mdsCache :: MDSKVS
  ms_uuid :: string
  ms_serverAddress :: string

definition MetadataService_new :: "string \<Rightarrow> string \<Rightarrow> MetadataService" where
  "MetadataService_new uuid serverAddress =
     \<lparr>ms_connectionState = Disconnected, ms_mdsCache = MDSKVS_new None, ms_uuid = uuid,
      ms_serverAddress = serverAddress\<rparr>"

definition printGRPCError :: "grpc_Status \<Rightarrow> string" where
  "printGRPCError status =
     (if grpc_message status \<noteq> '''' then grpc_message status @ '' code: '' @ show_nat (grpc_code status)
      else ''Code: '' @ show_nat (grpc_code status))"

text \<open>
  What opening the channel does: it connects, times out, or throws.
\<close>

datatype channel_result = ChannelReady | ChannelTimeout | ChannelException string

definition MetadataService_connect :: "channel_result \<Rightarrow> MetadataService \<Rightarrow> Status \<times> MetadataService" where
  "MetadataService_connect channel c =
     (if ms_connectionState c \<noteq> Disconnected then (UnknownError ''Cannot reinitialize service.'', c)
      else case channel of
          ChannelTimeout \<Rightarrow>
            (UnavailableError (''Could not connect to '' @ ms_serverAddress c @ ''.''), c)
        | ChannelException what \<Rightarrow>
            (UnavailableError (''Could not open channel with '' @ ms_serverAddress c @ ''. Reason'' @ what), c)
        | ChannelReady \<Rightarrow> (OkStatus, c\<lparr>ms_connectionState := Connected\<rparr>))"

definition MetadataService_disconnect :: "MetadataService \<Rightarrow> Status \<times> MetadataService" where
  "MetadataService_disconnect c =
     (if ms_connectionState c \<noteq> Connected then (UnknownError ''The service is in the wrong state.'', c)
      else (OkStatus, c\<lparr>ms_connectionState := Disconnected\<rparr>))"

abbreviation not_connected :: Status where
  "not_connected \<equiv> FailedPreconditionError ''Not connected.''"

section \<open>Remote operations\<close>

definition MetadataService_registerObjectStoreConfig ::
  "'s Stub \<Rightarrow> ObjectStoreConfig \<Rightarrow> MetadataService \<times> 's \<Rightarrow> Status \<times> MetadataService \<times> 's" where
  "MetadataService_registerObjectStoreConfig stub mapping st =
     (case st of (c, s) \<Rightarrow>
      if ms_connectionState c \<noteq> Connected then (not_connected, c, s)
      else case stub_RegisterObjectStore stub mapping s of
          (Inl e, s') \<Rightarrow>
            (UnavailableError (''Unable to execute RegisterObjectStore: '' @ grpc_message e), c, s')
        | (Inr response, s') \<Rightarrow> (convertStatus_from response, c, s'))"

definition MetadataService_listObjectStoreConfigs ::
  "'s Stub \<Rightarrow> MetadataService \<times> 's \<Rightarrow> ObjectStoreConfig list StatusOr \<times> MetadataService \<times> 's" where
  "MetadataService_listObjectStoreConfigs stub st =
     (case st of (c, s) \<Rightarrow>
      if ms_connectionState c \<noteq> Connected then (Inl not_connected, c, s)
      else case stub_ListObjectStores stub () s of
          (Inl e, s') \<Rightarrow>
            (Inl (UnavailableError (''Unable to execute ListObjectStores: '' @ grpc_message e)), c, s')
        | (Inr mappings, s') \<Rightarrow> (Inr mappings, c, s'))"

definition MetadataService_getConnectionInformation ::
  "'s Stub \<Rightarrow> MetadataService \<times> 's \<Rightarrow> string StatusOr \<times> MetadataService \<times> 's" where
  "MetadataService_getConnectionInformation stub st =
     (case st of (c, s) \<Rightarrow>
      if ms_connectionState c \<noteq> Connected then (Inl not_connected, c, s)
      else case stub_GetConnectionInformation stub () s of
          (Inl e, s') \<Rightarrow>
            (Inl (UnavailableError (''Unable to execute GetConnectionInformation: '' @ grpc_message e)),
             c, s')
        | (Inr response, s') \<Rightarrow>
            (case ci_error response of
               Some e \<Rightarrow> (Inl (convertStatus_from e), c, s')
             | None \<Rightarrow> (Inr (ci_remoteaddress response), c, s')))"

definition MetadataService_createBucket ::
  "'s Stub \<Rightarrow> string \<Rightarrow> MetadataService \<times> 's \<Rightarrow> Status \<times> MetadataService \<times> 's" where
  "MetadataService_createBucket stub bucket st =
     (case st of (c, s) \<Rightarrow>
      if ms_connectionState c \<noteq> Connected then (not_connected, c, s)
      else case stub_CreateBucket stub bucket s of
          (Inl e, s') \<Rightarrow>
            (UnavailableError (''Unable to execute CreateBucket command: '' @ grpc_message e), c, s')
        | (Inr response, s') \<Rightarrow> (convertStatus_from response, c, s'))"

definition MetadataService_deleteBucket ::
  "'s Stub \<Rightarrow> string \<Rightarrow> MetadataService \<times> 's \<Rightarrow> Status \<times> MetadataService \<times> 's" where
  "MetadataService_deleteBucket stub bucket st =
     (case st of (c, s) \<Rightarrow>
      if ms_connectionState c \<noteq> Connected then (not_connected, c, s)
      else case stub_DeleteBucket stub bucket s of
          (Inl e, s') \<Rightarrow>
            (UnavailableError (''Unable to execute DeleteBucket command: '' @ grpc_message e), c, s')
        | (Inr response, s') \<Rightarrow> (convertStatus_from response, c, s'))"

definition MetadataService_listBuckets ::
  "'s Stub \<Rightarrow> MetadataService \<times> 's \<Rightarrow> string list StatusOr \<times> MetadataService \<times> 's" where
  "MetadataService_listBuckets stub st =
     (case st of (c, s) \<Rightarrow>
      if ms_connectionState c \<noteq> Connected then (Inl not_connected, c, s)
      else case stub_ListBuckets stub () s of
          (Inl e, s') \<Rightarrow>
            (Inl (UnavailableError (''Unable to execute ListBuckets command: '' @ grpc_message e)), c, s')
        | (Inr response, s') \<Rightarrow>
            (case bl_error response of
               Some e \<Rightarrow> (Inl (convertStatus_from e), c, s')
             | None \<Rightarrow> (Inr (bl_results response), c, s')))"

definition MetadataService_lookupBucket ::
  "'s Stub \<Rightarrow> string \<Rightarrow> MetadataService \<times> 's \<Rightarrow> Status \<times> MetadataService \<times> 's" where
  "MetadataService_lookupBucket stub bucket st =
     (case st of (c, s) \<Rightarrow>
      if ms_connectionState c \<noteq> Connected then (not_connected, c, s)
      else case stub_LookupBucket stub bucket s of
          (Inl e, s') \<Rightarrow>
            (UnavailableError (''Unable to execute LookupBucket command: '' @ grpc_message e), c, s')
        | (Inr response, s') \<Rightarrow>
            let r = convertStatus_from response in
            if \<not> status_ok r
            then (r, c\<lparr>ms_mdsCache := snd (MDSKVS_deleteBucket (ms_mdsCache c) bucket)\<rparr>, s')
            else (r, c, s'))"

definition MetadataService_createObject ::
  "'s Stub \<Rightarrow> Object \<Rightarrow> MetadataService \<times> 's \<Rightarrow> Status \<times> MetadataService \<times> 's" where
  "MetadataService_createObject stub obj st =
     (case st of (c, s) \<Rightarrow>
      if ms_connectionState c \<noteq> Connected then (not_connected, c, s)
      else case stub_Create stub (encode_Object obj) s of
          (Inl e, s') \<Rightarrow>
            (UnavailableError (''Unable to execute Create command: '' @ grpc_message e), c, s')
        | (Inr response, s') \<Rightarrow> (convertStatus_from response, c, s'))"

text \<open>The cache is updated before the remote call, whatever the call will answer.\<close>

definition MetadataService_updateObject ::
  "'s Stub \<Rightarrow> Object \<Rightarrow> MetadataService \<times> 's \<Rightarrow> Status \<times> MetadataService \<times> 's" where
  "MetadataService_updateObject stub obj st =
     (case st of (c, s) \<Rightarrow>
      if ms_connectionState c \<noteq> Connected then (not_connected, c, s)
      else
        let c' = c\<lparr>ms_mdsCache := snd (MDSKVS_updateObject (ms_mdsCache c) obj)\<rparr> in
        case stub_Update stub (encode_Object obj) s of
          (Inl e, s') \<Rightarrow>
            (UnavailableError (''Unable to execute Update command: '' @ printGRPCError e), c', s')
        | (Inr response, s') \<Rightarrow> (convertStatus_from response, c', s'))"

definition MetadataService_deleteObject ::
  "'s Stub \<Rightarrow> string \<Rightarrow> string \<Rightarrow> MetadataService \<times> 's \<Rightarrow> Status \<times> MetadataService \<times> 's" where
  "MetadataService_deleteObject stub bucket key st =
     (case st of (c, s) \<Rightarrow>
      if ms_connectionState c \<noteq> Connected then (not_connected, c, s)
      else
        let c' = c\<lparr>ms_mdsCache := snd (MDSKVS_deleteObject (ms_mdsCache c) bucket key)\<rparr> in
        case stub_Delete stub (mk_ObjectID bucket key) s of
          (Inl e, s') \<Rightarrow>
            (UnavailableError (''Unable to execute Delete command: '' @ printGRPCError e), c', s')
        | (Inr response, s') \<Rightarrow> (convertStatus_from response, c', s'))"

definition MetadataService_deleteObject_id where
  "MetadataService_deleteObject_id stub i st =
     (case st of (c, s) \<Rightarrow>
      if ms_connectionState c \<noteq> Connected then (not_connected, c, s)
      else MetadataService_deleteObject stub (id_bucket i) (id_key i) (c, s))"

definition MetadataService_deleteObjectPrefix ::
  "'s Stub \<Rightarrow> string \<Rightarrow> string \<Rightarrow> MetadataService \<times> 's \<Rightarrow> Status \<times> MetadataService \<times> 's" where
  "MetadataService_deleteObjectPrefix stub bucket key st =
     (case st of (c, s) \<Rightarrow>
      if ms_connectionState c \<noteq> Connected then (not_connected, c, s)
      else
        let c' = c\<lparr>ms_mdsCache := snd (MDSKVS_deleteObjectPrefix (ms_mdsCache c) bucket key)\<rparr> in
        case stub_DeletePrefix stub (mk_ObjectID bucket key) s of
          (Inl e, s') \<Rightarrow>
            (UnavailableError (''Unable to execute Delete command: '' @ printGRPCError e), c', s')
        | (Inr response, s') \<Rightarrow> (convertStatus_from response, c', s'))"

definition MetadataService_deleteObjectPrefix_id where
  "MetadataService_deleteObjectPrefix_id stub i st =
     MetadataService_deleteObjectPrefix stub (id_bucket i) (id_key i) st"

text \<open>The remote half of \<open>lookup\<close>: the answer is put into the cache, whose bucket is created.\<close>

definition MetadataService_lookup_remote ::
  "'s Stub \<Rightarrow> string \<Rightarrow> string \<Rightarrow> MetadataService \<times> 's \<Rightarrow> Object StatusOr \<times> MetadataService \<times> 's" where
  "MetadataService_lookup_remote stub bucket key st =
     (case st of (c, s) \<Rightarrow>
      case stub_Lookup stub (mk_ObjectID bucket key) s of
        (Inl e, s') \<Rightarrow>
          (Inl (UnavailableError (''Unable to execute Lookup command: '' @ printGRPCError e)), c, s')
      | (Inr response, s') \<Rightarrow>
          (case or_error response of
             Some e \<Rightarrow> (Inl (convertStatus_from e), c, s')
           | None \<Rightarrow>
               let result = convert_Object (or_result response)
               in (Inr result,
                   c\<lparr>ms_mdsCache := snd (MDSKVS_createObject (ms_mdsCache c) result True)\<rparr>, s')))"

definition MetadataService_lookup ::
  "'s Stub \<Rightarrow> string \<Rightarrow> string \<Rightarrow> bool \<Rightarrow> MetadataService \<times> 's \<Rightarrow> Object StatusOr \<times> MetadataService \<times> 's"
where
  "MetadataService_lookup stub bucket key invalidate st =
     (case st of (c, s) \<Rightarrow>
      if ms_connectionState c \<noteq> Connected then (Inl not_connected, c, s)
      else if \<not> invalidate \<and> is_ok (MDSKVS_lookup (ms_mdsCache c) bucket key)
      then (MDSKVS_lookup (ms_mdsCache c) bucket key, c, s)
      else MetadataService_lookup_remote stub bucket key (c, s))"

definition MetadataService_lookup_id where
  "MetadataService_lookup_id stub i force st =
     MetadataService_lookup stub (id_bucket i) (id_key i) force st"

text \<open>
  \<open>delimiter > 0\<close> compares a signed \<open>char\<close>: characters above 127 are not sent.
\<close>

definition signed_char :: "char \<Rightarrow> int" where
  "signed_char d = (if (of_char d :: nat) < 128 then int (of_char d) else int (of_char d) - 256)"

definition cache_all :: "Object list \<Rightarrow> MDSKVS \<Rightarrow> MDSKVS" where
  "cache_all objects cache = fold (\<lambda>obj m. snd (MDSKVS_createObject m obj True)) objects cache"

definition MetadataService_listPrefix_delim ::
  "'s Stub \<Rightarrow> string \<Rightarrow> string \<Rightarrow> char \<Rightarrow> MetadataService \<times> 's
     \<Rightarrow> (Object list \<times> string list) StatusOr \<times> MetadataService \<times> 's" where
  "MetadataService_listPrefix_delim stub bucket keyPrefix delimiter st =
     (case st of (c, s) \<Rightarrow>
      if ms_connectionState c \<noteq> Connected then (Inl not_connected, c, s)
      else
        let request = \<lparr>olr_prefix = mk_ObjectID bucket keyPrefix,
              olr_delimiter = (if signed_char delimiter > 0 then Some (signed_char delimiter) else None)\<rparr>
        in case stub_List stub request s of
          (Inl e, s') \<Rightarrow>
            (Inl (UnavailableError (''Unable to execute List command: '' @ printGRPCError e)), c, s')
        | (Inr response, s') \<Rightarrow>
            (case ol_error response of
               Some e \<Rightarrow> (Inl (convertStatus_from e), c, s')
             | None \<Rightarrow>
                 let objects = map convert_Object (ol_results response)
                 in (Inr (objects, ol_commonprefixes response),
                     c\<lparr>ms_mdsCache := cache_all objects (ms_mdsCache c)\<rparr>, s')))"

definition MetadataService_listPrefix ::
  "'s Stub \<Rightarrow> string \<Rightarrow> string \<Rightarrow> MetadataService \<times> 's \<Rightarrow> Object list StatusOr \<times> MetadataService \<times> 's"
where
  "MetadataService_listPrefix stub bucket keyPrefix st =
     (case MetadataService_listPrefix_delim stub bucket keyPrefix CHR 0x00 st of
        (Inr r, st') \<Rightarrow> (Inr (fst r), st')
      | (Inl s, st') \<Rightarrow> (Inl s, st'))"

definition MetadataService_listPrefix_id where
  "MetadataService_listPrefix_id stub i st =
     MetadataService_listPrefix stub (id_bucket i) (id_key i) st"

definition MetadataService_listPrefixFromCache where
  "MetadataService_listPrefixFromCache stub bucket keyPrefix delimiter st =
     (case MDSKVS_listObjects (ms_mdsCache (fst st)) bucket keyPrefix delimiter of
        Inr r \<Rightarrow> (Inr r, st)
      | Inl _ \<Rightarrow> MetadataService_listPrefix_delim stub bucket keyPrefix delimiter st)"

definition MetadataService_listFolder where
  "MetadataService_listFolder stub bucket keyPrefix st =
     MetadataService_listPrefix_delim stub bucket keyPrefix CHR ''/'' st"

section \<open>Publications\<close>

datatype PublicationType = NO_PUBLICATION | CREATE_OBJECT | UPDATE_OBJECT | DELETE_OBJECT

definition apply_publication :: "PublicationType \<times> rpc_Object \<Rightarrow> MDSKVS \<Rightarrow> MDSKVS" where
  "apply_publication p cache =
     (let obj = convert_Object (snd p) in
      case fst p of
        CREATE_OBJECT \<Rightarrow> snd (MDSKVS_createObject cache obj True)
      | UPDATE_OBJECT \<Rightarrow> snd (MDSKVS_updateObject cache obj)
      | DELETE_OBJECT \<Rightarrow> snd (MDSKVS_deleteObject cache (obj_bucket obj) (obj_key obj))
      | NO_PUBLICATION \<Rightarrow> cache)"

text \<open>
  \<open>subscribeStream\<close> reopens the stream after every orderly end; the streams are an argument, each a
  list of publications and the status of its \<open>Finish\<close>. \<^const>\<open>None\<close>: still listening.
\<close>

fun MetadataService_subscribeStream ::
  "((PublicationType \<times> rpc_Object) list \<times> string option) list \<Rightarrow> MetadataService
     \<Rightarrow> (Status \<times> MetadataService) option" where
  "MetadataService_subscribeStream streams c =
     (if ms_connectionState c \<noteq> Connected then Some (not_connected, c)
      else case streams of
          [] \<Rightarrow> None
        | (events, finish) # rest \<Rightarrow>
            let c' = c\<lparr>ms_mdsCache := fold apply_publication events (ms_mdsCache c)\<rparr> in
            case finish of
              Some message \<Rightarrow> Some (InternalError message, c')
            | None \<Rightarrow> MetadataService_subscribeStream rest c')"

declare MetadataService_subscribeStream.simps [simp del]

definition MetadataService_subscribe ::
  "'s Stub \<Rightarrow> SubscriptionEvent \<Rightarrow> MetadataService \<times> 's \<Rightarrow> Status \<times> MetadataService \<times> 's" where
  "MetadataService_subscribe stub event st =
     (case st of (c, s) \<Rightarrow>
      if ms_connectionState c \<noteq> Connected then (not_connected, c, s)
      else case stub_Subscribe stub (event\<lparr>ev_subscriber_id := ms_uuid c\<rparr>) s of
          (Inl e, s') \<Rightarrow>
            (UnavailableError (''Unable to execute CreateBucket command: '' @ grpc_message e), c, s')
        | (Inr response, s') \<Rightarrow> (convertStatus_from response, c, s'))"

definition MetadataService_unsubscribe ::
  "'s Stub \<Rightarrow> SubscriptionEvent \<Rightarrow> MetadataService \<times> 's \<Rightarrow> Status \<times> MetadataService \<times> 's" where
  "MetadataService_unsubscribe stub event st =
     (case st of (c, s) \<Rightarrow>
      if ms_connectionState c \<noteq> Connected then (not_connected, c, s)
      else case stub_Unsubscribe stub (event\<lparr>ev_subscriber_id := ms_uuid c\<rparr>) s of
          (Inl e, s') \<Rightarrow> (UnavailableError (''Unable to unsubscribe: '' @ grpc_message e), c, s')
        | (Inr response, s') \<Rightarrow> (convertStatus_from response, c, s'))"

section \<open>A reliable connection to the server\<close>

definition reliable :: "('q \<Rightarrow> 's \<Rightarrow> 'r \<times> 's) \<Rightarrow> ('q, 'r, 's) rpc" where
  "reliable handler q s = (case handler q s of (r, s') \<Rightarrow> (Inr r, s'))"

definition reliable_read :: "('q \<Rightarrow> 's \<Rightarrow> 'r) \<Rightarrow> ('q, 'r, 's) rpc" where
  "reliable_read handler q s = (Inr (handler q s), s)"

text \<open>
  The server does not implement the subscription calls; gRPC answers them with \<open>UNIMPLEMENTED\<close>
  (code 12), and a handler that throws with \<open>UNKNOWN\<close> (code 2). Registering an object store talks to
  S3 and is an argument.
\<close>

definition unimplemented :: "('q, 'r, 's) rpc" where
  "unimplemented q s = (Inl \<lparr>grpc_code = 12, grpc_message = ''''\<rparr>, s)"

definition server_stub ::
  "string \<Rightarrow> (ObjectStoreConfig, StatusResponse, MetadataServiceImpl) rpc \<Rightarrow> MetadataServiceImpl Stub"
where
  "server_stub peer register =
     \<lparr>stub_GetConnectionInformation = (\<lambda>_ s. (case GetConnectionInformation peer of
          Returns r \<Rightarrow> Inr r
        | Raises e \<Rightarrow> Inl \<lparr>grpc_code = 2, grpc_message = ''Unexpected error in RPC handling''\<rparr>, s)),
      stub_RegisterObjectStore = register,
      stub_ListObjectStores = reliable_read (\<lambda>_. ListObjectStores),
      stub_CreateBucket = reliable srv_CreateBucket,
      stub_DeleteBucket = reliable srv_DeleteBucket,
      stub_ListBuckets = reliable_read (\<lambda>_. srv_ListBuckets),
      stub_LookupBucket = reliable_read srv_LookupBucket,
      stub_Create = reliable srv_Create,
      stub_Update = reliable srv_Update,
      stub_Delete = reliable srv_Delete,
      stub_DeletePrefix = reliable srv_DeletePrefix,
      stub_Lookup = reliable_read srv_Lookup,
      stub_List = reliable_read srv_List,
      stub_Subscribe = unimplemented,
      stub_Unsubscribe = unimplemented\<rparr>"

section \<open>Client histories\<close>

text \<open>
  The operations of the metadata contract, issued through the client. A lookup may be answered from
  the cache.
\<close>

fun client_step :: "'s Stub \<Rightarrow> kvs_op \<Rightarrow> MetadataService \<times> 's \<Rightarrow> kvs_result \<times> MetadataService \<times> 's" where
  "client_step stub (CreateBucket n) st = apfst RStatus (MetadataService_createBucket stub n st)"
| "client_step stub (DeleteBucket n) st = apfst RStatus (MetadataService_deleteBucket stub n st)"
| "client_step stub ListBuckets st = apfst RBuckets (MetadataService_listBuckets stub st)"
| "client_step stub (BucketStatus n) st = apfst RStatus (MetadataService_lookupBucket stub n st)"
| "client_step stub (CreateObject obj force) st = apfst RStatus (MetadataService_createObject stub obj st)"
| "client_step stub (UpdateObject obj) st = apfst RStatus (MetadataService_updateObject stub obj st)"
| "client_step stub (DeleteObject n k) st = apfst RStatus (MetadataService_deleteObject stub n k st)"
| "client_step stub (DeletePrefix n p) st = apfst RStatus (MetadataService_deleteObjectPrefix stub n p st)"
| "client_step stub (Lookup n k) st = apfst RObject (MetadataService_lookup stub n k False st)"
| "client_step stub (ListObjects n p d) st =
     apfst RListing (MetadataService_listPrefix_delim stub n p d st)"

fun client_run :: "'s Stub \<Rightarrow> kvs_op list \<Rightarrow> MetadataService \<times> 's \<Rightarrow> kvs_result list \<times> MetadataService \<times> 's"
where
  "client_run stub [] st = ([], st)"
| "client_run stub (x # xs) st =
     (fst (client_step stub x st) # fst (client_run stub xs (snd (client_step stub x st))),
      snd (client_run stub xs (snd (client_step stub x st))))"

text \<open>
  Steps after which the cache may differ from the server: creating an object whose previous version
  is cached, and deleting a bucket that is cached.
\<close>

fun cache_safe :: "kvs_op \<Rightarrow> MDSKVS \<Rightarrow> bool" where
  "cache_safe (CreateObject obj force) cache \<longleftrightarrow>
     \<not> force \<and> \<not> is_ok (MDSKVS_lookup cache (obj_bucket obj) (obj_key obj))"
| "cache_safe (DeleteBucket n) cache \<longleftrightarrow> map_of cache n = None"
| "cache_safe (ListObjects n p d) cache \<longleftrightarrow> (of_char d :: nat) < 128"
| "cache_safe _ _ \<longleftrightarrow> True"

fun run_safe :: "'s Stub \<Rightarrow> kvs_op list \<Rightarrow> MetadataService \<times> 's \<Rightarrow> bool" where
  "run_safe stub [] st \<longleftrightarrow> True"
| "run_safe stub (x # xs) st \<longleftrightarrow>
     cache_safe x (ms_mdsCache (fst st)) \<and> run_safe stub xs (snd (client_step stub x st))"

text \<open>An entry of the two-level map, and the order of its entries.\<close>

definition entry :: "kvs_spec \<Rightarrow> string \<Rightarrow> string \<Rightarrow> ObjectInfo option" where
  "entry f n k = (case f n of None \<Rightarrow> None | Some g \<Rightarrow> g k)"

definition submap :: "kvs_spec \<Rightarrow> kvs_spec \<Rightarrow> bool" where
  "submap f g \<longleftrightarrow> (\<forall>n k i. entry f n k = Some i \<longrightarrow> entry g n k = Some i)"

definition coherent :: "('s \<Rightarrow> kvs_spec) \<Rightarrow> MetadataService \<times> 's \<Rightarrow> bool" where
  "coherent view st \<longleftrightarrow> ms_connectionState (fst st) = Connected \<and> kvs_inv (ms_mdsCache (fst st)) \<and>
     submap (kvs_abs (ms_mdsCache (fst st))) (view (snd st))"

text \<open>What the client decodes from the read responses.\<close>

definition decode_lookup :: "ObjectResponse \<Rightarrow> Object StatusOr" where
  "decode_lookup r = (case or_error r of Some e \<Rightarrow> Inl (convertStatus_from e)
     | None \<Rightarrow> Inr (convert_Object (or_result r)))"

definition decode_list :: "ObjectListResponse \<Rightarrow> (Object list \<times> string list) StatusOr" where
  "decode_list r = (case ol_error r of Some e \<Rightarrow> Inl (convertStatus_from e)
     | None \<Rightarrow> Inr (map convert_Object (ol_results r), ol_commonprefixes r))"

definition decode_buckets :: "BucketListResponse \<Rightarrow> string list StatusOr" where
  "decode_buckets r = (case bl_error r of Some e \<Rightarrow> Inl (convertStatus_from e)
     | None \<Rightarrow> Inr (bl_results r))"

section \<open>The contract between client and server\<close>

text \<open>
  A provider of metadata: every call is delivered and answered, and the decoded answer and the new
  remote contents are those of the abstract store.
\<close>

lemma entry_step:
  "entry (snd (spec_kvs_step (CreateBucket m) f)) n k = entry f n k"
  "entry (snd (spec_kvs_step (DeleteBucket m) f)) n k = (if n = m then None else entry f n k)"
  "entry (snd (spec_kvs_step (CreateObject x force) f)) n k =
     (if n = obj_bucket x \<and> k = obj_key x \<and> (force \<or> f n \<noteq> None) then Some (obj_info x)
      else entry f n k)"
  "entry (snd (spec_kvs_step (UpdateObject x) f)) n k =
     (if n = obj_bucket x \<and> k = obj_key x \<and> entry f n k \<noteq> None then Some (obj_info x)
      else entry f n k)"
  "entry (snd (spec_kvs_step (DeleteObject m j) f)) n k =
     (if n = m \<and> k = j then None else entry f n k)"
  "entry (snd (spec_kvs_step (DeletePrefix m p) f)) n k =
     (if n = m \<and> prefix p k then None else entry f n k)"
  by (auto simp: entry_def in_bucket_def restrict_map_def split: option.splits if_splits)

text \<open>The steps that client and server both perform keep the cache a part of the server's contents.\<close>

lemma submap_step:
  assumes "submap f g"
  shows "submap (snd (spec_kvs_step (UpdateObject x) f)) (snd (spec_kvs_step (UpdateObject x) g))"
    and "submap (snd (spec_kvs_step (DeleteObject n k) f)) (snd (spec_kvs_step (DeleteObject n k) g))"
    and "submap (snd (spec_kvs_step (DeletePrefix n k) f)) (snd (spec_kvs_step (DeletePrefix n k) g))"
    and "submap f (snd (spec_kvs_step (CreateBucket n) g))"
    and "submap (snd (spec_kvs_step (DeleteBucket n) f)) g"
    and "f n = None \<Longrightarrow> submap f (snd (spec_kvs_step (DeleteBucket n) g))"
    and "entry f (obj_bucket x) (obj_key x) = None \<Longrightarrow>
      submap f (snd (spec_kvs_step (CreateObject x False) g))"
    and "entry g (obj_bucket x) (obj_key x) = Some (obj_info x) \<Longrightarrow>
      submap (snd (spec_kvs_step (CreateObject x True) f)) g"
  using assms unfolding submap_def entry_step by (auto simp: entry_def split: if_splits)

text \<open>The cache follows the abstract steps.\<close>

lemma cache_step:
  assumes "kvs_inv cache"
  shows "kvs_abs (snd (MDSKVS_updateObject cache x)) = snd (spec_kvs_step (UpdateObject x) (kvs_abs cache))"
    and "kvs_abs (snd (MDSKVS_deleteObject cache n k)) =
      snd (spec_kvs_step (DeleteObject n k) (kvs_abs cache))"
    and "kvs_abs (snd (MDSKVS_deleteObjectPrefix cache n k)) =
      snd (spec_kvs_step (DeletePrefix n k) (kvs_abs cache))"
    and "kvs_abs (snd (MDSKVS_createObject cache x force)) =
      snd (spec_kvs_step (CreateObject x force) (kvs_abs cache))"
    and "kvs_abs (snd (MDSKVS_deleteBucket cache n)) =
      snd (spec_kvs_step (DeleteBucket n) (kvs_abs cache))"
  using kvs_step_refines [OF assms, of "UpdateObject x"]
    kvs_step_refines [OF assms, of "DeleteObject n k"]
    kvs_step_refines [OF assms, of "DeletePrefix n k"]
    kvs_step_refines [OF assms, of "CreateObject x force"]
    kvs_step_refines [OF assms, of "DeleteBucket n"]
  by (simp_all del: spec_kvs_step.simps)

lemma cache_lookup:
  assumes "kvs_inv cache" and "entry (kvs_abs cache) n k = Some i"
  shows "MDSKVS_lookup cache n k = Inr (mk_Object n k i)"
  using kvs_step_refines [OF assms(1), of "Lookup n k"] assms(2)
  by (auto simp: in_bucket_def entry_def simp del: kvs_abs_None split: option.splits)

lemma is_ok_cache_lookup:
  assumes "kvs_inv cache"
  shows "is_ok (MDSKVS_lookup cache n k) \<longleftrightarrow> entry (kvs_abs cache) n k \<noteq> None"
  using kvs_step_refines [OF assms, of "Lookup n k"]
  by (cases "entry (kvs_abs cache) n k")
    (auto simp: cache_lookup [OF assms] entry_def in_bucket_def simp del: kvs_abs_None
      split: option.splits dest!: sym [of _ "MDSKVS_lookup cache n k"])

lemma entry_lookup_spec:
  "entry f n k = Some i \<Longrightarrow> spec_kvs_step (Lookup n k) f = (RObject (Inr (mk_Object n k i)), f)"
  by (auto simp: entry_def in_bucket_def split: option.splits)

lemma lookup_spec_entry:
  "spec_kvs_step (Lookup n k) f = (RObject (Inr x), f') \<Longrightarrow>
     entry f (obj_bucket x) (obj_key x) = Some (obj_info x)"
  by (auto simp: in_bucket_def entry_def split: option.splits)

lemma lookup_spec_named:
  "spec_kvs_step (Lookup n k) f = (RObject (Inr x), f') \<Longrightarrow> obj_bucket x = n \<and> obj_key x = k"
  by (auto simp: in_bucket_def split: option.splits)

lemma read_step_nop:
  "snd (spec_kvs_step (Lookup n k) f) = f" "snd (spec_kvs_step (ListObjects n k d) f) = f"
  by (auto simp: in_bucket_def split: option.splits)

locale metadata_provider =
  fixes stub :: "'s Stub" and view :: "'s \<Rightarrow> kvs_spec" and sinv :: "'s \<Rightarrow> bool"
  assumes create_bucket: "sinv s \<Longrightarrow> \<exists>r s'. stub_CreateBucket stub n s = (Inr r, s') \<and> sinv s' \<and>
      spec_kvs_step (CreateBucket n) (view s) = (RStatus (convertStatus_from r), view s')"
    and delete_bucket: "sinv s \<Longrightarrow> \<exists>r s'. stub_DeleteBucket stub n s = (Inr r, s') \<and> sinv s' \<and>
      spec_kvs_step (DeleteBucket n) (view s) = (RStatus (convertStatus_from r), view s')"
    and list_buckets: "sinv s \<Longrightarrow> \<exists>r s'. stub_ListBuckets stub () s = (Inr r, s') \<and> sinv s' \<and>
      spec_kvs_step ListBuckets (view s) = (RBuckets (decode_buckets r), view s')"
    and lookup_bucket: "sinv s \<Longrightarrow> \<exists>r s'. stub_LookupBucket stub n s = (Inr r, s') \<and> sinv s' \<and>
      spec_kvs_step (BucketStatus n) (view s) = (RStatus (convertStatus_from r), view s')"
    and create: "sinv s \<Longrightarrow> \<exists>r s'. stub_Create stub (encode_Object x) s = (Inr r, s') \<and> sinv s' \<and>
      spec_kvs_step (CreateObject x False) (view s) = (RStatus (convertStatus_from r), view s')"
    and update: "sinv s \<Longrightarrow> \<exists>r s'. stub_Update stub (encode_Object x) s = (Inr r, s') \<and> sinv s' \<and>
      spec_kvs_step (UpdateObject x) (view s) = (RStatus (convertStatus_from r), view s')"
    and delete: "sinv s \<Longrightarrow> \<exists>r s'. stub_Delete stub (mk_ObjectID n k) s = (Inr r, s') \<and> sinv s' \<and>
      spec_kvs_step (DeleteObject n k) (view s) = (RStatus (convertStatus_from r), view s')"
    and delete_prefix: "sinv s \<Longrightarrow> \<exists>r s'. stub_DeletePrefix stub (mk_ObjectID n k) s = (Inr r, s') \<and>
      sinv s' \<and> spec_kvs_step (DeletePrefix n k) (view s) = (RStatus (convertStatus_from r), view s')"
    and lookup: "sinv s \<Longrightarrow> \<exists>r s'. stub_Lookup stub (mk_ObjectID n k) s = (Inr r, s') \<and> sinv s' \<and>
      spec_kvs_step (Lookup n k) (view s) = (RObject (decode_lookup r), view s')"
    and list: "sinv s \<Longrightarrow> of_char d < (128::nat) \<Longrightarrow> \<exists>r s'. stub_List stub \<lparr>olr_prefix = mk_ObjectID n p,
        olr_delimiter = (if signed_char d > 0 then Some (signed_char d) else None)\<rparr> s = (Inr r, s') \<and>
      sinv s' \<and> spec_kvs_step (ListObjects n p d) (view s) = (RListing (decode_list r), view s')"
    and finite_view: "sinv s \<Longrightarrow> view s n = Some g \<Longrightarrow> finite (dom g)"
begin

definition transparent :: "kvs_op \<Rightarrow> MetadataService \<times> 's \<Rightarrow> bool" where
  "transparent x st \<longleftrightarrow>
     spec_kvs_step x (view (snd st)) =
       (fst (client_step stub x st), view (snd (snd (client_step stub x st)))) \<and>
     coherent view (snd (client_step stub x st)) \<and> sinv (snd (snd (client_step stub x st)))"

lemma transparentI:
  assumes "client_step stub x (c, s) = (r, c', s')" and "spec_kvs_step x (view s) = (r, view s')"
    and "ms_connectionState c' = Connected" and "kvs_inv (ms_mdsCache c')"
    and "submap (kvs_abs (ms_mdsCache c')) (snd (spec_kvs_step x (view s)))" and "sinv s'"
  shows "transparent x (c, s)"
  using assms by (simp add: transparent_def coherent_def del: client_step.simps spec_kvs_step.simps)

lemma cache_all_submap:
  assumes "kvs_inv cache" and "submap (kvs_abs cache) g"
    and "\<And>x. x \<in> set xs \<Longrightarrow> entry g (obj_bucket x) (obj_key x) = Some (obj_info x)"
  shows "kvs_inv (cache_all xs cache) \<and> submap (kvs_abs (cache_all xs cache)) g"
  using assms
proof (induction xs arbitrary: cache)
  case Nil
  then show ?case by (simp add: cache_all_def)
next
  case (Cons x xs)
  have "kvs_inv (snd (MDSKVS_createObject cache x True))"
    using Cons.prems(1) by (rule kvs_ops_inv)
  moreover have "submap (kvs_abs (snd (MDSKVS_createObject cache x True))) g"
    using Cons.prems by (simp add: cache_step submap_step del: spec_kvs_step.simps)
  ultimately show ?case
    using Cons.IH [of "snd (MDSKVS_createObject cache x True)"] Cons.prems(3)
    by (simp add: cache_all_def)
qed

lemma lookup_transparent:
  assumes "coherent view (c, s)" "sinv s"
  shows "transparent (Lookup n k) (c, s)"
proof -
  let ?m = "ms_mdsCache c"
  have c: "ms_connectionState c = Connected" "kvs_inv ?m" "submap (kvs_abs ?m) (view s)"
    using assms(1) by (simp_all add: coherent_def)
  show ?thesis
  proof (cases "entry (kvs_abs ?m) n k")
    case (Some i)
    then have "MDSKVS_lookup ?m n k = Inr (mk_Object n k i)" using c(2) by (simp add: cache_lookup)
    moreover have "entry (view s) n k = Some i" using c(3) Some by (simp add: submap_def)
    ultimately show ?thesis
      using c assms(2) by (intro transparentI [where r = "RObject (Inr (mk_Object n k i))" and c' = c
            and s' = s])
        (simp_all add: MetadataService_lookup_def entry_lookup_spec del: spec_kvs_step.simps)
  next
    case None
    then have miss: "\<not> is_ok (MDSKVS_lookup ?m n k)" using c(2) by (simp add: is_ok_cache_lookup)
    obtain r s' where r: "stub_Lookup stub (mk_ObjectID n k) s = (Inr r, s')" "sinv s'"
      "spec_kvs_step (Lookup n k) (view s) = (RObject (decode_lookup r), view s')"
      using lookup [OF assms(2)] by blast
    have vs: "view s' = view s" using r(3) read_step_nop(1) [of n k "view s"] by (simp del: spec_kvs_step.simps)
    show ?thesis
    proof (cases "or_error r")
      case (Some e)
      then show ?thesis
        using c r miss by (intro transparentI [where r = "RObject (decode_lookup r)" and c' = c
              and s' = s']) (simp_all add: MetadataService_lookup_def MetadataService_lookup_remote_def
            decode_lookup_def vs del: spec_kvs_step.simps)
    next
      case None
      let ?x = "convert_Object (or_result r)"
      let ?c = "c\<lparr>ms_mdsCache := snd (MDSKVS_createObject ?m ?x True)\<rparr>"
      have "entry (view s) (obj_bucket ?x) (obj_key ?x) = Some (obj_info ?x)"
        using r(3) None by (intro lookup_spec_entry) (simp add: decode_lookup_def del: spec_kvs_step.simps)
      then have "submap (kvs_abs (snd (MDSKVS_createObject ?m ?x True))) (view s)"
        using c by (simp add: cache_step submap_step del: spec_kvs_step.simps)
      then show ?thesis
        using c r miss None by (intro transparentI [where r = "RObject (decode_lookup r)" and c' = ?c
              and s' = s']) (simp_all add: MetadataService_lookup_def MetadataService_lookup_remote_def
            decode_lookup_def vs kvs_ops_inv Let_def del: spec_kvs_step.simps)
    qed
  qed
qed

lemma lookup_remote_named:
  assumes "coherent view (c, s)" "sinv s" "MetadataService_lookup_remote stub n k (c, s) = (r, c', s')"
  shows "coherent view (c', s') \<and> sinv s' \<and> (\<forall>x. r = Inr x \<longrightarrow> obj_bucket x = n \<and> obj_key x = k)"
proof -
  let ?m = "ms_mdsCache c"
  have c: "ms_connectionState c = Connected" "kvs_inv ?m" "submap (kvs_abs ?m) (view s)"
    using assms(1) by (simp_all add: coherent_def)
  obtain a t where a: "stub_Lookup stub (mk_ObjectID n k) s = (Inr a, t)" "sinv t"
    "spec_kvs_step (Lookup n k) (view s) = (RObject (decode_lookup a), view t)"
    using lookup [OF assms(2)] by blast
  have vt: "view t = view s" using a(3) read_step_nop(1) [of n k "view s"] by (simp del: spec_kvs_step.simps)
  show ?thesis
  proof (cases "or_error a")
    case (Some e)
    with assms(3) a(1,2) c vt show ?thesis
      by (auto simp: MetadataService_lookup_remote_def coherent_def)
  next
    case None
    let ?x = "convert_Object (or_result a)"
    have sp: "spec_kvs_step (Lookup n k) (view s) = (RObject (Inr ?x), view s)"
      using a(3) None vt by (simp add: decode_lookup_def del: spec_kvs_step.simps)
    then have "obj_bucket ?x = n" "obj_key ?x = k" using lookup_spec_named by blast+
    moreover have "submap (kvs_abs (snd (MDSKVS_createObject ?m ?x True))) (view s)"
      using c lookup_spec_entry [OF sp] by (simp add: cache_step submap_step del: spec_kvs_step.simps)
    ultimately show ?thesis
      using assms(3) a(1,2) c vt None
      by (auto simp: MetadataService_lookup_remote_def coherent_def kvs_ops_inv Let_def)
  qed
qed

text \<open>A lookup answers with the object that was asked for, from the cache or from the server.\<close>

lemma lookup_named:
  assumes "coherent view (c, s)" "sinv s" "MetadataService_lookup stub n k invalidate (c, s) = (r, c', s')"
  shows "coherent view (c', s') \<and> sinv s' \<and> (\<forall>x. r = Inr x \<longrightarrow> obj_bucket x = n \<and> obj_key x = k)"
proof (cases "\<not> invalidate \<and> is_ok (MDSKVS_lookup (ms_mdsCache c) n k)")
  case True
  have c: "ms_connectionState c = Connected" "kvs_inv (ms_mdsCache c)"
    using assms(1) by (simp_all add: coherent_def)
  then obtain i where "entry (kvs_abs (ms_mdsCache c)) n k = Some i"
    using True by (auto simp: is_ok_cache_lookup)
  with True c cache_lookup [OF c(2) this] assms show ?thesis by (auto simp: MetadataService_lookup_def)
next
  case False
  with assms lookup_remote_named [OF assms(1,2)] show ?thesis
    by (auto simp: MetadataService_lookup_def coherent_def split: if_splits)
qed

lemma listing_entries:
  assumes "spec_kvs_step (ListObjects n p d) f = (RListing (Inr (objs, cps)), f')" and "x \<in> set objs"
    and "\<And>g. f n = Some g \<Longrightarrow> finite (dom g)"
  shows "entry f (obj_bucket x) (obj_key x) = Some (obj_info x)"
proof -
  obtain g where g: "f n = Some g" "listing_spec n g p d = (objs, cps)"
    using assms(1) by (auto simp: in_bucket_def split: option.splits)
  then have "x \<in> set (fst (listing_spec n g p d))" using assms(2) by simp
  with g(1) assms(3) [OF g(1)] show ?thesis by (auto simp: listing_spec_objects entry_def)
qed

lemma list_transparent:
  assumes "coherent view (c, s)" "sinv s" "of_char d < (128::nat)"
  shows "transparent (ListObjects n p d) (c, s)"
proof -
  let ?m = "ms_mdsCache c"
  have c: "ms_connectionState c = Connected" "kvs_inv ?m" "submap (kvs_abs ?m) (view s)"
    using assms(1) by (simp_all add: coherent_def)
  obtain r s' where r: "stub_List stub \<lparr>olr_prefix = mk_ObjectID n p,
        olr_delimiter = (if signed_char d > 0 then Some (signed_char d) else None)\<rparr> s = (Inr r, s')"
      "sinv s'" "spec_kvs_step (ListObjects n p d) (view s) = (RListing (decode_list r), view s')"
    using list [OF assms(2,3)] by blast
  have vs: "view s' = view s"
    using r(3) read_step_nop(2) [of n p d "view s"] by (simp del: spec_kvs_step.simps)
  show ?thesis
  proof (cases "ol_error r")
    case (Some e)
    then show ?thesis
      using c r by (intro transparentI [where r = "RListing (decode_list r)" and c' = c and s' = s'])
        (simp_all add: MetadataService_listPrefix_delim_def decode_list_def vs Let_def
          del: spec_kvs_step.simps)
  next
    case None
    let ?xs = "map convert_Object (ol_results r)"
    let ?c = "c\<lparr>ms_mdsCache := cache_all ?xs ?m\<rparr>"
    have "entry (view s) (obj_bucket x) (obj_key x) = Some (obj_info x)" if "x \<in> set ?xs" for x
      using listing_entries [OF _ that finite_view [OF assms(2)]] r(3) None
      by (simp add: decode_list_def del: spec_kvs_step.simps)
    with cache_all_submap [OF c(2,3)]
    have "kvs_inv (cache_all ?xs ?m)" "submap (kvs_abs (cache_all ?xs ?m)) (view s)" by blast+
    then show ?thesis
      using c r None by (intro transparentI [where r = "RListing (decode_list r)" and c' = ?c and s' = s'])
        (simp_all add: MetadataService_listPrefix_delim_def decode_list_def vs Let_def
          del: spec_kvs_step.simps)
  qed
qed

lemma write_transparent:
  assumes "coherent view (c, s)" "sinv s"
  shows "transparent (UpdateObject x) (c, s)" and "transparent (DeleteObject n k) (c, s)"
    and "transparent (DeletePrefix n k) (c, s)"
proof -
  have c: "ms_connectionState c = Connected" "kvs_inv (ms_mdsCache c)"
    "submap (kvs_abs (ms_mdsCache c)) (view s)"
    using assms(1) by (simp_all add: coherent_def)
  note defs = MetadataService_updateObject_def MetadataService_deleteObject_def
    MetadataService_deleteObjectPrefix_def Let_def
  obtain r s' where "stub_Update stub (encode_Object x) s = (Inr r, s')" "sinv s'"
    "spec_kvs_step (UpdateObject x) (view s) = (RStatus (convertStatus_from r), view s')"
    using update [OF assms(2)] by blast
  then show "transparent (UpdateObject x) (c, s)"
    using c submap_step(1) [OF c(3), of x]
    by (intro transparentI [where c' = "c\<lparr>ms_mdsCache := snd (MDSKVS_updateObject (ms_mdsCache c) x)\<rparr>"])
      (simp_all add: defs kvs_ops_inv cache_step del: spec_kvs_step.simps)
  obtain r s' where "stub_Delete stub (mk_ObjectID n k) s = (Inr r, s')" "sinv s'"
    "spec_kvs_step (DeleteObject n k) (view s) = (RStatus (convertStatus_from r), view s')"
    using delete [OF assms(2)] by blast
  then show "transparent (DeleteObject n k) (c, s)"
    using c submap_step(2) [OF c(3), of n k]
    by (intro transparentI [where c' = "c\<lparr>ms_mdsCache := snd (MDSKVS_deleteObject (ms_mdsCache c) n k)\<rparr>"])
      (simp_all add: defs kvs_ops_inv cache_step del: spec_kvs_step.simps)
  obtain r s' where "stub_DeletePrefix stub (mk_ObjectID n k) s = (Inr r, s')" "sinv s'"
    "spec_kvs_step (DeletePrefix n k) (view s) = (RStatus (convertStatus_from r), view s')"
    using delete_prefix [OF assms(2)] by blast
  then show "transparent (DeletePrefix n k) (c, s)"
    using c submap_step(3) [OF c(3), of n k]
    by (intro transparentI [where c' = "c\<lparr>ms_mdsCache := snd (MDSKVS_deleteObjectPrefix (ms_mdsCache c) n k)\<rparr>"])
      (simp_all add: defs kvs_ops_inv cache_step del: spec_kvs_step.simps)
qed

lemma bucket_transparent:
  assumes "coherent view (c, s)" "sinv s"
  shows "transparent (CreateBucket n) (c, s)" and "transparent ListBuckets (c, s)"
    and "transparent (BucketStatus n) (c, s)"
    and "map_of (ms_mdsCache c) n = None \<Longrightarrow> transparent (DeleteBucket n) (c, s)"
proof -
  have c: "ms_connectionState c = Connected" "kvs_inv (ms_mdsCache c)"
    "submap (kvs_abs (ms_mdsCache c)) (view s)"
    using assms(1) by (simp_all add: coherent_def)
  obtain r s' where "stub_CreateBucket stub n s = (Inr r, s')" "sinv s'"
    "spec_kvs_step (CreateBucket n) (view s) = (RStatus (convertStatus_from r), view s')"
    using create_bucket [OF assms(2)] by blast
  then show "transparent (CreateBucket n) (c, s)"
    using c submap_step(4) [OF c(3), of n] by (intro transparentI)
      (simp_all add: MetadataService_createBucket_def del: spec_kvs_step.simps)
  obtain r s' where "stub_ListBuckets stub () s = (Inr r, s')" "sinv s'"
    "spec_kvs_step ListBuckets (view s) = (RBuckets (decode_buckets r), view s')"
    using list_buckets [OF assms(2)] by blast
  then show "transparent ListBuckets (c, s)"
    using c by (intro transparentI [where c' = c]) (auto simp: MetadataService_listBuckets_def
        decode_buckets_def split: option.splits)
  obtain r s' where r: "stub_LookupBucket stub n s = (Inr r, s')" "sinv s'"
    "spec_kvs_step (BucketStatus n) (view s) = (RStatus (convertStatus_from r), view s')"
    using lookup_bucket [OF assms(2)] by blast
  let ?c = "if status_ok (convertStatus_from r) then c
    else c\<lparr>ms_mdsCache := snd (MDSKVS_deleteBucket (ms_mdsCache c) n)\<rparr>"
  have "kvs_inv (ms_mdsCache ?c)" "submap (kvs_abs (ms_mdsCache ?c)) (view s)"
    using c submap_step(5) [OF c(3), of n] by (simp_all add: kvs_ops_inv cache_step
        del: spec_kvs_step.simps)
  moreover have "view s' = view s" using r(3) by simp
  ultimately show "transparent (BucketStatus n) (c, s)"
    using r c(1) by (intro transparentI [where c' = ?c])
      (simp_all add: MetadataService_lookupBucket_def Let_def del: spec_kvs_step.simps)
  obtain r s' where r: "stub_DeleteBucket stub n s = (Inr r, s')" "sinv s'"
    "spec_kvs_step (DeleteBucket n) (view s) = (RStatus (convertStatus_from r), view s')"
    using delete_bucket [OF assms(2)] by blast
  assume "map_of (ms_mdsCache c) n = None"
  then show "transparent (DeleteBucket n) (c, s)"
    using r c submap_step(6) [OF c(3), of n] by (intro transparentI)
      (simp_all add: MetadataService_deleteBucket_def kvs_abs_NoneI del: spec_kvs_step.simps)
qed

lemma create_transparent:
  assumes "coherent view (c, s)" "sinv s"
    and "\<not> is_ok (MDSKVS_lookup (ms_mdsCache c) (obj_bucket x) (obj_key x))"
  shows "transparent (CreateObject x False) (c, s)"
proof -
  have c: "ms_connectionState c = Connected" "kvs_inv (ms_mdsCache c)"
    "submap (kvs_abs (ms_mdsCache c)) (view s)"
    using assms(1) by (simp_all add: coherent_def)
  obtain r s' where "stub_Create stub (encode_Object x) s = (Inr r, s')" "sinv s'"
    "spec_kvs_step (CreateObject x False) (view s) = (RStatus (convertStatus_from r), view s')"
    using create [OF assms(2)] by blast
  then show ?thesis
    using c assms(3) submap_step(7) [OF c(3), of x] by (intro transparentI)
      (simp_all add: MetadataService_createObject_def is_ok_cache_lookup del: spec_kvs_step.simps)
qed

lemma step_transparent:
  assumes "coherent view st" "sinv (snd st)" "cache_safe x (ms_mdsCache (fst st))"
  shows "transparent x st"
  using assms by (cases st; cases x) (auto simp: lookup_transparent list_transparent
      write_transparent bucket_transparent create_transparent)

lemma run_transparent:
  assumes "coherent view st" "sinv (snd st)" "run_safe stub xs st"
  shows "fst (client_run stub xs st) = fst (spec_kvs_run xs (view (snd st))) \<and>
    view (snd (snd (client_run stub xs st))) = snd (spec_kvs_run xs (view (snd st))) \<and>
    coherent view (snd (client_run stub xs st)) \<and> sinv (snd (snd (client_run stub xs st)))"
  using assms
proof (induction xs arbitrary: st)
  case Nil
  then show ?case by simp
next
  case (Cons x xs)
  have t: "transparent x st" using Cons.prems by (intro step_transparent) simp_all
  with Cons.IH [of "snd (client_step stub x st)"] Cons.prems(3) show ?case
    by (simp add: transparent_def del: client_step.simps spec_kvs_step.simps)
qed

end

section \<open>The server meets the contract\<close>

lemma spec_status_wf: "fst (spec_kvs_step x f) = RStatus st \<Longrightarrow> status_wf st"
  by (cases x) (auto simp: in_bucket_def no_bucket_def no_key_def split: option.splits if_splits)

lemma error_response_from [simp]: "status_wf s \<Longrightarrow> convertStatus_from (error_response s) = s"
  by (simp add: error_response_def)

lemma on_kvs_law:
  assumes "server_inv s" and "\<And>kvs. kvs_step x kvs = apfst RStatus (F kvs)"
  shows "\<exists>r s'. reliable (\<lambda>_. on_kvs F) q s = (Inr r, s') \<and> server_inv s' \<and>
    spec_kvs_step x (kvs_abs (srv_kvs s)) = (RStatus (convertStatus_from r), kvs_abs (srv_kvs s'))"
proof -
  obtain st kvs where F: "F (srv_kvs s) = (st, kvs)" by force
  have ref: "spec_kvs_step x (kvs_abs (srv_kvs s)) = (RStatus st, kvs_abs kvs)"
    using kvs_step_refines [OF server_inv_kvs [OF assms(1)], of x] assms(2) F by simp
  then have "status_wf st" using spec_status_wf [of x] by (metis fst_conv)
  moreover have "kvs_inv kvs"
    using kvs_step_inv [OF server_inv_kvs [OF assms(1)], of x] assms(2) F by simp
  then have "server_inv (s\<lparr>srv_kvs := kvs\<rparr>)" using assms(1) by (simp add: server_inv_def)
  ultimately show ?thesis
    using ref F by (simp add: reliable_def on_kvs_def del: spec_kvs_step.simps)
qed

lemma srv_Lookup_law:
  assumes "server_inv s"
  shows "spec_kvs_step (Lookup n k) (kvs_abs (srv_kvs s)) =
    (RObject (decode_lookup (srv_Lookup (mk_ObjectID n k) s)), kvs_abs (srv_kvs s))"
proof -
  have ref: "spec_kvs_step (Lookup n k) (kvs_abs (srv_kvs s)) =
      (RObject (MDSKVS_lookup (srv_kvs s) n k), kvs_abs (srv_kvs s))"
    using kvs_step_refines [OF server_inv_kvs [OF assms], of "Lookup n k"] by simp
  then have "status_wf e" if "MDSKVS_lookup (srv_kvs s) n k = Inl e" for e
    using that by (auto simp: in_bucket_def no_bucket_def no_key_def split: option.splits)
  with ref show ?thesis
    by (cases "MDSKVS_lookup (srv_kvs s) n k")
      (simp_all add: srv_Lookup_def decode_lookup_def del: spec_kvs_step.simps)
qed

lemma int_signed_char: "of_char d < (128::nat) \<Longrightarrow> int_to_char (signed_char d) = d"
  by (simp add: int_to_char_def signed_char_def)

lemma srv_List_law:
  assumes "server_inv s" and "of_char d < (128::nat)"
  shows "spec_kvs_step (ListObjects n p d) (kvs_abs (srv_kvs s)) =
    (RListing (decode_list (srv_List \<lparr>olr_prefix = mk_ObjectID n p,
       olr_delimiter = (if signed_char d > 0 then Some (signed_char d) else None)\<rparr> s)),
     kvs_abs (srv_kvs s))"
proof -
  have ref: "spec_kvs_step (ListObjects n p d) (kvs_abs (srv_kvs s)) =
      (RListing (MDSKVS_listObjects (srv_kvs s) n p d), kvs_abs (srv_kvs s))"
    using kvs_step_refines [OF server_inv_kvs [OF assms(1)], of "ListObjects n p d"] by simp
  then have wf: "status_wf e" if "MDSKVS_listObjects (srv_kvs s) n p d = Inl e" for e
    using that by (auto simp: in_bucket_def no_bucket_def split: option.splits)
  have "d = CHR 0x00" if "\<not> signed_char d > 0"
    using that assms(2) int_signed_char [OF assms(2)]
    by (auto simp: signed_char_def int_to_char_def char_of_def)
  then have "(case (if signed_char d > 0 then Some (signed_char d) else None) of
      Some d \<Rightarrow> int_to_char d | None \<Rightarrow> CHR 0x00) = d"
    using int_signed_char [OF assms(2)] by simp
  then show ?thesis
    using ref wf by (cases "MDSKVS_listObjects (srv_kvs s) n p d")
      (auto simp: srv_List_def decode_list_def Let_def comp_def simp del: spec_kvs_step.simps)
qed

interpretation srv: metadata_provider "server_stub peer reg" "\<lambda>s. kvs_abs (srv_kvs s)" server_inv
  for peer reg
proof
  fix s :: MetadataServiceImpl and n k :: string and x :: Object and d :: char and g
  assume inv: "server_inv s"
  note law = on_kvs_law [OF inv]
  show "\<exists>r s'. stub_CreateBucket (server_stub peer reg) n s = (Inr r, s') \<and> server_inv s' \<and>
      spec_kvs_step (CreateBucket n) (kvs_abs (srv_kvs s)) = (RStatus (convertStatus_from r), kvs_abs (srv_kvs s'))"
    using law [of "CreateBucket n" "\<lambda>kvs. MDSKVS_createBucket kvs n" n]
    by (simp add: server_stub_def reliable_def srv_CreateBucket_def del: spec_kvs_step.simps)
  show "\<exists>r s'. stub_DeleteBucket (server_stub peer reg) n s = (Inr r, s') \<and> server_inv s' \<and>
      spec_kvs_step (DeleteBucket n) (kvs_abs (srv_kvs s)) = (RStatus (convertStatus_from r), kvs_abs (srv_kvs s'))"
    using law [of "DeleteBucket n" "\<lambda>kvs. MDSKVS_deleteBucket kvs n" n]
    by (simp add: server_stub_def reliable_def srv_DeleteBucket_def del: spec_kvs_step.simps)
  show "\<exists>r s'. stub_ListBuckets (server_stub peer reg) () s = (Inr r, s') \<and> server_inv s' \<and>
      spec_kvs_step ListBuckets (kvs_abs (srv_kvs s)) = (RBuckets (decode_buckets r), kvs_abs (srv_kvs s'))"
    using kvs_step_refines [OF server_inv_kvs [OF inv], of ListBuckets] inv
    by (simp add: server_stub_def reliable_read_def srv_ListBuckets_def decode_buckets_def
        MDSKVS_listBuckets_def)
  show "\<exists>r s'. stub_LookupBucket (server_stub peer reg) n s = (Inr r, s') \<and> server_inv s' \<and>
      spec_kvs_step (BucketStatus n) (kvs_abs (srv_kvs s)) = (RStatus (convertStatus_from r), kvs_abs (srv_kvs s'))"
    using law [of "BucketStatus n" "\<lambda>kvs. (MDSKVS_bucketStatus kvs n, kvs)" n] inv
    by (simp add: server_stub_def reliable_def reliable_read_def srv_LookupBucket_def on_kvs_def
        del: spec_kvs_step.simps)
  show "\<exists>r s'. stub_Create (server_stub peer reg) (encode_Object x) s = (Inr r, s') \<and> server_inv s' \<and>
      spec_kvs_step (CreateObject x False) (kvs_abs (srv_kvs s)) = (RStatus (convertStatus_from r), kvs_abs (srv_kvs s'))"
    using law [of "CreateObject x False" "\<lambda>kvs. MDSKVS_createObject kvs x False" n]
    by (simp add: server_stub_def reliable_def srv_Create_def del: spec_kvs_step.simps)
  show "\<exists>r s'. stub_Update (server_stub peer reg) (encode_Object x) s = (Inr r, s') \<and> server_inv s' \<and>
      spec_kvs_step (UpdateObject x) (kvs_abs (srv_kvs s)) = (RStatus (convertStatus_from r), kvs_abs (srv_kvs s'))"
    using law [of "UpdateObject x" "\<lambda>kvs. MDSKVS_updateObject kvs x" n]
    by (simp add: server_stub_def reliable_def srv_Update_def del: spec_kvs_step.simps)
  show "\<exists>r s'. stub_Delete (server_stub peer reg) (mk_ObjectID n k) s = (Inr r, s') \<and> server_inv s' \<and>
      spec_kvs_step (DeleteObject n k) (kvs_abs (srv_kvs s)) = (RStatus (convertStatus_from r), kvs_abs (srv_kvs s'))"
    using law [of "DeleteObject n k" "\<lambda>kvs. MDSKVS_deleteObject kvs n k" n]
    by (simp add: server_stub_def reliable_def srv_Delete_def del: spec_kvs_step.simps)
  show "\<exists>r s'. stub_DeletePrefix (server_stub peer reg) (mk_ObjectID n k) s = (Inr r, s') \<and> server_inv s' \<and>
      spec_kvs_step (DeletePrefix n k) (kvs_abs (srv_kvs s)) = (RStatus (convertStatus_from r), kvs_abs (srv_kvs s'))"
    using law [of "DeletePrefix n k" "\<lambda>kvs. MDSKVS_deleteObjectPrefix kvs n k" n]
    by (simp add: server_stub_def reliable_def srv_DeletePrefix_def del: spec_kvs_step.simps)
  show "\<exists>r s'. stub_Lookup (server_stub peer reg) (mk_ObjectID n k) s = (Inr r, s') \<and> server_inv s' \<and>
      spec_kvs_step (Lookup n k) (kvs_abs (srv_kvs s)) = (RObject (decode_lookup r), kvs_abs (srv_kvs s'))"
    using srv_Lookup_law [OF inv] inv
    by (simp add: server_stub_def reliable_read_def del: spec_kvs_step.simps)
  show "\<exists>r s'. stub_List (server_stub peer reg) \<lparr>olr_prefix = mk_ObjectID n k,
        olr_delimiter = (if signed_char d > 0 then Some (signed_char d) else None)\<rparr> s = (Inr r, s') \<and>
      server_inv s' \<and>
      spec_kvs_step (ListObjects n k d) (kvs_abs (srv_kvs s)) = (RListing (decode_list r), kvs_abs (srv_kvs s'))"
    if "of_char d < (128::nat)"
    using srv_List_law [OF inv that] inv
    by (simp add: server_stub_def reliable_read_def del: spec_kvs_step.simps)
  show "finite (dom g)" if "kvs_abs (srv_kvs s) n = Some g"
    using that by (auto simp: kvs_abs_def)
qed

text \<open>
  C2. Cache transparency: a client that is connected to the metadata server and whose cache is a part
  of the server's contents sees, over any history of its own operations that neither re-creates a
  cached object nor deletes a cached bucket, exactly the answers of the abstract store: caching,
  encoding and decoding never show. The cache stays a part of the server's contents.
\<close>

theorem MetadataService_transparent:
  assumes "coherent (\<lambda>s. kvs_abs (srv_kvs s)) (c, s)" and "server_inv s"
    and "run_safe (server_stub peer reg) xs (c, s)"
  shows "fst (client_run (server_stub peer reg) xs (c, s)) = fst (spec_kvs_run xs (kvs_abs (srv_kvs s))) \<and>
    kvs_abs (srv_kvs (snd (snd (client_run (server_stub peer reg) xs (c, s))))) =
      snd (spec_kvs_run xs (kvs_abs (srv_kvs s))) \<and>
    coherent (\<lambda>s. kvs_abs (srv_kvs s)) (snd (client_run (server_stub peer reg) xs (c, s)))"
  using srv.run_transparent [of "(c, s)" peer reg xs] assms by simp

definition sample_client :: MetadataService where
  "sample_client = snd (MetadataService_connect ChannelReady (MetadataService_new ''u'' ''h:1''))"

definition sample_history :: "kvs_op list" where
  "sample_history = [CreateBucket ''bkt'', CreateObject (mk_Object ''bkt'' ''k'' sample_info) False,
     Lookup ''bkt'' ''k'', UpdateObject (mk_Object ''bkt'' ''k'' (sample_info\<lparr>info_size := 9\<rparr>)),
     Lookup ''bkt'' ''k'']"

lemma sample_client_coherent:
  "coherent (\<lambda>s. kvs_abs (srv_kvs s)) (sample_client, MetadataServiceImpl_new None)"
  using kvs_inv_new [of None]
  by (simp add: coherent_def sample_client_def MetadataService_connect_def MetadataService_new_def
      submap_def entry_def kvs_abs_def MDSKVS_new_def)

theorem MetadataService_transparent_witness:
  "run_safe (server_stub ''p'' unimplemented) sample_history (sample_client, MetadataServiceImpl_new None) \<and>
   fst (client_run (server_stub ''p'' unimplemented) sample_history
     (sample_client, MetadataServiceImpl_new None)) =
     fst (spec_kvs_run sample_history (kvs_abs (srv_kvs (MetadataServiceImpl_new None))))"
proof -
  have "run_safe (server_stub ''p'' unimplemented) sample_history
      (sample_client, MetadataServiceImpl_new None)" by code_simp
  then show ?thesis
    using MetadataService_transparent [OF sample_client_coherent server_inv_new] by blast
qed

text \<open>
  Creating an object through the client does not touch its cache: when the object was looked up
  before, a re-creation succeeds at the server, and the next lookup still returns the old version,
  while a lookup that bypasses the cache returns the new one.
\<close>

theorem MetadataService_createObject_stale:
  assumes "coherent (\<lambda>s. kvs_abs (srv_kvs s)) (c, s)" and "server_inv s"
    and "entry (kvs_abs (ms_mdsCache c)) (obj_bucket x) (obj_key x) = Some old"
    and "MetadataService_createObject (server_stub peer reg) x (c, s) = (status, c', s')"
  shows "status = OkStatus \<and>
    fst (MetadataService_lookup (server_stub peer reg) (obj_bucket x) (obj_key x) False (c', s')) =
      Inr (mk_Object (obj_bucket x) (obj_key x) old) \<and>
    fst (MetadataService_lookup (server_stub peer reg) (obj_bucket x) (obj_key x) True (c', s')) = Inr x"
proof -
  let ?b = "obj_bucket x" and ?k = "obj_key x" and ?stub = "server_stub peer reg"
  have c: "ms_connectionState c = Connected" "kvs_inv (ms_mdsCache c)"
    and "entry (kvs_abs (srv_kvs s)) ?b ?k = Some old"
    using assms(1,3) by (simp_all add: coherent_def submap_def)
  obtain r s1 where r: "stub_Create ?stub (encode_Object x) s = (Inr r, s1)" "server_inv s1"
    "spec_kvs_step (CreateObject x False) (kvs_abs (srv_kvs s)) =
      (RStatus (convertStatus_from r), kvs_abs (srv_kvs s1))"
    using srv.create [OF assms(2)] by blast
  then have s: "c' = c" "s' = s1" "status = convertStatus_from r"
    using assms(4) c by (auto simp: MetadataService_createObject_def)
  from \<open>entry (kvs_abs (srv_kvs s)) ?b ?k = Some old\<close>
  obtain g where g: "kvs_abs (srv_kvs s) ?b = Some g" by (auto simp: entry_def split: option.splits)
  then have v: "kvs_abs (srv_kvs s1) = snd (spec_kvs_step (CreateObject x False) (kvs_abs (srv_kvs s)))"
    using r(3) by (simp del: spec_kvs_step.simps)
  have new: "entry (kvs_abs (srv_kvs s1)) ?b ?k = Some (obj_info x)"
    unfolding v entry_step using g by simp
  have "status = OkStatus" using r(3) g s(3) by (simp add: in_bucket_def)
  moreover have "MDSKVS_lookup (ms_mdsCache c) ?b ?k = Inr (mk_Object ?b ?k old)"
    using c(2) assms(3) by (rule cache_lookup)
  moreover have "decode_lookup (srv_Lookup (mk_ObjectID ?b ?k) s1) = Inr x"
    using srv_Lookup_law [OF r(2), of ?b ?k] entry_lookup_spec [OF new]
    by (simp del: spec_kvs_step.simps)
  ultimately show ?thesis
    using c by (auto simp: s MetadataService_lookup_def MetadataService_lookup_remote_def
        server_stub_def reliable_read_def decode_lookup_def Let_def split: option.splits)
qed

theorem MetadataService_createObject_stale_witness:
  "\<exists>c s. coherent (\<lambda>s. kvs_abs (srv_kvs s)) (c, s) \<and> server_inv s \<and>
     fst (MetadataService_lookup (server_stub ''p'' unimplemented) ''bkt'' ''k'' False
       (snd (MetadataService_createObject (server_stub ''p'' unimplemented)
         (mk_Object ''bkt'' ''k'' (sample_info\<lparr>info_size := 9\<rparr>)) (c, s)))) =
       Inr (mk_Object ''bkt'' ''k'' sample_info)"
proof -
  let ?x = "mk_Object ''bkt'' ''k'' (sample_info\<lparr>info_size := 9\<rparr>)"
  let ?stub = "server_stub ''p'' unimplemented"
  define st where "st = snd (client_run ?stub (take 3 sample_history)
    (sample_client, MetadataServiceImpl_new None))"
  obtain c s where cs: "st = (c, s)" by force
  have "run_safe ?stub (take 3 sample_history) (sample_client, MetadataServiceImpl_new None)"
    by code_simp
  then have st: "coherent (\<lambda>s. kvs_abs (srv_kvs s)) (c, s)" "server_inv s"
    using srv.run_transparent [OF sample_client_coherent, of "''p''" unimplemented
        "take 3 sample_history"] server_inv_new cs by (simp_all add: st_def)
  have "entry (kvs_abs (ms_mdsCache (fst st))) ''bkt'' ''k'' = Some sample_info"
    unfolding st_def by code_simp
  then have "entry (kvs_abs (ms_mdsCache c)) (obj_bucket ?x) (obj_key ?x) = Some sample_info"
    by (simp add: cs)
  moreover obtain status c' s' where
    "MetadataService_createObject ?stub ?x (c, s) = (status, c', s')" by (metis surj_pair)
  ultimately have "fst (MetadataService_lookup ?stub ''bkt'' ''k'' False (c', s')) =
      Inr (mk_Object ''bkt'' ''k'' sample_info)"
    using MetadataService_createObject_stale [OF st, of ?x] by simp
  with st \<open>MetadataService_createObject ?stub ?x (c, s) = _\<close> show ?thesis
    by (intro exI [of _ c] exI [of _ s]) simp
qed

end
