(* ===== verification/Local_File.thy ===== *)
theory Local_File
  imports Absl_Status
begin

text \<open>
  \<^verbatim>\<open>src/libgeds/LocalFile.{h,cpp}\<close>: a file of the local file system behind POSIX calls that may be
  interrupted, fail, or transfer less than was asked for. The behaviour of the calls is a script, one
  event per call; when the script is used up every call transfers all it can. The
  specification is a byte sequence with positional reads and writes, the interface \<open>file_backend\<close>.
\<close>

section \<open>Byte sequences\<close>

text \<open>A positional write pads a gap with zero bytes, as a sparse file reads.\<close>

definition file_write :: "nat \<Rightarrow> byte list \<Rightarrow> byte list \<Rightarrow> byte list" where
  "file_write pos bs c =
     (if bs = [] then c
      else take pos c @ replicate (pos - length c) 0 @ bs @ drop (pos + length bs) c)"

definition file_read :: "nat \<Rightarrow> nat \<Rightarrow> byte list \<Rightarrow> byte list" where
  "file_read pos n c = take n (drop pos c)"

definition file_truncate :: "nat \<Rightarrow> byte list \<Rightarrow> byte list" where
  "file_truncate n c = take n c @ replicate (n - length c) 0"

lemma file_write_Nil [simp]: "file_write pos [] c = c"
  by (simp add: file_write_def)

lemma length_file_write [simp]:
  "length (file_write pos bs c) = (if bs = [] then length c else max (length c) (pos + length bs))"
  by (auto simp: file_write_def max_def)

lemma nth_file_write:
  "i < length (file_write pos bs c) \<Longrightarrow> file_write pos bs c ! i =
     (if pos \<le> i \<and> i < pos + length bs then bs ! (i - pos)
      else if i < length c then c ! i else 0)"
  by (auto simp: file_write_def nth_append min_def split: if_splits)

text \<open>Consecutive writes compose to one write.\<close>

lemma file_write_append:
  "file_write (pos + length a) b (file_write pos a c) = file_write pos (a @ b) c"
proof (rule nth_equalityI)
  show "length (file_write (pos + length a) b (file_write pos a c)) = length (file_write pos (a @ b) c)"
    by auto
next
  fix i assume i: "i < length (file_write (pos + length a) b (file_write pos a c))"
  then have j: "i < length (file_write pos (a @ b) c)" by (auto split: if_splits)
  show "file_write (pos + length a) b (file_write pos a c) ! i = file_write pos (a @ b) c ! i"
  proof (cases "i < length (file_write pos a c)")
    case True
    with i j show ?thesis
      by (simp only: nth_file_write) (auto simp: nth_append)
  next
    case False
    with i j show ?thesis
      by (simp only: nth_file_write) (auto simp: nth_append split: if_splits)
  qed
qed

lemma file_read_split:
  assumes "k \<le> n"
  shows "file_read p n c = file_read p k c @ file_read (p + k) (n - k) c"
proof -
  have "take n (drop p c) = take k (drop p c) @ take (n - k) (drop k (drop p c))"
    using assms by (metis le_add_diff_inverse take_add)
  then show ?thesis by (simp add: file_read_def add.commute)
qed

lemma file_read_write:
  "file_read pos (length bs) (file_write pos bs c) = bs"
proof (cases "bs = []")
  case False
  then show ?thesis by (simp add: file_read_def file_write_def drop_append)
qed (simp add: file_read_def)

lemma file_read_write_disjoint:
  assumes "q + n \<le> pos \<or> pos + length bs \<le> q" and "q + n \<le> length c"
  shows "file_read q n (file_write pos bs c) = file_read q n c"
proof (rule nth_equalityI)
  show "length (file_read q n (file_write pos bs c)) = length (file_read q n c)"
    using assms(2) by (auto simp: file_read_def)
next
  fix i assume "i < length (file_read q n (file_write pos bs c))"
  then have "i < n" "q + i < length (file_write pos bs c)" by (auto simp: file_read_def)
  then show "file_read q n (file_write pos bs c) ! i = file_read q n c ! i"
    using assms nth_file_write [of "q + i" pos bs c] by (auto simp: file_read_def)
qed

section \<open>POSIX calls\<close>

datatype io_event = Interrupted | Failed string | Moved nat

text \<open>The inner loop repeats a call as long as it is interrupted.\<close>

fun retry_eintr :: "io_event list \<Rightarrow> nat \<Rightarrow> io_event \<times> io_event list" where
  "retry_eintr [] count = (Moved count, [])"
| "retry_eintr (Interrupted # script) count = retry_eintr script count"
| "retry_eintr (e # script) count = (e, script)"

definition INT64_MAX :: nat where "INT64_MAX = 2 ^ 63 - 1"
definition SSIZE_MAX :: nat where "SSIZE_MAX = 2 ^ 63 - 1"

text \<open>For evaluation, the limits are compared as binary integers.\<close>

lemma INT64_MAX_code [code_unfold]:
  "INT64_MAX \<le> n \<longleftrightarrow> 9223372036854775807 \<le> int n" "INT64_MAX < n \<longleftrightarrow> 9223372036854775807 < int n"
  by (simp_all add: INT64_MAX_def)

lemma SSIZE_MAX_code [code_unfold]:
  "min n SSIZE_MAX = (if int n \<le> 9223372036854775807 then n else SSIZE_MAX)"
  by (simp_all add: SSIZE_MAX_def min_def)

record LocalFile =
  lf_path :: string
  lf_fd :: int
  lf_size :: size_t
  lf_content :: "byte list"

definition not_open :: "string \<Rightarrow> Status" where
  "not_open path = UnavailableError (''The file at '' @ path @ '' is not open!'')"

text \<open>
  The constructor: \<open>open\<close> and \<open>fstat\<close> succeed or fail with a reason; \<open>existing\<close> is the content of
  a file that is already there.
\<close>

definition LocalFile_new ::
  "string \<Rightarrow> bool \<Rightarrow> string + int \<Rightarrow> string option \<Rightarrow> byte list \<Rightarrow> LocalFile outcome" where
  "LocalFile_new pathArg overwrite opened fstat existing =
     (case opened of
        Inl reason \<Rightarrow> Raises (''Unable to open '' @ pathArg @ ''. Reason: '' @ reason)
      | Inr fd \<Rightarrow>
          (case fstat of
             Some reason \<Rightarrow> Raises (''Fstat on '' @ pathArg @ '' reported: '' @ reason)
           | None \<Rightarrow>
               let c = (if overwrite then [] else existing)
               in Returns \<lparr>lf_path = pathArg, lf_fd = fd, lf_size = length c, lf_content = c\<rparr>))"

definition LocalFile_notifyUnused :: "LocalFile \<Rightarrow> LocalFile" where
  "LocalFile_notifyUnused f = f"

definition LocalFile_fsync :: "io_event list \<Rightarrow> LocalFile \<Rightarrow> Status" where
  "LocalFile_fsync script f =
     (if lf_fd f < 0 then not_open (lf_path f)
      else case fst (retry_eintr script 0) of
          Failed err \<Rightarrow> UnknownError (''Unable to fsync '' @ lf_path f @ '': '' @ err)
        | _ \<Rightarrow> OkStatus)"

definition LocalFile_fileSize :: "LocalFile \<Rightarrow> size_t StatusOr" where
  "LocalFile_fileSize f = (if lf_fd f < 0 then Inl (not_open (lf_path f)) else Inr (lf_size f))"

definition LocalFile_rawFd :: "LocalFile \<Rightarrow> int StatusOr" where
  "LocalFile_rawFd f = (if lf_fd f < 0 then Inl (not_open (lf_path f)) else Inr (lf_fd f))"

definition LocalFile_rawPtr :: "LocalFile \<Rightarrow> nat StatusOr" where
  "LocalFile_rawPtr f = Inl (UnavailableError ''RawPtr is not supported for LocalFile.'')"

definition LocalFile_localStorageSize :: "LocalFile \<Rightarrow> size_t" where
  "LocalFile_localStorageSize f = lf_size f"

definition LocalFile_localMemorySize :: "LocalFile \<Rightarrow> size_t" where
  "LocalFile_localMemorySize f = 0"

text \<open>
  The transfer loop of \<open>readBytes\<close>: \<open>acc\<close> holds the bytes written to the front of the buffer, its
  length is \<open>offset\<close>. A \<open>pread\<close> moves at most what lies between the position and the end of file.
\<close>

function LocalFile_read_loop ::
  "LocalFile \<Rightarrow> size_t \<Rightarrow> size_t \<Rightarrow> io_event list \<Rightarrow> byte list \<Rightarrow> (size_t \<times> byte list) StatusOr" where
  "LocalFile_read_loop f position length' script acc =
     (let offset = length acc in
      if offset < length' then
        (let count = min (length' - offset) SSIZE_MAX in
         case retry_eintr script count of
           (Failed err, rest) \<Rightarrow> Inl (UnknownError (''Error reading '' @ lf_path f @ '': '' @ err))
         | (Moved n, rest) \<Rightarrow>
             (let got = file_read (wrap64 (position + offset)) (min n count) (lf_content f)
              in if got = [] then Inr (offset, acc)
                 else LocalFile_read_loop f position length' rest (acc @ got))
         | (Interrupted, rest) \<Rightarrow> Inr (offset, acc))
      else Inr (offset, acc))"
  by pat_completeness auto

termination LocalFile_read_loop
  by (relation "measure (\<lambda>(_, _, length', _, acc). length' - length acc)") (auto simp flip: length_greater_0_conv)

declare LocalFile_read_loop.simps [simp del]

definition LocalFile_readBytes ::
  "io_event list \<Rightarrow> LocalFile \<Rightarrow> size_t \<Rightarrow> size_t \<Rightarrow> (size_t \<times> byte list) StatusOr" where
  "LocalFile_readBytes script f position length' =
     (if position \<ge> INT64_MAX
      then Inl (FailedPreconditionError (''Stream positions > '' @ show_nat INT64_MAX @
             '' are not supported!''))
      else if length' = 0 then Inr (0, [])
      else if position > lf_size f then Inr (0, [])
      else
        let len = min length' (lf_size f - position) in
        if len = 0 then Inr (0, [])
        else LocalFile_read_loop f position len script [])"

text \<open>The size is set before the call that may fail.\<close>

definition LocalFile_truncate :: "string option \<Rightarrow> LocalFile \<Rightarrow> size_t \<Rightarrow> Status \<times> LocalFile" where
  "LocalFile_truncate ftruncate f targetSize =
     (if lf_fd f < 0 then (not_open (lf_path f), f)
      else
        let f' = f\<lparr>lf_size := targetSize\<rparr> in
        case ftruncate of
          Some err \<Rightarrow> (UnknownError (''Unable to ftruncate file '' @ lf_path f @ '': '' @ err), f')
        | None \<Rightarrow> (OkStatus, f'\<lparr>lf_content := file_truncate targetSize (lf_content f)\<rparr>))"

text \<open>The transfer loop of \<open>writeBytes\<close>; every \<open>pwrite\<close> writes to the file at once.\<close>

function LocalFile_write_loop ::
  "size_t \<Rightarrow> byte list \<Rightarrow> size_t \<Rightarrow> io_event list \<Rightarrow> LocalFile \<Rightarrow> Status \<times> LocalFile" where
  "LocalFile_write_loop position bytes offset script f =
     (if offset < length bytes then
        (let count = min (length bytes - offset) SSIZE_MAX in
         case retry_eintr script count of
           (Failed err, rest) \<Rightarrow> (UnknownError (''Error writing '' @ lf_path f @ '': '' @ err), f)
         | (Moved n, rest) \<Rightarrow>
             (let numBytes = min n count in
              if numBytes = 0
              then (UnknownError (''Write on '' @ lf_path f @ '' returned an EOF.''), f)
              else LocalFile_write_loop position bytes (offset + numBytes) rest
                     (f\<lparr>lf_content := file_write (wrap64 (position + offset))
                         (take numBytes (drop offset bytes)) (lf_content f)\<rparr>))
         | (Interrupted, rest) \<Rightarrow> (OkStatus, f))
      else
        (let newSize = wrap64 (position + offset)
         in (OkStatus, if lf_size f < newSize then f\<lparr>lf_size := newSize\<rparr> else f)))"
  by pat_completeness auto

termination LocalFile_write_loop
  by (relation "measure (\<lambda>(_, bytes, offset, _, _). length bytes - offset)") auto

declare LocalFile_write_loop.simps [simp del]

definition LocalFile_writeBytes ::
  "io_event list \<Rightarrow> LocalFile \<Rightarrow> byte list \<Rightarrow> size_t \<Rightarrow> Status \<times> LocalFile" where
  "LocalFile_writeBytes script f bytes position =
     (if position > INT64_MAX
      then (FailedPreconditionError (''Stream positions > '' @ show_nat position @
              '' are not yet supported.''), f)
      else if length bytes = 0 then (OkStatus, f)
      else LocalFile_write_loop position bytes 0 script f)"

text \<open>
  \<open>write(istream)\<close> copies the stream in pieces of at most 4096 bytes. \<open>readsome\<close> delivers what is
  available without blocking; the steps give, per round, the number of available bytes and the events
  of the write. Without further steps everything is available.
\<close>

function LocalFile_write_stream ::
  "(nat \<times> io_event list) list \<Rightarrow> byte list \<Rightarrow> size_t \<Rightarrow> size_t \<Rightarrow> size_t \<Rightarrow> LocalFile
     \<Rightarrow> size_t StatusOr \<times> LocalFile" where
  "LocalFile_write_stream steps stream position length' n f =
     (let (avail, script) = (case steps of [] \<Rightarrow> (length stream, []) | s # _ \<Rightarrow> s);
          maxRead = min 4096 (sz_sub length' n);
          count = min maxRead (min avail (length stream))
      in case LocalFile_writeBytes script f (take count stream) (wrap64 (position + n)) of
           (status, f') \<Rightarrow>
             if \<not> status_ok status then (Inl status, f')
             else if count = 0 then (Inr n, f')
             else LocalFile_write_stream (tl steps) (drop count stream) position length' (n + count) f')"
  by pat_completeness auto

termination LocalFile_write_stream
  by (relation "measure (\<lambda>(_, stream, _, _, _, _). length stream)") auto

declare LocalFile_write_stream.simps [simp del]

definition LocalFile_write ::
  "(nat \<times> io_event list) list \<Rightarrow> byte list \<Rightarrow> size_t \<Rightarrow> size_t option \<Rightarrow> LocalFile
     \<Rightarrow> size_t StatusOr \<times> LocalFile" where
  "LocalFile_write steps stream position lengthOpt f =
     LocalFile_write_stream steps stream position
       (case lengthOpt of None \<Rightarrow> INT64_MAX | Some n \<Rightarrow> n) 0 f"

section \<open>Correctness of the transfer loops\<close>

text \<open>Calls that are interrupted or transfer less than asked, but do not fail.\<close>

definition io_ok :: "io_event list \<Rightarrow> bool" where
  "io_ok script \<longleftrightarrow> (\<forall>e \<in> set script. e = Interrupted \<or> (\<exists>n. e = Moved n \<and> 0 < n))"

lemma io_ok_Nil [simp]: "io_ok []"
  by (simp add: io_ok_def)

lemma retry_ok:
  "io_ok script \<Longrightarrow> 0 < count \<Longrightarrow>
     \<exists>n rest. retry_eintr script count = (Moved n, rest) \<and> 0 < n \<and> io_ok rest"
  by (induction script count rule: retry_eintr.induct) (auto simp: io_ok_def)

lemma read_loop_correct:
  assumes "io_ok script" "position + length' \<le> length (lf_content f)" "length (lf_content f) < 2 ^ 63"
    and "acc = file_read position (length acc) (lf_content f)" "length acc \<le> length'"
  shows "LocalFile_read_loop f position length' script acc =
    Inr (length', file_read position length' (lf_content f))"
  using assms
proof (induction "length' - length acc" arbitrary: script acc rule: less_induct)
  case less
  let ?c = "lf_content f" and ?o = "length acc"
  show ?case
  proof (cases "?o < length'")
    case False
    with less.prems have "?o = length'" by simp
    with less.prems(4) show ?thesis by (subst LocalFile_read_loop.simps) (simp add: Let_def)
  next
    case True
    let ?count = "min (length' - ?o) SSIZE_MAX"
    have "0 < ?count" using True by (simp add: SSIZE_MAX_def)
    then obtain n rest where r: "retry_eintr script ?count = (Moved n, rest)" "0 < n" "io_ok rest"
      using retry_ok less.prems(1) by blast
    define k where "k = min n ?count"
    define got where "got = file_read (wrap64 (position + ?o)) k ?c"
    have p: "wrap64 (position + ?o) = position + ?o"
      using True less.prems(2,3) by (intro wrap64_id) simp
    have k: "0 < k" "k \<le> length' - ?o" using \<open>0 < ?count\<close> r(2) by (simp_all add: k_def)
    have len: "length got = k" using less.prems(2) k True unfolding got_def p file_read_def by simp
    have acc: "acc @ got = file_read position (?o + k) ?c"
      using less.prems(4) unfolding got_def p file_read_def
      by (metis add.commute drop_drop take_add)
    have "got \<noteq> []" using len k(1) by auto
    then have "LocalFile_read_loop f position length' script acc =
        LocalFile_read_loop f position length' rest (acc @ got)"
      using True r(1) by (subst LocalFile_read_loop.simps)
        (simp only: Let_def if_True if_False prod.case io_event.case k_def [symmetric] got_def [symmetric])
    also have "\<dots> = Inr (length', file_read position length' ?c)"
    proof (rule less.hyps)
      show "length' - length (acc @ got) < length' - length acc" using len k True by simp
      show "acc @ got = file_read position (length (acc @ got)) ?c" using acc len by (metis length_append)
      show "length (acc @ got) \<le> length'" using len k True by simp
    qed (use r(3) less.prems in simp_all)
    finally show ?thesis .
  qed
qed

definition lf_inv :: "LocalFile \<Rightarrow> bool" where
  "lf_inv f \<longleftrightarrow> 0 \<le> lf_fd f \<and> lf_size f = length (lf_content f) \<and> length (lf_content f) < 2 ^ 63"

lemma LocalFile_readBytes_correct:
  assumes "io_ok script" "lf_inv f" "position < INT64_MAX"
  shows "LocalFile_readBytes script f position n =
    Inr (length (file_read position n (lf_content f)), file_read position n (lf_content f))"
proof -
  let ?c = "lf_content f" and ?len = "min n (length (lf_content f) - position)"
  show ?thesis
  proof (cases "n = 0 \<or> length ?c \<le> position")
    case True
    then show ?thesis using assms by (auto simp: LocalFile_readBytes_def lf_inv_def file_read_def Let_def)
  next
    case False
    then have "LocalFile_read_loop f position ?len script [] = Inr (?len, file_read position ?len ?c)"
      using assms by (intro read_loop_correct) (auto simp: lf_inv_def file_read_def)
    moreover have "file_read position ?len ?c = file_read position n ?c"
      by (simp add: file_read_def take_min_drop)
    ultimately show ?thesis
      using assms False by (simp add: LocalFile_readBytes_def lf_inv_def Let_def file_read_def min.commute)
  qed
qed

lemma write_loop_correct:
  assumes "io_ok script" "position + length bytes < 2 ^ 64" "offset \<le> length bytes"
  shows "LocalFile_write_loop position bytes offset script f =
    (OkStatus, f\<lparr>lf_content := file_write (position + offset) (drop offset bytes) (lf_content f),
       lf_size := max (lf_size f) (position + length bytes)\<rparr>)"
  using assms
proof (induction "length bytes - offset" arbitrary: script offset f rule: less_induct)
  case less
  show ?case
  proof (cases "offset < length bytes")
    case False
    with less.prems show ?thesis
      by (subst LocalFile_write_loop.simps) (auto simp: Let_def max_def)
  next
    case True
    let ?count = "min (length bytes - offset) SSIZE_MAX"
    have "0 < ?count" using True by (simp add: SSIZE_MAX_def)
    then obtain n rest where r: "retry_eintr script ?count = (Moved n, rest)" "0 < n" "io_ok rest"
      using retry_ok less.prems(1) by blast
    define k where "k = min n ?count"
    define a where "a = take k (drop offset bytes)"
    let ?f = "f\<lparr>lf_content := file_write (position + offset) a (lf_content f)\<rparr>"
    have k: "0 < k" "k \<le> length bytes - offset" using \<open>0 < ?count\<close> r(2) by (simp_all add: k_def)
    then have a: "length a = k" "a @ drop (offset + k) bytes = drop offset bytes"
      by (simp_all add: a_def) (metis add.commute append_take_drop_id drop_drop)
    have p: "wrap64 (position + offset) = position + offset"
      using True less.prems(2) by (intro wrap64_id) simp
    have "LocalFile_write_loop position bytes offset script f =
        LocalFile_write_loop position bytes (offset + k) rest ?f"
      using True r(1) k(1) p by (subst LocalFile_write_loop.simps)
        (simp add: Let_def k_def [symmetric] a_def [symmetric])
    also have "\<dots> = (OkStatus, ?f\<lparr>lf_content :=
        file_write (position + (offset + k)) (drop (offset + k) bytes) (lf_content ?f),
        lf_size := max (lf_size ?f) (position + length bytes)\<rparr>)"
      by (rule less.hyps) (use True r(3) less.prems k in simp_all)
    also have "file_write (position + (offset + k)) (drop (offset + k) bytes) (lf_content ?f) =
        file_write (position + offset) (drop offset bytes) (lf_content f)"
      using file_write_append [of "position + offset" a "drop (offset + k) bytes" "lf_content f"] a
      by (simp add: add.assoc)
    finally show ?thesis by simp
  qed
qed

lemma LocalFile_writeBytes_correct:
  assumes "io_ok script" "lf_inv f" "position + length bytes < 2 ^ 63"
  shows "LocalFile_writeBytes script f bytes position =
    (OkStatus, f\<lparr>lf_content := file_write position bytes (lf_content f),
       lf_size := length (file_write position bytes (lf_content f))\<rparr>)"
proof (cases "bytes = []")
  case True
  then show ?thesis
    using assms by (auto simp: LocalFile_writeBytes_def lf_inv_def INT64_MAX_def)
next
  case False
  with write_loop_correct [OF assms(1), of position bytes 0 f] assms show ?thesis
    by (simp add: LocalFile_writeBytes_def lf_inv_def INT64_MAX_def)
qed

section \<open>The interface of a file\<close>

text \<open>
  What a file offers to the handle classes: positional reads and writes over a byte sequence. Reading
  may change the representation (a mapping is re-established), not the contents. Positions and sizes
  stay below \<open>2 ^ 63\<close>, the range of a signed 64-bit offset.
\<close>

locale file_backend =
  fixes contents :: "'f \<Rightarrow> byte list"
    and inv :: "'f \<Rightarrow> bool"
    and reader :: "'f \<Rightarrow> size_t \<Rightarrow> size_t \<Rightarrow> (size_t \<times> byte list) StatusOr \<times> 'f"
    and writer :: "'f \<Rightarrow> byte list \<Rightarrow> size_t \<Rightarrow> Status \<times> 'f"
  assumes read_law: "inv f \<Longrightarrow> p < INT64_MAX \<Longrightarrow> n \<le> SSIZE_MAX \<Longrightarrow>
      fst (reader f p n) = Inr (length (file_read p n (contents f)), file_read p n (contents f)) \<and>
      contents (snd (reader f p n)) = contents f \<and> inv (snd (reader f p n))"
    and write_law: "inv f \<Longrightarrow> p + length bs \<le> INT64_MAX - 4096 \<Longrightarrow>
      fst (writer f bs p) = OkStatus \<and> contents (snd (writer f bs p)) = file_write p bs (contents f) \<and>
      inv (snd (writer f bs p))"
begin

text \<open>A read after a write of the same range returns what was written.\<close>

lemma read_after_write:
  assumes "inv f" "p + length bs \<le> INT64_MAX - 4096"
  shows "fst (reader (snd (writer f bs p)) p (length bs)) = Inr (length bs, bs)"
proof -
  have "p < INT64_MAX" "length bs \<le> SSIZE_MAX"
    using assms(2) by (simp_all add: INT64_MAX_def SSIZE_MAX_def)
  with read_law [of "snd (writer f bs p)" p "length bs"] write_law [OF assms] show ?thesis
    by (simp add: file_read_write)
qed

text \<open>A batch of writes leaves the contents of the writes applied in order.\<close>

definition write_batch :: "(nat \<times> byte list) list \<Rightarrow> 'f \<Rightarrow> 'f" where
  "write_batch ws f = fold (\<lambda>(p, bs) f. snd (writer f bs p)) ws f"

lemma contents_write_batch:
  assumes "inv f" "\<forall>(p, bs) \<in> set ws. p + length bs \<le> INT64_MAX - 4096"
  shows "contents (write_batch ws f) = fold (\<lambda>(p, bs). file_write p bs) ws (contents f) \<and>
    inv (write_batch ws f)"
  using assms
proof (induction ws arbitrary: f)
  case Nil
  then show ?case by (simp add: write_batch_def)
next
  case (Cons w ws)
  obtain p bs where w: "w = (p, bs)" by force
  with write_law [OF Cons.prems(1), of p bs] Cons.IH [of "snd (writer f bs p)"] Cons.prems(2)
  show ?case by (simp add: write_batch_def)
qed

end

text \<open>
  \<open>LocalFile\<close> implements the interface, for all schedules of interrupted and partial calls.
\<close>

definition good_script :: "io_event list \<Rightarrow> io_event list" where
  "good_script script =
     filter (\<lambda>e. case e of Interrupted \<Rightarrow> True | Moved n \<Rightarrow> 0 < n | Failed _ \<Rightarrow> False) script"

lemma io_ok_good_script [simp]: "io_ok (good_script script)"
  by (auto simp: io_ok_def good_script_def split: io_event.splits)

lemma good_script_id: "io_ok script \<Longrightarrow> good_script script = script"
  by (auto simp: io_ok_def good_script_def filter_id_conv split: io_event.splits)

definition LocalFile_reader where
  "LocalFile_reader script f p n = (LocalFile_readBytes script f p n, f)"

lemma LocalFile_backend:
  assumes "io_ok script"
  shows "file_backend lf_content lf_inv (LocalFile_reader script) (LocalFile_writeBytes script)"
proof
  fix f p n
  assume "lf_inv f" "p < INT64_MAX" "n \<le> SSIZE_MAX"
  then show "fst (LocalFile_reader script f p n) =
      Inr (length (file_read p n (lf_content f)), file_read p n (lf_content f)) \<and>
    lf_content (snd (LocalFile_reader script f p n)) = lf_content f \<and>
    lf_inv (snd (LocalFile_reader script f p n))"
    using LocalFile_readBytes_correct [OF assms] by (simp add: LocalFile_reader_def)
next
  fix f p and bs :: "byte list"
  assume "lf_inv f" "p + length bs \<le> INT64_MAX - 4096"
  then show "fst (LocalFile_writeBytes script f bs p) = OkStatus \<and>
    lf_content (snd (LocalFile_writeBytes script f bs p)) = file_write p bs (lf_content f) \<and>
    lf_inv (snd (LocalFile_writeBytes script f bs p))"
    using LocalFile_writeBytes_correct [OF assms, of f p bs]
    by (auto simp: INT64_MAX_def lf_inv_def)
qed

interpretation lfile: file_backend lf_content lf_inv
  "LocalFile_reader (good_script script)" "LocalFile_writeBytes (good_script script)" for script
  by (rule LocalFile_backend) simp

text \<open>
  C5. Durable contents of \<open>LocalFile\<close>: whatever calls are interrupted or transfer only a part, a
  sequence of writes succeeds and any later read returns the requested range of the byte sequence that
  the writes, applied in order, describe (gaps read as zero, reads stop at the end of file).
\<close>

theorem LocalFile_read_after_writes:
  assumes "lf_inv f" and "io_ok wscript" and "io_ok rscript"
    and "\<forall>(p, bs) \<in> set ws. p + length bs \<le> INT64_MAX - 4096" and "q < INT64_MAX" and "n \<le> SSIZE_MAX"
  shows "LocalFile_readBytes rscript
      (fold (\<lambda>(p, bs) f. snd (LocalFile_writeBytes wscript f bs p)) ws f) q n =
    (let r = file_read q n (fold (\<lambda>(p, bs). file_write p bs) ws (lf_content f)) in Inr (length r, r))"
proof -
  let ?f = "fold (\<lambda>(p, bs) f. snd (LocalFile_writeBytes wscript f bs p)) ws f"
  have "?f = lfile.write_batch wscript ws f"
    unfolding lfile.write_batch_def unfolding good_script_id [OF assms(2)] by (rule refl)
  then have f: "lf_content ?f = fold (\<lambda>(p, bs). file_write p bs) ws (lf_content f)" "lf_inv ?f"
    using lfile.contents_write_batch [OF assms(1,4), of wscript] by simp_all
  show ?thesis
    using lfile.read_law [OF f(2) assms(5,6), of rscript] good_script_id [OF assms(3)] f(1)
    by (simp add: LocalFile_reader_def Let_def)
qed

definition empty_file :: LocalFile where
  "empty_file = \<lparr>lf_path = ''/tmp/f'', lf_fd = 3, lf_size = 0, lf_content = []\<rparr>"

theorem LocalFile_read_after_writes_witness:
  "LocalFile_readBytes [Moved 1, Interrupted]
      (fold (\<lambda>(p, bs) f. snd (LocalFile_writeBytes [Interrupted, Moved 1] f bs p))
        [(2, [5, 6]), (0, [1])] empty_file) 0 9 = Inr (4, [1, 0, 5, 6])"
proof -
  have "lf_inv empty_file" "io_ok [Interrupted, Moved 1]" "io_ok [Moved 1, Interrupted]"
    by (simp_all add: lf_inv_def empty_file_def io_ok_def)
  moreover have "file_read 0 9 (fold (\<lambda>(p, bs). file_write p bs) [(2, [5, 6]), (0, [1])]
      (lf_content empty_file)) = [1, 0, 5, 6]"
    by (simp add: empty_file_def file_read_def file_write_def numeral_2_eq_2)
  ultimately show ?thesis
    using LocalFile_read_after_writes [of empty_file "[Interrupted, Moved 1]" "[Moved 1, Interrupted]"
        "[(2, [5, 6]), (0, [1])]" 0 9] by (simp add: Let_def INT64_MAX_def SSIZE_MAX_def)
qed

text \<open>
  Truncation reports its failures but keeps the new size: when \<open>ftruncate\<close> fails, the file
  object still answers with the target size while the file on disk keeps its contents.
\<close>

theorem LocalFile_truncate_branches:
  assumes "lf_inv f"
  shows "LocalFile_truncate None f n =
      (OkStatus, f\<lparr>lf_size := n, lf_content := file_truncate n (lf_content f)\<rparr>) \<and>
    LocalFile_truncate (Some err) f n =
      (UnknownError (''Unable to ftruncate file '' @ lf_path f @ '': '' @ err), f\<lparr>lf_size := n\<rparr>) \<and>
    (n < 2 ^ 63 \<longrightarrow> lf_inv (snd (LocalFile_truncate None f n))) \<and>
    (lf_inv (snd (LocalFile_truncate (Some err) f n)) \<longleftrightarrow> n = length (lf_content f))"
  using assms by (auto simp: LocalFile_truncate_def lf_inv_def file_truncate_def Let_def)

theorem LocalFile_truncate_branches_witness:
  "lf_inv empty_file \<and>
   LocalFile_truncate (Some ''ENOSPC'') empty_file 7 =
     (UnknownError (''Unable to ftruncate file '' @ ''/tmp/f'' @ '': '' @ ''ENOSPC''),
      empty_file\<lparr>lf_size := 7\<rparr>) \<and>
   \<not> lf_inv (snd (LocalFile_truncate (Some ''ENOSPC'') empty_file 7))"
proof -
  have i: "lf_inv empty_file" by (simp add: lf_inv_def empty_file_def)
  from LocalFile_truncate_branches [OF i, of 7 "''ENOSPC''"] i show ?thesis
    by (simp add: empty_file_def lf_inv_def)
qed

end
