(* ===== verification/MMAP_File.thy ===== *)
theory MMAP_File
  imports Local_File
begin

text \<open>
  \<^verbatim>\<open>src/libgeds/MMAPFile.{h,cpp}\<close>: a file that is read and written through a shared mapping. The
  mapping shows the file itself (\<open>MAP_SHARED\<close>), so the bytes live in the content of the file; the
  object keeps whether and how much of it is mapped. The page size and the outcome of the system
  calls are arguments; \<open>mmap\<close> of zero bytes fails, as POSIX requires. The main results are that a
  mapped file implements the interface \<open>file_backend\<close>, and what happens when it is not mapped.
\<close>

record mmap_sys =
  sys_fallocate :: "string option"
  sys_mmap :: bool
  sys_mremap :: "string option"

definition mmap_ok :: mmap_sys where
  "mmap_ok = \<lparr>sys_fallocate = None, sys_mmap = True, sys_mremap = None\<rparr>"

record MMAPFile =
  mf_path :: string
  mf_fd :: int
  mf_size :: size_t
  mf_mmapSize :: size_t
  mf_mapped :: bool
  mf_content :: "byte list"

definition MMAPFile_new :: "string \<Rightarrow> bool \<Rightarrow> string + int \<Rightarrow> byte list \<Rightarrow> MMAPFile outcome" where
  "MMAPFile_new pathArg overwrite opened existing =
     (case opened of
        Inl reason \<Rightarrow> Raises (''Unable to open '' @ pathArg @ ''. Reason: '' @ reason)
      | Inr fd \<Rightarrow> Returns \<lparr>mf_path = pathArg, mf_fd = fd, mf_size = 0, mf_mmapSize = 0,
          mf_mapped = False, mf_content = (if overwrite then [] else existing)\<rparr>)"

text \<open>The number of bytes of the pages that hold \<open>n\<close> bytes.\<close>

definition page_round :: "nat \<Rightarrow> size_t \<Rightarrow> size_t" where
  "page_round page n = wrap64 ((n div page + (if n mod page > 0 then 1 else 0)) * page)"

definition MMAPFile_increaseMmap ::
  "nat \<Rightarrow> mmap_sys \<Rightarrow> MMAPFile \<Rightarrow> size_t \<Rightarrow> Status \<times> MMAPFile" where
  "MMAPFile_increaseMmap page sys f requestSize =
     (if mf_fd f < 0 then (not_open (mf_path f), f)
      else if mf_mmapSize f < requestSize then
        (let newSize = page_round page requestSize in
         case sys_fallocate sys of
           Some e \<Rightarrow>
             (UnknownError (''Unable to extend file: '' @ mf_path f @ ''. Reason: '' @ e), f)
         | None \<Rightarrow>
             (let f1 = f\<lparr>mf_content := mf_content f @ replicate (newSize - length (mf_content f)) 0\<rparr> in
              if \<not> mf_mapped f then
                (if \<not> (sys_mmap sys \<and> newSize > 0)
                 then (UnknownError (''Failed to map file '' @ mf_path f @ '' with requested size '' @
                         show_nat requestSize @ ''.''), f1)
                 else (OkStatus, f1\<lparr>mf_mapped := True, mf_mmapSize := newSize\<rparr>))
              else (case sys_mremap sys of
                  Some e \<Rightarrow>
                    (UnknownError (''mremap for file '' @ mf_path f @ '' failed. Reason: '' @ e), f1)
                | None \<Rightarrow> (OkStatus, f1\<lparr>mf_mmapSize := newSize\<rparr>))))
      else (OkStatus, f))"

definition MMAPFile_reopen :: "nat \<Rightarrow> mmap_sys \<Rightarrow> MMAPFile \<Rightarrow> Status \<times> MMAPFile" where
  "MMAPFile_reopen page sys f =
     (if \<not> mf_mapped f then
        (let mmapSize = page_round page (mf_size f) in
         if \<not> (sys_mmap sys \<and> mmapSize > 0)
         then (UnknownError (''Failed to map file '' @ mf_path f @ '' with requested size '' @
                 show_nat (mf_size f) @ ''.''), f)
         else (OkStatus, f\<lparr>mf_mapped := True, mf_mmapSize := mmapSize\<rparr>))
      else (OkStatus, f))"

definition MMAPFile_readBytes ::
  "nat \<Rightarrow> mmap_sys \<Rightarrow> MMAPFile \<Rightarrow> size_t \<Rightarrow> size_t \<Rightarrow> (size_t \<times> byte list) StatusOr \<times> MMAPFile" where
  "MMAPFile_readBytes page sys f position length' =
     (if length' > SSIZE_MAX
      then (Inl (FailedPreconditionError (''Lengths > '' @ show_nat SSIZE_MAX @ '' are not supported!'')), f)
      else if position \<ge> SSIZE_MAX
      then (Inl (FailedPreconditionError (''Stream positions > '' @ show_nat SSIZE_MAX @
              '' are not supported!'')), f)
      else if length' = 0 then (Inr (0, []), f)
      else case MMAPFile_reopen page sys f of (status, f1) \<Rightarrow>
        if \<not> status_ok status then (Inl status, f1)
        else if position \<ge> mf_size f1 then (Inr (0, []), f1)
        else
          let len = min length' (mf_size f1 - position) in
          if len = 0 then (Inr (0, []), f1)
          else
            let n = min (mf_size f1) (wrap64 (position + len)) - position
            in (Inr (n, file_read position n (mf_content f1)), f1))"

definition MMAPFile_rawPtr :: "nat \<Rightarrow> mmap_sys \<Rightarrow> MMAPFile \<Rightarrow> unit StatusOr \<times> MMAPFile" where
  "MMAPFile_rawPtr page sys f =
     (case MMAPFile_reopen page sys f of (status, f1) \<Rightarrow>
        if \<not> status_ok status then (Inl status, f1) else (Inr (), f1))"

definition MMAPFile_rawFd :: "MMAPFile \<Rightarrow> int StatusOr" where
  "MMAPFile_rawFd f = (if mf_fd f < 0 then Inl (not_open (mf_path f)) else Inr (mf_fd f))"

definition MMAPFile_truncate :: "nat \<Rightarrow> mmap_sys \<Rightarrow> MMAPFile \<Rightarrow> size_t \<Rightarrow> Status \<times> MMAPFile" where
  "MMAPFile_truncate page sys f targetSize =
     (case (if targetSize > mf_size f then MMAPFile_increaseMmap page sys f targetSize
            else (OkStatus, f)) of (status, f1) \<Rightarrow>
        if \<not> status_ok status then (status, f1) else (OkStatus, f1\<lparr>mf_size := targetSize\<rparr>))"

definition MMAPFile_writeBytes ::
  "nat \<Rightarrow> mmap_sys \<Rightarrow> MMAPFile \<Rightarrow> byte list \<Rightarrow> size_t \<Rightarrow> Status \<times> MMAPFile" where
  "MMAPFile_writeBytes page sys f bytes position =
     (if length bytes = 0 then (OkStatus, f)
      else
        let newSize = wrap64 (position + length bytes) in
        case (if newSize > mf_size f then MMAPFile_increaseMmap page sys f newSize
              else (OkStatus, f)) of (status, f1) \<Rightarrow>
          if \<not> status_ok status then (status, f1)
          else if \<not> mf_mapped f1 then (InternalError ''The file is not mmapped!'', f1)
          else
            let f2 = f1\<lparr>mf_content := file_write position bytes (mf_content f1)\<rparr>
            in (OkStatus, if newSize > mf_size f2 then f2\<lparr>mf_size := newSize\<rparr> else f2))"

text \<open>
  \<open>write(istream)\<close> reads the stream through \<open>std::istream_iterator<char>\<close>, which skips white space.
  Counting the characters runs the stream into its end and sets its fail bit; the following
  \<open>seekg\<close> on a failed stream has no effect, so that the copy then finds no character. With a length
  argument the stream is not counted and copied to its end, however long it is. Returning
  \<open>absl::OkStatus()\<close> as a \<open>StatusOr\<close> gives absl's internal error.
\<close>

definition is_space :: "byte \<Rightarrow> bool" where
  "is_space b \<longleftrightarrow> b \<in> {9, 10, 11, 12, 13, 32}"

definition MMAPFile_write ::
  "nat \<Rightarrow> mmap_sys \<Rightarrow> MMAPFile \<Rightarrow> byte list \<Rightarrow> size_t \<Rightarrow> size_t option \<Rightarrow> size_t StatusOr \<times> MMAPFile" where
  "MMAPFile_write page sys f stream position lengthArg =
     (let chars = filter (\<lambda>b. \<not> is_space b) stream;
          len = (case lengthArg of None \<Rightarrow> length chars | Some n \<Rightarrow> n);
          copied = (case lengthArg of None \<Rightarrow> [] | Some _ \<Rightarrow> chars)
      in if len = 0
         then (Inl (InternalError ''An OK status is not a valid constructor argument to StatusOr<T>''), f)
         else
           let newSize = wrap64 (position + len) in
           case MMAPFile_increaseMmap page sys f newSize of (status, f1) \<Rightarrow>
             if \<not> status_ok status then (Inl status, f1)
             else if \<not> mf_mapped f1 then (Inl (InternalError ''The file is not mmapped!''), f1)
             else
               let f2 = f1\<lparr>mf_content := file_write position copied (mf_content f1)\<rparr>
               in (Inr len, if newSize > mf_size f2 then f2\<lparr>mf_size := newSize\<rparr> else f2))"

definition MMAPFile_release :: "MMAPFile \<Rightarrow> MMAPFile" where
  "MMAPFile_release f = (if mf_mapped f then f\<lparr>mf_mapped := False, mf_mmapSize := 0\<rparr> else f)"

definition MMAPFile_notifyUnused :: "MMAPFile \<Rightarrow> MMAPFile" where
  "MMAPFile_notifyUnused f = MMAPFile_release f"

definition MMAPFile_fsync :: "io_event list \<Rightarrow> MMAPFile \<Rightarrow> Status" where
  "MMAPFile_fsync script f =
     (if mf_fd f < 0 then not_open (mf_path f)
      else case fst (retry_eintr script 0) of
          Failed err \<Rightarrow> UnknownError (''Unable to fsync '' @ mf_path f @ '': '' @ err)
        | _ \<Rightarrow> OkStatus)"

definition MMAPFile_localStorageSize :: "MMAPFile \<Rightarrow> size_t" where
  "MMAPFile_localStorageSize f = mf_size f"

definition MMAPFile_localMemorySize :: "MMAPFile \<Rightarrow> size_t" where
  "MMAPFile_localMemorySize f = mf_mmapSize f"

section \<open>Pages\<close>

lemma page_round_bounds:
  assumes "0 < page" "page \<le> 2 ^ 32" "n < 2 ^ 63"
  shows "n \<le> page_round page n" "page_round page n < n + page" "page dvd page_round page n"
proof -
  let ?r = "(n div page + (if n mod page > 0 then 1 else 0)) * page"
  obtain q r where n: "n = q * page + r" "r < page"
    using assms(1) by (metis div_mult_mod_eq mod_less_divisor)
  then have "?r = (q + (if r > 0 then 1 else 0)) * page" by simp
  with n have le: "n \<le> ?r" and lt: "?r < n + page" by (auto simp: add_mult_distrib)
  then have "?r < 2 ^ 64" using assms(2,3) by simp
  then have "page_round page n = ?r" by (simp add: page_round_def)
  with le lt show "n \<le> page_round page n" "page_round page n < n + page" "page dvd page_round page n"
    by simp_all
qed

section \<open>A mapped file implements the interface\<close>

definition mf_contents :: "MMAPFile \<Rightarrow> byte list" where
  "mf_contents f = take (mf_size f) (mf_content f)"

text \<open>
  The part of the file behind its size is zero as long as the file was never shortened.
\<close>

definition mf_inv :: "nat \<Rightarrow> MMAPFile \<Rightarrow> bool" where
  "mf_inv page f \<longleftrightarrow> 0 < page \<and> page \<le> 2 ^ 32 \<and> 0 \<le> mf_fd f \<and> mf_mapped f \<and>
     mf_size f \<le> mf_mmapSize f \<and> mf_mmapSize f \<le> length (mf_content f) \<and> mf_size f < 2 ^ 63 \<and>
     (\<forall>b \<in> set (drop (mf_size f) (mf_content f)). b = 0)"

lemma nth_zero_tail:
  assumes "\<forall>b \<in> set (drop n c). b = 0" "n \<le> i" "i < length c"
  shows "c ! i = (0::byte)"
proof -
  have "drop n c ! (i - n) \<in> set (drop n c)" using assms(2,3) by (intro nth_mem) simp
  with assms show ?thesis by simp
qed

lemma zero_tailI:
  assumes "\<And>i. n \<le> i \<Longrightarrow> i < length c \<Longrightarrow> c ! i = (0::byte)"
  shows "\<forall>b \<in> set (drop n c). b = 0"
  using assms by (auto simp: in_set_conv_nth)

lemma file_write_window:
  assumes "\<forall>b \<in> set (drop n c). b = 0" "n \<le> length c" "bs \<noteq> []" "p + length bs \<le> length c"
  shows "take (max n (p + length bs)) (file_write p bs c) = file_write p bs (take n c)"
proof (rule nth_equalityI)
  show "length (take (max n (p + length bs)) (file_write p bs c)) = length (file_write p bs (take n c))"
    using assms by (simp add: max_def)
next
  fix i assume "i < length (take (max n (p + length bs)) (file_write p bs c))"
  then have i: "i < max n (p + length bs)" "i < length (file_write p bs c)" by simp_all
  then have j: "i < length (file_write p bs (take n c))" using assms by (auto simp: max_def)
  have "n \<le> i \<Longrightarrow> i < length c \<Longrightarrow> c ! i = 0" using assms(1) by (rule nth_zero_tail)
  then show "take (max n (p + length bs)) (file_write p bs c) ! i = file_write p bs (take n c) ! i"
    using i j assms(2) by (simp add: nth_file_write [OF i(2)] nth_file_write [OF j])
qed

text \<open>Growing the mapping keeps contents and invariant and makes room for the request.\<close>

lemma increaseMmap_ok:
  assumes "mf_inv page f" "n < 2 ^ 63"
  shows "\<exists>f'. MMAPFile_increaseMmap page mmap_ok f n = (OkStatus, f') \<and> mf_inv page f' \<and>
    n \<le> mf_mmapSize f' \<and> mf_size f' = mf_size f \<and>
    (\<exists>z. mf_content f' = mf_content f @ replicate z 0)"
proof (cases "mf_mmapSize f < n")
  case False
  with assms show ?thesis
    by (intro exI [of _ f]) (auto simp: MMAPFile_increaseMmap_def mf_inv_def intro: exI [of _ 0])
next
  case True
  let ?new = "page_round page n"
  have b: "n \<le> ?new" using assms page_round_bounds [of page n] by (simp add: mf_inv_def)
  let ?f = "f\<lparr>mf_content := mf_content f @ replicate (?new - length (mf_content f)) 0, mf_mmapSize := ?new\<rparr>"
  have "MMAPFile_increaseMmap page mmap_ok f n = (OkStatus, ?f)"
    using True assms by (simp add: MMAPFile_increaseMmap_def mmap_ok_def mf_inv_def Let_def)
  moreover have "mf_inv page ?f"
    using True assms b by (auto simp: mf_inv_def)
  ultimately show ?thesis using b by auto
qed

lemma MMAPFile_writeBytes_ok:
  assumes "mf_inv page f" "p + length bs < 2 ^ 63"
  shows "fst (MMAPFile_writeBytes page mmap_ok f bs p) = OkStatus \<and>
    mf_contents (snd (MMAPFile_writeBytes page mmap_ok f bs p)) = file_write p bs (mf_contents f) \<and>
    mf_inv page (snd (MMAPFile_writeBytes page mmap_ok f bs p))"
proof (cases "bs = []")
  case True
  with assms show ?thesis by (simp add: MMAPFile_writeBytes_def)
next
  case False
  let ?n = "p + length bs"
  have w: "wrap64 ?n = ?n" using assms(2) by (intro wrap64_id) simp
  obtain f1 where f1: "(if ?n > mf_size f then MMAPFile_increaseMmap page mmap_ok f ?n else (OkStatus, f))
      = (OkStatus, f1)" "mf_inv page f1" "?n \<le> mf_mmapSize f1 \<or> ?n \<le> mf_size f1"
    "mf_size f1 = mf_size f" "\<exists>z. mf_content f1 = mf_content f @ replicate z 0"
  proof (cases "?n > mf_size f")
    case True
    with increaseMmap_ok [OF assms] that show ?thesis by auto
  next
    case False
    with assms(1) show ?thesis by (intro that [of f]) (auto intro: exI [of _ 0])
  qed
  have inv: "mf_mapped f1" "mf_size f \<le> length (mf_content f)" "?n \<le> length (mf_content f1)"
    and zero: "\<forall>b \<in> set (drop (mf_size f) (mf_content f1)). b = 0"
    using f1(2,3,4) assms(1) by (auto simp: mf_inv_def)
  let ?f2 = "f1\<lparr>mf_content := file_write p bs (mf_content f1), mf_size := max (mf_size f) ?n\<rparr>"
  have r: "MMAPFile_writeBytes page mmap_ok f bs p = (OkStatus, ?f2)"
    using False w f1(1) inv(1) f1(4) by (cases f1) (auto simp: MMAPFile_writeBytes_def Let_def max_def)
  have t: "take (mf_size f) (mf_content f1) = mf_contents f" "mf_size f \<le> length (mf_content f1)"
    using inv(2) f1(5) by (auto simp: mf_contents_def)
  have "mf_contents ?f2 = file_write p bs (mf_contents f)"
    using file_write_window [OF zero t(2) False inv(3)] t(1) by (simp add: mf_contents_def)
  moreover have "\<forall>b \<in> set (drop (max (mf_size f) ?n) (file_write p bs (mf_content f1))). b = 0"
  proof (rule zero_tailI)
    fix i assume i: "max (mf_size f) ?n \<le> i" "i < length (file_write p bs (mf_content f1))"
    with inv(3) have "i < length (mf_content f1)" by (auto split: if_splits)
    with i zero show "file_write p bs (mf_content f1) ! i = 0"
      by (simp add: nth_file_write [OF i(2)] nth_zero_tail)
  qed
  then have "mf_inv page ?f2"
    using f1(2,3,4) assms(2) inv(3) False by (auto simp: mf_inv_def)
  ultimately show ?thesis using r by simp
qed

lemma MMAPFile_readBytes_mapped:
  assumes "mf_mapped f" "mf_size f < 2 ^ 63" "mf_size f \<le> length (mf_content f)"
    and "p < SSIZE_MAX" "n \<le> SSIZE_MAX"
  shows "MMAPFile_readBytes page sys f p n =
    (Inr (length (file_read p n (mf_contents f)), file_read p n (mf_contents f)), f)"
proof (cases "n = 0 \<or> mf_size f \<le> p")
  case True
  with assms show ?thesis
    by (auto simp: MMAPFile_readBytes_def MMAPFile_reopen_def file_read_def mf_contents_def)
next
  case False
  let ?len = "min n (mf_size f - p)"
  have len: "0 < ?len" "p + ?len \<le> mf_size f" "mf_size f < 2 ^ 63" "mf_size f \<le> length (mf_content f)"
    using False assms(2,3) by auto
  then have w: "min (mf_size f) (wrap64 (p + ?len)) - p = ?len" by simp
  have "file_read p ?len (mf_content f) = file_read p n (mf_contents f)"
    using len(4) by (simp add: file_read_def mf_contents_def drop_take)
  moreover have "length (file_read p n (mf_contents f)) = ?len"
    using len(4) by (simp add: file_read_def mf_contents_def min.commute)
  ultimately show ?thesis
    using False assms len(1) by (simp add: MMAPFile_readBytes_def MMAPFile_reopen_def Let_def w)
qed

lemma MMAPFile_readBytes_ok:
  assumes "mf_inv page f" "p < SSIZE_MAX" "n \<le> SSIZE_MAX"
  shows "MMAPFile_readBytes page sys f p n =
    (Inr (length (file_read p n (mf_contents f)), file_read p n (mf_contents f)), f)"
  using assms by (intro MMAPFile_readBytes_mapped) (auto simp: mf_inv_def)

interpretation mfile: file_backend mf_contents "mf_inv page"
  "MMAPFile_readBytes page sys" "MMAPFile_writeBytes page mmap_ok" for page sys
proof
  fix f p n
  assume "mf_inv page f" "p < INT64_MAX" "n \<le> SSIZE_MAX"
  then show "fst (MMAPFile_readBytes page sys f p n) =
      Inr (length (file_read p n (mf_contents f)), file_read p n (mf_contents f)) \<and>
    mf_contents (snd (MMAPFile_readBytes page sys f p n)) = mf_contents f \<and>
    mf_inv page (snd (MMAPFile_readBytes page sys f p n))"
    by (simp add: MMAPFile_readBytes_ok INT64_MAX_def SSIZE_MAX_def)
next
  fix f p and bs :: "byte list"
  assume "mf_inv page f" "p + length bs \<le> INT64_MAX - 4096"
  then show "fst (MMAPFile_writeBytes page mmap_ok f bs p) = OkStatus \<and>
    mf_contents (snd (MMAPFile_writeBytes page mmap_ok f bs p)) = file_write p bs (mf_contents f) \<and>
    mf_inv page (snd (MMAPFile_writeBytes page mmap_ok f bs p))"
    using MMAPFile_writeBytes_ok [of page f p bs] by (simp add: INT64_MAX_def)
qed

text \<open>
  A file is not mapped when it is created: its first write that is not empty maps it. From then on
  it satisfies the invariant.
\<close>

lemma MMAPFile_new_fresh:
  "MMAPFile_new path True (Inr fd) existing = Returns g \<longleftrightarrow>
     g = \<lparr>mf_path = path, mf_fd = fd, mf_size = 0, mf_mmapSize = 0, mf_mapped = False, mf_content = []\<rparr>"
  by (auto simp: MMAPFile_new_def)

lemma MMAPFile_first_write:
  assumes "MMAPFile_new path True (Inr fd) existing = Returns g" "0 \<le> fd" "0 < page" "page \<le> 2 ^ 32"
    and "bs \<noteq> []" "p + length bs < 2 ^ 63"
  shows "mf_contents (snd (MMAPFile_writeBytes page mmap_ok g bs p)) = file_write p bs [] \<and>
    mf_inv page (snd (MMAPFile_writeBytes page mmap_ok g bs p))"
proof -
  let ?n = "p + length bs" and ?m = "page_round page (p + length bs)"
  let ?g = "g\<lparr>mf_content := replicate ?m 0, mf_mapped := True, mf_mmapSize := ?m\<rparr>"
  have n: "0 < ?n" "?n \<le> ?m" "0 < ?m"
    using assms(3-6) page_round_bounds [of page ?n] by (auto simp del: length_greater_0_conv simp flip: length_greater_0_conv)
  then have g: "mf_inv page ?g" "mf_contents ?g = []"
    using assms(1-4) by (auto simp: MMAPFile_new_fresh mf_inv_def mf_contents_def)
  have i: "MMAPFile_increaseMmap page mmap_ok g ?n = (OkStatus, ?g)"
    "MMAPFile_increaseMmap page mmap_ok ?g ?n = (OkStatus, ?g)"
    using assms(1,2) n by (auto simp: MMAPFile_new_fresh MMAPFile_increaseMmap_def mmap_ok_def Let_def)
  have w: "wrap64 ?n = ?n" using assms(6) by (intro wrap64_id) simp
  have "MMAPFile_writeBytes page mmap_ok g bs p = MMAPFile_writeBytes page mmap_ok ?g bs p"
    using assms(1,5) n i w by (simp add: MMAPFile_new_fresh MMAPFile_writeBytes_def)
  with MMAPFile_writeBytes_ok [OF g(1) assms(6)] g(2) show ?thesis by simp
qed

lemma MMAPFile_fresh_batch:
  assumes "MMAPFile_new path True (Inr fd) existing = Returns g" "0 \<le> fd" "0 < page" "page \<le> 2 ^ 32"
    and "\<forall>(p, bs) \<in> set ws. p + length bs \<le> INT64_MAX - 4096"
  shows "if \<forall>(p, bs) \<in> set ws. bs = []
    then fold (\<lambda>(p, bs) g. snd (MMAPFile_writeBytes page mmap_ok g bs p)) ws g = g
    else mf_contents (fold (\<lambda>(p, bs) g. snd (MMAPFile_writeBytes page mmap_ok g bs p)) ws g) =
        fold (\<lambda>(p, bs). file_write p bs) ws [] \<and>
      mf_inv page (fold (\<lambda>(p, bs) g. snd (MMAPFile_writeBytes page mmap_ok g bs p)) ws g)"
  using assms(5)
proof (induction ws)
  case Nil
  then show ?case by simp
next
  case (Cons w ws)
  obtain p bs where w: "w = (p, bs)" by force
  show ?case
  proof (cases "bs = []")
    case True
    have "MMAPFile_writeBytes page mmap_ok g [] p = (OkStatus, g)" "file_write p [] [] = []"
      by (simp_all add: MMAPFile_writeBytes_def)
    with Cons True w show ?thesis by simp
  next
    case False
    let ?g = "snd (MMAPFile_writeBytes page mmap_ok g bs p)"
    have g: "mf_contents ?g = file_write p bs []" "mf_inv page ?g"
      using MMAPFile_first_write [OF assms(1-4) False, of p] Cons.prems w by (auto simp: INT64_MAX_def)
    with mfile.contents_write_batch [OF g(2), of ws] Cons.prems w False show ?thesis
      by (simp add: mfile.write_batch_def)
  qed
qed

text \<open>
  C15. The two backends agree: create a local file and a mapped file, both with \<open>overwrite\<close>, and apply
  the same writes to them. If one of the writes is not empty, the same read returns the same bytes
  from both, those of a reference file, for every page size and every schedule of interrupted and
  partial calls. If no byte has been written, the backends differ: the local file reads as empty,
  while the mapped file was never mapped and its read is an error. The history has no \<open>notifyUnused\<close>
  between the writes, after which a write inside the file fails (see \<open>MMAPFile_unmapped\<close>), and no
  \<open>truncate\<close> (see \<open>truncate_shrink_grow\<close>).
\<close>

theorem file_backends_agree:
  assumes "LocalFile_new lpath True (Inr lfd) None lold = Returns f" "0 \<le> lfd"
    and "MMAPFile_new mpath True (Inr mfd) mold = Returns g" "0 \<le> mfd" "0 < page" "page \<le> 2 ^ 32"
    and "io_ok wscript" "io_ok rscript"
    and "\<forall>(p, bs) \<in> set ws. p + length bs \<le> INT64_MAX - 4096" and "q < INT64_MAX" "0 < n" "n \<le> SSIZE_MAX"
  shows "let local = LocalFile_readBytes rscript
        (fold (\<lambda>(p, bs) f. snd (LocalFile_writeBytes wscript f bs p)) ws f) q n;
      mapped = fst (MMAPFile_readBytes page mmap_ok
        (fold (\<lambda>(p, bs) g. snd (MMAPFile_writeBytes page mmap_ok g bs p)) ws g) q n);
      bytes = file_read q n (fold (\<lambda>(p, bs). file_write p bs) ws [])
    in local = Inr (length bytes, bytes) \<and>
       (if \<forall>(p, bs) \<in> set ws. bs = [] then bytes = [] \<and> (\<exists>m. mapped = Inl (UnknownError m))
        else mapped = local)"
proof -
  let ?f = "fold (\<lambda>(p, bs) f. snd (LocalFile_writeBytes wscript f bs p)) ws f"
  let ?g = "fold (\<lambda>(p, bs) g. snd (MMAPFile_writeBytes page mmap_ok g bs p)) ws g"
  let ?c = "fold (\<lambda>(p, bs). file_write p bs) ws []"
  have f0: "lf_inv f" "lf_content f = []" using assms(1,2) by (auto simp: LocalFile_new_def lf_inv_def)
  have "?f = lfile.write_batch wscript ws f"
    unfolding lfile.write_batch_def unfolding good_script_id [OF assms(7)] by (rule refl)
  then have f: "lf_content ?f = ?c" "lf_inv ?f"
    using lfile.contents_write_batch [OF f0(1) assms(9), of wscript] f0(2) by simp_all
  have l: "LocalFile_readBytes rscript ?f q n = Inr (length (file_read q n ?c), file_read q n ?c)"
    using lfile.read_law [OF f(2) assms(10,12), of rscript] good_script_id [OF assms(8)] f(1)
    by (simp add: LocalFile_reader_def)
  note g = MMAPFile_fresh_batch [OF assms(3-6,9)]
  show ?thesis
  proof (cases "\<forall>(p, bs) \<in> set ws. bs = []")
    case True
    then have "?c = []" by (induction ws) auto
    moreover have "?g = g" using g True by simp
    moreover have "page_round page 0 = 0" by (simp add: page_round_def)
    then have "\<exists>m. fst (MMAPFile_readBytes page mmap_ok g q n) = Inl (UnknownError m)"
      using assms(3,10-12)
      by (simp add: MMAPFile_new_fresh MMAPFile_readBytes_def MMAPFile_reopen_def Let_def INT64_MAX_def SSIZE_MAX_def)
    ultimately show ?thesis using True l by (simp add: Let_def file_read_def)
  next
    case False
    then have "mf_contents ?g = ?c" "mf_inv page ?g" using g by simp_all
    with False l mfile.read_law [OF this(2) assms(10,12), of mmap_ok] show ?thesis by (auto simp: Let_def)
  qed
qed

definition small_map :: MMAPFile where
  "small_map = \<lparr>mf_path = ''/tmp/m'', mf_fd = 4, mf_size = 0, mf_mmapSize = 4, mf_mapped = True,
     mf_content = [0, 0, 0, 0]\<rparr>"

definition fresh_map :: MMAPFile where
  "fresh_map = \<lparr>mf_path = ''/tmp/m'', mf_fd = 4, mf_size = 0, mf_mmapSize = 0, mf_mapped = False,
     mf_content = []\<rparr>"

theorem file_backends_agree_witness:
  "LocalFile_new ''/tmp/l'' True (Inr 3) None [] = Returns (empty_file\<lparr>lf_path := ''/tmp/l'', lf_fd := 3\<rparr>) \<and>
   MMAPFile_new ''/tmp/m'' True (Inr 4) [] = Returns fresh_map \<and>
   LocalFile_readBytes [Moved 1] (fold (\<lambda>(p, bs) f. snd (LocalFile_writeBytes [Moved 2] f bs p))
      [(1, [5, 6, 7])] (empty_file\<lparr>lf_path := ''/tmp/l'', lf_fd := 3\<rparr>)) 0 9 = Inr (4, [0, 5, 6, 7]) \<and>
   fst (MMAPFile_readBytes 4 mmap_ok (fold (\<lambda>(p, bs) g. snd (MMAPFile_writeBytes 4 mmap_ok g bs p))
      [(1, [5, 6, 7])] fresh_map) 0 9) = Inr (4, [0, 5, 6, 7])"
proof -
  let ?f = "empty_file\<lparr>lf_path := ''/tmp/l'', lf_fd := 3\<rparr>"
  have l: "LocalFile_new ''/tmp/l'' True (Inr 3) None [] = Returns ?f"
    and m: "MMAPFile_new ''/tmp/m'' True (Inr 4) [] = Returns fresh_map"
    by (simp_all add: LocalFile_new_def MMAPFile_new_def empty_file_def fresh_map_def)
  have h: "io_ok [Moved 2]" "io_ok [Moved 1]" "\<forall>(p, bs) \<in> set [(1, [5, 6, 7::byte])]. p + length bs \<le> INT64_MAX - 4096"
    "0 < INT64_MAX" "9 \<le> SSIZE_MAX" by (simp_all add: io_ok_def INT64_MAX_def SSIZE_MAX_def)
  have "file_read 0 9 (fold (\<lambda>(p, bs). file_write p bs) [(1, [5, 6, 7::byte])] []) = [0, 5, 6, 7]"
    by code_simp
  with l m file_backends_agree [OF l _ m _ _ _ h(1,2,3,4) _ h(5), of 4] show ?thesis by (simp add: Let_def)
qed

text \<open>
  Without a mapping the operations are not those of a file: reading an empty, never mapped file
  is an error instead of an empty read, and after \<open>notifyUnused\<close> a write inside the file is
  refused although the next read maps the file again and succeeds.
\<close>

theorem MMAPFile_unmapped:
  assumes "mf_inv page f" and "p + length bs \<le> mf_size f" and "bs \<noteq> []" and "0 < n" and "n \<le> SSIZE_MAX"
    and "q < SSIZE_MAX" and "\<not> mf_mapped e" and "mf_size e = 0"
  shows "(\<exists>m. fst (MMAPFile_readBytes page mmap_ok e q n) = Inl (UnknownError m)) \<and>
    MMAPFile_writeBytes page mmap_ok (MMAPFile_notifyUnused f) bs p =
      (InternalError ''The file is not mmapped!'', MMAPFile_notifyUnused f) \<and>
    fst (MMAPFile_readBytes page mmap_ok (MMAPFile_notifyUnused f) q n) =
      Inr (length (file_read q n (mf_contents f)), file_read q n (mf_contents f))"
proof -
  have inv: "0 < page" "page \<le> 2 ^ 32" "mf_size f < 2 ^ 63" "mf_mapped f" "mf_size f \<le> length (mf_content f)"
    using assms(1) by (auto simp: mf_inv_def)
  have "page_round page 0 = 0" by (simp add: page_round_def)
  then have e: "\<exists>m. fst (MMAPFile_readBytes page mmap_ok e q n) = Inl (UnknownError m)"
    using assms by (auto simp: MMAPFile_readBytes_def MMAPFile_reopen_def mmap_ok_def Let_def)
  have w: "wrap64 (p + length bs) = p + length bs" using assms(2) inv(3) by (intro wrap64_id) simp
  let ?u = "MMAPFile_notifyUnused f"
  have u: "\<not> mf_mapped ?u" "mf_size ?u = mf_size f" "mf_content ?u = mf_content f"
    using inv(4) by (simp_all add: MMAPFile_notifyUnused_def MMAPFile_release_def)
  have wr: "MMAPFile_writeBytes page mmap_ok ?u bs p = (InternalError ''The file is not mmapped!'', ?u)"
    using assms(2,3) w u by (simp add: MMAPFile_writeBytes_def Let_def)
  have size: "0 < mf_size f" using assms(2,3) by (cases bs) auto
  let ?r = "?u\<lparr>mf_mapped := True, mf_mmapSize := page_round page (mf_size f)\<rparr>"
  have pr: "mf_size f \<le> page_round page (mf_size f)" using page_round_bounds [OF inv(1-3)] by simp
  have "MMAPFile_reopen page mmap_ok ?u = (OkStatus, ?r)"
    using u size pr by (simp add: MMAPFile_reopen_def mmap_ok_def Let_def)
  moreover have "MMAPFile_reopen page mmap_ok ?r = (OkStatus, ?r)" by (simp add: MMAPFile_reopen_def)
  ultimately have "fst (MMAPFile_readBytes page mmap_ok ?u q n) = fst (MMAPFile_readBytes page mmap_ok ?r q n)"
    using u by (simp add: MMAPFile_readBytes_def)
  also have "\<dots> = Inr (length (file_read q n (mf_contents f)), file_read q n (mf_contents f))"
    using MMAPFile_readBytes_mapped [of ?r q n page mmap_ok] inv u assms(5,6) by (simp add: mf_contents_def)
  finally show ?thesis using e wr by blast
qed

definition small_file :: MMAPFile where
  "small_file = small_map\<lparr>mf_size := 2, mf_content := [8, 9, 0, 0]\<rparr>"

theorem MMAPFile_unmapped_witness:
  "mf_inv 4 small_file \<and> (\<exists>m. fst (MMAPFile_readBytes 4 mmap_ok fresh_map 0 1) = Inl (UnknownError m)) \<and>
   MMAPFile_writeBytes 4 mmap_ok (MMAPFile_notifyUnused small_file) [7] 1 =
     (InternalError ''The file is not mmapped!'', MMAPFile_notifyUnused small_file)"
proof -
  have i: "mf_inv 4 small_file" by (simp add: mf_inv_def small_file_def small_map_def)
  have "1 + length [7::byte] \<le> mf_size small_file" "(0::nat) < 1" "1 \<le> SSIZE_MAX" "0 < SSIZE_MAX"
    "\<not> mf_mapped fresh_map" "mf_size fresh_map = 0" "[7::byte] \<noteq> []"
    by (simp_all add: small_file_def SSIZE_MAX_def fresh_map_def)
  with i MMAPFile_unmapped [OF i, of 1 "[7]" 1 0 fresh_map] show ?thesis by blast
qed

text \<open>
  Shortening a mapped file does not erase: growing it again to its old size brings the old bytes
  back, while a local file then reads zeros behind the shortened length.
\<close>

theorem truncate_shrink_grow:
  assumes "mf_inv page g" "lf_inv f" "lf_content f = mf_contents g" "n \<le> mf_size g"
  shows "mf_contents (snd (MMAPFile_truncate page mmap_ok
      (snd (MMAPFile_truncate page mmap_ok g n)) (mf_size g))) = mf_contents g \<and>
    lf_content (snd (LocalFile_truncate None (snd (LocalFile_truncate None f n)) (mf_size g))) =
      take n (mf_contents g) @ replicate (mf_size g - n) 0"
proof -
  have inv: "0 \<le> mf_fd g" "mf_size g \<le> mf_mmapSize g" "length (mf_contents g) = mf_size g" "0 \<le> lf_fd f"
    using assms(1,2) by (auto simp: mf_inv_def lf_inv_def mf_contents_def)
  show ?thesis
    using assms(3,4) inv
    by (auto simp: MMAPFile_truncate_def MMAPFile_increaseMmap_def mf_contents_def
        LocalFile_truncate_def file_truncate_def Let_def)
qed

theorem truncate_shrink_grow_witness:
  "mf_contents (snd (MMAPFile_truncate 4 mmap_ok (snd (MMAPFile_truncate 4 mmap_ok small_file 1)) 2)) = [8, 9] \<and>
   lf_content (snd (LocalFile_truncate None (snd (LocalFile_truncate None
     (empty_file\<lparr>lf_size := 2, lf_content := [8, 9]\<rparr>) 1)) 2)) = [8, 0]"
proof -
  let ?f = "empty_file\<lparr>lf_size := 2, lf_content := [8, 9]\<rparr>"
  have "mf_inv 4 small_file" "lf_inv ?f" "mf_size small_file = 2" "mf_contents small_file = [8, 9]"
    by (simp_all add: mf_inv_def small_file_def small_map_def lf_inv_def empty_file_def mf_contents_def)
  with truncate_shrink_grow [of 4 small_file ?f 1] show ?thesis
    by (simp add: empty_file_def)
qed

end
