(* ===== verification/File_Handle.thy ===== *)
theory File_Handle
  imports MMAP_File
begin

text \<open>
  The base class of all handles, \<^verbatim>\<open>src/libgeds/GEDSFileHandle.{h,cpp}\<close>, and the reference
  counting front end \<^verbatim>\<open>GEDSFile.{h,cpp}\<close>. A time point is a number handed in by the caller. The
  reading and writing side of a download are functions over a state, so that the
  loops apply to every handle class.
\<close>

section \<open>The base class\<close>

record FileHandle =
  fh_bucket :: string
  fh_key :: string
  fh_openCount :: int
  fh_metadata :: "string option"
  fh_isValid :: bool
  fh_lastOpened :: nat
  fh_lastReleased :: nat

definition FileHandle_new :: "string \<Rightarrow> string \<Rightarrow> string option \<Rightarrow> FileHandle" where
  "FileHandle_new bucket key metadata =
     \<lparr>fh_bucket = bucket, fh_key = key, fh_openCount = 0, fh_metadata = metadata, fh_isValid = True,
      fh_lastOpened = 0, fh_lastReleased = 0\<rparr>"

definition fh_identifier :: "'a FileHandle_scheme \<Rightarrow> string" where
  "fh_identifier h = fh_bucket h @ ''/'' @ fh_key h"

definition increaseOpenCount :: "nat \<Rightarrow> 'a FileHandle_scheme \<Rightarrow> 'a FileHandle_scheme" where
  "increaseOpenCount now h = h\<lparr>fh_openCount := fh_openCount h + 1, fh_lastOpened := now\<rparr>"

text \<open>The class's \<open>notifyUnused\<close> runs when the last reference is gone.\<close>

definition decreaseOpenCount ::
  "('a FileHandle_scheme \<Rightarrow> 'a FileHandle_scheme) \<Rightarrow> nat \<Rightarrow> 'a FileHandle_scheme \<Rightarrow> 'a FileHandle_scheme"
where
  "decreaseOpenCount notifyUnused now h =
     (let h' = h\<lparr>fh_openCount := fh_openCount h - 1, fh_lastReleased := now\<rparr>
      in if fh_openCount h' = 0 then notifyUnused h' else h')"

definition isValid :: "'a FileHandle_scheme \<Rightarrow> bool" where
  "isValid h \<longleftrightarrow> fh_isValid h"

definition roundToNearestMultiple :: "size_t \<Rightarrow> size_t \<Rightarrow> size_t" where
  "roundToNearestMultiple number factor =
     wrap64 (sz_sub (wrap64 (number + factor)) 1 div factor * factor)"

text \<open>The operations a handle class does not override.\<close>

abbreviation relocate_unavailable :: Status where
  "relocate_unavailable \<equiv> UnavailableError ''Relocating is not supported for this file handle type!''"
abbreviation setMetadata_unavailable :: Status where
  "setMetadata_unavailable \<equiv> UnavailableError ''Cannot set metadata on read-only file.''"
abbreviation read_unavailable :: Status where
  "read_unavailable \<equiv> UnavailableError ''Read operation is not available.''"
abbreviation rawFd_unavailable :: Status where
  "rawFd_unavailable \<equiv> UnavailableError ''rawFDs are not supported for this FileHandle type!''"
abbreviation rawPtr_unavailable :: Status where
  "rawPtr_unavailable \<equiv> UnavailableError ''rawPtrs are not supported for this FileHandle type!''"
abbreviation writeBytes_unavailable :: Status where
  "writeBytes_unavailable \<equiv> UnavailableError ''Write operation is not available.''"
abbreviation write_unavailable :: Status where
  "write_unavailable \<equiv> UnavailableError ''Write is not available.''"
abbreviation truncate_unavailable :: Status where
  "truncate_unavailable \<equiv> UnavailableError ''Truncate is not available.''"
abbreviation seal_unavailable :: Status where
  "seal_unavailable \<equiv> UnavailableError ''Seal operation is not available.''"

lemma roundToNearestMultiple_bounds:
  assumes "0 < f" "n + f < 2 ^ 64"
  shows "n \<le> roundToNearestMultiple n f" "roundToNearestMultiple n f < n + f"
    "f dvd roundToNearestMultiple n f"
proof -
  let ?q = "(n + f - 1) div f"
  have le: "?q * f \<le> n + f - 1" by (rule div_times_less_eq_dividend)
  then have "?q * f < 2 ^ 64" using assms by linarith
  then have r: "roundToNearestMultiple n f = ?q * f"
    using assms by (simp add: roundToNearestMultiple_def)
  have "n + f - 1 < (?q + 1) * f"
    using assms(1) by (metis Suc_eq_plus1 dividend_less_div_times mult_Suc mult.commute add.commute)
  then show "n \<le> roundToNearestMultiple n f" using r assms(1) by (simp add: algebra_simps)
  show "roundToNearestMultiple n f < n + f" using r le assms(1) by linarith
  show "f dvd roundToNearestMultiple n f" using r by simp
qed

section \<open>Downloads\<close>

text \<open>
  \<open>downloadRange\<close> moves a range through a buffer of one cache block: \<open>rd\<close> reads from the source,
  \<open>wr\<close> writes to the destination, \<open>'w\<close> is the state of both. The loop body runs at least once; it
  ends at an empty read, so \<open>fuel\<close> bounds the number of non-empty reads.
\<close>

fun downloadRange_loop ::
  "nat \<Rightarrow> (size_t \<Rightarrow> size_t \<Rightarrow> 'w \<Rightarrow> (size_t \<times> byte list) StatusOr \<times> 'w)
     \<Rightarrow> (byte list \<Rightarrow> size_t \<Rightarrow> 'w \<Rightarrow> Status \<times> 'w)
     \<Rightarrow> size_t \<Rightarrow> size_t \<Rightarrow> size_t \<Rightarrow> size_t \<Rightarrow> size_t \<Rightarrow> 'w \<Rightarrow> (size_t StatusOr \<times> 'w) option" where
  "downloadRange_loop 0 rd wr blockSize srcPosition length' destPosition count w = None"
| "downloadRange_loop (Suc fuel) rd wr blockSize srcPosition length' destPosition count w =
     (case rd (wrap64 (srcPosition + count)) (min (sz_sub length' count) blockSize) w of
        (Inl s, w1) \<Rightarrow> Some (Inl s, w1)
      | (Inr (rcount, buffer), w1) \<Rightarrow>
          if rcount = 0 then Some (Inr count, w1)
          else (case wr (take rcount buffer) (wrap64 (destPosition + count)) w1 of (status, w2) \<Rightarrow>
            if \<not> status_ok status then Some (Inl status, w2)
            else
              let count' = wrap64 (count + rcount) in
              if count' < length'
              then downloadRange_loop fuel rd wr blockSize srcPosition length' destPosition count' w2
              else Some (Inr count', w2)))"

definition downloadRange where
  "downloadRange fuel sameHandle rd wr blockSize srcPosition length' destPosition w =
     (if sameHandle then Some (Inl (InvalidArgumentError ''Source and target are the same!''), w)
      else downloadRange_loop fuel rd wr blockSize srcPosition length' destPosition 0 w)"

text \<open>
  \<open>download\<close> copies the whole file block by block. It advances by what a range returned; a range
  that returns nothing before the end is requested again and again.
\<close>

fun download_loop ::
  "nat \<Rightarrow> (size_t \<Rightarrow> size_t \<Rightarrow> size_t \<Rightarrow> 'w \<Rightarrow> (size_t StatusOr \<times> 'w) option) \<Rightarrow> size_t \<Rightarrow> size_t \<Rightarrow> size_t \<Rightarrow> 'w
     \<Rightarrow> (Status \<times> 'w) option" where
  "download_loop 0 range' cacheBlockSize totalSize pos w = None"
| "download_loop (Suc fuel) range' cacheBlockSize totalSize pos w =
     (case range' pos (min cacheBlockSize (sz_sub totalSize pos)) pos w of
        None \<Rightarrow> None
      | Some (Inl s, w1) \<Rightarrow> Some (s, w1)
      | Some (Inr count, w1) \<Rightarrow>
          let pos' = wrap64 (pos + count) in
          if pos' < totalSize then download_loop fuel range' cacheBlockSize totalSize pos' w1
          else Some (OkStatus, w1))"

definition download where
  "download fuel size' range' cacheBlockSize w =
     (case size' of
        Inl s \<Rightarrow> Some (s, w)
      | Inr totalSize \<Rightarrow> download_loop fuel range' cacheBlockSize totalSize 0 w)"

section \<open>Correctness of downloads\<close>

text \<open>
  Source and destination as files: the source delivers the requested range cut at its end, in pieces
  of any size, the destination is a byte sequence.
\<close>

definition reads_as ::
  "(size_t \<Rightarrow> size_t \<Rightarrow> 'w \<Rightarrow> (size_t \<times> byte list) StatusOr \<times> 'w) \<Rightarrow> byte list \<Rightarrow> ('w \<Rightarrow> byte list)
     \<Rightarrow> ('w \<Rightarrow> bool) \<Rightarrow> bool" where
  "reads_as rd src dst ok \<longleftrightarrow> (\<forall>p n w. ok w \<longrightarrow> p + n < INT64_MAX \<longrightarrow>
     (\<exists>k w'. rd p n w = (Inr (k, file_read p k src), w') \<and> k \<le> n \<and> p + k \<le> max p (length src) \<and>
        (k = 0 \<longrightarrow> n = 0 \<or> length src \<le> p) \<and> dst w' = dst w \<and> ok w'))"

definition writes_as ::
  "(byte list \<Rightarrow> size_t \<Rightarrow> 'w \<Rightarrow> Status \<times> 'w) \<Rightarrow> ('w \<Rightarrow> byte list) \<Rightarrow> ('w \<Rightarrow> bool) \<Rightarrow> bool" where
  "writes_as wr dst ok \<longleftrightarrow> (\<forall>bs p w. ok w \<longrightarrow> p + length bs < 2 ^ 63 \<longrightarrow>
     fst (wr bs p w) = OkStatus \<and> dst (snd (wr bs p w)) = file_write p bs (dst w) \<and> ok (snd (wr bs p w)))"

lemma downloadRange_loop_correct:
  assumes "reads_as rd src dst ok" "writes_as wr dst ok" "0 < blockSize"
    and "s + n < INT64_MAX" "d + n < 2 ^ 63" "n - count < fuel" "count \<le> n" "ok w"
  shows "\<exists>w'. downloadRange_loop fuel rd wr blockSize s n d count w =
      Some (Inr (count + length (file_read (s + count) (n - count) src)), w') \<and> ok w' \<and>
    dst w' = file_write (d + count) (file_read (s + count) (n - count) src) (dst w)"
  using assms(6-8)
proof (induction fuel arbitrary: count w)
  case 0
  then show ?case by simp
next
  case (Suc fuel)
  let ?p = "s + count" and ?m = "min (n - count) blockSize"
  have wrap: "wrap64 ?p = ?p" "wrap64 (d + count) = d + count" "sz_sub n count = n - count"
    using assms(4,5) Suc.prems(2) by (simp_all add: INT64_MAX_def)
  have "?p + ?m < INT64_MAX" using assms(4) Suc.prems(2) by linarith
  then obtain k w1 where r: "rd ?p ?m w = (Inr (k, file_read ?p k src), w1)" "k \<le> ?m"
    "?p + k \<le> max ?p (length src)" "k = 0 \<longrightarrow> ?m = 0 \<or> length src \<le> ?p" "dst w1 = dst w" "ok w1"
    using assms(1) Suc.prems(3) unfolding reads_as_def by blast
  show ?case
  proof (cases "k = 0")
    case True
    then have e: "file_read ?p (n - count) src = []"
      using r(4) assms(3) by (auto simp: file_read_def)
    from True r wrap show ?thesis by (simp add: e)
  next
    case False
    then have "?p + k \<le> length src" using r(3) by (simp add: max_def split: if_splits)
    then have len: "length (file_read ?p k src) = k" by (simp add: file_read_def)
    let ?c = "count + k"
    have "k \<le> n - count" using r(2) by simp
    then have c1: "?c \<le> n" using Suc.prems(2) by linarith
    moreover have "wrap64 ?c = ?c" using c1 assms(4) by (intro wrap64_id) (simp add: INT64_MAX_def)
    ultimately have c: "?c \<le> n" "wrap64 ?c = ?c" .
    have wl: "d + count + length (file_read ?p k src) < 2 ^ 63" using len c(1) assms(5) by linarith
    obtain w2 where wr: "wr (file_read ?p k src) (d + count) w1 = (OkStatus, w2)" "ok w2"
      "dst w2 = file_write (d + count) (file_read ?p k src) (dst w)"
      using assms(2) [unfolded writes_as_def, rule_format, OF r(6) wl] r(5)
      by (cases "wr (file_read ?p k src) (d + count) w1") simp
    have split: "file_read ?p (n - count) src = file_read ?p k src @ file_read (s + ?c) (n - ?c) src"
      using file_read_split [of k "n - count" ?p src] \<open>k \<le> n - count\<close> by (simp add: add.assoc)
    have dst: "file_write (d + ?c) (file_read (s + ?c) (n - ?c) src) (dst w2) =
        file_write (d + count) (file_read ?p (n - count) src) (dst w)"
      using file_write_append [of "d + count" "file_read ?p k src"] wr(3) split len
      by (simp add: add.assoc)
    have step: "downloadRange_loop (Suc fuel) rd wr blockSize s n d count w =
        (if ?c < n then downloadRange_loop fuel rd wr blockSize s n d ?c w2 else Some (Inr ?c, w2))"
    proof -
      have "take k (file_read ?p k src) = file_read ?p k src" using len by simp
      then show ?thesis using \<open>k \<noteq> 0\<close> r(1) wr(1) wrap c(2) by (simp add: Let_def)
    qed
    show ?thesis
    proof (cases "?c < n")
      case True
      have "n - ?c < fuel" using Suc.prems(1) True \<open>k \<noteq> 0\<close> by linarith
      from Suc.IH [OF this c(1) wr(2)] obtain w' where
        "downloadRange_loop fuel rd wr blockSize s n d ?c w2 =
          Some (Inr (?c + length (file_read (s + ?c) (n - ?c) src)), w')" "ok w'"
        "dst w' = file_write (d + ?c) (file_read (s + ?c) (n - ?c) src) (dst w2)" by blast
      then show ?thesis using True step dst split len by (simp add: add.assoc)
    next
      case False
      then have "file_read (s + ?c) (n - ?c) src = []" by (simp add: file_read_def)
      with False step dst split len wr(2) show ?thesis by simp
    qed
  qed
qed

lemma download_loop_correct:
  assumes "reads_as rd src dst ok" "writes_as wr dst ok" "0 < blockSize" "length src < 2 ^ 62"
    and "blockSize < 2 ^ 62" "length src - pos < fuel" "pos \<le> length src" "blockSize < inner" "ok w"
    and "range' = (\<lambda>s n d. downloadRange inner False rd wr blockSize s n d)"
  shows "\<exists>w'. download_loop fuel range' blockSize (length src) pos w = Some (OkStatus, w') \<and> ok w' \<and>
    dst w' = file_write pos (drop pos src) (dst w)"
  using assms(6,7,9)
proof (induction fuel arbitrary: pos w)
  case 0
  then show ?case by simp
next
  case (Suc fuel)
  define m where "m = min blockSize (length src - pos)"
  have n: "min blockSize (sz_sub (length src) pos) = m" "pos + m < 2 ^ 63" "m < inner"
    "pos + m < INT64_MAX"
    using Suc.prems(2) assms(4,5,8) by (simp_all add: m_def INT64_MAX_def)
  have m: "pos + m \<le> length src" "pos + m < length src \<Longrightarrow> 0 < m"
    using Suc.prems(2) assms(3) by (auto simp: m_def)
  then have len: "length (file_read pos m src) = m" by (simp add: file_read_def)
  obtain w1 where r: "range' pos m pos w = Some (Inr m, w1)" "ok w1"
    "dst w1 = file_write pos (file_read pos m src) (dst w)"
    using downloadRange_loop_correct [OF assms(1-3) n(4,2), of 0 inner w] n(3) Suc.prems(3) len assms(10)
    by (auto simp: downloadRange_def)
  have pos: "wrap64 (pos + m) = pos + m" using n(2) by (intro wrap64_id) simp
  have cat: "file_read pos m src @ drop (pos + m) src = drop pos src"
    by (simp add: file_read_def) (metis add.commute append_take_drop_id drop_drop)
  have d: "file_write (pos + m) (drop (pos + m) src) (dst w1) = file_write pos (drop pos src) (dst w)"
    using file_write_append [of pos "file_read pos m src" "drop (pos + m) src" "dst w"] r(3) len cat
    by simp
  have step: "download_loop (Suc fuel) range' blockSize (length src) pos w =
      (if pos + m < length src then download_loop fuel range' blockSize (length src) (pos + m) w1
       else Some (OkStatus, w1))"
    using n(1) r(1) pos by (simp add: Let_def)
  show ?case
  proof (cases "pos + m < length src")
    case True
    then have f: "length src - (pos + m) < fuel" using Suc.prems(1) m(2) by linarith
    from Suc.IH [OF f m(1) r(2)] True step d show ?thesis by simp
  next
    case False
    then have "drop (pos + m) src = []" by simp
    with d False step r(2) show ?thesis by simp
  qed
qed

text \<open>
  C17. Downloading a handle returns and copies the whole file: for a source that delivers its bytes in
  pieces of any positive size and a destination that writes, \<open>download\<close> ends with OK, and the
  destination then holds the source's bytes from position 0 on. The fuel is one more than the number
  of bytes, since every round but the last moves at least one.
\<close>

theorem download_copies:
  assumes "reads_as rd src dst ok" "writes_as wr dst ok" "0 < blockSize" "blockSize < 2 ^ 62"
    and "length src < 2 ^ 62" "ok w" "length src < fuel" "blockSize < inner"
  shows "\<exists>w'. download fuel (Inr (length src))
      (\<lambda>s n d. downloadRange inner False rd wr blockSize s n d) blockSize w = Some (OkStatus, w') \<and>
    dst w' = file_write 0 src (dst w)"
  using download_loop_correct [OF assms(1-3,5,4) _ _ assms(8,6) refl, of 0 fuel] assms(7)
  by (auto simp: download_def)

text \<open>Two local files are such a source and destination.\<close>

definition local_rd where
  "local_rd script p n w = (LocalFile_readBytes script (fst w) p n, w)"

definition local_wr where
  "local_wr script bs p w = (case LocalFile_writeBytes script (snd w) bs p of (s, g) \<Rightarrow> (s, (fst w, g)))"

definition local_pair :: "byte list \<Rightarrow> LocalFile \<times> LocalFile \<Rightarrow> bool" where
  "local_pair src w \<longleftrightarrow> lf_inv (fst w) \<and> lf_content (fst w) = src \<and> lf_inv (snd w)"

lemma local_reads_as:
  "io_ok script \<Longrightarrow> reads_as (local_rd script) src (lf_content \<circ> snd) (local_pair src)"
  by (auto simp: reads_as_def local_rd_def local_pair_def LocalFile_readBytes_correct file_read_def
      min.commute [of _ n for n] take_min_drop
      intro!: exI [of _ "length (take _ (drop _ (src :: byte list)))"])

lemma local_writes_as:
  "io_ok script \<Longrightarrow> writes_as (local_wr script) (lf_content \<circ> snd) (local_pair src)"
  by (auto simp: writes_as_def local_wr_def local_pair_def LocalFile_writeBytes_correct lf_inv_def)

theorem download_copies_witness:
  "\<exists>w'. download 4 (Inr 3) (\<lambda>s n d. downloadRange 3 False (local_rd [Moved 1]) (local_wr []) 2 s n d) 2
      (empty_file\<lparr>lf_size := 3, lf_content := [7, 8, 9]\<rparr>, empty_file) = Some (OkStatus, w') \<and>
    (lf_content \<circ> snd) w' = [7, 8, 9]"
proof -
  let ?w = "(empty_file\<lparr>lf_size := 3, lf_content := [7, 8, 9]\<rparr>, empty_file)"
  have "local_pair [7, 8, 9] ?w" by (simp add: local_pair_def lf_inv_def empty_file_def)
  with download_copies [OF local_reads_as local_writes_as, of "[Moved 1]" "[]" 2 "[7, 8, 9]" ?w 4 3]
  show ?thesis by (simp add: io_ok_def file_write_def empty_file_def numeral_3_eq_3)
qed

section \<open>GEDSFile\<close>

text \<open>
  A \<open>GEDSFile\<close> owns one reference to a handle. A state of the program is the handles it can reach, by
  number, and the variables that hold files; a moved-from variable holds none. Destroying a
  variable ends its life.
\<close>

record geds_files =
  gf_handles :: "nat \<Rightarrow> FileHandle"
  gf_vars :: "nat \<rightharpoonup> nat option"

definition GEDSFile_open :: "nat \<Rightarrow> nat \<Rightarrow> nat \<Rightarrow> geds_files \<Rightarrow> geds_files" where
  "GEDSFile_open now v h s =
     s\<lparr>gf_handles := (gf_handles s)(h := increaseOpenCount now (gf_handles s h)),
       gf_vars := (gf_vars s)(v \<mapsto> Some h)\<rparr>"

definition GEDSFile_copy :: "nat \<Rightarrow> nat \<Rightarrow> nat \<Rightarrow> geds_files \<Rightarrow> geds_files" where
  "GEDSFile_copy now v other s =
     (case gf_vars s other of
        Some (Some h) \<Rightarrow> GEDSFile_open now v h s
      | _ \<Rightarrow> s)"

definition GEDSFile_move :: "nat \<Rightarrow> nat \<Rightarrow> geds_files \<Rightarrow> geds_files" where
  "GEDSFile_move v other s =
     (case gf_vars s other of
        Some h \<Rightarrow> s\<lparr>gf_vars := (gf_vars s)(v \<mapsto> h, other \<mapsto> None)\<rparr>
      | None \<Rightarrow> s)"

text \<open>Copy assignment: the old handle of the target is dropped without a decrease.\<close>

definition GEDSFile_assign :: "nat \<Rightarrow> nat \<Rightarrow> nat \<Rightarrow> geds_files \<Rightarrow> geds_files" where
  "GEDSFile_assign now v other s =
     (if v = other then s
      else case gf_vars s other of
          Some (Some h) \<Rightarrow>
            s\<lparr>gf_handles := (gf_handles s)(h := increaseOpenCount now (gf_handles s h)),
              gf_vars := (gf_vars s)(v \<mapsto> Some h)\<rparr>
        | _ \<Rightarrow> s)"

definition GEDSFile_move_assign :: "nat \<Rightarrow> nat \<Rightarrow> geds_files \<Rightarrow> geds_files" where
  "GEDSFile_move_assign v other s = (if v = other then s else GEDSFile_move v other s)"

definition GEDSFile_destroy :: "nat \<Rightarrow> nat \<Rightarrow> geds_files \<Rightarrow> geds_files" where
  "GEDSFile_destroy now v s =
     (case gf_vars s v of
        None \<Rightarrow> s
      | Some None \<Rightarrow> s\<lparr>gf_vars := (gf_vars s)(v := None)\<rparr>
      | Some (Some h) \<Rightarrow>
          s\<lparr>gf_handles := (gf_handles s)(h := decreaseOpenCount (\<lambda>x. x) now (gf_handles s h)),
            gf_vars := (gf_vars s)(v := None)\<rparr>)"

text \<open>The number of variables that hold a handle.\<close>

definition holders :: "geds_files \<Rightarrow> nat \<Rightarrow> nat set" where
  "holders s h = {v. gf_vars s v = Some (Some h)}"

text \<open>
  Executions: a variable is created by opening, copying or moving into a new variable; a live
  variable may be assigned to, by copy or by move, or destroyed. Both assignments drop the handle the
  target held without a decrease: the label of a step is the handle whose reference is lost in it.
  A copy of a moved-from file dereferences a null pointer and is no step.
\<close>

inductive files_step :: "geds_files \<Rightarrow> nat option \<Rightarrow> geds_files \<Rightarrow> bool" where
  Open: "gf_vars s v = None \<Longrightarrow> files_step s None (GEDSFile_open now v h s)"
| Copy: "gf_vars s v = None \<Longrightarrow> gf_vars s x = Some (Some h) \<Longrightarrow> files_step s None (GEDSFile_copy now v x s)"
| Move: "gf_vars s v = None \<Longrightarrow> gf_vars s x = Some h \<Longrightarrow> files_step s None (GEDSFile_move v x s)"
| Assign: "gf_vars s v = Some lost \<Longrightarrow> gf_vars s x = Some (Some h) \<Longrightarrow> v \<noteq> x \<Longrightarrow>
    files_step s lost (GEDSFile_assign now v x s)"
| AssignSelf: "gf_vars s v = Some h \<Longrightarrow> files_step s None (GEDSFile_assign now v v s)"
| MoveAssign: "gf_vars s v = Some lost \<Longrightarrow> gf_vars s x = Some h \<Longrightarrow> v \<noteq> x \<Longrightarrow>
    files_step s lost (GEDSFile_move_assign v x s)"
| MoveAssignSelf: "gf_vars s v = Some h \<Longrightarrow> files_step s None (GEDSFile_move_assign v v s)"
| Destroy: "gf_vars s v = Some h \<Longrightarrow> files_step s None (GEDSFile_destroy now v s)"

inductive_cases files_stepE: "files_step s lost s'"

inductive files_run :: "geds_files \<Rightarrow> nat option list \<Rightarrow> geds_files \<Rightarrow> bool" where
  Start: "files_run s [] s"
| Then: "files_run s ls s' \<Longrightarrow> files_step s' l s'' \<Longrightarrow> files_run s (ls @ [l]) s''"

text \<open>The count of a handle is the number of its holders and of the references that were lost.\<close>

definition files_inv :: "nat option list \<Rightarrow> geds_files \<Rightarrow> bool" where
  "files_inv ls s \<longleftrightarrow> finite (dom (gf_vars s)) \<and>
     (\<forall>h. fh_openCount (gf_handles s h) = int (card (holders s h)) + int (count_list ls (Some h)))"

text \<open>How many variables hold a handle, and how one update of a variable changes that.\<close>

definition held :: "(nat \<rightharpoonup> nat option) \<Rightarrow> nat \<Rightarrow> int" where
  "held vars h = int (card {w. vars w = Some (Some h)})"

lemma card_holders: "int (card (holders s h)) = held (gf_vars s) h"
  by (simp add: holders_def held_def)

lemma held_update:
  assumes "finite (dom vars)"
  shows "held (vars(v := n)) h = held vars h + (if n = Some (Some h) then 1 else 0) -
    (if vars v = Some (Some h) then 1 else 0)"
proof -
  let ?A = "{w. vars w = Some (Some h)} - {v}"
  have fin: "finite ?A" by (rule finite_subset [OF _ assms]) auto
  have "{w. vars w = Some (Some h)} = (if vars v = Some (Some h) then insert v ?A else ?A)"
    "{w. (vars(v := n)) w = Some (Some h)} = (if n = Some (Some h) then insert v ?A else ?A)" by auto
  with fin card_insert_disjoint [of ?A v] show ?thesis by (auto simp: held_def simp del: card_Diff_singleton)
qed

lemma files_inv_update:
  assumes "files_inv ls s" "gf_vars s' = (gf_vars s)(v := n)"
    and "\<And>h. fh_openCount (gf_handles s' h) = fh_openCount (gf_handles s h) +
      (if n = Some (Some h) then 1 else 0) - (if gf_vars s v = Some (Some h) then 1 else 0) +
      (if l = Some h then 1 else 0)"
  shows "files_inv (ls @ [l]) s'"
  using assms by (auto simp: files_inv_def card_holders held_update)

lemma files_inv_quiet: "files_inv ls s \<Longrightarrow> files_inv (ls @ [None]) s"
  by (simp add: files_inv_def)

text \<open>A move is an update of the target followed by one of the source.\<close>

lemma files_inv_move:
  assumes "files_inv ls s" "gf_vars s x = Some h" "v \<noteq> x"
    and "lost = (case gf_vars s v of None \<Rightarrow> None | Some old \<Rightarrow> old)"
  shows "files_inv (ls @ [lost]) (GEDSFile_move v x s)"
proof -
  have fin: "finite (dom (gf_vars s))" using assms(1) by (simp add: files_inv_def)
  have vars: "gf_vars (GEDSFile_move v x s) = ((gf_vars s)(v := Some h))(x := Some None)"
    using assms(2) by (simp add: GEDSFile_move_def)
  have held: "held (gf_vars s) k = held (gf_vars (GEDSFile_move v x s)) k + (if lost = Some k then 1 else 0)" for k
    unfolding vars using assms(2-4) fin by (auto simp: held_update simp del: fun_upd_apply split: option.splits)
      (auto simp: fun_upd_apply)
  have "gf_handles (GEDSFile_move v x s) = gf_handles s" using assms(2) by (simp add: GEDSFile_move_def)
  moreover have "finite (dom (gf_vars (GEDSFile_move v x s)))" using fin by (simp add: vars)
  ultimately show ?thesis using assms(1) by (simp add: files_inv_def card_holders held)
qed

lemma files_step_inv: "files_step s l s' \<Longrightarrow> files_inv ls s \<Longrightarrow> files_inv (ls @ [l]) s'"
proof (erule files_stepE)
  fix v now h
  assume "files_inv ls s" "l = None" "s' = GEDSFile_open now v h s" "gf_vars s v = None"
  then show ?thesis
    by (intro files_inv_update [where v = v and n = "Some (Some h)"])
      (auto simp: GEDSFile_open_def increaseOpenCount_def)
next
  fix v x now h
  assume "files_inv ls s" "l = None" "s' = GEDSFile_copy now v x s" "gf_vars s v = None"
    "gf_vars s x = Some (Some h)"
  then show ?thesis
    by (intro files_inv_update [where v = v and n = "Some (Some h)"])
      (auto simp: GEDSFile_copy_def GEDSFile_open_def increaseOpenCount_def)
next
  fix v x now h
  assume "files_inv ls s" "s' = GEDSFile_assign now v x s" "gf_vars s v = Some l"
    "gf_vars s x = Some (Some h)" "v \<noteq> x"
  then show ?thesis
    by (intro files_inv_update [where v = v and n = "Some (Some h)"])
      (auto simp: GEDSFile_assign_def increaseOpenCount_def)
next
  fix v now h
  assume "files_inv ls s" "l = None" "s' = GEDSFile_destroy now v s" "gf_vars s v = Some h"
  then show ?thesis
    by (intro files_inv_update [where v = v and n = None])
      (auto simp: GEDSFile_destroy_def decreaseOpenCount_def Let_def split: option.splits)
qed (auto simp: GEDSFile_assign_def GEDSFile_move_assign_def files_inv_quiet intro!: files_inv_move)

lemma files_run_inv: "files_run s ls s' \<Longrightarrow> files_inv [] s \<Longrightarrow> files_inv ls s'"
  by (induction rule: files_run.induct) (auto intro: files_step_inv)

text \<open>
  C33. Reference counting: along every execution of openings, copies, moves, both assignments and
  destructions of file objects, the open count of a handle is the number of file objects that hold it
  plus the number of references to it that were lost, one for every assignment to a file object that
  held it. In an execution without such assignments a handle with no holder has count 0; after one
  the count of the replaced handle stays positive for good.
\<close>

theorem GEDSFile_openCount:
  assumes "files_run s ls s'" and "gf_vars s = Map.empty" and "\<forall>h. fh_openCount (gf_handles s h) = 0"
  shows "fh_openCount (gf_handles s' h) =
    int (card {v. gf_vars s' v = Some (Some h)}) + int (count_list ls (Some h))"
proof -
  have "files_inv [] s" using assms(2,3) by (simp add: files_inv_def holders_def)
  with assms(1) have "files_inv ls s'" by (rule files_run_inv)
  then show ?thesis by (simp add: files_inv_def holders_def)
qed

definition no_files :: geds_files where
  "no_files = \<lparr>gf_handles = (\<lambda>_. FileHandle_new ''bkt'' ''k'' None), gf_vars = Map.empty\<rparr>"

definition two_files :: geds_files where
  "two_files = GEDSFile_open 2 1 6 (GEDSFile_open 1 0 5 no_files)"

lemma two_files_run: "files_run no_files [None, None] two_files"
proof -
  have "files_step no_files None (GEDSFile_open 1 0 5 no_files)"
    by (rule files_step.Open) (simp add: no_files_def)
  with files_run.Start have "files_run no_files ([] @ [None]) (GEDSFile_open 1 0 5 no_files)"
    by (rule files_run.Then)
  moreover have "files_step (GEDSFile_open 1 0 5 no_files) None two_files"
    unfolding two_files_def by (rule files_step.Open) (simp add: no_files_def GEDSFile_open_def)
  ultimately have "files_run no_files (([] @ [None]) @ [None]) two_files" by (rule files_run.Then)
  then show ?thesis by simp
qed

theorem GEDSFile_openCount_witness:
  "files_run no_files [None, None, Some 5] (GEDSFile_assign 3 0 1 two_files) \<and>
   fh_openCount (gf_handles (GEDSFile_assign 3 0 1 two_files) 5) = 1 \<and>
   fh_openCount (gf_handles (GEDSFile_assign 3 0 1 two_files) 6) = 2"
proof -
  have "files_step two_files (Some 5) (GEDSFile_assign 3 0 1 two_files)"
    by (rule files_step.Assign [where h = 6]) (simp_all add: two_files_def no_files_def GEDSFile_open_def)
  with two_files_run have "files_run no_files ([None, None] @ [Some 5]) (GEDSFile_assign 3 0 1 two_files)"
    by (rule files_run.Then)
  then have r: "files_run no_files [None, None, Some 5] (GEDSFile_assign 3 0 1 two_files)" by simp
  have "gf_vars no_files = Map.empty" "\<forall>h. fh_openCount (gf_handles no_files h) = 0"
    by (simp_all add: no_files_def FileHandle_new_def)
  note c = GEDSFile_openCount [OF r this]
  have "{v. gf_vars (GEDSFile_assign 3 0 1 two_files) v = Some (Some 5)} = {}"
    "{v. gf_vars (GEDSFile_assign 3 0 1 two_files) v = Some (Some 6)} = {0, 1}"
    by (auto simp: two_files_def no_files_def GEDSFile_open_def GEDSFile_assign_def split: if_splits)
  with c [of 5] c [of 6] r show ?thesis by simp
qed

text \<open>
  Copy assignment leaks a reference: assigning another file to a variable leaves the count of the
  handle the variable held before one above its number of holders, so that this handle never
  becomes unused.
\<close>

theorem GEDSFile_assign_leaks:
  assumes "files_inv [] s" "gf_vars s v = Some (Some h)" "gf_vars s x = Some (Some k)" "h \<noteq> k"
  shows "fh_openCount (gf_handles (GEDSFile_assign now v x s) h) =
    int (card (holders (GEDSFile_assign now v x s) h)) + 1"
proof -
  have "v \<noteq> x" using assms by auto
  with assms have "files_step s (Some h) (GEDSFile_assign now v x s)" by (intro files_step.Assign)
  from files_step_inv [OF this assms(1)] show ?thesis by (simp add: files_inv_def)
qed

theorem GEDSFile_assign_leaks_witness:
  "files_inv [] two_files \<and>
   fh_openCount (gf_handles (GEDSFile_assign 3 0 1 two_files) 5) =
     int (card (holders (GEDSFile_assign 3 0 1 two_files) 5)) + 1"
proof -
  have "files_inv [] no_files" by (simp add: files_inv_def no_files_def FileHandle_new_def holders_def)
  with two_files_run have "files_inv [None, None] two_files" by (rule files_run_inv)
  then have i: "files_inv [] two_files" by (simp add: files_inv_def)
  show ?thesis
    by (rule conjI [OF i GEDSFile_assign_leaks [OF i, of 0 5 1 6]])
      (simp_all add: two_files_def no_files_def GEDSFile_open_def)
qed

end
