(* ===== verification/Cached_Handle.thy ===== *)
theory Cached_Handle
  imports File_Handle
begin

text \<open>
  \<^verbatim>\<open>src/libgeds/GEDSCachedFileHandle.cpp\<close>: a handle that serves reads of a remote file from blocks
  kept as local GEDS files. The service operations that the cache calls are a record of functions over
  the state of the service; open files are numbers. The main result is that block-wise reading
  returns exactly the requested range, whatever blocks earlier reads have left in the cache.
\<close>

section \<open>The cache\<close>

record 'w block_service =
  bs_open :: "string \<Rightarrow> string \<Rightarrow> 'w \<Rightarrow> nat StatusOr \<times> 'w"
  bs_create :: "string \<Rightarrow> string \<Rightarrow> 'w \<Rightarrow> nat StatusOr \<times> 'w"
  bs_downloadRange :: "nat \<Rightarrow> size_t \<Rightarrow> size_t \<Rightarrow> size_t \<Rightarrow> 'w \<Rightarrow> size_t StatusOr \<times> 'w"
  bs_openHandle :: "nat \<Rightarrow> 'w \<Rightarrow> nat StatusOr \<times> 'w"
  bs_seal :: "nat \<Rightarrow> 'w \<Rightarrow> Status \<times> 'w"
  bs_read :: "nat \<Rightarrow> size_t \<Rightarrow> size_t \<Rightarrow> 'w \<Rightarrow> byte list StatusOr \<times> 'w"
  bs_delete :: "string \<Rightarrow> string \<Rightarrow> 'w \<Rightarrow> 'w"

record CachedHandle = FileHandle +
  ch_remoteSize :: size_t
  ch_blockSize :: size_t
  ch_blocks :: "nat option list"
  ch_readStatistics :: u64
  ch_cacheSize :: u64
  ch_numCachedBlocks :: u64
  ch_numPurgedBlocks :: u64

definition CacheBlockMarker :: string where
  "CacheBlockMarker = ''_$cachedblock$/''"

definition cacheKey :: "string \<Rightarrow> nat \<Rightarrow> string" where
  "cacheKey key idx = CacheBlockMarker @ key @ ''_'' @ show_nat idx"

text \<open>The constructor throws when the remote handle cannot be opened.\<close>

definition CachedHandle_new ::
  "string \<Rightarrow> string \<Rightarrow> string option \<Rightarrow> size_t \<Rightarrow> size_t StatusOr \<Rightarrow> CachedHandle outcome" where
  "CachedHandle_new bucket key metadata blockSize remote =
     (case remote of
        Inl s \<Rightarrow> Raises (''Unable to open GEDSFile from filehandle: '' @ status_message s)
      | Inr remoteSize \<Rightarrow> Returns (FileHandle.extend (FileHandle_new bucket key metadata)
          \<lparr>ch_remoteSize = remoteSize, ch_blockSize = blockSize,
           ch_blocks = replicate (remoteSize div blockSize + 1) None, ch_readStatistics = 0,
           ch_cacheSize = 0, ch_numCachedBlocks = 0, ch_numPurgedBlocks = 0\<rparr>))"

definition CachedHandle_size :: "CachedHandle \<Rightarrow> size_t StatusOr" where
  "CachedHandle_size h = Inr (ch_remoteSize h)"

definition CachedHandle_localStorageSize :: "(nat \<Rightarrow> size_t) \<Rightarrow> CachedHandle \<Rightarrow> size_t" where
  "CachedHandle_localStorageSize storage h =
     foldl (\<lambda>n b. case b of None \<Rightarrow> n | Some f \<Rightarrow> wrap64 (n + storage f)) 0 (ch_blocks h)"

definition CachedHandle_localMemorySize :: "(nat \<Rightarrow> size_t) \<Rightarrow> CachedHandle \<Rightarrow> size_t" where
  "CachedHandle_localMemorySize memory h =
     foldl (\<lambda>n b. case b of None \<Rightarrow> n | Some f \<Rightarrow> wrap64 (n + memory f)) 0 (ch_blocks h)"

text \<open>
  \<open>openBlock\<close>: a cached file, an existing cache object, or a new one that is filled from the remote
  file. The handle is opened twice; the second result is dereferenced unchecked, which throws
  \<open>BadStatusOrAccess\<close> when it is an error. A failing seal is only logged.
\<close>

definition openBlock ::
  "'w block_service \<Rightarrow> nat \<Rightarrow> CachedHandle \<times> 'w \<Rightarrow> nat StatusOr outcome \<times> CachedHandle \<times> 'w" where
  "openBlock bs idx hw =
     (case hw of (h, w) \<Rightarrow>
      case ch_blocks h ! idx of
        Some f \<Rightarrow> (Returns (Inr f), h, w)
      | None \<Rightarrow>
          (case bs_open bs (fh_bucket h) (cacheKey (fh_key h) idx) w of
             (Inr f, w1) \<Rightarrow> (Returns (Inr f), h\<lparr>ch_blocks := (ch_blocks h)[idx := Some f]\<rparr>, w1)
           | (Inl _, w1) \<Rightarrow>
               (case bs_create bs (fh_bucket h) (cacheKey (fh_key h) idx) w1 of
                  (Inl s, w2) \<Rightarrow> (Returns (Inl s), h, w2)
                | (Inr newFile, w2) \<Rightarrow>
                    (case bs_downloadRange bs newFile (wrap64 (ch_blockSize h * idx)) (ch_blockSize h) 0 w2 of
                       (Inl s, w3) \<Rightarrow> (Returns (Inl s), h, w3)
                     | (Inr n, w3) \<Rightarrow>
                         (let h1 = h\<lparr>ch_cacheSize := ch_cacheSize h + of_nat n\<rparr> in
                          case bs_openHandle bs newFile w3 of
                            (Inl s, w4) \<Rightarrow> (Returns (Inl s), h1, w4)
                          | (Inr _, w4) \<Rightarrow>
                              (let h2 = h1\<lparr>ch_numCachedBlocks := ch_numCachedBlocks h1 + 1\<rparr> in
                               case bs_openHandle bs newFile w4 of
                                 (Inl s, w5) \<Rightarrow> (Raises ''Bad StatusOr access'', h2, w5)
                               | (Inr f, w5) \<Rightarrow>
                                   (case bs_seal bs newFile w5 of (_, w6) \<Rightarrow>
                                      (Returns (Inr f), h2\<lparr>ch_blocks := (ch_blocks h2)[idx := Some f]\<rparr>, w6))))))))"

definition purgeBlock :: "'w block_service \<Rightarrow> nat \<Rightarrow> nat \<Rightarrow> CachedHandle \<times> 'w \<Rightarrow> CachedHandle \<times> 'w" where
  "purgeBlock bs idx file hw =
     (case hw of (h, w) \<Rightarrow>
      if ch_blocks h ! idx = Some file
      then (h\<lparr>ch_numPurgedBlocks := ch_numPurgedBlocks h + 1, ch_blocks := (ch_blocks h)[idx := None]\<rparr>,
            bs_delete bs (fh_bucket h) (cacheKey (fh_key h) idx) w)
      else (h, w))"

definition MAX_RETRIES :: nat where "MAX_RETRIES = 1"

text \<open>
  One block of a read, with the retries left; \<open>bytes\<close> are the bytes copied so far, their
  number is \<open>count\<close>.
\<close>

fun readBlock ::
  "nat \<Rightarrow> 'w block_service \<Rightarrow> nat \<Rightarrow> size_t \<Rightarrow> size_t \<Rightarrow> byte list \<Rightarrow> CachedHandle \<times> 'w
     \<Rightarrow> byte list StatusOr outcome \<times> CachedHandle \<times> 'w" where
  "readBlock retries bs idx position length' bytes hw =
     (case openBlock bs idx hw of
        (Raises e, hw1) \<Rightarrow> (Raises e, hw1)
      | (Returns (Inl s), hw1) \<Rightarrow> (Returns (Inl s), hw1)
      | (Returns (Inr file), h1, w1) \<Rightarrow>
          (let count = length bytes;
               expectedCount = min (sz_sub length' count) (ch_blockSize h1)
           in case bs_read bs file (wrap64 (position + count) mod ch_blockSize h1) expectedCount w1 of
                (Inr chunk, w2) \<Rightarrow>
                  (Returns (Inr (bytes @ chunk)),
                   h1\<lparr>ch_readStatistics := ch_readStatistics h1 + of_nat (length chunk)\<rparr>, w2)
              | (Inl s, w2) \<Rightarrow>
                  (case retries of
                     0 \<Rightarrow> (Returns (Inl s), h1, w2)
                   | Suc r \<Rightarrow> readBlock r bs idx position length' bytes (purgeBlock bs idx file (h1, w2)))))"

declare readBlock.simps [simp del]

text \<open>The loop over the blocks, \<open>for (idx = startBlock; idx <= endBlock; idx++)\<close>.\<close>

fun readBlocks ::
  "nat list \<Rightarrow> 'w block_service \<Rightarrow> size_t \<Rightarrow> size_t \<Rightarrow> byte list \<Rightarrow> CachedHandle \<times> 'w
     \<Rightarrow> (size_t \<times> byte list) StatusOr outcome \<times> CachedHandle \<times> 'w" where
  "readBlocks [] bs position length' bytes hw = (Returns (Inr (length bytes, bytes)), hw)"
| "readBlocks (idx # rest) bs position length' bytes hw =
     (case readBlock MAX_RETRIES bs idx position length' bytes hw of
        (Raises e, hw1) \<Rightarrow> (Raises e, hw1)
      | (Returns (Inl s), hw1) \<Rightarrow> (Returns (Inl s), hw1)
      | (Returns (Inr bytes'), hw1) \<Rightarrow> readBlocks rest bs position length' bytes' hw1)"

definition CachedHandle_readBytes ::
  "'w block_service \<Rightarrow> size_t \<Rightarrow> size_t \<Rightarrow> CachedHandle \<times> 'w
     \<Rightarrow> (size_t \<times> byte list) StatusOr outcome \<times> CachedHandle \<times> 'w" where
  "CachedHandle_readBytes bs position length' hw =
     (case hw of (h, w) \<Rightarrow>
      if position \<ge> ch_remoteSize h \<or> length' = 0 then (Returns (Inr (0, [])), h, w)
      else
        let len = min length' (ch_remoteSize h - position);
            startBlock = position div ch_blockSize h;
            endBlock = wrap64 (position + len) div ch_blockSize h
        in readBlocks [startBlock..<Suc endBlock] bs position len [] (h, w))"

definition CachedHandle_seal :: "('w \<Rightarrow> Status \<times> 'w) \<Rightarrow> 'w \<Rightarrow> Status \<times> 'w" where
  "CachedHandle_seal remoteSeal w = remoteSeal w"

text \<open>Relocating a cached handle drops the cached blocks that occupy local storage.\<close>

fun relocate_blocks ::
  "'w block_service \<Rightarrow> ('w \<Rightarrow> nat \<Rightarrow> size_t) \<Rightarrow> string \<Rightarrow> string \<Rightarrow> nat \<Rightarrow> nat option list \<Rightarrow> 'w
     \<Rightarrow> nat option list \<times> 'w" where
  "relocate_blocks bs storage bucket key idx [] w = ([], w)"
| "relocate_blocks bs storage bucket key idx (b # rest) w =
     (case b of
        None \<Rightarrow> apfst (Cons None) (relocate_blocks bs storage bucket key (Suc idx) rest w)
      | Some f \<Rightarrow>
          if storage w f > 0
          then apfst (Cons None) (relocate_blocks bs storage bucket key (Suc idx) rest
                 (bs_delete bs bucket (cacheKey key idx) w))
          else apfst (Cons (Some f)) (relocate_blocks bs storage bucket key (Suc idx) rest w))"

definition CachedHandle_relocate where
  "CachedHandle_relocate bs storage hw =
     (case hw of (h, w) \<Rightarrow>
      case relocate_blocks bs storage (fh_bucket h) (fh_key h) 0 (ch_blocks h) w of (blocks, w') \<Rightarrow>
        (h\<lparr>ch_blocks := blocks\<rparr>, w'))"

section \<open>Block-wise reading is exact\<close>

text \<open>
  A block service that works, for a remote file \<open>content\<close> and the handle's bucket and key: block
  files hold the block they stand for, wherever they come from, and reading them succeeds. \<open>block\<close>
  gives the bytes of an open file.
\<close>

definition block_bytes :: "byte list \<Rightarrow> size_t \<Rightarrow> nat \<Rightarrow> byte list" where
  "block_bytes content bsize idx = file_read (bsize * idx) bsize content"

definition serves_blocks ::
  "'w block_service \<Rightarrow> ('w \<Rightarrow> nat \<Rightarrow> nat option) \<Rightarrow> byte list \<Rightarrow> size_t \<Rightarrow> string \<Rightarrow> string \<Rightarrow> bool" where
  "serves_blocks bs role content bsize bucket key \<longleftrightarrow>
     (\<forall>idx w. role w \<subseteq>\<^sub>m role (snd (bs_open bs bucket (cacheKey key idx) w)) \<and>
        (\<forall>f. fst (bs_open bs bucket (cacheKey key idx) w) = Inr f \<longrightarrow>
           role (snd (bs_open bs bucket (cacheKey key idx) w)) f = Some idx)) \<and>
     (\<forall>idx w. \<exists>f w'. bs_create bs bucket (cacheKey key idx) w = (Inr f, w') \<and> role w \<subseteq>\<^sub>m role w' \<and>
        (\<exists>n w''. bs_downloadRange bs f (bsize * idx) bsize 0 w' = (Inr n, w'') \<and>
           role w' \<subseteq>\<^sub>m role w'' \<and> role w'' f = Some idx)) \<and>
     (\<forall>f w. \<exists>w'. bs_openHandle bs f w = (Inr f, w') \<and> role w \<subseteq>\<^sub>m role w') \<and>
     (\<forall>f w. role w \<subseteq>\<^sub>m role (snd (bs_seal bs f w))) \<and>
     (\<forall>f p n w idx. role w f = Some idx \<longrightarrow> (\<exists>w'. role w \<subseteq>\<^sub>m role w' \<and>
        bs_read bs f p n w = (Inr (file_read p n (block_bytes content bsize idx)), w')))"

definition blocks_inv :: "('w \<Rightarrow> nat \<Rightarrow> nat option) \<Rightarrow> byte list \<Rightarrow> CachedHandle \<times> 'w \<Rightarrow> bool" where
  "blocks_inv role content hw \<longleftrightarrow>
     ch_remoteSize (fst hw) = length content \<and> 0 < ch_blockSize (fst hw) \<and>
     length (ch_blocks (fst hw)) = length content div ch_blockSize (fst hw) + 1 \<and>
     (\<forall>idx f. idx < length (ch_blocks (fst hw)) \<longrightarrow> ch_blocks (fst hw) ! idx = Some f \<longrightarrow>
        role (snd hw) f = Some idx)"

text \<open>What stays fixed while blocks are opened and read.\<close>

definition same_file :: "CachedHandle \<Rightarrow> CachedHandle \<Rightarrow> bool" where
  "same_file h h' \<longleftrightarrow> fh_bucket h' = fh_bucket h \<and> fh_key h' = fh_key h \<and>
     ch_blockSize h' = ch_blockSize h \<and> ch_remoteSize h' = ch_remoteSize h"

lemma map_leD: "m \<subseteq>\<^sub>m m' \<Longrightarrow> m x = Some y \<Longrightarrow> m' x = Some y"
  by (metis domI map_le_def)

lemma blocks_inv_mono:
  assumes "blocks_inv role content (h, w)" "role w \<subseteq>\<^sub>m role w'" "same_file h h'" "ch_blocks h' = ch_blocks h"
  shows "blocks_inv role content (h', w')"
  using assms(1,3,4) map_leD [OF assms(2)] by (auto simp: blocks_inv_def same_file_def)

lemma nth_list_update_all: "xs[i := v] ! j = (if i = j \<and> j < length xs then v else xs ! j)"
  by (cases "i = j"; cases "j < length xs") (simp_all add: list_update_beyond)

lemma blocks_inv_update:
  assumes "blocks_inv role content (h, w)" "role w \<subseteq>\<^sub>m role w'" "role w' f = Some idx" "same_file h h'"
    and "ch_blocks h' = (ch_blocks h)[idx := Some f]"
  shows "blocks_inv role content (h', w')"
  using assms(1,3-5) map_leD [OF assms(2)]
  by (auto simp: blocks_inv_def same_file_def nth_list_update_all split: if_splits)

lemma openBlock_correct:
  assumes "serves_blocks bs role content (ch_blockSize h) (fh_bucket h) (fh_key h)"
    and "blocks_inv role content (h, w)" "idx < length (ch_blocks h)"
    and "ch_blockSize h * idx < 2 ^ 64"
  shows "\<exists>f h' w'. openBlock bs idx (h, w) = (Returns (Inr f), h', w') \<and> role w' f = Some idx \<and>
    blocks_inv role content (h', w') \<and> same_file h h'"
proof (cases "ch_blocks h ! idx")
  case (Some f)
  with assms(2,3) show ?thesis by (auto simp: openBlock_def blocks_inv_def same_file_def)
next
  case None
  let ?b = "fh_bucket h" and ?k = "cacheKey (fh_key h) idx"
  obtain r w1 where o1: "bs_open bs ?b ?k w = (r, w1)" "role w \<subseteq>\<^sub>m role w1"
    "\<And>f. r = Inr f \<Longrightarrow> role w1 f = Some idx"
    using assms(1) unfolding serves_blocks_def by (metis prod.collapse)
  show ?thesis
  proof (cases r)
    case (Inr f)
    with None o1 blocks_inv_update [OF assms(2) o1(2), of f idx "h\<lparr>ch_blocks := (ch_blocks h)[idx := Some f]\<rparr>"]
    show ?thesis by (auto simp: openBlock_def same_file_def)
  next
    case (Inl s)
    obtain f w2 n w3 where o2: "bs_create bs ?b ?k w1 = (Inr f, w2)" "role w1 \<subseteq>\<^sub>m role w2"
      "bs_downloadRange bs f (ch_blockSize h * idx) (ch_blockSize h) 0 w2 = (Inr n, w3)"
      "role w2 \<subseteq>\<^sub>m role w3" "role w3 f = Some idx"
      using assms(1) unfolding serves_blocks_def by metis
    obtain w4 w5 where o3: "bs_openHandle bs f w3 = (Inr f, w4)" "role w3 \<subseteq>\<^sub>m role w4"
      "bs_openHandle bs f w4 = (Inr f, w5)" "role w4 \<subseteq>\<^sub>m role w5"
      using assms(1) unfolding serves_blocks_def by metis
    obtain st w6 where o4: "bs_seal bs f w5 = (st, w6)" "role w5 \<subseteq>\<^sub>m role w6"
      using assms(1) unfolding serves_blocks_def by (metis prod.collapse)
    have le: "role w \<subseteq>\<^sub>m role w6" "role w3 \<subseteq>\<^sub>m role w6"
      using o1(2) o2(2,4) o3(2,4) o4(2) map_le_trans by metis+
    let ?h = "h\<lparr>ch_cacheSize := ch_cacheSize h + of_nat n, ch_numCachedBlocks := ch_numCachedBlocks h + 1,
      ch_blocks := (ch_blocks h)[idx := Some f]\<rparr>"
    have "openBlock bs idx (h, w) = (Returns (Inr f), ?h, w6)"
      using None Inl o1(1) o2 o3 o4 assms(4) by (simp add: openBlock_def Let_def)
    moreover have "role w6 f = Some idx" using le(2) o2(5) by (rule map_leD)
    ultimately show ?thesis
      using blocks_inv_update [OF assms(2) le(1), of f idx ?h] by (auto simp: same_file_def)
  qed
qed

lemma readBlock_correct:
  assumes "serves_blocks bs role content (ch_blockSize h) (fh_bucket h) (fh_key h)"
    and "blocks_inv role content (h, w)" "idx < length (ch_blocks h)" "ch_blockSize h * idx < 2 ^ 64"
    and "position + length bytes < 2 ^ 64" "length bytes \<le> len" "len < 2 ^ 64"
  shows "\<exists>h' w'. readBlock r bs idx position len bytes (h, w) =
      (Returns (Inr (bytes @ file_read ((position + length bytes) mod ch_blockSize h)
        (min (len - length bytes) (ch_blockSize h)) (block_bytes content (ch_blockSize h) idx))), h', w') \<and>
    blocks_inv role content (h', w') \<and> same_file h h'"
proof -
  obtain f h1 w1 where ob: "openBlock bs idx (h, w) = (Returns (Inr f), h1, w1)" "role w1 f = Some idx"
    "blocks_inv role content (h1, w1)" "same_file h h1"
    using openBlock_correct [OF assms(1-4)] by blast
  let ?p = "(position + length bytes) mod ch_blockSize h" and ?n = "min (len - length bytes) (ch_blockSize h)"
  let ?c = "file_read ?p ?n (block_bytes content (ch_blockSize h) idx)"
  obtain w2 where rd: "role w1 \<subseteq>\<^sub>m role w2" "bs_read bs f ?p ?n w1 = (Inr ?c, w2)"
    using assms(1) ob(2) unfolding serves_blocks_def by metis
  let ?h = "h1\<lparr>ch_readStatistics := ch_readStatistics h1 + of_nat (length ?c)\<rparr>"
  have "ch_blockSize h1 = ch_blockSize h" using ob(4) by (simp add: same_file_def)
  then have "readBlock r bs idx position len bytes (h, w) = (Returns (Inr (bytes @ ?c)), ?h, w2)"
    using ob(1) rd(2) assms(5-7) by (subst readBlock.simps) (simp add: Let_def)
  moreover have "blocks_inv role content (?h, w2)"
    by (rule blocks_inv_mono [OF ob(3) rd(1)]) (simp_all add: same_file_def)
  ultimately show ?thesis using ob(4) by (auto simp: same_file_def)
qed

text \<open>A read inside a block is a read of the file.\<close>

lemma read_in_block:
  assumes "0 < b" "p div b = idx"
  shows "file_read (p mod b) n (block_bytes c b idx) = file_read p (min n (b - p mod b)) c"
proof -
  have p: "p = b * idx + p mod b" using assms(2) by (metis mult_div_mod_eq)
  have "file_read (p mod b) n (block_bytes c b idx) =
      take n (take (b - p mod b) (drop (p mod b) (drop (b * idx) c)))"
    by (simp add: file_read_def block_bytes_def drop_take)
  also have "\<dots> = take (min n (b - p mod b)) (drop p c)"
    using p by (metis add.commute drop_drop take_take)
  finally show ?thesis by (simp add: file_read_def)
qed

lemma read_step:
  assumes "0 < b" "p + len \<le> length c" "k \<le> len" "k < len \<longrightarrow> (p + k) div b = idx"
  defines "m \<equiv> min (len - k) (b - (p + k) mod b)"
  shows "file_read p k c @ file_read ((p + k) mod b) (min (len - k) b) (block_bytes c b idx) =
      file_read p (k + m) c"
    and "k + m \<le> len" "k + m < len \<longrightarrow> (p + (k + m)) div b = Suc idx"
proof -
  show "k + m \<le> len" using assms(3) by (simp add: m_def)
  have m: "min (min (len - k) b) (b - (p + k) mod b) = m" by (auto simp: m_def)
  show "file_read p k c @ file_read ((p + k) mod b) (min (len - k) b) (block_bytes c b idx) =
      file_read p (k + m) c"
  proof (cases "k < len")
    case True
    with assms(1,4) show ?thesis by (simp add: read_in_block m file_read_split [of k "k + m"])
  next
    case False
    with assms(3) show ?thesis by (simp add: m_def file_read_def)
  qed
  show "k + m < len \<longrightarrow> (p + (k + m)) div b = Suc idx"
  proof
    assume less: "k + m < len"
    then have eq: "m = b - (p + k) mod b" "k < len" by (auto simp: m_def)
    have "(p + k) mod b < b" using assms(1) by simp
    then have "p + (k + m) = b * Suc idx"
      using eq assms(4) mult_div_mod_eq [of b "p + k"] by simp
    then show "(p + (k + m)) div b = Suc idx" using assms(1) by simp
  qed
qed

lemma readBlocks_correct:
  assumes "serves_blocks bs role content (ch_blockSize h) (fh_bucket h) (fh_key h)"
    and "blocks_inv role content (h, w)" "p + len \<le> length content" "length content < 2 ^ 64"
    and "bytes = file_read p k content" "k \<le> len" "k < len \<longrightarrow> (p + k) div ch_blockSize h = i"
    and "i \<le> e" "e = Suc ((p + len) div ch_blockSize h)"
  shows "\<exists>h' w'. readBlocks [i..<e] bs p len bytes (h, w) =
      (Returns (Inr (len, file_read p len content)), h', w') \<and>
    blocks_inv role content (h', w') \<and> same_file h h'"
  using assms
proof (induction "e - i" arbitrary: i k bytes h w)
  case 0
  then have i: "i = e" by simp
  have "k = len"
  proof (rule ccontr)
    assume "k \<noteq> len"
    then have "k < len" using "0.prems"(6) by simp
    with "0.prems"(7,9) i have "(p + k) div ch_blockSize h = Suc ((p + len) div ch_blockSize h)" by simp
    moreover have "(p + k) div ch_blockSize h \<le> (p + len) div ch_blockSize h"
      using \<open>k < len\<close> by (intro div_le_mono) simp
    ultimately show False by simp
  qed
  with "0.prems"(2,3,5) i show ?case by (auto simp: file_read_def same_file_def)
next
  case (Suc n)
  let ?b = "ch_blockSize h"
  have b: "0 < ?b" and bl: "length (ch_blocks h) = length content div ?b + 1"
    using Suc.prems(2) by (auto simp: blocks_inv_def)
  have ie: "i < e" using Suc.hyps(2) by simp
  then have "i \<le> (p + len) div ?b" using Suc.prems(9) by simp
  also have "\<dots> \<le> length content div ?b" using Suc.prems(3) by (rule div_le_mono)
  finally have ile: "i \<le> length content div ?b" .
  then have "?b * i \<le> length content" by (metis b less_eq_div_iff_mult_less_eq mult.commute)
  then have b64: "?b * i < 2 ^ 64" using Suc.prems(4) by simp
  have lb: "length bytes = k" using Suc.prems(3,5,6) by (simp add: file_read_def)
  define m where "m = min (len - k) (?b - (p + k) mod ?b)"
  note st = read_step [OF b Suc.prems(3,6,7), folded m_def]
  obtain h1 w1 where rb: "readBlock MAX_RETRIES bs i p len bytes (h, w) =
      (Returns (Inr (file_read p (k + m) content)), h1, w1)"
    "blocks_inv role content (h1, w1)" "same_file h h1"
    using readBlock_correct [OF Suc.prems(1,2) _ b64, of p bytes len MAX_RETRIES] ile bl lb st(1)
      Suc.prems(3-6) by auto
  have sf: "ch_blockSize h1 = ?b" "fh_bucket h1 = fh_bucket h" "fh_key h1 = fh_key h"
    using rb(3) by (simp_all add: same_file_def)
  have "\<exists>h' w'. readBlocks [Suc i..<e] bs p len (file_read p (k + m) content) (h1, w1) =
      (Returns (Inr (len, file_read p len content)), h', w') \<and>
    blocks_inv role content (h', w') \<and> same_file h1 h'"
    using Suc.hyps(2) ie Suc.prems(1,3,4,9) rb(2) st(2,3) sf by (intro Suc.hyps(1)) auto
  then show ?case using rb(1,3) ie by (auto simp: upt_conv_Cons same_file_def)
qed

lemma CachedHandle_readBytes_correct:
  assumes "serves_blocks bs role content (ch_blockSize h) (fh_bucket h) (fh_key h)"
    and "blocks_inv role content (h, w)" "length content < 2 ^ 64"
  shows "\<exists>h' w'. CachedHandle_readBytes bs position length' (h, w) =
      (Returns (Inr (length (file_read position length' content), file_read position length' content)), h', w') \<and>
    blocks_inv role content (h', w') \<and> same_file h h'"
proof (cases "position \<ge> length content \<or> length' = 0")
  case True
  with assms(2) show ?thesis
    by (auto simp: CachedHandle_readBytes_def blocks_inv_def file_read_def same_file_def)
next
  case False
  let ?len = "min length' (length content - position)"
  have rs: "ch_remoteSize h = length content" using assms(2) by (simp add: blocks_inv_def)
  have fr: "file_read position ?len content = file_read position length' content"
    using take_take [of length' "length content - position" "drop position content"]
    by (simp add: file_read_def min.commute)
  have "\<exists>h' w'. readBlocks [position div ch_blockSize h..<Suc ((position + ?len) div ch_blockSize h)] bs
      position ?len [] (h, w) = (Returns (Inr (?len, file_read position ?len content)), h', w') \<and>
    blocks_inv role content (h', w') \<and> same_file h h'"
    using False div_le_mono [of position "position + ?len" "ch_blockSize h"]
    by (intro readBlocks_correct [OF assms(1,2) _ assms(3), of _ _ _ 0]) (auto simp: file_read_def)
  moreover have "?len = length (file_read position length' content)" by (simp add: file_read_def min.commute)
  moreover have "position + ?len < 2 ^ 64" using False assms(3) by linarith
  ultimately show ?thesis
    using False rs fr by (simp add: CachedHandle_readBytes_def Let_def del: upt_Suc)
qed

section \<open>Histories of reads\<close>

fun cached_reads ::
  "'w block_service \<Rightarrow> (size_t \<times> size_t) list \<Rightarrow> CachedHandle \<times> 'w
     \<Rightarrow> (size_t \<times> byte list) StatusOr outcome list \<times> CachedHandle \<times> 'w" where
  "cached_reads bs [] hw = ([], hw)"
| "cached_reads bs ((position, len) # rest) hw =
     (case CachedHandle_readBytes bs position len hw of
        (r, hw1) \<Rightarrow> (case cached_reads bs rest hw1 of (rs, hw2) \<Rightarrow> (r # rs, hw2)))"

definition exact_read :: "byte list \<Rightarrow> size_t \<times> size_t \<Rightarrow> (size_t \<times> byte list) StatusOr outcome" where
  "exact_read content r = (case r of (position, len) \<Rightarrow>
     Returns (Inr (length (file_read position len content), file_read position len content)))"

lemma CachedHandle_new_inv:
  assumes "CachedHandle_new bucket key md bsize (Inr (length content)) = Returns h" "0 < bsize"
  shows "blocks_inv role content (h, w)" "fh_bucket h = bucket" "fh_key h = key" "ch_blockSize h = bsize"
  using assms
  by (auto simp: CachedHandle_new_def blocks_inv_def FileHandle_new_def FileHandle.defs simp del: replicate_Suc)

lemma cached_reads_correct:
  assumes "serves_blocks bs role content (ch_blockSize h) (fh_bucket h) (fh_key h)"
    and "blocks_inv role content (h, w)" "length content < 2 ^ 64"
  shows "fst (cached_reads bs rs (h, w)) = map (exact_read content) rs"
  using assms(1,2)
proof (induction rs arbitrary: h w)
  case (Cons r rs)
  obtain p n where r: "r = (p, n)" by fastforce
  obtain h1 w1 where
    rb: "CachedHandle_readBytes bs p n (h, w) = (exact_read content r, h1, w1)"
      "blocks_inv role content (h1, w1)" "same_file h h1"
    using CachedHandle_readBytes_correct [OF Cons.prems assms(3), of p n] by (auto simp: exact_read_def r)
  have "fst (cached_reads bs rs (h1, w1)) = map (exact_read content) rs"
    using Cons.prems(1) rb(2,3) by (intro Cons.IH) (simp_all add: same_file_def)
  with rb(1) show ?case by (cases "cached_reads bs rs (h1, w1)") (simp add: r)
qed simp

text \<open>
  Over a block service that stores what it is given, every read of every history of reads through
  a fresh cached handle returns exactly the requested range of the remote file, clipped at its end,
  for every block size: the blocks join without gap or overlap, and blocks cached by earlier reads
  give the same bytes as new ones.
\<close>

theorem CachedHandle_reads_exact:
  assumes "serves_blocks bs role content bsize bucket key" "0 < bsize" "length content < 2 ^ 64"
    and "CachedHandle_new bucket key md bsize (Inr (length content)) = Returns h"
  shows "fst (cached_reads bs rs (h, w)) = map (exact_read content) rs"
  using CachedHandle_new_inv [OF assms(4,2)] assms(1,3) by (intro cached_reads_correct) simp_all

text \<open>
  A block service in memory: files are numbered in the order of creation and stand for the block that
  was downloaded into them.
\<close>

definition block_role :: "nat option list \<Rightarrow> nat \<Rightarrow> nat option" where
  "block_role w f = (if f < length w then w ! f else None)"

definition memory_blocks :: "byte list \<Rightarrow> size_t \<Rightarrow> (nat option list) block_service" where
  "memory_blocks content bsize =
     \<lparr>bs_open = \<lambda>b k w. (Inl (NotFoundError k), w),
      bs_create = \<lambda>b k w. (Inr (length w), w @ [None]),
      bs_downloadRange = \<lambda>f src len dst w. (Inr len, w[f := Some (src div len)]),
      bs_openHandle = \<lambda>f w. (Inr f, w),
      bs_seal = \<lambda>f w. (OkStatus, w),
      bs_read = \<lambda>f p n w. (case block_role w f of
          None \<Rightarrow> (Inl (NotFoundError ''block''), w)
        | Some idx \<Rightarrow> (Inr (file_read p n (block_bytes content bsize idx)), w)),
      bs_delete = \<lambda>b k w. w\<rparr>"

lemma memory_blocks_serves:
  assumes "0 < bsize"
  shows "serves_blocks (memory_blocks content bsize) block_role content bsize bucket key"
  using assms
  by (auto simp: serves_blocks_def memory_blocks_def block_role_def map_le_def nth_append split: if_splits)

theorem CachedHandle_reads_exact_witness:
  "fst (cached_reads (memory_blocks [1, 2, 3, 4, 5, 6, 7] 3) [(1, 5), (3, 9), (0, 3)]
      (FileHandle.extend (FileHandle_new ''b'' ''k'' None)
          \<lparr>ch_remoteSize = 7, ch_blockSize = 3, ch_blocks = [None, None, None], ch_readStatistics = 0,
           ch_cacheSize = 0, ch_numCachedBlocks = 0, ch_numPurgedBlocks = 0\<rparr>, [])) =
   [Returns (Inr (5, [2, 3, 4, 5, 6])), Returns (Inr (4, [4, 5, 6, 7])), Returns (Inr (3, [1, 2, 3]))]"
proof -
  have seven: "length ([1, 2, 3, 4, 5, 6, 7] :: byte list) = 7" by simp
  have replicate3: "replicate 3 x = [x, x, x]" for x :: "nat option" by (simp add: numeral_3_eq_3)
  have "CachedHandle_new ''b'' ''k'' None 3 (Inr (length ([1, 2, 3, 4, 5, 6, 7] :: byte list))) =
      Returns (FileHandle.extend (FileHandle_new ''b'' ''k'' None)
          \<lparr>ch_remoteSize = 7, ch_blockSize = 3, ch_blocks = [None, None, None], ch_readStatistics = 0,
           ch_cacheSize = 0, ch_numCachedBlocks = 0, ch_numPurgedBlocks = 0\<rparr>)"
    unfolding seven using replicate3 by (simp add: CachedHandle_new_def)
  from CachedHandle_reads_exact [OF memory_blocks_serves _ _ this,
      where rs = "[(1, 5), (3, 9), (0, 3)]" and w = "[]"]
  have "fst (cached_reads (memory_blocks [1, 2, 3, 4, 5, 6, 7] 3) [(1, 5), (3, 9), (0, 3)]
      (FileHandle.extend (FileHandle_new ''b'' ''k'' None)
          \<lparr>ch_remoteSize = 7, ch_blockSize = 3, ch_blocks = [None, None, None], ch_readStatistics = 0,
           ch_cacheSize = 0, ch_numCachedBlocks = 0, ch_numPurgedBlocks = 0\<rparr>, [])) =
    map (exact_read [1, 2, 3, 4, 5, 6, 7]) [(1, 5), (3, 9), (0, 3)]"
    by (simp del: cached_reads.simps list.map)
  also have "map (exact_read [1, 2, 3, 4, 5, 6, 7]) [(1, 5), (3, 9), (0, 3)] =
    [Returns (Inr (5, [2, 3, 4, 5, 6])), Returns (Inr (4, [4, 5, 6, 7])), Returns (Inr (3, [1, 2, 3]))]"
    by (simp add: exact_read_def file_read_def)
  finally show ?thesis .
qed

section \<open>Cache keys\<close>

lemma show_nat_no_underscore: "CHR ''_'' \<notin> set (show_nat n)"
  using show_nat_digits by (fastforce simp: is_digit_def)

text \<open>
  Cache objects of different blocks never share a key, across all files of a bucket: the block
  number behind the last underscore is recovered from the key, and with it the name of the file.
\<close>

theorem cacheKey_inject: "cacheKey key idx = cacheKey key' idx' \<longleftrightarrow> key = key' \<and> idx = idx'"
proof
  assume "cacheKey key idx = cacheKey key' idx'"
  then have "rev (cacheKey key idx) = rev (cacheKey key' idx')" by simp
  then have eq: "rev (show_nat idx) @ CHR ''_'' # rev key = rev (show_nat idx') @ CHR ''_'' # rev key'"
    by (simp add: cacheKey_def)
  have "takeWhile (\<lambda>c. c \<noteq> CHR ''_'') (rev (show_nat n) @ CHR ''_'' # rev k) = rev (show_nat n)"
    "dropWhile (\<lambda>c. c \<noteq> CHR ''_'') (rev (show_nat n) @ CHR ''_'' # rev k) = CHR ''_'' # rev k" for n k
    using show_nat_no_underscore [of n] by (auto intro!: takeWhile_sep dropWhile_sep)
  with eq show "key = key' \<and> idx = idx'" by (metis list.inject rev_is_rev_conv show_nat_inject)
qed simp

end
