(* ===== verification/Relocatable_Handle.thy ===== *)
theory Relocatable_Handle
  imports File_Handle
begin

text \<open>
  \<^verbatim>\<open>src/libgeds/GEDSRelocatableFileHandle.cpp\<close>: the handle that wraps another one, exchanges it when the
  object is relocated, and reopens the object when a read fails. The wrapped handle is a value of type
  \<open>'h\<close> (the address of the C++ object), its virtual methods are a record of functions over the state \<open>'w\<close> of
  the process. \<open>readBytes\<close> takes two locks one after the other, so it is two atomic steps with
  arbitrary steps of other threads in between. The main result is that any number of readers that failed
  on the same handle reopen the object once.
\<close>

record ('h, 'w) handle_methods =
  v_size :: "'h \<Rightarrow> 'w \<Rightarrow> size_t StatusOr"
  v_localStorageSize :: "'h \<Rightarrow> 'w \<Rightarrow> size_t"
  v_localMemorySize :: "'h \<Rightarrow> 'w \<Rightarrow> size_t"
  v_isWriteable :: "'h \<Rightarrow> 'w \<Rightarrow> bool"
  v_metadata :: "'h \<Rightarrow> 'w \<Rightarrow> string option"
  v_setMetadata :: "'h \<Rightarrow> string option \<Rightarrow> bool \<Rightarrow> 'w \<Rightarrow> Status \<times> 'w"
  v_readBytes :: "'h \<Rightarrow> size_t \<Rightarrow> size_t \<Rightarrow> 'w \<Rightarrow> (size_t \<times> byte list) StatusOr \<times> 'w"
  v_writeBytes :: "'h \<Rightarrow> byte list \<Rightarrow> size_t \<Rightarrow> 'w \<Rightarrow> Status \<times> 'w"
  v_write :: "'h \<Rightarrow> byte list \<Rightarrow> size_t \<Rightarrow> size_t option \<Rightarrow> 'w \<Rightarrow> Status \<times> 'w"
  v_truncate :: "'h \<Rightarrow> size_t \<Rightarrow> 'w \<Rightarrow> Status \<times> 'w"
  v_seal :: "'h \<Rightarrow> 'w \<Rightarrow> Status \<times> 'w"
  v_notifyUnused :: "'h \<Rightarrow> 'w \<Rightarrow> 'w"
  v_rawFd :: "'h \<Rightarrow> 'w \<Rightarrow> int StatusOr"
  v_relocate :: "'h \<Rightarrow> 'w \<Rightarrow> 'h StatusOr \<times> 'w"

text \<open>The operation of the service that reopens an object, with the flag that bypasses the caches.\<close>

type_synonym ('h, 'w) reopen_service = "string \<Rightarrow> string \<Rightarrow> bool \<Rightarrow> 'w \<Rightarrow> 'h StatusOr \<times> 'w"

record 'h Relocatable = FileHandle +
  rl_fileHandle :: 'h

definition Relocatable_factory :: "string \<Rightarrow> string \<Rightarrow> 'h \<Rightarrow> 'h Relocatable" where
  "Relocatable_factory bucket key wrapped =
     FileHandle.extend (FileHandle_new bucket key None) \<lparr>rl_fileHandle = wrapped\<rparr>"

definition Relocatable_isRelocatable :: "'h Relocatable \<Rightarrow> bool" where
  "Relocatable_isRelocatable r = True"

definition Relocatable_size where
  "Relocatable_size v r w = v_size v (rl_fileHandle r) w"

definition Relocatable_localStorageSize where
  "Relocatable_localStorageSize v r w = v_localStorageSize v (rl_fileHandle r) w"

definition Relocatable_localMemorySize where
  "Relocatable_localMemorySize v r w = v_localMemorySize v (rl_fileHandle r) w"

definition Relocatable_isWriteable where
  "Relocatable_isWriteable v r w = v_isWriteable v (rl_fileHandle r) w"

definition Relocatable_metadata where
  "Relocatable_metadata v r w = v_metadata v (rl_fileHandle r) w"

definition Relocatable_setMetadata where
  "Relocatable_setMetadata v r metadata seal w = v_setMetadata v (rl_fileHandle r) metadata seal w"

definition Relocatable_writeBytes where
  "Relocatable_writeBytes v r bytes position w = v_writeBytes v (rl_fileHandle r) bytes position w"

definition Relocatable_write where
  "Relocatable_write v r stream position lengthOptional w =
     v_write v (rl_fileHandle r) stream position lengthOptional w"

definition Relocatable_truncate where
  "Relocatable_truncate v r targetSize w = v_truncate v (rl_fileHandle r) targetSize w"

definition Relocatable_seal where
  "Relocatable_seal v r w = v_seal v (rl_fileHandle r) w"

definition Relocatable_notifyUnused where
  "Relocatable_notifyUnused v r w = v_notifyUnused v (rl_fileHandle r) w"

definition Relocatable_rawFd where
  "Relocatable_rawFd v r w = v_rawFd v (rl_fileHandle r) w"

text \<open>The two critical sections of \<open>readBytes\<close>: under the shared lock, and under the exclusive locks.\<close>

definition readBytes_shared where
  "readBytes_shared v position length' rw =
     (case rw of (r, w) \<Rightarrow>
      (rl_fileHandle r, v_readBytes v (rl_fileHandle r) position length' w))"

definition readBytes_exclusive ::
  "('h, 'w) handle_methods \<Rightarrow> ('h, 'w) reopen_service \<Rightarrow> 'h \<Rightarrow> size_t \<Rightarrow> size_t \<Rightarrow> 'h Relocatable \<times> 'w
     \<Rightarrow> (size_t \<times> byte list) StatusOr \<times> 'h Relocatable \<times> 'w" where
  "readBytes_exclusive v reopen oldFh position length' rw =
     (case rw of (r, w) \<Rightarrow>
      if rl_fileHandle r \<noteq> oldFh
      then (case v_readBytes v (rl_fileHandle r) position length' w of (res, w1) \<Rightarrow> (res, r, w1))
      else
        case reopen (fh_bucket r) (fh_key r) True w of
          (Inl s, w1) \<Rightarrow> (Inl s, r, w1)
        | (Inr newFh, w1) \<Rightarrow>
            (case v_readBytes v newFh position length' w1 of
               (res, w2) \<Rightarrow> (res, r\<lparr>rl_fileHandle := newFh\<rparr>, w2)))"

text \<open>
  The whole method; \<open>others\<close> are the steps of other threads between the two critical sections.
\<close>

definition Relocatable_readBytes ::
  "('h, 'w) handle_methods \<Rightarrow> ('h, 'w) reopen_service \<Rightarrow> ('h Relocatable \<times> 'w \<Rightarrow> 'h Relocatable \<times> 'w)
     \<Rightarrow> size_t \<Rightarrow> size_t \<Rightarrow> 'h Relocatable \<times> 'w \<Rightarrow> (size_t \<times> byte list) StatusOr \<times> 'h Relocatable \<times> 'w" where
  "Relocatable_readBytes v reopen others position length' rw =
     (case readBytes_shared v position length' rw of
        (oldFh, Inr n, w1) \<Rightarrow> (Inr n, fst rw, w1)
      | (oldFh, Inl _, w1) \<Rightarrow>
          readBytes_exclusive v reopen oldFh position length' (others (fst rw, w1)))"

text \<open>A failing relocation keeps the handle; the caller gets the wrapper either way.\<close>

definition Relocatable_relocate ::
  "('h, 'w) handle_methods \<Rightarrow> 'h Relocatable \<times> 'w \<Rightarrow> 'h Relocatable StatusOr \<times> 'h Relocatable \<times> 'w" where
  "Relocatable_relocate v rw =
     (case rw of (r, w) \<Rightarrow>
      case v_relocate v (rl_fileHandle r) w of
        (Inl _, w1) \<Rightarrow> (Inr r, r, w1)
      | (Inr newFh, w1) \<Rightarrow> (Inr (r\<lparr>rl_fileHandle := newFh\<rparr>), r\<lparr>rl_fileHandle := newFh\<rparr>, w1))"

section \<open>Readers that failed together reopen once\<close>

fun exclusive_reads where
  "exclusive_reads v reopen oldFh [] rw = ([], rw)"
| "exclusive_reads v reopen oldFh ((position, len) # rest) rw =
     (case readBytes_exclusive v reopen oldFh position len rw of
        (res, rw1) \<Rightarrow> (case exclusive_reads v reopen oldFh rest rw1 of (rs, rw2) \<Rightarrow> (res # rs, rw2)))"

fun plain_reads where
  "plain_reads v fh [] w = ([], w)"
| "plain_reads v fh ((position, len) # rest) w =
     (case v_readBytes v fh position len w of
        (res, w1) \<Rightarrow> (case plain_reads v fh rest w1 of (rs, w2) \<Rightarrow> (res # rs, w2)))"

lemma exclusive_reads_reopened:
  assumes "rl_fileHandle r \<noteq> oldFh"
  shows "exclusive_reads v reopen oldFh reqs (r, w) =
    (case plain_reads v (rl_fileHandle r) reqs w of (rs, w') \<Rightarrow> (rs, r, w'))"
  using assms
  by (induction reqs arbitrary: w) (auto simp: readBytes_exclusive_def split: prod.splits)

text \<open>
  C16. When readers of the same wrapper have failed on the handle \<open>oldFh\<close>, their second critical
  sections, in whatever order they run, consult the metadata service once: the first one installs the
  new handle, every later one sees that the handle has changed and reads from it. All results are those of
  reads on the new handle after the single reopen, and the wrapper keeps that handle.
\<close>

theorem Relocatable_reopens_once:
  assumes "rl_fileHandle r = oldFh" "reopen (fh_bucket r) (fh_key r) True w = (Inr newFh, w1)"
    and "newFh \<noteq> oldFh" "reqs \<noteq> []"
  shows "exclusive_reads v reopen oldFh reqs (r, w) =
    (case plain_reads v newFh reqs w1 of (rs, w') \<Rightarrow> (rs, r\<lparr>rl_fileHandle := newFh\<rparr>, w'))"
proof -
  obtain p n rest where reqs: "reqs = (p, n) # rest" using assms(4) by (metis list.exhaust surj_pair)
  show ?thesis
    using assms(1-3) exclusive_reads_reopened [of "r\<lparr>rl_fileHandle := newFh\<rparr>" oldFh v reopen rest]
    by (auto simp: reqs readBytes_exclusive_def split: prod.splits)
qed

text \<open>
  Two objects behind numbers: reading from handle 0 fails, handle 1 serves five bytes; the state counts
  the calls of \<open>reopenFileHandle\<close>.
\<close>

definition counting_methods :: "(nat, nat) handle_methods" where
  "counting_methods =
     \<lparr>v_size = \<lambda>h w. Inr 5, v_localStorageSize = \<lambda>h w. 0, v_localMemorySize = \<lambda>h w. 0,
      v_isWriteable = \<lambda>h w. False, v_metadata = \<lambda>h w. None,
      v_setMetadata = \<lambda>h m s w. (OkStatus, w),
      v_readBytes = \<lambda>h p n w. (if h = 0 then Inl (UnknownError ''gone'')
         else Inr (length (take n (drop p ([1, 2, 3, 4, 5] :: byte list))), take n (drop p [1, 2, 3, 4, 5])), w),
      v_writeBytes = \<lambda>h b p w. (OkStatus, w), v_write = \<lambda>h b p l w. (OkStatus, w),
      v_truncate = \<lambda>h n w. (OkStatus, w), v_seal = \<lambda>h w. (OkStatus, w), v_notifyUnused = \<lambda>h w. w,
      v_rawFd = \<lambda>h w. Inl (UnknownError ''no descriptor''), v_relocate = \<lambda>h w. (Inr h, w)\<rparr>"

theorem Relocatable_reopens_once_witness:
  "exclusive_reads counting_methods (\<lambda>b k invalidate w. (Inr 1, Suc w)) 0 [(0, 2), (1, 9), (4, 1)]
      (Relocatable_factory ''b'' ''k'' 0, 0) =
   ([Inr (2, [1, 2]), Inr (4, [2, 3, 4, 5]), Inr (1, [5])],
    (Relocatable_factory ''b'' ''k'' 0)\<lparr>rl_fileHandle := 1\<rparr>, 1)"
  using Relocatable_reopens_once [of "Relocatable_factory ''b'' ''k'' (0 :: nat)" 0
      "\<lambda>b k invalidate w. (Inr 1, Suc w)" 0 1 1 "[(0, 2), (1, 9), (4, 1)]" counting_methods]
  by (simp add: Relocatable_factory_def FileHandle.defs counting_methods_def)

text \<open>
  A read through the wrapper never reports the error of a handle that has been replaced: it returns the
  data of the first attempt, or what a read on the handle then installed gives, or the error of
  reopening. In each case the wrapper stays with a handle that served or was returned by the service.
\<close>

lemma Relocatable_readBytes_result:
  assumes "Relocatable_readBytes v reopen others position length' (r, w) = (res, r', w')"
  obtains (direct) "v_readBytes v (rl_fileHandle r) position length' w = (res, w')" "r' = r" "\<exists>n. res = Inr n"
  | (again) w1 where "v_readBytes v (rl_fileHandle r') position length' w1 = (res, w')"
  | (lost) r1 w1 s where "reopen (fh_bucket r1) (fh_key r1) True w1 = (Inl s, w')" "res = Inl s" "r' = r1"
  using assms
  by (auto simp: Relocatable_readBytes_def readBytes_shared_def readBytes_exclusive_def
      split: prod.splits sum.splits if_splits)
end
