(* ===== verification/GEDS_Service.thy ===== *)
theory GEDS_Service
  imports Acceptors Object_Names GEDS_Config Object_Stores Metadata_Client Cached_Handle Relocatable_Handle
begin

text \<open>
  \<^verbatim>\<open>src/libgeds/GEDS.cpp\<close>, the service object behind the public API: creation, opening, sealing, listing,
  renaming, deletion and relocation of objects, and the life cycle of the service. The service
  composes the metadata client, the object stores and the table of file handles. File handles are numbers;
  their virtual methods and factories are a record over the state of the service, because a handle
  calls the service back.
\<close>

section \<open>State\<close>

datatype ServiceState = Stopped | Running | ServiceUnknown

definition ServiceState_to_string :: "ServiceState \<Rightarrow> string" where
  "ServiceState_to_string s =
     (case s of Stopped \<Rightarrow> ''Stopped'' | Running \<Rightarrow> ''Running'' | ServiceUnknown \<Rightarrow> ''Unknown'')"

text \<open>
  The members of \<open>GEDS\<close>. The last three are the environment: the metadata server \<open>'s\<close>, S3
  \<open>'x\<close> and the file handle objects with their files \<open>'h\<close>.
\<close>

record ('s, 'x, 'h) GEDS =
  g_config :: GEDSConfig
  g_state :: ServiceState
  g_metadataService :: MetadataService
  g_pathPrefix :: string
  g_fileNames :: file_names
  g_hostURI :: string
  g_hostname :: string
  g_fileHandles :: "(Path, nat) std_map"
  g_fileTransfers :: "(string, nat) std_map"
  g_knownBuckets :: "string list"
  g_objectStores :: ObjectStores
  g_filesOpened :: u64
  g_filesCreated :: u64
  g_storageRelocated :: u64
  g_storageCounters :: StorageCounter
  g_memoryCounters :: StorageCounter
  g_httpServer :: HttpServer
  g_server :: 's
  g_s3 :: "'x s3_state"
  g_heap :: 'h

record ('s, 'x, 'h) service =
  sv_stub :: "'s Stub"
  sv_client :: "Endpoint \<Rightarrow> 'x S3Client"
  sv_handle :: "(nat, ('s, 'x, 'h) GEDS) handle_methods"
  sv_bucket :: "nat \<Rightarrow> ('s, 'x, 'h) GEDS \<Rightarrow> string"
  sv_key :: "nat \<Rightarrow> ('s, 'x, 'h) GEDS \<Rightarrow> string"
  sv_isValid :: "nat \<Rightarrow> ('s, 'x, 'h) GEDS \<Rightarrow> bool"
  sv_isRelocatable :: "nat \<Rightarrow> ('s, 'x, 'h) GEDS \<Rightarrow> bool"
  sv_openCount :: "nat \<Rightarrow> ('s, 'x, 'h) GEDS \<Rightarrow> int"
  sv_lastReleased :: "nat \<Rightarrow> ('s, 'x, 'h) GEDS \<Rightarrow> nat"
  sv_open :: "nat \<Rightarrow> ('s, 'x, 'h) GEDS \<Rightarrow> nat StatusOr \<times> ('s, 'x, 'h) GEDS"
  sv_close :: "nat \<Rightarrow> ('s, 'x, 'h) GEDS \<Rightarrow> ('s, 'x, 'h) GEDS"
  sv_download :: "nat \<Rightarrow> nat \<Rightarrow> ('s, 'x, 'h) GEDS \<Rightarrow> (Status \<times> ('s, 'x, 'h) GEDS) option"
  sv_newLocal :: "string \<Rightarrow> string \<Rightarrow> string \<Rightarrow> ('s, 'x, 'h) GEDS \<Rightarrow> nat StatusOr \<times> ('s, 'x, 'h) GEDS"
  sv_newRemote :: "Object \<Rightarrow> ('s, 'x, 'h) GEDS \<Rightarrow> nat StatusOr \<times> ('s, 'x, 'h) GEDS"
  sv_newS3 :: "Object \<Rightarrow> ('s, 'x, 'h) GEDS \<Rightarrow> nat StatusOr \<times> ('s, 'x, 'h) GEDS"
  sv_newCached :: "Object \<Rightarrow> ('s, 'x, 'h) GEDS \<Rightarrow> nat StatusOr \<times> ('s, 'x, 'h) GEDS"
  sv_wrap :: "nat \<Rightarrow> ('s, 'x, 'h) GEDS \<Rightarrow> nat \<times> ('s, 'x, 'h) GEDS"
  sv_newTransfer :: "string \<Rightarrow> ('s, 'x, 'h) GEDS \<Rightarrow> nat \<times> ('s, 'x, 'h) GEDS"
  sv_connectTransfer :: "nat \<Rightarrow> ('s, 'x, 'h) GEDS \<Rightarrow> Status \<times> ('s, 'x, 'h) GEDS"

text \<open>\<open>uuid\<close> is the random identifier of the instance.\<close>

definition GEDS_new :: "GEDSConfig \<Rightarrow> string \<Rightarrow> string option \<Rightarrow> 's \<Rightarrow> 'x s3_state \<Rightarrow> 'h \<Rightarrow> ('s, 'x, 'h) GEDS outcome"
where
  "GEDS_new config uuid mkdirError server s3 heap =
     (case mkdirError of
        Some reason \<Rightarrow>
          Raises (''Unable to create prefix '' @ gc_localStoragePath config @ ''. Reason '' @ reason)
      | None \<Rightarrow> Returns
          \<lparr>g_config = config, g_state = Stopped,
           g_metadataService = MetadataService_new uuid (gc_metadataServiceAddress config),
           g_pathPrefix = gc_localStoragePath config, g_fileNames = no_names, g_hostURI = '''',
           g_hostname = (case gc_hostname config of None \<Rightarrow> '''' | Some h \<Rightarrow> h),
           g_fileHandles = [], g_fileTransfers = [], g_knownBuckets = [], g_objectStores = [],
           g_filesOpened = 0, g_filesCreated = 0, g_storageRelocated = 0,
           g_storageCounters = StorageCounter_new (gc_available_local_storage config),
           g_memoryCounters = StorageCounter_new (gc_available_local_memory config),
           g_httpServer = HttpServer_new (gc_portHttpServer config),
           g_server = server, g_s3 = s3, g_heap = heap\<rparr>)"

text \<open>A call of the metadata client from the service.\<close>

definition on_metadata ::
  "(MetadataService \<times> 's \<Rightarrow> 'a \<times> MetadataService \<times> 's) \<Rightarrow> ('s, 'x, 'h) GEDS \<Rightarrow> 'a \<times> ('s, 'x, 'h) GEDS" where
  "on_metadata call g =
     (case call (g_metadataService g, g_server g) of
        (r, c, s) \<Rightarrow> (r, g\<lparr>g_metadataService := c, g_server := s\<rparr>))"

text \<open>A call of an S3 endpoint from the service.\<close>

definition on_s3 ::
  "('x s3_state \<Rightarrow> 'a \<times> 'x s3_state) \<Rightarrow> ('s, 'x, 'h) GEDS \<Rightarrow> 'a \<times> ('s, 'x, 'h) GEDS" where
  "on_s3 call g = (case call (g_s3 g) of (r, st) \<Rightarrow> (r, g\<lparr>g_s3 := st\<rparr>))"

definition not_running :: "('s, 'x, 'h) GEDS \<Rightarrow> Status" where
  "not_running g = FailedPreconditionError (''The service is '' @ ServiceState_to_string (g_state g) @ ''.'')"

section \<open>Buckets\<close>

definition GEDS_lookupBucket where
  "GEDS_lookupBucket sv bucket g =
     (if ConcurrentSet_exists (g_knownBuckets g) bucket then (OkStatus, g)
      else case on_metadata (MetadataService_lookupBucket (sv_stub sv) bucket) g of
        (status, g1) \<Rightarrow>
          if \<not> status_ok status then (status, g1)
          else (OkStatus, g1\<lparr>g_knownBuckets := ConcurrentSet_insert bucket (g_knownBuckets g1)\<rparr>))"

definition GEDS_createBucket where
  "GEDS_createBucket sv bucket g =
     (let status = isValidBucketName bucket in
      if \<not> status_ok status then (status, g)
      else case GEDS_lookupBucket sv bucket g of (found, g1) \<Rightarrow>
        if status_ok found then (OkStatus, g1)
        else case on_metadata (MetadataService_createBucket (sv_stub sv) bucket) g1 of (status, g2) \<Rightarrow>
          if status_ok status \<or> status_code status = kAlreadyExists then (OkStatus, g2)
          else (status, g2))"

section \<open>Creating objects\<close>

definition GEDS_getLocalPath where
  "GEDS_getLocalPath bucket key g =
     (case getLocalPath (g_pathPrefix g) bucket key (g_fileNames g) of
        (path, fn) \<Rightarrow> (path, g\<lparr>g_fileNames := fn\<rparr>))"

text \<open>The factory of the local handle asks the service for the path of the file.\<close>

definition new_local_handle where
  "new_local_handle sv bucket key g =
     (case GEDS_getLocalPath bucket key g of (path, g1) \<Rightarrow> sv_newLocal sv bucket key path g1)"

definition GEDS_createAsFileHandle where
  "GEDS_createAsFileHandle sv bucket key overwrite g =
     (if g_state g \<noteq> Running then (Inl (not_running g), g)
      else let check = isValid_name bucket key in
      if \<not> status_ok check then (Inl check, g)
      else case GEDS_createBucket sv bucket g of (bucketStatus, g1) \<Rightarrow>
      if \<not> status_ok bucketStatus then (Inl bucketStatus, g1)
      else let path = getPath bucket key in
      case new_local_handle sv bucket key g1 of
        (Inl s, g2) \<Rightarrow> (Inl s, g2)
      | (Inr handle, g2) \<Rightarrow>
          if overwrite
          then (Inr handle, g2\<lparr>g_fileHandles := ConcurrentMap_insertOrReplace path handle (g_fileHandles g2)\<rparr>)
          else (case ConcurrentMap_insertOrExists path handle (g_fileHandles g2) of (newHandle, m) \<Rightarrow>
            if newHandle \<noteq> handle
            then (Inl (AlreadyExistsError (''The file '' @ path_name path @ ''already exists!'')),
                  g2\<lparr>g_fileHandles := m\<rparr>)
            else (Inr newHandle, g2\<lparr>g_fileHandles := m\<rparr>)))"

definition GEDS_create where
  "GEDS_create sv bucket key overwrite g =
     (case GEDS_createAsFileHandle sv bucket key overwrite g of
        (Inr fh, g1) \<Rightarrow> sv_open sv fh (g1\<lparr>g_filesCreated := g_filesCreated g1 + 1\<rparr>)
      | (Inl s, g1) \<Rightarrow> (Inl s, g1))"

definition GEDS_create_name where
  "GEDS_create_name sv objectName overwrite g =
     (case parseObjectName objectName of
        Inl s \<Rightarrow> (Inl s, g)
      | Inr (bucket, key) \<Rightarrow> GEDS_create sv bucket key overwrite g)"
section \<open>Opening objects\<close>

text \<open>
  \<open>reopenFileHandle\<close>: the location decides which kind of handle is made. If that fails for an object
  from the client cache, the lookup is repeated without the cache, once.
\<close>

function GEDS_reopenFileHandle where
  "GEDS_reopenFileHandle sv bucket key invalidate g =
     (case on_metadata (MetadataService_lookup (sv_stub sv) bucket key invalidate) g of
        (Inl s, g1) \<Rightarrow> (Inl s, g1)
      | (Inr object', g1) \<Rightarrow>
          let location = info_location (obj_info object') in
          if \<not> prefix ''geds://'' location \<and> \<not> prefix ''s3://'' location
          then (Inl (UnknownError (''The remote location format '' @ location @ '' is not known.'')), g1)
          else case (if prefix ''geds://'' location then sv_newRemote sv object' g1
                     else if gc_cache_objects_from_s3 (g_config g1) then sv_newCached sv object' g1
                     else sv_newS3 sv object' g1) of
              (Inr fileHandle, g2) \<Rightarrow> (Inr fileHandle, g2)
            | (Inl s, g2) \<Rightarrow>
                if \<not> invalidate then GEDS_reopenFileHandle sv bucket key True g2 else (Inl s, g2))"
  by pat_completeness auto

termination GEDS_reopenFileHandle
  by (relation "measure (\<lambda>(_, _, _, invalidate, _). if invalidate then 0 else 1)") auto

declare GEDS_reopenFileHandle.simps [simp del]

definition GEDS_openAsFileHandle where
  "GEDS_openAsFileHandle sv bucket key g =
     (if g_state g \<noteq> Running then (Inl (not_running g), g)
      else let path = getPath bucket key; check = isValid_name bucket key in
      if \<not> status_ok check then (Inl check, g)
      else case ConcurrentMap_get (g_fileHandles g) path of
          Some fileHandle \<Rightarrow> (Inr fileHandle, g)
        | None \<Rightarrow>
            (case GEDS_reopenFileHandle sv bucket key False g of
               (Inl s, g1) \<Rightarrow> (Inl s, g1)
             | (Inr fileHandle, g1) \<Rightarrow>
                 (case sv_wrap sv fileHandle g1 of (wrapped, g2) \<Rightarrow>
                  case ConcurrentMap_insertOrExists path wrapped (g_fileHandles g2) of (fh, m) \<Rightarrow>
                    (Inr fh, g2\<lparr>g_fileHandles := m\<rparr>))))"

text \<open>\<open>open\<close>: a handle that is no longer valid is taken out of the table and the call repeated once.\<close>

function GEDS_open where
  "GEDS_open sv bucket key retry g =
     (case GEDS_openAsFileHandle sv bucket key g of
        (Inl s, g1) \<Rightarrow> (Inl s, g1)
      | (Inr fh, g1) \<Rightarrow>
          if sv_isValid sv fh g1
          then sv_open sv fh (g1\<lparr>g_filesOpened := g_filesOpened g1 + 1\<rparr>)
          else
            let path = getPath bucket key;
                g2 = g1\<lparr>g_fileHandles := snd (ConcurrentMap_removeIf path (\<lambda>check. fh = check) (g_fileHandles g1))\<rparr>
            in if retry then GEDS_open sv bucket key False g2
               else (Inl (UnavailableError (''The file '' @ path_name path @ '' is invalid.'')), g2))"
  by pat_completeness auto

termination GEDS_open
  by (relation "measure (\<lambda>(_, _, _, retry, _). if retry then 1 else 0)") auto

declare GEDS_open.simps [simp del]

definition GEDS_open_name where
  "GEDS_open_name sv objectName g =
     (case parseObjectName objectName of
        Inl s \<Rightarrow> (Inl s, g)
      | Inr (bucket, key) \<Rightarrow> GEDS_open sv bucket key True g)"

definition GEDS_localOpen where
  "GEDS_localOpen sv bucket key g =
     (if g_state g \<noteq> Running then (Inl (not_running g), g)
      else let path = getPath bucket key;
               notLocal = (Inl (NotFoundError (path_name path @ '' is not available on this machine'')), g)
      in case ConcurrentMap_get (g_fileHandles g) path of
          None \<Rightarrow> notLocal
        | Some fileHandle \<Rightarrow>
            (case v_rawFd (sv_handle sv) fileHandle g of
               Inl _ \<Rightarrow> notLocal
             | Inr _ \<Rightarrow> sv_open sv fileHandle g))"

definition GEDS_localOpen_name where
  "GEDS_localOpen_name sv objectName g =
     (case parseObjectName objectName of
        Inl s \<Rightarrow> (Inl s, g)
      | Inr (bucket, key) \<Rightarrow> GEDS_localOpen sv bucket key g)"

definition GEDS_reopen where
  "GEDS_reopen sv existing g =
     (if g_state g \<noteq> Running then (Inl (not_running g), g)
      else let path = getPath (sv_bucket sv existing g) (sv_key sv existing g);
               g1 = g\<lparr>g_fileHandles := snd (ConcurrentMap_removeIf path (\<lambda>check. existing = check) (g_fileHandles g))\<rparr>
      in GEDS_openAsFileHandle sv (sv_bucket sv existing g) (sv_key sv existing g) g1)"

text \<open>The constructor of the transfer service and its \<open>connect\<close> are the first two arguments.\<close>

definition transfer_service where
  "transfer_service newTransfer connectTransfer hostname g =
     (case ConcurrentMap_get (g_fileTransfers g) hostname of
        Some t \<Rightarrow> (Inr t, g)
      | None \<Rightarrow>
          (case newTransfer hostname g of (t, g1) \<Rightarrow>
           case connectTransfer t g1 of (status, g2) \<Rightarrow>
             if \<not> status_ok status
             then (Inl (UnavailableError (''Unable to connect to '' @ hostname @ '': '' @ status_message status)), g2)
             else case ConcurrentMap_insertOrExists hostname t (g_fileTransfers g2) of (t', m) \<Rightarrow>
               (Inr t', g2\<lparr>g_fileTransfers := m\<rparr>)))"

definition GEDS_getFileTransferService where
  "GEDS_getFileTransferService sv hostname g =
     transfer_service (sv_newTransfer sv) (sv_connectTransfer sv) hostname g"

section \<open>Sealing\<close>

definition seal_object where
  "seal_object stub bucket key metadata update size' uri g =
     (if g_state g \<noteq> Running then (not_running g, g)
      else let obj = mk_Object bucket key
             \<lparr>info_location = (case uri of None \<Rightarrow> g_hostURI g | Some u \<Rightarrow> u), info_size = of_nat size',
              info_sealedOffset = of_nat size', info_metadata = metadata\<rparr>
      in if update then on_metadata (MetadataService_updateObject stub obj) g
         else on_metadata (MetadataService_createObject stub obj) g)"

definition GEDS_seal where
  "GEDS_seal sv fileHandle update size' uri g =
     seal_object (sv_stub sv) (sv_bucket sv fileHandle g) (sv_key sv fileHandle g)
       (v_metadata (sv_handle sv) fileHandle g) update size' uri g"

text \<open>
  \<open>mkdirs\<close> creates and seals the marker of every directory on the path. A marker that exists already
  makes the result of \<open>create\<close> an error whose value is then used: \<open>operator->\<close> throws.
  The recursive calls use the default delimiter. The new file is closed when the call returns.
\<close>

function GEDS_mkdirs where
  "GEDS_mkdirs sv bucket path delimiter g =
     (if path = [] \<or> path = [delimiter] then (Returns OkStatus, g)
      else if last path \<noteq> delimiter then GEDS_mkdirs sv bucket (path @ [delimiter]) CHR ''/'' g
      else case GEDS_create sv bucket (path @ Default_DirectoryMarker) False g of
          (Inl s, g1) \<Rightarrow>
            if status_code s \<noteq> kAlreadyExists then (Returns s, g1)
            else (Raises ''Bad StatusOr access'', g1)
        | (Inr file, g1) \<Rightarrow>
            apsnd (sv_close sv file)
             (case v_seal (sv_handle sv) file g1 of (status, g2) \<Rightarrow>
              if \<not> status_ok status \<and> status_code status \<noteq> kAlreadyExists then (Returns status, g2)
              else if length path \<ge> 2 then
                (case str_rfind delimiter (butlast path) of
                   None \<Rightarrow> (Returns OkStatus, g2)
                 | Some stripPos \<Rightarrow> GEDS_mkdirs sv bucket (take stripPos path) CHR ''/'' g2)
              else (Returns OkStatus, g2)))"
  by pat_completeness auto

lemma str_rfind_less: "str_rfind c s = Some i \<Longrightarrow> i < length s"
  by (auto simp: str_rfind_def dest: str_find_SomeD)

termination GEDS_mkdirs
  by (relation "measure (\<lambda>(_, _, path, delimiter, _). 3 * length path +
        (if path \<noteq> [] \<and> last path = delimiter then 0 else 4) + (if delimiter = CHR ''/'' then 0 else 4))")
    (auto dest!: str_rfind_less)

declare GEDS_mkdirs.simps [simp del]

section \<open>Listing\<close>

text \<open>The result set of a listing, from the objects and the common prefixes of the metadata service.\<close>

definition list_result :: "char \<Rightarrow> Object list \<Rightarrow> string list \<Rightarrow> GEDSFileStatus list" where
  "list_result delimiter objects prefixes' =
     (let folderString = delimiter # Default_DirectoryMarker;
          objs = filter (\<lambda>v. \<not> (delimiter \<noteq> CHR 0x00 \<and> suffix folderString (obj_key v))) objects;
          files = fold (\<lambda>v. fs_emplace (mk_FileStatus (obj_key v) (info_size (obj_info v)) False)) objs []
      in fold (\<lambda>p. fs_emplace (mk_FileStatus p 0 True)) prefixes' files)"

definition GEDS_list_delim where
  "GEDS_list_delim sv bucket pfx delimiter g =
     (case (if gc_pubSubEnabled (g_config g)
            then on_metadata (MetadataService_listPrefixFromCache (sv_stub sv) bucket pfx delimiter) g
            else on_metadata (MetadataService_listPrefix_delim (sv_stub sv) bucket pfx delimiter) g) of
        (Inl s, g1) \<Rightarrow> (Inl s, g1)
      | (Inr (objects, commonPrefixes), g1) \<Rightarrow>
          let g2 = g1\<lparr>g_knownBuckets := ConcurrentSet_insert bucket (g_knownBuckets g1)\<rparr>;
              result = list_result delimiter objects commonPrefixes
          in if result = [] \<and> delimiter \<noteq> CHR 0x00 \<and> objects = []
             then (Inl (NotFoundError (''Prefix not found: '' @ pfx)), g2)
             else (Inr result, g2))"

definition GEDS_list where
  "GEDS_list sv bucket pfx g = GEDS_list_delim sv bucket pfx CHR 0x00 g"

definition GEDS_listAsFolder where
  "GEDS_listAsFolder sv bucket pfx g = GEDS_list_delim sv bucket pfx CHR ''/'' g"

text \<open>\<open>status\<close>: the lambda \<open>listDir\<close> for directories and the cases for files.\<close>

definition status_listDir where
  "status_listDir sv bucket key delimiter k g =
     (case on_metadata (MetadataService_listPrefix_delim (sv_stub sv) bucket k delimiter) g of (list, g1) \<Rightarrow>
        if (case list of Inr (_, commonPrefixes) \<Rightarrow> length commonPrefixes > 0 | Inl _ \<Rightarrow> False)
        then (Inr (mk_FileStatus k 0 True), g1)
        else
          let notFound = Inl (NotFoundError (''Key '' @ key @ '' not found!'')) in
          case ObjectStores_get bucket (g_objectStores g1) of
            Inl _ \<Rightarrow> (notFound, g1)
          | Inr s3 \<Rightarrow>
              (case on_s3 (Endpoint_folderStatus (sv_client sv s3) bucket k delimiter) g1 of
                 (Inr st, g2) \<Rightarrow> (Inr st, g2)
               | (Inl e, g2) \<Rightarrow> if status_code e \<noteq> kNotFound then (Inl e, g2) else (notFound, g2)))"

definition GEDS_status_delim where
  "GEDS_status_delim sv bucket key delimiter g =
     (if key = [] \<or> key = [delimiter] then
        (case GEDS_lookupBucket sv bucket g of (registered, g1) \<Rightarrow>
           if status_ok registered \<or> (case ObjectStores_get bucket (g_objectStores g1) of Inr _ \<Rightarrow> True | Inl _ \<Rightarrow> False)
           then (Inr (mk_FileStatus key 0 True), g1)
           else (Inl (NotFoundError ''Bucket not found!''), g1))
      else if last key = delimiter then status_listDir sv bucket key delimiter key g
      else case on_metadata (MetadataService_lookup (sv_stub sv) bucket key True) g of
          (Inr obj, g1) \<Rightarrow> (Inr (mk_FileStatus key (info_size (obj_info obj)) False), g1)
        | (Inl _, g1) \<Rightarrow>
            let dir = (\<lambda>g. if delimiter \<noteq> CHR 0x00
                  then status_listDir sv bucket key delimiter (key @ [delimiter]) g
                  else (Inl (NotFoundError (''Key '' @ key @ '' not found!'')), g))
            in case ObjectStores_get bucket (g_objectStores g1) of
                Inl _ \<Rightarrow> dir g1
              | Inr s3 \<Rightarrow>
                  (case on_s3 (Endpoint_fileStatus (sv_client sv s3) bucket key) g1 of
                     (Inr st, g2) \<Rightarrow> (Inr st, g2)
                   | (Inl e, g2) \<Rightarrow> if status_code e \<noteq> kNotFound then (Inl e, g2) else dir g2))"

definition GEDS_status where
  "GEDS_status sv bucket key g = GEDS_status_delim sv bucket key CHR ''/'' g"

section \<open>Deleting\<close>

definition GEDS_deleteObject where
  "GEDS_deleteObject sv bucket key g =
     (case on_metadata (MetadataService_deleteObject (sv_stub sv) bucket key) g of (status, g1) \<Rightarrow>
      if \<not> status_ok status \<and> status_code status \<noteq> kNotFound then (status, g1)
      else
        let g2 = (case ObjectStores_get bucket (g_objectStores g1) of
              Inl _ \<Rightarrow> g1
            | Inr store \<Rightarrow>
                if \<not> prefix CacheBlockMarker key
                then snd (on_s3 (Endpoint_deleteObject (sv_client sv store) bucket key) g1) else g1)
        in (OkStatus, g2\<lparr>g_fileHandles := snd (ConcurrentMap_remove (getPath bucket key) (g_fileHandles g2))\<rparr>))"

text \<open>
  The S3 listing that precedes the deletion takes fuel, so the result is optional. The probe for the local
  handles is made from the prefix alone, the table is keyed by \<open>bucket/key\<close>.
\<close>

definition GEDS_deleteObjectPrefix where
  "GEDS_deleteObjectPrefix fuel sv bucket pfx g =
     (case on_metadata (MetadataService_deleteObjectPrefix (sv_stub sv) bucket pfx) g of (status, g1) \<Rightarrow>
      if \<not> status_ok status \<and> status_code status \<noteq> kNotFound then Some (status, g1)
      else
        case (case ObjectStores_get bucket (g_objectStores g1) of
                Inl _ \<Rightarrow> Some g1
              | Inr store \<Rightarrow>
                  map_option (\<lambda>(_, st). g1\<lparr>g_s3 := st\<rparr>)
                    (Endpoint_deletePrefix fuel (sv_client sv store) bucket pfx (g_s3 g1))) of
          None \<Rightarrow> None
        | Some g2 \<Rightarrow> Some (OkStatus, g2\<lparr>g_fileHandles :=
            ConcurrentMap_removeRange (\<lambda>p. Path_less_probe p (PathPrefixProbe pfx))
              (\<lambda>p. PathPrefixProbe_less (PathPrefixProbe pfx) p) (g_fileHandles g2)\<rparr>))"

section \<open>Copying and renaming\<close>

text \<open>
  Copying may not return, when the source reports a size it does not deliver; the result is optional.
  The two open files are closed at the end of the call, in reverse order.
\<close>

definition GEDS_copy where
  "GEDS_copy sv srcBucket srcKey destBucket destKey g =
     (case GEDS_open sv srcBucket srcKey True g of
        (Inl s, g1) \<Rightarrow> Some (s, g1)
      | (Inr srcFile, g1) \<Rightarrow>
          map_option (apsnd (sv_close sv srcFile))
           (case GEDS_create sv destBucket destKey False g1 of
             (Inl s, g2) \<Rightarrow> Some (s, g2)
           | (Inr destFile, g2) \<Rightarrow>
               map_option (apsnd (sv_close sv destFile))
                (case sv_download sv srcFile destFile g2 of
                   None \<Rightarrow> None
                 | Some (status, g3) \<Rightarrow>
                     Some (if status_ok status then v_seal (sv_handle sv) destFile g3 else (status, g3)))))"

definition GEDS_rename where
  "GEDS_rename sv srcBucket srcKey destBucket destKey g =
     (case GEDS_copy sv srcBucket srcKey destBucket destKey g of
        None \<Rightarrow> None
      | Some (status, g1) \<Rightarrow>
          Some (if \<not> status_ok status then (status, g1) else GEDS_deleteObject sv srcBucket srcKey g1))"

text \<open>The loops over a listing: directories are skipped, the first failure ends the loop.\<close>

fun for_prefix ::
  "(string \<Rightarrow> string \<Rightarrow> 'g \<Rightarrow> (Status \<times> 'g) option) \<Rightarrow> string \<Rightarrow> string \<Rightarrow> GEDSFileStatus list \<Rightarrow> 'g
     \<Rightarrow> (Status \<times> 'g) option" where
  "for_prefix action srcKey destKey [] g = Some (OkStatus, g)"
| "for_prefix action srcKey destKey (element # rest) g =
     (if fs_isDirectory element then for_prefix action srcKey destKey rest g
      else case action (fs_key element) (destKey @ drop (length srcKey) (fs_key element)) g of
          None \<Rightarrow> None
        | Some (status, g1) \<Rightarrow>
            if \<not> status_ok status then Some (status, g1) else for_prefix action srcKey destKey rest g1)"

definition GEDS_renamePrefix where
  "GEDS_renamePrefix sv srcBucket srcKey destBucket destKey g =
     (case GEDS_list sv srcBucket srcKey g of
        (Inl s, g1) \<Rightarrow> Some (s, g1)
      | (Inr prefixList, g1) \<Rightarrow>
          for_prefix (\<lambda>k newKey. GEDS_rename sv srcBucket k destBucket newKey) srcKey destKey prefixList g1)"

definition GEDS_copyPrefix where
  "GEDS_copyPrefix sv srcBucket srcKey destBucket destKey g =
     (case GEDS_list sv srcBucket srcKey g of
        (Inl s, g1) \<Rightarrow> Some (s, g1)
      | (Inr prefixList, g1) \<Rightarrow>
          for_prefix (\<lambda>k newKey. GEDS_copy sv srcBucket k destBucket newKey) srcKey destKey prefixList g1)"

text \<open>The overloads within one bucket.\<close>

definition GEDS_copy_same where
  "GEDS_copy_same sv bucket srcKey destKey g = GEDS_copy sv bucket srcKey bucket destKey g"

definition GEDS_rename_same where
  "GEDS_rename_same sv bucket srcKey destKey g = GEDS_rename sv bucket srcKey bucket destKey g"

definition GEDS_renamePrefix_same where
  "GEDS_renamePrefix_same sv bucket srcKey destKey g = GEDS_renamePrefix sv bucket srcKey bucket destKey g"

definition GEDS_copyPrefix_same where
  "GEDS_copyPrefix_same sv bucket srcKey destKey g = GEDS_copyPrefix sv bucket srcKey bucket destKey g"

section \<open>Object stores\<close>

fun sync_stores :: "ObjectStoreConfig list \<Rightarrow> ObjectStores \<Rightarrow> ObjectStores" where
  "sync_stores [] m = m"
| "sync_stores (c # cs) m =
     sync_stores cs (snd (registerStore (cfg_bucket c) (cfg_endpointURL c) (cfg_accessKey c) (cfg_secretKey c) m))"

definition GEDS_syncObjectStoreConfigs where
  "GEDS_syncObjectStoreConfigs sv g =
     (case on_metadata (MetadataService_listObjectStoreConfigs (sv_stub sv)) g of
        (Inl s, g1) \<Rightarrow> (s, g1)
      | (Inr configs, g1) \<Rightarrow> (OkStatus, g1\<lparr>g_objectStores := sync_stores configs (g_objectStores g1)\<rparr>))"

definition GEDS_registerObjectStoreConfig where
  "GEDS_registerObjectStoreConfig sv bucket endpointUrl accessKey secretKey g =
     (case on_metadata (MetadataService_registerObjectStoreConfig (sv_stub sv)
             \<lparr>cfg_bucket = bucket, cfg_endpointURL = endpointUrl, cfg_accessKey = accessKey,
              cfg_secretKey = secretKey\<rparr>) g of (status, g1) \<Rightarrow>
      if \<not> status_ok status \<and> status_code status \<noteq> kAlreadyExists then (status, g1)
      else case GEDS_createBucket sv bucket g1 of (status, g2) \<Rightarrow>
        if \<not> status_ok status then (status, g2) else GEDS_syncObjectStoreConfigs sv g2)"

section \<open>Relocation\<close>

text \<open>
  One relocation task. A cached block is dropped when nobody has it open; any other object is handed to its
  handle, and a new handle replaces the old one. The statistics count the size once on entry and
  once more on success.
\<close>

definition GEDS_relocate_handle where
  "GEDS_relocate_handle sv force handle g =
     (let path = getPath (sv_bucket sv handle g) (sv_key sv handle g) in
      if (sv_openCount sv handle g > 0 \<and> \<not> force) \<or> \<not> ConcurrentMap_exists (g_fileHandles g) path then g
      else
        let fsize = v_localStorageSize (sv_handle sv) handle g;
            g1 = g\<lparr>g_storageRelocated := g_storageRelocated g + of_nat fsize\<rparr>
        in if prefix CacheBlockMarker (sv_key sv handle g) then
             (case ConcurrentMap_removeIf path (\<lambda>existing. handle = existing \<and> sv_openCount sv handle g1 = 0)
                     (g_fileHandles g1) of
                (status, m) \<Rightarrow>
                  let g2 = g1\<lparr>g_fileHandles := m\<rparr>
                  in if status then g2\<lparr>g_storageRelocated := g_storageRelocated g2 + of_nat fsize\<rparr> else g2)
           else
             (case v_relocate (sv_handle sv) handle g1 of
                (Inl _, g2) \<Rightarrow> g2
              | (Inr newHandle, g2) \<Rightarrow>
                  g2\<lparr>g_storageRelocated := g_storageRelocated g2 + of_nat fsize,
                     g_fileHandles := ConcurrentMap_insertOrReplace path newHandle (g_fileHandles g2)\<rparr>))"

text \<open>
  The list version skips handles that have become invalid but waits for as many tasks as there are
  handles; with a skipped one it never returns. Here every task runs as soon as it is
  posted; the theory of the thread pool treats all schedules.
\<close>

fun GEDS_relocate_list where
  "GEDS_relocate_list sv force [] g = Some g"
| "GEDS_relocate_list sv force (fh # rest) g =
     (if \<not> sv_isValid sv fh g then None
      else GEDS_relocate_list sv force rest (GEDS_relocate_handle sv force fh g))"

definition GEDS_relocate where
  "GEDS_relocate sv force g =
     (let relocatable = filter (\<lambda>item. (sv_openCount sv item g = 0 \<or> force) \<and> sv_isRelocatable sv item g \<and>
                                  sv_isValid sv item g) (map snd (g_fileHandles g))
      in if length relocatable > 0 then GEDS_relocate_list sv force relocatable g else Some g)"

section \<open>The storage monitor\<close>

text \<open>
  One round of the monitoring thread: it sums up the local sizes and, above the spilling threshold,
  relocates the handles released longest ago until their sizes exceed the excess.
\<close>

definition spill_candidates where
  "spill_candidates sv g =
     filter (\<lambda>fh. sv_isRelocatable sv fh g \<and> sv_openCount sv fh g = 0 \<and> sv_isValid sv fh g)
       (map snd (g_fileHandles g))"

fun select_tasks :: "('h \<Rightarrow> size_t) \<Rightarrow> size_t \<Rightarrow> size_t \<Rightarrow> 'h list \<Rightarrow> 'h list" where
  "select_tasks sz excess relocateBytes [] = []"
| "select_tasks sz excess relocateBytes (f # fs) =
     (if relocateBytes > excess then []
      else f # select_tasks sz excess (wrap64 (relocateBytes + sz f)) fs)"

text \<open>
  The threshold is computed in \<open>double\<close>: the size is converted, the product rounded, and the result cut
  to an integer.
\<close>

definition targetStorage :: "GEDSConfig \<Rightarrow> size_t" where
  "targetStorage c =
     nat \<lfloor>double_round (gc_storage_spilling_fraction c * double_round (of_nat (gc_available_local_storage c)))\<rfloor>"

definition sum_sizes :: "('h \<Rightarrow> size_t) \<Rightarrow> 'h list \<Rightarrow> size_t" where
  "sum_sizes sz hs = foldl (\<lambda>n h. wrap64 (n + sz h)) 0 hs"

definition monitor_tasks where
  "monitor_tasks sv g =
     (let storageUsed = sum_sizes (\<lambda>fh. v_localStorageSize (sv_handle sv) fh g) (map snd (g_fileHandles g));
          target = targetStorage (g_config g)
      in if storageUsed > target
         then select_tasks (\<lambda>fh. v_localStorageSize (sv_handle sv) fh g) (storageUsed - target) 0
                (sort_key (\<lambda>fh. sv_lastReleased sv fh g) (spill_candidates sv g))
         else [])"

definition monitor_round where
  "monitor_round sv g =
     (let storageUsed = sum_sizes (\<lambda>fh. v_localStorageSize (sv_handle sv) fh g) (map snd (g_fileHandles g));
          memoryUsed = sum_sizes (\<lambda>fh. v_localMemorySize (sv_handle sv) fh g) (map snd (g_fileHandles g));
          tasks = monitor_tasks sv g;
          g1 = g\<lparr>g_storageCounters := updateUsed storageUsed (g_storageCounters g),
                 g_memoryCounters := updateUsed memoryUsed (g_memoryCounters g)\<rparr>
      in if length tasks > 0 then GEDS_relocate_list sv False tasks g1 else Some g1)"

section \<open>Life cycle\<close>

text \<open>
  What the environment does at start: the channel to the metadata service, the server with its
  port, and the error, if any, with which the web server fails to bind its port. That failure is only
  logged. Stopping ends the web server as well; an outcome that raises leaves the tables as they are.
\<close>

record start_events =
  se_channel :: channel_result
  se_server :: Status
  se_port :: u16
  se_http :: "string option"

definition GEDS_start where
  "GEDS_start sv ev g =
     (if g_state g \<noteq> Stopped then (not_running g, g)
      else
        let g1 = g\<lparr>g_state := ServiceUnknown\<rparr> in
        case MetadataService_connect (se_channel ev) (g_metadataService g1) of (result, c) \<Rightarrow>
        let g2 = g1\<lparr>g_metadataService := c\<rparr> in
        if \<not> status_ok result then (result, g2)
        else if \<not> status_ok (se_server ev) then (se_server ev, g2)
        else case (if g_hostname g2 \<noteq> []
                   then (OkStatus, g2\<lparr>g_hostURI := computeHostUri (g_hostname g2) (se_port ev)\<rparr>)
                   else case on_metadata (MetadataService_getConnectionInformation (sv_stub sv)) g2 of
                       (Inl s, g3) \<Rightarrow>
                         (UnknownError (''Unable to obtain connection IP! Reason: '' @ status_message s), g3)
                     | (Inr hostIP, g3) \<Rightarrow>
                         (OkStatus, g3\<lparr>g_hostURI := computeHostUri hostIP (se_port ev), g_hostname := hostIP\<rparr>)) of
          (result, g4) \<Rightarrow>
            if \<not> status_ok result then (result, g4)
            else let g5 = g4\<lparr>g_httpServer := snd (HttpServer_start (se_http ev) (g_httpServer g4)), g_state := Running\<rparr>;
                     g6 = snd (GEDS_syncObjectStoreConfigs sv g5);
                     g7 = snd (GEDS_syncObjectStoreConfigs sv g6)
                 in (OkStatus, g7))"

definition GEDS_stop where
  "GEDS_stop sv serverStop g =
     (if g_state g \<noteq> Running then Some (Returns (not_running g, g))
      else
        case (if gc_force_relocation_when_stopping (g_config g) then GEDS_relocate sv True g else Some g) of
          None \<Rightarrow> None
        | Some g1 \<Rightarrow>
            (case MetadataService_disconnect (g_metadataService g1) of (_, c) \<Rightarrow>
               (case HttpServer_stop (g_httpServer g1) of
                  Raises what \<Rightarrow> Some (Raises what)
                | Returns http \<Rightarrow>
                    Some (Returns (serverStop, g1\<lparr>g_metadataService := c, g_httpServer := http,
                      g_fileHandles := ConcurrentMap_clear (g_fileHandles g1),
                      g_fileTransfers := ConcurrentMap_clear (g_fileTransfers g1), g_state := Stopped\<rparr>)))))"

abbreviation pubsub_disabled :: Status where
  "pubsub_disabled \<equiv> FailedPreconditionError ''publish/subscribe is not enabled.''"

definition GEDS_subscribe where
  "GEDS_subscribe sv event g =
     (if g_state g \<noteq> Running then (not_running g, g)
      else if \<not> gc_pubSubEnabled (g_config g) then (pubsub_disabled, g)
      else on_metadata (MetadataService_subscribe (sv_stub sv) event) g)"

definition GEDS_unsubscribe where
  "GEDS_unsubscribe sv event g =
     (if g_state g \<noteq> Running then (not_running g, g)
      else if \<not> gc_pubSubEnabled (g_config g) then (pubsub_disabled, g)
      else on_metadata (MetadataService_unsubscribe (sv_stub sv) event) g)"

end
