(* ===== verification/Service_Contract.thy ===== *)
theory Service_Contract
  imports GEDS_Service
begin

text \<open>
  What the service relies on when it keeps its table of file handles: factories return objects that did not
  exist before, and none of the operations a handle performs touches the table or the state
  of the service. From this follow the effects of creating and opening objects on the table.
\<close>

text \<open>What the operations of a handle leave alone.\<close>

definition same_service :: "('s, 'x, 'h) GEDS \<Rightarrow> ('s, 'x, 'h) GEDS \<Rightarrow> bool" where
  "same_service g g' \<longleftrightarrow> g_fileHandles g' = g_fileHandles g \<and> g_state g' = g_state g \<and>
     g_config g' = g_config g"

lemma same_service_refl [simp]: "same_service g g"
  by (simp add: same_service_def)

lemma same_service_trans: "same_service a b \<Longrightarrow> same_service b c \<Longrightarrow> same_service a c"
  by (simp add: same_service_def)

lemma same_service_updates [simp]:
  "same_service g (g\<lparr>g_metadataService := c, g_server := s\<rparr>)" "same_service g (g\<lparr>g_s3 := st\<rparr>)"
  "same_service g (g\<lparr>g_knownBuckets := kb\<rparr>)" "same_service g (g\<lparr>g_fileNames := fn\<rparr>)"
  "same_service g (g\<lparr>g_filesOpened := n\<rparr>)" "same_service g (g\<lparr>g_filesCreated := n\<rparr>)"
  "same_service g (g\<lparr>g_heap := hp\<rparr>)" "same_service g (g\<lparr>g_fileTransfers := t\<rparr>)"
  by (simp_all add: same_service_def)

lemma on_metadata_same: "on_metadata call g = (r, g') \<Longrightarrow> same_service g g' \<and> g_heap g' = g_heap g"
  by (auto simp: on_metadata_def split: prod.splits)

lemma lookupBucket_same: "GEDS_lookupBucket sv b g = (r, g') \<Longrightarrow> same_service g g' \<and> g_heap g' = g_heap g"
  by (auto simp: GEDS_lookupBucket_def split: if_splits prod.splits dest!: on_metadata_same
      intro: same_service_trans)

lemma createBucket_same:
  assumes "GEDS_createBucket sv b g = (r, g')"
  shows "same_service g g' \<and> g_heap g' = g_heap g"
proof (cases "status_ok (isValidBucketName b)")
  case True
  obtain f g1 where l: "GEDS_lookupBucket sv b g = (f, g1)" by fastforce
  obtain st g2 where c: "on_metadata (MetadataService_createBucket (sv_stub sv) b) g1 = (st, g2)" by fastforce
  show ?thesis
    using assms True lookupBucket_same [OF l] on_metadata_same [OF c]
    by (auto simp: GEDS_createBucket_def l c Let_def split: if_splits intro: same_service_trans)
qed (use assms in \<open>simp add: GEDS_createBucket_def Let_def\<close>)

text \<open>The table is sorted and refers to existing handles.\<close>

definition table_ok :: "('h \<Rightarrow> nat set) \<Rightarrow> ('s, 'x, 'h) GEDS \<Rightarrow> bool" where
  "table_ok allocated g \<longleftrightarrow> map_sorted (g_fileHandles g) \<and> ran (map_of (g_fileHandles g)) \<subseteq> allocated (g_heap g)"

section \<open>Handle providers\<close>

locale handle_provider =
  fixes sv :: "('s, 'x, 'h) service" and allocated :: "'h \<Rightarrow> nat set"
  assumes newLocal: "sv_newLocal sv b k p g = (r, g') \<Longrightarrow> same_service g g' \<and>
      allocated (g_heap g) \<subseteq> allocated (g_heap g') \<and>
      (\<forall>h. r = Inr h \<longrightarrow> h \<in> allocated (g_heap g') - allocated (g_heap g))"
    and newRemote: "sv_newRemote sv ob g = (r, g') \<Longrightarrow> same_service g g' \<and>
      allocated (g_heap g) \<subseteq> allocated (g_heap g')"
    and newS3: "sv_newS3 sv ob g = (r, g') \<Longrightarrow> same_service g g' \<and>
      allocated (g_heap g) \<subseteq> allocated (g_heap g')"
    and newCached: "sv_newCached sv ob g = (r, g') \<Longrightarrow> same_service g g' \<and>
      allocated (g_heap g) \<subseteq> allocated (g_heap g')"
    and wrap: "sv_wrap sv h g = (w, g') \<Longrightarrow> same_service g g' \<and>
      allocated (g_heap g) \<subseteq> allocated (g_heap g') \<and> w \<in> allocated (g_heap g') - allocated (g_heap g) \<and>
      sv_isValid sv w g'"
    and open_handle: "sv_open sv h g = (r, g') \<Longrightarrow> same_service g g' \<and>
      allocated (g_heap g) \<subseteq> allocated (g_heap g') \<and> r = Inr h \<and> sv_isValid sv h g' = sv_isValid sv h g"
    and isValid_heap: "g_heap g' = g_heap g \<Longrightarrow> sv_isValid sv h g' = sv_isValid sv h g"
begin

lemma table_ok_same:
  "table_ok allocated g \<Longrightarrow> same_service g g' \<Longrightarrow> allocated (g_heap g) \<subseteq> allocated (g_heap g') \<Longrightarrow>
     table_ok allocated g'"
  by (auto simp: table_ok_def same_service_def)

lemma table_ok_assign:
  assumes "table_ok allocated g" "h \<in> allocated (g_heap g)"
  shows "table_ok allocated (g\<lparr>g_fileHandles := map_assign p h (g_fileHandles g)\<rparr>)"
  using assms by (auto simp: table_ok_def ran_def split: if_splits)

lemma table_ok_erase:
  assumes "table_ok allocated g"
  shows "table_ok allocated (g\<lparr>g_fileHandles := map_erase p (g_fileHandles g)\<rparr>)"
  using assms by (auto simp: table_ok_def ran_def map_sorted_erase split: if_splits)

text \<open>An operation that only works on the heap and the environment.\<close>

definition quiet :: "('s, 'x, 'h) GEDS \<Rightarrow> ('s, 'x, 'h) GEDS \<Rightarrow> bool" where
  "quiet g g' \<longleftrightarrow> same_service g g' \<and> allocated (g_heap g) \<subseteq> allocated (g_heap g')"

lemma quiet_trans: "quiet a b \<Longrightarrow> quiet b c \<Longrightarrow> quiet a c"
  by (auto simp: quiet_def intro: same_service_trans)

lemma quiet_heap: "same_service g g' \<Longrightarrow> g_heap g' = g_heap g \<Longrightarrow> quiet g g'"
  by (simp add: quiet_def)

lemma quiet_table: "table_ok allocated g \<Longrightarrow> quiet g g' \<Longrightarrow> table_ok allocated g'"
  by (auto simp: quiet_def intro: table_ok_same)

lemma quiet_fields: "quiet g g' \<Longrightarrow> g_fileHandles g' = g_fileHandles g \<and> g_state g' = g_state g"
  by (simp add: quiet_def same_service_def)

lemma factory_quiet:
  assumes "(if c then sv_newRemote sv ob g else if d then sv_newCached sv ob g else sv_newS3 sv ob g) = (r, g')"
  shows "quiet g g'"
  using assms newRemote newS3 newCached by (auto simp: quiet_def split: if_splits)

lemma reopen_step:
  assumes "GEDS_reopenFileHandle sv b k invalidate g = (r, g')"
  obtains "quiet g g'" | g2 where "quiet g g2" "\<not> invalidate" "GEDS_reopenFileHandle sv b k True g2 = (r, g')"
proof -
  obtain lr g1 where l: "on_metadata (MetadataService_lookup (sv_stub sv) b k invalidate) g = (lr, g1)"
    by fastforce
  have q: "quiet g g1" using on_metadata_same [OF l] by (simp add: quiet_heap)
  show ?thesis
  proof (cases lr)
    case (Inl e)
    with assms q l that(1) show ?thesis by (subst (asm) GEDS_reopenFileHandle.simps) simp
  next
    case (Inr ob)
    let ?loc = "info_location (obj_info ob)"
    obtain fr g2 where f: "(if prefix ''geds://'' ?loc then sv_newRemote sv ob g1
        else if gc_cache_objects_from_s3 (g_config g1) then sv_newCached sv ob g1 else sv_newS3 sv ob g1) = (fr, g2)"
      by fastforce
    have q2: "quiet g g2" using factory_quiet [OF f] q by (rule quiet_trans [rotated])
    show ?thesis
      using assms q q2 l Inr f that
      by (subst (asm) GEDS_reopenFileHandle.simps) (auto simp: Let_def split: sum.splits if_splits)
  qed
qed

lemma reopen_quiet:
  assumes "GEDS_reopenFileHandle sv b k invalidate g = (r, g')"
  shows "quiet g g'"
proof -
  have "quiet x x'" if "GEDS_reopenFileHandle sv b k True x = (r', x')" for x x' r'
    using reopen_step [OF that] by blast
  then show ?thesis using reopen_step [OF assms] quiet_trans by metis
qed

section \<open>Creating\<close>

lemma new_local_quiet:
  assumes "new_local_handle sv b k g = (r, g')"
  shows "quiet g g' \<and> (\<forall>h. r = Inr h \<longrightarrow> h \<in> allocated (g_heap g') - allocated (g_heap g))"
proof -
  obtain path fn where p: "getLocalPath (g_pathPrefix g) b k (g_fileNames g) = (path, fn)" by fastforce
  with assms have "sv_newLocal sv b k path (g\<lparr>g_fileNames := fn\<rparr>) = (r, g')"
    by (simp add: new_local_handle_def GEDS_getLocalPath_def)
  from newLocal [OF this] show ?thesis
    by (auto simp: quiet_def intro: same_service_trans [where b = "g\<lparr>g_fileNames := fn\<rparr>"])
qed

lemma createAsFileHandle_table:
  assumes "table_ok allocated g" "GEDS_createAsFileHandle sv b k overwrite g = (r, g')"
  shows "table_ok allocated g' \<and>
    (case r of
       Inl e \<Rightarrow> g_fileHandles g' = g_fileHandles g
     | Inr h \<Rightarrow> h \<notin> allocated (g_heap g) \<and> (overwrite \<or> map_of (g_fileHandles g) (getPath b k) = None) \<and>
         map_of (g_fileHandles g') = (map_of (g_fileHandles g))(getPath b k \<mapsto> h))"
proof -
  obtain st g1 where c: "GEDS_createBucket sv b g = (st, g1)" by fastforce
  have q1: "quiet g g1" using createBucket_same [OF c] by (simp add: quiet_heap)
  obtain nr g2 where n: "new_local_handle sv b k g1 = (nr, g2)" by fastforce
  have q2: "quiet g1 g2" and new: "\<And>h. nr = Inr h \<Longrightarrow> h \<in> allocated (g_heap g2) - allocated (g_heap g1)"
    using new_local_quiet [OF n] by auto
  have ok: "table_ok allocated g1" "table_ok allocated g2"
    using assms(1) q1 q2 quiet_table by blast+
  have tab: "g_fileHandles g1 = g_fileHandles g" "g_fileHandles g2 = g_fileHandles g"
    using q1 q2 by (auto dest!: quiet_fields)
  have sorted: "map_sorted (g_fileHandles g)" using assms(1) by (simp add: table_ok_def)
  have sub: "allocated (g_heap g) \<subseteq> allocated (g_heap g1)" using q1 by (simp add: quiet_def)
  have asg: "table_ok allocated (g2\<lparr>g_fileHandles := map_assign (getPath b k) h (g_fileHandles g)\<rparr>)"
    if "nr = Inr h" for h
    using table_ok_assign [OF ok(2), of h "getPath b k"] new [OF that] tab by simp
  have fresh: "map_of (g_fileHandles g) p \<noteq> Some h" if "nr = Inr h" for h p
    using assms(1) new [OF that] sub by (auto simp: table_ok_def ran_def)
  consider (early) "g' \<in> {g, g1, g2}" "\<exists>e. r = Inl e"
    | (made) h where "nr = Inr h" "r = Inr h" "overwrite \<or> map_of (g_fileHandles g) (getPath b k) = None"
        "g' = g2\<lparr>g_fileHandles := map_assign (getPath b k) h (g_fileHandles g)\<rparr>"
    | (exists) e where "r = Inl e" "g' = g2\<lparr>g_fileHandles := g_fileHandles g\<rparr>"
  proof -
    note unf = assms(2) [unfolded GEDS_createAsFileHandle_def c, simplified n Let_def case_prod_conv]
    consider "g_state g \<noteq> Running" | "\<not> status_ok (isValid_name b k)" | "\<not> status_ok st"
      | "g_state g = Running" "status_ok (isValid_name b k)" "status_ok st" by blast
    then show thesis
    proof cases
      case 4
      show thesis
      proof (cases nr)
        case (Inl e)
        with 4 unf early show thesis by auto
      next
        case (Inr h)
        note unf' = unf [unfolded Inr, simplified 4 tab sum.case simp_thms if_True if_False]
        show thesis
        proof (cases overwrite)
          case True
          with unf' have "r = Inr h" "g' = g2\<lparr>g_fileHandles := map_assign (getPath b k) h (g_fileHandles g)\<rparr>"
            by (simp_all add: ConcurrentMap_insertOrReplace_def)
          with Inr True made show thesis by blast
        next
          case False
          show thesis
          proof (cases "map_of (g_fileHandles g) (getPath b k)")
            case None
            with unf' False have "r = Inr h"
              "g' = g2\<lparr>g_fileHandles := map_assign (getPath b k) h (g_fileHandles g)\<rparr>"
              by (simp_all add: ConcurrentMap_insertOrExists_def)
            with Inr None made show thesis by blast
          next
            case (Some h')
            then have "h' \<noteq> h" using fresh [OF Inr] by blast
            with unf' False Some show thesis by (auto simp: ConcurrentMap_insertOrExists_def intro: exists)
          qed
        qed
      qed
    qed (use unf early in \<open>auto split: if_splits\<close>)
  qed
  then show ?thesis
  proof cases
    case early
    with assms(1) ok tab show ?thesis by auto
  next
    case (made h)
    with asg new sub sorted tab show ?thesis by auto
  next
    case (exists e)
    with ok(2) tab show ?thesis by (simp add: table_ok_def)
  qed
qed

section \<open>Opening\<close>

lemma openAsFileHandle_table:
  assumes "table_ok allocated g" "GEDS_openAsFileHandle sv b k g = (r, g')"
  shows "table_ok allocated g' \<and> g_state g' = g_state g \<and>
    (\<forall>p. p \<noteq> getPath b k \<longrightarrow> map_of (g_fileHandles g') p = map_of (g_fileHandles g) p) \<and>
    (case r of
       Inr h \<Rightarrow> map_of (g_fileHandles g') (getPath b k) = Some h
     | Inl e \<Rightarrow> g_fileHandles g' = g_fileHandles g \<and>
         (g_state g = Running \<longrightarrow> status_ok (isValid_name b k) \<longrightarrow> map_of (g_fileHandles g') (getPath b k) = None))"
proof -
  obtain rr g1 where c: "GEDS_reopenFileHandle sv b k False g = (rr, g1)" by fastforce
  note q1 = reopen_quiet [OF c]
  obtain w g2 where wr: "sv_wrap sv (projr rr) g1 = (w, g2)" by fastforce
  have q2: "quiet g1 g2" and new: "w \<in> allocated (g_heap g2) - allocated (g_heap g1)"
    using wrap [OF wr] by (auto simp: quiet_def)
  have ok: "table_ok allocated g1" "table_ok allocated g2"
    using assms(1) q1 q2 quiet_table by blast+
  have tab: "g_fileHandles g1 = g_fileHandles g" "g_fileHandles g2 = g_fileHandles g"
    "g_state g1 = g_state g" "g_state g2 = g_state g"
    using q1 q2 by (auto dest!: quiet_fields)
  have sorted: "map_sorted (g_fileHandles g)" using assms(1) by (simp add: table_ok_def)
  have asg: "table_ok allocated (g2\<lparr>g_fileHandles := map_assign (getPath b k) w (g_fileHandles g)\<rparr>)"
    using table_ok_assign [OF ok(2), of w "getPath b k"] new tab by simp
  show ?thesis
    using assms ok tab asg sorted wr
    by (auto simp: GEDS_openAsFileHandle_def c Let_def ConcurrentMap_get_def
        ConcurrentMap_insertOrExists_def split: if_splits sum.splits option.splits)
qed
lemma removeIf_self:
  assumes "table_ok allocated g" "map_of (g_fileHandles g) p = Some h"
  defines "g' \<equiv> g\<lparr>g_fileHandles := snd (ConcurrentMap_removeIf p (\<lambda>c. h = c) (g_fileHandles g))\<rparr>"
  shows "table_ok allocated g'" "map_of (g_fileHandles g') = (map_of (g_fileHandles g))(p := None)"
  using assms(1,2) table_ok_erase [OF assms(1), of p]
  by (auto simp: g'_def ConcurrentMap_removeIf_def table_ok_def)

text \<open>One attempt of \<open>open\<close>: it ends, or an invalid handle has been taken out of the table.\<close>

lemma open_attempt:
  assumes "table_ok allocated g" "GEDS_open sv b k retry g = (r, g')"
  obtains (success) h where "r = Inr h" "table_ok allocated g'" "sv_isValid sv h g'"
      "map_of (g_fileHandles g') (getPath b k) = Some h" "g_state g' = g_state g"
      "\<forall>p. p \<noteq> getPath b k \<longrightarrow> map_of (g_fileHandles g') p = map_of (g_fileHandles g) p"
  | (failure) e where "r = Inl e" "table_ok allocated g'" "g_state g' = g_state g"
      "g_state g = Running \<longrightarrow> status_ok (isValid_name b k) \<longrightarrow> map_of (g_fileHandles g') (getPath b k) = None"
      "\<forall>p. p \<noteq> getPath b k \<longrightarrow> map_of (g_fileHandles g') p = map_of (g_fileHandles g) p"
  | (again) g2 where "retry" "GEDS_open sv b k False g2 = (r, g')" "table_ok allocated g2"
      "g_state g2 = g_state g" "\<forall>p. p \<noteq> getPath b k \<longrightarrow> map_of (g_fileHandles g2) p = map_of (g_fileHandles g) p"
proof -
  obtain ar g1 where a: "GEDS_openAsFileHandle sv b k g = (ar, g1)" by fastforce
  note t = openAsFileHandle_table [OF assms(1) a]
  note unf = assms(2) [unfolded GEDS_open.simps [of sv b k retry g] a, simplified Let_def case_prod_conv]
  show thesis
  proof (cases ar)
    case (Inl e)
    with unf t failure [of e] show thesis by auto
  next
    case (Inr h)
    let ?g = "g1\<lparr>g_filesOpened := g_filesOpened g1 + 1\<rparr>"
    let ?g2 = "g1\<lparr>g_fileHandles := snd (ConcurrentMap_removeIf (getPath b k) (\<lambda>c. h = c) (g_fileHandles g1))\<rparr>"
    have h: "map_of (g_fileHandles g1) (getPath b k) = Some h" using t Inr by simp
    show thesis
    proof (cases "sv_isValid sv h g1")
      case True
      with unf Inr have op: "sv_open sv h ?g = (r, g')" by simp
      note o = open_handle [OF op]
      have "table_ok allocated ?g" using t by (simp add: table_ok_def)
      then have "table_ok allocated g'" using o by (blast intro: table_ok_same)
      moreover have "sv_isValid sv h ?g" using True isValid_heap [of ?g g1 h] by simp
      ultimately show thesis using success [of h] o t h by (auto simp: same_service_def)
    next
      case False
      note rm = removeIf_self [OF _ h]
      have ok: "table_ok allocated ?g2" "map_of (g_fileHandles ?g2) = (map_of (g_fileHandles g1))(getPath b k := None)"
        using rm t by blast+
      show thesis
      proof (cases retry)
        case True
        with unf Inr False ok t again [of ?g2] show thesis by auto
      next
        case no: False
        with unf Inr False have "r = Inl (UnavailableError (''The file '' @ path_name (getPath b k) @ '' is invalid.''))"
          "g' = ?g2" by auto
        with ok t failure show thesis by auto
      qed
    qed
  qed
qed

lemma open_table:
  assumes "table_ok allocated g" "GEDS_open sv b k retry g = (r, g')"
  shows "table_ok allocated g' \<and>
    (\<forall>p. p \<noteq> getPath b k \<longrightarrow> map_of (g_fileHandles g') p = map_of (g_fileHandles g) p) \<and>
    (case r of
       Inr h \<Rightarrow> map_of (g_fileHandles g') (getPath b k) = Some h \<and> sv_isValid sv h g'
     | Inl e \<Rightarrow> g_state g = Running \<longrightarrow> status_ok (isValid_name b k) \<longrightarrow>
         map_of (g_fileHandles g') (getPath b k) = None)"
proof -
  have once: "table_ok allocated g' \<and>
    (\<forall>p. p \<noteq> getPath b k \<longrightarrow> map_of (g_fileHandles g') p = map_of (g_fileHandles g0) p) \<and>
    (case r of
       Inr h \<Rightarrow> map_of (g_fileHandles g') (getPath b k) = Some h \<and> sv_isValid sv h g'
     | Inl e \<Rightarrow> g_state g0 = Running \<longrightarrow> status_ok (isValid_name b k) \<longrightarrow>
         map_of (g_fileHandles g') (getPath b k) = None)"
    if "table_ok allocated g0" "GEDS_open sv b k False g0 = (r, g')" for g0
    using that by (rule open_attempt) auto
  show ?thesis
    using assms
  proof (rule open_attempt)
    fix g2
    assume "GEDS_open sv b k False g2 = (r, g')" "table_ok allocated g2" "g_state g2 = g_state g"
      "\<forall>p. p \<noteq> getPath b k \<longrightarrow> map_of (g_fileHandles g2) p = map_of (g_fileHandles g) p"
    with once [of g2] show ?thesis by (cases r) simp_all
  qed auto
qed
end
end
