(* ===== verification/Remote_Handles.thy ===== *)
theory Remote_Handles
  imports File_Handle Metadata_Server
begin

text \<open>
  Handles of objects that live elsewhere: \<^verbatim>\<open>src/libgeds/GEDSS3FileHandle.cpp\<close> and
  \<^verbatim>\<open>GEDSRemoteFileHandle.cpp\<close>. What a handle asks of the GEDS service (the endpoint of a bucket, the
  transfer service of a host, sealing) is passed as a function; the theory of the service instantiates
  these.
\<close>

section \<open>Locations\<close>

text \<open>The location of an object in S3 is \<open>s3://bucket/key\<close>.\<close>

definition s3_parse_location :: "string \<Rightarrow> (string \<times> string) StatusOr" where
  "s3_parse_location location =
     (if take 5 location \<noteq> ''s3://''
      then Inl (UnknownError (''Object location has invalid prefix for S3 FileHandle: '' @ location @
             '' expected '' @ [CHR 0x27] @ ''s3://'' @ [CHR 0x27] @ '' as prefix.''))
      else case str_find_from CHR ''/'' location 5 of
          None \<Rightarrow> Inl (UnknownError (location @ '' invalid! Expected format: s3://bucket/path''))
        | Some splitpos \<Rightarrow>
            Inr (take (splitpos - 5) (drop 5 location), drop (splitpos + 1) location))"

definition geds_parse_location :: "string \<Rightarrow> string StatusOr" where
  "geds_parse_location location =
     (if take 7 location \<noteq> ''geds://''
      then Inl (InternalError (''Location has invalid prefix for GEDSRemoteFileHandle passed: '' @ location))
      else
        let hostname = drop 7 location in
        if length hostname = 0 then Inl (UnknownError ''Invalid hostname'') else Inr hostname)"

section \<open>GEDSS3FileHandle\<close>

record S3FileHandle = FileHandle +
  s3h_bucket :: string
  s3h_key :: string
  s3h_location :: string
  s3h_size :: u64
  s3h_readStatistics :: u64

definition S3FileHandle_mk ::
  "string \<Rightarrow> string \<Rightarrow> string option \<Rightarrow> string \<Rightarrow> string \<Rightarrow> u64 \<Rightarrow> S3FileHandle" where
  "S3FileHandle_mk bucket key metadata s3Bucket s3Key sz =
     FileHandle.extend (FileHandle_new bucket key metadata)
       \<lparr>s3h_bucket = s3Bucket, s3h_key = s3Key,
        s3h_location = ''s3://'' @ s3Bucket @ ''/'' @ s3Key, s3h_size = sz, s3h_readStatistics = 0\<rparr>"

text \<open>The constructor asks for the size unless it is given, and throws the status otherwise.\<close>

definition S3FileHandle_new ::
  "'w S3Client \<Rightarrow> string \<Rightarrow> string \<Rightarrow> string option \<Rightarrow> string \<Rightarrow> string \<Rightarrow> u64 option \<Rightarrow> 'w s3_state
     \<Rightarrow> S3FileHandle StatusOr \<times> 'w s3_state" where
  "S3FileHandle_new cl bucket key metadata s3Bucket s3Key fileSize st =
     (case fileSize of
        Some n \<Rightarrow> (Inr (S3FileHandle_mk bucket key metadata s3Bucket s3Key n), st)
      | None \<Rightarrow>
          (case Endpoint_fileStatus cl s3Bucket s3Key st of
             (Inl s, st') \<Rightarrow> (Inl s, st')
           | (Inr fileStatus, st') \<Rightarrow>
               (Inr (S3FileHandle_mk bucket key metadata s3Bucket s3Key (fs_size fileStatus)), st')))"

definition S3FileHandle_factory_at ::
  "(string \<Rightarrow> 'w S3Client StatusOr) \<Rightarrow> string \<Rightarrow> string \<Rightarrow> string option \<Rightarrow> string \<Rightarrow> string \<Rightarrow> 'w s3_state
     \<Rightarrow> S3FileHandle StatusOr \<times> 'w s3_state" where
  "S3FileHandle_factory_at getS3Endpoint bucket key metadata s3Bucket s3Key st =
     (case getS3Endpoint s3Bucket of
        Inl s \<Rightarrow> (Inl s, st)
      | Inr cl \<Rightarrow>
          (case Endpoint_fileStatus cl s3Bucket s3Key st of
             (Inl s, st') \<Rightarrow> (Inl s, st')
           | (Inr exists, st') \<Rightarrow> S3FileHandle_new cl bucket key metadata s3Bucket s3Key None st'))"

definition S3FileHandle_factory_object where
  "S3FileHandle_factory_object getS3Endpoint object' st =
     (case s3_parse_location (info_location (obj_info object')) of
        Inl s \<Rightarrow> (Inl s, st)
      | Inr (s3Bucket, s3Key) \<Rightarrow>
          S3FileHandle_factory_at getS3Endpoint (obj_bucket object') (obj_key object')
            (info_metadata (obj_info object')) s3Bucket s3Key st)"

definition S3FileHandle_factory where
  "S3FileHandle_factory getS3Endpoint bucket key metadata st =
     S3FileHandle_factory_at getS3Endpoint bucket key metadata bucket key st"

definition S3FileHandle_size :: "S3FileHandle \<Rightarrow> u64 StatusOr" where
  "S3FileHandle_size h = Inr (s3h_size h)"

text \<open>Any failed read marks the handle as invalid.\<close>

definition S3FileHandle_readBytes ::
  "'w S3Client \<Rightarrow> size_t \<Rightarrow> size_t \<Rightarrow> S3FileHandle \<times> 'w s3_state
     \<Rightarrow> (size_t \<times> byte list) StatusOr \<times> S3FileHandle \<times> 'w s3_state" where
  "S3FileHandle_readBytes cl position length' hst =
     (case hst of (h, st) \<Rightarrow>
      if \<not> fh_isValid h then (Inl (NotFoundError ''The file is no longer valid!''), h, st)
      else case Endpoint_readBytes cl (s3h_bucket h) (s3h_key h) position length' st of
          (Inl s, st') \<Rightarrow> (Inl s, h\<lparr>fh_isValid := False\<rparr>, st')
        | (Inr (n, bytes), st') \<Rightarrow>
            (Inr (n, bytes), h\<lparr>s3h_readStatistics := s3h_readStatistics h + of_nat n\<rparr>, st'))"

text \<open>
  \<open>downloadRange\<close> of an S3 handle fetches the range in one request, for the bucket and key of the
  GEDS object, and writes it as a stream.
\<close>

definition S3FileHandle_downloadRange where
  "S3FileHandle_downloadRange cl wr srcPosition length' destPosition hst =
     (case hst of (h, st) \<Rightarrow>
      case Endpoint_read cl (fh_bucket h) (fh_key h) (Some srcPosition) (Some length') False st of
        (Inl s, st') \<Rightarrow> (Inl s, h, st')
      | (Inr (count, bytes), st') \<Rightarrow>
          (let h' = h\<lparr>s3h_readStatistics := s3h_readStatistics h + of_nat count\<rparr> in
           case wr bytes destPosition (Some count) of
             status \<Rightarrow> if \<not> status_ok status then (Inl status, h', st') else (Inr count, h', st')))"

definition S3FileHandle_seal where
  "S3FileHandle_seal seal h w =
     seal (fh_bucket h) (fh_key h) (fh_metadata h) False (unat (s3h_size h)) (Some (s3h_location h)) w"

section \<open>GEDSRemoteFileHandle\<close>

record RemoteFileHandle = FileHandle +
  rh_info :: ObjectInfo
  rh_host :: string
  rh_statistics :: u64

definition RemoteFileHandle_factory ::
  "(string \<Rightarrow> 'w \<Rightarrow> unit StatusOr \<times> 'w) \<Rightarrow> Object \<Rightarrow> 'w \<Rightarrow> RemoteFileHandle StatusOr \<times> 'w" where
  "RemoteFileHandle_factory getFileTransferService object' w =
     (case geds_parse_location (info_location (obj_info object')) of
        Inl s \<Rightarrow> (Inl s, w)
      | Inr hostname \<Rightarrow>
          (case getFileTransferService hostname w of
             (Inl s, w') \<Rightarrow> (Inl s, w')
           | (Inr _, w') \<Rightarrow>
               (Inr (FileHandle.extend (FileHandle_new (obj_bucket object') (obj_key object')
                       (info_metadata (obj_info object')))
                     \<lparr>rh_info = obj_info object', rh_host = hostname, rh_statistics = 0\<rparr>), w')))"

definition RemoteFileHandle_readBytes ::
  "(string \<Rightarrow> string \<Rightarrow> size_t \<Rightarrow> size_t \<Rightarrow> 'w \<Rightarrow> (size_t \<times> byte list) StatusOr \<times> 'w)
     \<Rightarrow> size_t \<Rightarrow> size_t \<Rightarrow> RemoteFileHandle \<times> 'w \<Rightarrow> (size_t \<times> byte list) StatusOr \<times> RemoteFileHandle \<times> 'w" where
  "RemoteFileHandle_readBytes transfer position length' hw =
     (case hw of (h, w) \<Rightarrow>
      if length' = 0 then (Inr (0, []), h, w)
      else case transfer (fh_bucket h) (fh_key h) position length' w of
          (Inl s, w') \<Rightarrow> (Inl s, h, w')
        | (Inr (n, bytes), w') \<Rightarrow>
            (Inr (n, bytes), h\<lparr>rh_statistics := rh_statistics h + of_nat n\<rparr>, w'))"

definition RemoteFileHandle_size :: "RemoteFileHandle \<Rightarrow> u64 StatusOr" where
  "RemoteFileHandle_size h = Inr (info_size (rh_info h))"

definition RemoteFileHandle_seal :: "RemoteFileHandle \<Rightarrow> Status" where
  "RemoteFileHandle_seal h = FailedPreconditionError ''Remote files cannot be sealed!''"

section \<open>Lemmas\<close>

lemma s3_parse_location_mk:
  assumes "CHR ''/'' \<notin> set b"
  shows "s3_parse_location (''s3://'' @ b @ ''/'' @ k) = Inr (b, k)"
  using assms by (simp add: s3_parse_location_def str_find_from_def str_simps eval_nat_numeral)

text \<open>
  Location round trip: for a bucket without slash, the location that the metadata server records
  for an S3 object is parsed by the S3 handle into the same bucket and key exactly when the key does
  not start with a slash; otherwise the leading slash is lost and another object is addressed.
\<close>

theorem populate_location_roundtrip:
  assumes "CHR ''/'' \<notin> set b"
  shows "s3_parse_location (info_location (obj_info (populate_object b f))) =
    Inr (b, if prefix ''/'' (fs_key f) then tl (fs_key f) else fs_key f)"
proof (cases "fs_key f")
  case Nil
  then show ?thesis
    using s3_parse_location_mk [OF assms, of "''''"] by (simp add: populate_object_def Let_def)
next
  case (Cons c k)
  then show ?thesis
    using s3_parse_location_mk [OF assms, of k] s3_parse_location_mk [OF assms, of "c # k"]
    by (cases "c = CHR ''/''") (simp_all add: populate_object_def Let_def)
qed

theorem populate_location_roundtrip_witness:
  "s3_parse_location (info_location (obj_info (populate_object ''bkt'' (mk_FileStatus ''/k'' 3 False)))) =
     Inr (''bkt'', ''k'')"
  using populate_location_roundtrip [of "''bkt''" "mk_FileStatus ''/k'' 3 False"] by simp

text \<open>
  Reading through an S3 handle: while the service answers, a valid handle returns exactly the
  requested range of its S3 object and stays valid; an invalid handle refuses without a request; a
  failed read invalidates the handle.
\<close>

theorem S3FileHandle_read_range:
  assumes "s3_serves cl (s3_remote st) (s3h_bucket h) (s3h_key h) content" "position + length' < 2 ^ 64"
  shows "fst (S3FileHandle_readBytes cl position length' (h, st)) =
      (if fh_isValid h
       then Inr (min length' (length content - position), take length' (drop position content))
       else Inl (NotFoundError ''The file is no longer valid!'')) \<and>
    fh_isValid (fst (snd (S3FileHandle_readBytes cl position length' (h, st)))) = fh_isValid h"
  using Endpoint_readBytes_loop_range [OF assms, of 0 "[]"]
  by (auto simp: S3FileHandle_readBytes_def Endpoint_readBytes_def Let_def min.commute split: prod.splits sum.splits)

theorem S3FileHandle_read_range_witness:
  "fst (S3FileHandle_readBytes memory_client 1 2
     (S3FileHandle_mk ''bkt'' ''k'' None ''bkt'' ''k'' 3, memory_state [(''k'', [1, 2, 3])])) =
     Inr (2, [2, 3])"
proof -
  let ?h = "S3FileHandle_mk ''bkt'' ''k'' None ''bkt'' ''k'' 3"
  have h: "s3h_bucket ?h = ''bkt''" "s3h_key ?h = ''k''" "fh_isValid ?h"
    by (simp_all add: S3FileHandle_mk_def FileHandle.extend_def FileHandle_new_def)
  have "s3_serves memory_client (s3_remote (memory_state [(''k'', [1, 2, 3])])) (s3h_bucket ?h)
      (s3h_key ?h) [1, 2, 3]"
    unfolding h by (rule memory_client_serves) (simp_all add: memory_state_def)
  from S3FileHandle_read_range [OF this, of 1 2] h(3) show ?thesis by simp
qed

end
