(* ===== verification/Local_Handle.thy ===== *)
theory Local_Handle
  imports Remote_Handles
begin

text \<open>
  The handle of a file on local storage, \<^verbatim>\<open>src/libgeds/GEDSAbstractFileHandle.h\<close>. The class template
  takes the file class as a parameter; here this is a record of its operations, with the instances
  \<open>LocalFile_class\<close> (the one the program uses, \<^verbatim>\<open>GEDSLocalFileHandle.h\<close>) and \<open>MMAPFile_class\<close>. The
  main results are the life cycle of sealing and that relocation to S3 never loses data.
\<close>

section \<open>The template parameter\<close>

record 'f file_class =
  fc_label :: string
  fc_size :: "'f \<Rightarrow> size_t"
  fc_localStorageSize :: "'f \<Rightarrow> size_t"
  fc_localMemorySize :: "'f \<Rightarrow> size_t"
  fc_readBytes :: "'f \<Rightarrow> size_t \<Rightarrow> size_t \<Rightarrow> (size_t \<times> byte list) StatusOr \<times> 'f"
  fc_writeBytes :: "'f \<Rightarrow> byte list \<Rightarrow> size_t \<Rightarrow> Status \<times> 'f"
  fc_write :: "'f \<Rightarrow> byte list \<Rightarrow> size_t \<Rightarrow> size_t option \<Rightarrow> size_t StatusOr \<times> 'f"
  fc_truncate :: "'f \<Rightarrow> size_t \<Rightarrow> Status \<times> 'f"
  fc_fsync :: "'f \<Rightarrow> Status"
  fc_notifyUnused :: "'f \<Rightarrow> 'f"
  fc_rawFd :: "'f \<Rightarrow> int StatusOr"
  fc_rawPtr :: "'f \<Rightarrow> byte list StatusOr \<times> 'f"
  fc_stored :: "'f \<Rightarrow> byte list"

text \<open>\<open>script\<close>, \<open>steps\<close> and \<open>ftruncate\<close> are the behaviour of the system calls.\<close>

definition LocalFile_class ::
  "io_event list \<Rightarrow> (nat \<times> io_event list) list \<Rightarrow> string option \<Rightarrow> LocalFile file_class" where
  "LocalFile_class script steps ftruncate =
     \<lparr>fc_label = ''LocalFile'', fc_size = lf_size, fc_localStorageSize = LocalFile_localStorageSize,
      fc_localMemorySize = LocalFile_localMemorySize, fc_readBytes = LocalFile_reader script,
      fc_writeBytes = LocalFile_writeBytes script,
      fc_write = (\<lambda>f stream p n. LocalFile_write steps stream p n f),
      fc_truncate = LocalFile_truncate ftruncate, fc_fsync = LocalFile_fsync script,
      fc_notifyUnused = LocalFile_notifyUnused, fc_rawFd = LocalFile_rawFd,
      fc_rawPtr = (\<lambda>f. (case LocalFile_rawPtr f of Inl s \<Rightarrow> Inl s | Inr _ \<Rightarrow> Inr (lf_content f), f)),
      fc_stored = lf_content\<rparr>"

definition MMAPFile_class :: "nat \<Rightarrow> mmap_sys \<Rightarrow> io_event list \<Rightarrow> MMAPFile file_class" where
  "MMAPFile_class page sys script =
     \<lparr>fc_label = ''MMAPFile'', fc_size = mf_size, fc_localStorageSize = MMAPFile_localStorageSize,
      fc_localMemorySize = MMAPFile_localMemorySize, fc_readBytes = MMAPFile_readBytes page sys,
      fc_writeBytes = MMAPFile_writeBytes page sys, fc_write = MMAPFile_write page sys,
      fc_truncate = MMAPFile_truncate page sys, fc_fsync = MMAPFile_fsync script,
      fc_notifyUnused = MMAPFile_notifyUnused, fc_rawFd = MMAPFile_rawFd,
      fc_rawPtr = (\<lambda>f. case MMAPFile_rawPtr page sys f of
          (Inl s, f') \<Rightarrow> (Inl s, f') | (Inr _, f') \<Rightarrow> (Inr (mf_content f'), f')),
      fc_stored = mf_content\<rparr>"

section \<open>GEDSAbstractFileHandle\<close>

record 'f LocalHandle = FileHandle +
  lh_isSealed :: bool
  lh_file :: 'f
  lh_readStatistics :: u64
  lh_writeStatistics :: u64

definition LocalHandle_mk :: "string \<Rightarrow> string \<Rightarrow> string option \<Rightarrow> 'f \<Rightarrow> 'f LocalHandle" where
  "LocalHandle_mk bucket key metadata f =
     FileHandle.extend (FileHandle_new bucket key metadata)
       \<lparr>lh_isSealed = False, lh_file = f, lh_readStatistics = 0, lh_writeStatistics = 0\<rparr>"

text \<open>\<open>dirStatus\<close> is the result of creating the directory, \<open>file\<close> the outcome of the constructor.\<close>

definition LocalHandle_factory ::
  "string \<Rightarrow> string \<Rightarrow> string option \<Rightarrow> Status \<Rightarrow> 'f outcome \<Rightarrow> 'f LocalHandle StatusOr" where
  "LocalHandle_factory bucket key metadata dirStatus file =
     (if \<not> status_ok dirStatus then Inl dirStatus
      else case file of
          Raises what \<Rightarrow> Inl (UnknownError what)
        | Returns f \<Rightarrow> Inr (LocalHandle_mk bucket key metadata f))"

definition LocalHandle_size where
  "LocalHandle_size fc h = (Inr (fc_size fc (lh_file h)) :: size_t StatusOr)"

definition LocalHandle_localStorageSize where
  "LocalHandle_localStorageSize fc h = fc_localStorageSize fc (lh_file h)"

definition LocalHandle_localMemorySize where
  "LocalHandle_localMemorySize fc h = fc_localMemorySize fc (lh_file h)"

definition LocalHandle_readBytes ::
  "'f file_class \<Rightarrow> size_t \<Rightarrow> size_t \<Rightarrow> 'f LocalHandle \<Rightarrow> (size_t \<times> byte list) StatusOr \<times> 'f LocalHandle" where
  "LocalHandle_readBytes fc position length' h =
     (case fc_readBytes fc (lh_file h) position length' of
        (Inr (n, bytes), f) \<Rightarrow>
          (Inr (n, bytes), h\<lparr>lh_file := f, lh_readStatistics := lh_readStatistics h + of_nat n\<rparr>)
      | (Inl s, f) \<Rightarrow> (Inl s, h\<lparr>lh_file := f\<rparr>))"

definition LocalHandle_writeBytes ::
  "'f file_class \<Rightarrow> byte list \<Rightarrow> size_t \<Rightarrow> 'f LocalHandle \<Rightarrow> Status \<times> 'f LocalHandle" where
  "LocalHandle_writeBytes fc bytes position h =
     (case fc_writeBytes fc (lh_file h) bytes position of (status, f) \<Rightarrow>
        if status_ok status
        then (status, h\<lparr>lh_file := f, lh_writeStatistics := lh_writeStatistics h + of_nat (length bytes)\<rparr>)
        else (status, h\<lparr>lh_file := f\<rparr>))"

text \<open>The result of the file's \<open>write\<close> is only counted; the call always returns OK.\<close>

definition LocalHandle_write ::
  "'f file_class \<Rightarrow> byte list \<Rightarrow> size_t \<Rightarrow> size_t option \<Rightarrow> 'f LocalHandle \<Rightarrow> Status \<times> 'f LocalHandle" where
  "LocalHandle_write fc stream position lengthOptional h =
     (case fc_write fc (lh_file h) stream position lengthOptional of
        (Inr n, f) \<Rightarrow>
          (OkStatus, h\<lparr>lh_file := f, lh_writeStatistics := lh_writeStatistics h + of_nat n\<rparr>)
      | (Inl s, f) \<Rightarrow> (OkStatus, h\<lparr>lh_file := f\<rparr>))"

definition LocalHandle_truncate :: "'f file_class \<Rightarrow> size_t \<Rightarrow> 'f LocalHandle \<Rightarrow> Status \<times> 'f LocalHandle" where
  "LocalHandle_truncate fc targetSize h =
     (case fc_truncate fc (lh_file h) targetSize of (status, f) \<Rightarrow> (status, h\<lparr>lh_file := f\<rparr>))"

text \<open>
  The service's seal: bucket, key, metadata, whether the object was sealed before, its size and its
  location when it is not the local one.
\<close>

type_synonym 'm seal_service =
  "string \<Rightarrow> string \<Rightarrow> string option \<Rightarrow> bool \<Rightarrow> size_t \<Rightarrow> string option \<Rightarrow> 'm \<Rightarrow> Status \<times> 'm"

definition LocalHandle_seal ::
  "'f file_class \<Rightarrow> 'm seal_service option \<Rightarrow> 'f LocalHandle \<times> 'm \<Rightarrow> Status \<times> 'f LocalHandle \<times> 'm" where
  "LocalHandle_seal fc service hm =
     (case hm of (h, m) \<Rightarrow>
      let currentSize = fc_size fc (lh_file h) in
      case (case service of
              None \<Rightarrow> (OkStatus, m)
            | Some seal \<Rightarrow>
                seal (fh_bucket h) (fh_key h) (fh_metadata h) (lh_isSealed h) currentSize None m)
      of (status, m') \<Rightarrow> (status, (if status_ok status then h\<lparr>lh_isSealed := True\<rparr> else h), m'))"

definition LocalHandle_setMetadata ::
  "'f file_class \<Rightarrow> 'm seal_service option \<Rightarrow> string option \<Rightarrow> bool \<Rightarrow> 'f LocalHandle \<times> 'm
     \<Rightarrow> Status \<times> 'f LocalHandle \<times> 'm" where
  "LocalHandle_setMetadata fc service metadata seal hm =
     (case hm of (h, m) \<Rightarrow>
      let h' = h\<lparr>fh_metadata := metadata\<rparr> in
      if seal then LocalHandle_seal fc service (h', m) else (OkStatus, h', m))"

definition LocalHandle_notifyUnused :: "'f file_class \<Rightarrow> 'f LocalHandle \<Rightarrow> 'f LocalHandle" where
  "LocalHandle_notifyUnused fc h =
     (if fh_openCount h > 0 then h else h\<lparr>lh_file := fc_notifyUnused fc (lh_file h)\<rparr>)"

definition LocalHandle_rawFd :: "'f file_class \<Rightarrow> 'f LocalHandle \<Rightarrow> int StatusOr" where
  "LocalHandle_rawFd fc h =
     (let s = fc_fsync fc (lh_file h) in
      if \<not> status_ok s then Inl s else fc_rawFd fc (lh_file h))"

definition LocalHandle_rawPtr :: "'f file_class \<Rightarrow> 'f LocalHandle \<Rightarrow> byte list StatusOr \<times> 'f LocalHandle" where
  "LocalHandle_rawPtr fc h =
     (let s = fc_fsync fc (lh_file h) in
      if \<not> status_ok s then (Inl s, h)
      else case fc_rawPtr fc (lh_file h) of (r, f) \<Rightarrow> (r, h\<lparr>lh_file := f\<rparr>))"

text \<open>
  The bytes that relocation uploads: \<open>size\<close> bytes from the mapping, or from the file on disk when
  there is no mapping.
\<close>

definition relocate_bytes :: "'f file_class \<Rightarrow> 'f \<Rightarrow> byte list \<times> 'f" where
  "relocate_bytes fc f =
     (case fc_rawPtr fc f of
        (Inr bytes, f') \<Rightarrow> (take (fc_size fc f') bytes, f')
      | (Inl _, f') \<Rightarrow> (take (fc_size fc f') (fc_stored fc f'), f'))"

text \<open>Creating and sealing the S3 handle after a successful upload.\<close>

definition relocate_publish ::
  "(string \<Rightarrow> 'w S3Client StatusOr) \<Rightarrow> 'w S3Client \<Rightarrow> 'm seal_service \<Rightarrow> 'f LocalHandle \<Rightarrow> 'w s3_state \<Rightarrow> 'm
     \<Rightarrow> S3FileHandle StatusOr \<times> 'f LocalHandle \<times> 'w s3_state \<times> 'm" where
  "relocate_publish getS3Endpoint cl seal h st m =
     (case S3FileHandle_factory getS3Endpoint (fh_bucket h) (fh_key h) (fh_metadata h) st of
        (Inl s, st1) \<Rightarrow> (Inl s, h, st1, m)
      | (Inr fh, st1) \<Rightarrow>
          (case S3FileHandle_seal seal fh m of (status, m1) \<Rightarrow>
             if \<not> status_ok status
             then (Inl status, h, snd (Endpoint_deleteObject cl (fh_bucket h) (fh_key h) st1), m1)
             else (Inr fh, h\<lparr>fh_isValid := False\<rparr>, st1, m1)))"

definition LocalHandle_relocate ::
  "'f file_class \<Rightarrow> (string \<Rightarrow> 'w S3Client StatusOr) \<Rightarrow> 'm seal_service \<Rightarrow> 'f LocalHandle \<Rightarrow> 'w s3_state \<Rightarrow> 'm
     \<Rightarrow> S3FileHandle StatusOr \<times> 'f LocalHandle \<times> 'w s3_state \<times> 'm" where
  "LocalHandle_relocate fc getS3Endpoint seal h st m =
     (if \<not> isValid h
      then (Inl (UnavailableError (''The file '' @ fh_identifier h @ '' is no longer valid!'')), h, st, m)
      else if fh_openCount h > 0
      then (Inl (UnavailableError (''Unable to relocate '' @ fh_identifier h @
              '' reason: The file is still in use.'')), h, st, m)
      else case getS3Endpoint (fh_bucket h) of
          Inl _ \<Rightarrow> (Inl (UnavailableError (''Unable to relocate '' @ fh_identifier h @
              '' reason: No tier configured for '' @ fh_bucket h)), h, st, m)
        | Inr cl \<Rightarrow>
            let syncStatus = fc_fsync fc (lh_file h) in
            if \<not> status_ok syncStatus then (Inl syncStatus, h, st, m)
            else case relocate_bytes fc (lh_file h) of (bytes, f) \<Rightarrow>
              let h1 = h\<lparr>lh_file := f\<rparr> in
              case Endpoint_putObject cl (fh_bucket h) (fh_key h) bytes st of (s3Put, st1) \<Rightarrow>
                if \<not> status_ok s3Put
                then (Inl (UnknownError (''Unable to relocate '' @ fh_identifier h @
                        '' to s3: Reason '' @ status_message s3Put)), h1, st1, m)
                else relocate_publish getS3Endpoint cl seal h1 st1 m)"

section \<open>Relocation\<close>

lemma lh_file_same [simp]: "h\<lparr>lh_file := lh_file h\<rparr> = h"
  by (cases h) simp

lemma convertS3Error_not_ok [simp]: "\<not> status_ok (convertS3Error e a k)"
  by (simp add: convertS3Error_def)

lemma Endpoint_putObject_ok:
  "status_ok (fst (Endpoint_putObject cl b k bytes st)) \<longleftrightarrow>
     fst (cl_PutObject cl (b, k, bytes) (s3_remote st)) = Outcome (Inr ())"
  by (auto simp: Endpoint_putObject_def s3_send_def split: prod.splits put_result.splits sum.splits
      option.splits)

lemma S3FileHandle_factory_fields:
  "fst (S3FileHandle_factory g b k md st) = Inr fh \<Longrightarrow>
     fh_bucket fh = b \<and> fh_key fh = k \<and> fh_metadata fh = md \<and> s3h_location fh = ''s3://'' @ b @ ''/'' @ k"
  by (auto simp: S3FileHandle_factory_def S3FileHandle_factory_at_def S3FileHandle_new_def
      S3FileHandle_mk_def FileHandle.extend_def FileHandle_new_def split: sum.splits prod.splits)

lemma relocate_publish_cases:
  assumes "relocate_publish g cl seal h st m = (r, h', st', m')"
  shows "case r of
      Inl e \<Rightarrow> h' = h
    | Inr fh \<Rightarrow> h' = h\<lparr>fh_isValid := False\<rparr> \<and> (\<exists>s. status_ok s \<and>
        seal (fh_bucket h) (fh_key h) (fh_metadata h) False (unat (s3h_size fh))
          (Some (''s3://'' @ fh_bucket h @ ''/'' @ fh_key h)) m = (s, m'))"
proof (cases "fst (S3FileHandle_factory g (fh_bucket h) (fh_key h) (fh_metadata h) st)")
  case (Inl e)
  with assms show ?thesis by (auto simp: relocate_publish_def split: prod.splits)
next
  case (Inr fh)
  then obtain st1 where f: "S3FileHandle_factory g (fh_bucket h) (fh_key h) (fh_metadata h) st = (Inr fh, st1)"
    by (metis prod.collapse)
  with assms S3FileHandle_factory_fields [OF Inr] show ?thesis
    by (auto simp: relocate_publish_def S3FileHandle_seal_def split: prod.splits if_splits)
qed

text \<open>What relocation uploads is the whole file, for both file classes.\<close>

lemma relocate_bytes_local:
  "lf_inv f \<Longrightarrow> relocate_bytes (LocalFile_class script steps tr) f = (lf_content f, f)"
  by (simp add: relocate_bytes_def LocalFile_class_def LocalFile_rawPtr_def lf_inv_def)

lemma relocate_bytes_mmap:
  "mf_inv page f \<Longrightarrow> relocate_bytes (MMAPFile_class page sys script) f = (mf_contents f, f)"
  by (simp add: relocate_bytes_def MMAPFile_class_def MMAPFile_rawPtr_def MMAPFile_reopen_def mf_inv_def
      mf_contents_def)

text \<open>
  C4. Relocation never loses data. If it succeeds, the file was valid and not open, S3 accepted a
  put of exactly the file's bytes under the object's bucket and key, the metadata service accepted
  the \<open>s3://\<close> location, and only then the local handle was marked invalid. If it fails, the
  handle keeps its validity and the file its bytes.
\<close>

theorem LocalHandle_relocate_safe:
  assumes "lf_inv (lh_file h)"
    and "LocalHandle_relocate (LocalFile_class script steps tr) g seal h st m = (r, h', st', m')"
  shows "lh_file h' = lh_file h \<and>
    (case r of
       Inl e \<Rightarrow> fh_isValid h' = fh_isValid h
     | Inr fh \<Rightarrow> fh_isValid h \<and> fh_openCount h \<le> 0 \<and> \<not> fh_isValid h' \<and>
        (\<exists>cl. g (fh_bucket h) = Inr cl \<and>
           fst (cl_PutObject cl (fh_bucket h, fh_key h, lf_content (lh_file h)) (s3_remote st)) =
             Outcome (Inr ())) \<and>
        (\<exists>s. status_ok s \<and> seal (fh_bucket h) (fh_key h) (fh_metadata h) False (unat (s3h_size fh))
           (Some (''s3://'' @ fh_bucket h @ ''/'' @ fh_key h)) m = (s, m')))"
proof -
  let ?fc = "LocalFile_class script steps tr" and ?c = "lf_content (lh_file h)"
  consider (early) e where "r = Inl e" "h' = h"
    | (tried) cl where "isValid h" "fh_openCount h \<le> 0" "g (fh_bucket h) = Inr cl"
      "LocalHandle_relocate ?fc g seal h st m =
        (case Endpoint_putObject cl (fh_bucket h) (fh_key h) ?c st of (s3Put, st1) \<Rightarrow>
           if \<not> status_ok s3Put
           then (Inl (UnknownError (''Unable to relocate '' @ fh_identifier h @
                   '' to s3: Reason '' @ status_message s3Put)), h, st1, m)
           else relocate_publish g cl seal h st1 m)"
    using assms(2) relocate_bytes_local [OF assms(1), of script steps tr]
    by (cases "g (fh_bucket h)"; cases "isValid h"; cases "fh_openCount h > 0";
        cases "status_ok (fc_fsync ?fc (lh_file h))")
      (auto simp: LocalHandle_relocate_def Let_def cong: prod.case_cong if_cong)
  then show ?thesis
  proof cases
    case early
    then show ?thesis by simp
  next
    case tried
    obtain s1 st1 where p: "Endpoint_putObject cl (fh_bucket h) (fh_key h) ?c st = (s1, st1)" by force
    show ?thesis
    proof (cases "status_ok s1")
      case False
      with assms(2) tried p show ?thesis by auto
    next
      case True
      with assms(2) tried(4) p have "relocate_publish g cl seal h st1 m = (r, h', st', m')" by simp
      from relocate_publish_cases [OF this] True tried p
        Endpoint_putObject_ok [of cl "fh_bucket h" "fh_key h" ?c st]
      show ?thesis by (auto simp: isValid_def split: sum.splits)
    qed
  qed
qed

definition sample_handle :: "LocalFile LocalHandle" where
  "sample_handle = LocalHandle_mk ''bkt'' ''k'' None (empty_file\<lparr>lf_size := 2, lf_content := [4, 5]\<rparr>)"

definition log_seal :: "(string \<times> string option) list seal_service" where
  "log_seal b k md update n uri log = (OkStatus, (k, uri) # log)"

theorem LocalHandle_relocate_safe_witness:
  "\<exists>r h' st' m'. LocalHandle_relocate (LocalFile_class [] [] None) (\<lambda>_. Inr memory_client) log_seal
       sample_handle (memory_state []) [] = (r, h', st', m') \<and>
     is_ok r \<and> \<not> fh_isValid h' \<and> lh_file h' = lh_file sample_handle \<and>
     map_of (s3_remote st') ''k'' = Some [4, 5]"
proof -
  let ?x = "LocalHandle_relocate (LocalFile_class [] [] None) (\<lambda>_. Inr memory_client) log_seal
    sample_handle (memory_state []) []"
  obtain r h' st' m' where x: "?x = (r, h', st', m')" by (metis surj_pair)
  have "is_ok (fst ?x)" "map_of (s3_remote (fst (snd (snd ?x)))) ''k'' = Some [4, 5]"
    by (simp_all add: LocalHandle_relocate_def relocate_publish_def relocate_bytes_def LocalFile_class_def
        sample_handle_def LocalHandle_mk_def FileHandle.extend_def FileHandle_new_def empty_file_def
        isValid_def LocalFile_fsync_def LocalFile_rawPtr_def Endpoint_putObject_def s3_send_def
        memory_client_def memory_state_def S3FileHandle_factory_def S3FileHandle_factory_at_def
        S3FileHandle_new_def S3FileHandle_mk_def S3FileHandle_seal_def Endpoint_fileStatus_def
        log_seal_def)
  then have ok: "is_ok r" "map_of (s3_remote st') ''k'' = Some [4, 5]" using x by simp_all
  have "lf_inv (lh_file sample_handle)"
    by (simp add: lf_inv_def sample_handle_def LocalHandle_mk_def FileHandle.extend_def empty_file_def)
  from LocalHandle_relocate_safe [OF this x] ok x show ?thesis by (auto simp: is_ok_iff)
qed

text \<open>
  A failed stream write is reported as success: when the file's write fails at its first system
  call, \<open>write\<close> of the handle still returns OK, and the file keeps its bytes.
\<close>

theorem LocalHandle_write_hides_errors:
  assumes "lf_inv (lh_file h)" "stream \<noteq> []" "0 < n" "position \<le> INT64_MAX" "0 < len"
  shows "\<exists>h'. LocalHandle_write (LocalFile_class script [(n, [Failed err])] tr) stream position (Some len) h =
      (OkStatus, h') \<and> lf_content (lh_file h') = lf_content (lh_file h) \<and>
    (\<exists>e. fst (LocalFile_write [(n, [Failed err])] stream position (Some len) (lh_file h)) = Inl (UnknownError e))"
proof -
  let ?f = "lh_file h" and ?k = "min (min 4096 len) (min n (length stream))"
  have k: "0 < ?k" using assms by (cases stream) auto
  have p: "wrap64 position = position" using assms(4) by (simp add: INT64_MAX_def)
  have "0 < min (length (take ?k stream)) SSIZE_MAX" using k by (simp add: SSIZE_MAX_def)
  then have w: "LocalFile_writeBytes [Failed err] ?f (take ?k stream) position =
      (UnknownError (''Error writing '' @ lf_path ?f @ '': '' @ err), ?f)"
    using assms(4) by (subst LocalFile_writeBytes_def, subst LocalFile_write_loop.simps) auto
  have "LocalFile_write [(n, [Failed err])] stream position (Some len) ?f =
      (Inl (UnknownError (''Error writing '' @ lf_path ?f @ '': '' @ err)), ?f)"
    unfolding LocalFile_write_def using w p by (subst LocalFile_write_stream.simps) (simp add: Let_def)
  then show ?thesis by (simp add: LocalHandle_write_def LocalFile_class_def)
qed

theorem LocalHandle_write_hides_errors_witness:
  "\<exists>h'. LocalHandle_write (LocalFile_class [] [(1, [Failed ''EIO''])] None) [9] 0 (Some 1) sample_handle =
      (OkStatus, h') \<and> lf_content (lh_file h') = [4, 5]"
proof -
  have "lf_inv (lh_file sample_handle)" and c: "lf_content (lh_file sample_handle) = [4, 5]"
    by (simp_all add: lf_inv_def sample_handle_def LocalHandle_mk_def FileHandle.extend_def empty_file_def)
  from LocalHandle_write_hides_errors [OF this(1), of "[9]" 1 0 1 "[]" "''EIO''" None] c show ?thesis
    by auto
qed

end
