(* ===== verification/Handle_Heap.thy ===== *)
theory Handle_Heap
  imports Service_Contract Local_Handle
begin

text \<open>
  The service with its file handles: every handle class of the sources is one constructor of an object, objects
  live in a heap, and the virtual methods of the service dispatch on the constructor to the model of
  the class. This closes the circle of calls between service and handles: sealing and relocating a
  local handle call the service, reading through a relocatable handle reopens the object.
  The factory of cached handles stays a parameter; their block cache is modelled on its own.
\<close>

section \<open>Objects\<close>

datatype handle_object =
    HLocal "LocalFile LocalHandle"
  | HRemote RemoteFileHandle
  | HS3 S3FileHandle
  | HRelocatable "nat Relocatable"

record heap =
  hp_next :: nat
  hp_objects :: "nat \<rightharpoonup> handle_object"
  hp_clock :: nat

definition empty_heap :: heap where
  "empty_heap = \<lparr>hp_next = 0, hp_objects = (\<lambda>_. None), hp_clock = 0\<rparr>"

type_synonym ('s, 'x) node = "('s, 'x, heap) GEDS"

definition object_at :: "nat \<Rightarrow> ('s, 'x) node \<Rightarrow> handle_object option" where
  "object_at h g = hp_objects (g_heap g) h"

definition put_object :: "nat \<Rightarrow> handle_object \<Rightarrow> ('s, 'x) node \<Rightarrow> ('s, 'x) node" where
  "put_object h ob g = g\<lparr>g_heap := (g_heap g)\<lparr>hp_objects := (hp_objects (g_heap g))(h \<mapsto> ob)\<rparr>\<rparr>"

definition new_object :: "handle_object \<Rightarrow> ('s, 'x) node \<Rightarrow> nat \<times> ('s, 'x) node" where
  "new_object ob g =
     (let h = hp_next (g_heap g)
      in (h, put_object h ob (g\<lparr>g_heap := (g_heap g)\<lparr>hp_next := Suc h\<rparr>\<rparr>)))"

definition tick :: "('s, 'x) node \<Rightarrow> ('s, 'x) node" where
  "tick g = g\<lparr>g_heap := (g_heap g)\<lparr>hp_clock := Suc (hp_clock (g_heap g))\<rparr>\<rparr>"

definition object_base :: "handle_object \<Rightarrow> FileHandle" where
  "object_base ob =
     (case ob of HLocal h \<Rightarrow> FileHandle.truncate h | HRemote h \<Rightarrow> FileHandle.truncate h
      | HS3 h \<Rightarrow> FileHandle.truncate h | HRelocatable h \<Rightarrow> FileHandle.truncate h)"

definition base_of :: "nat \<Rightarrow> ('s, 'x) node \<Rightarrow> FileHandle" where
  "base_of h g = (case object_at h g of None \<Rightarrow> FileHandle_new '''' '''' None | Some ob \<Rightarrow> object_base ob)"

section \<open>The world of a node\<close>

text \<open>
  What a node does not decide itself: the metadata server, S3, the results of system calls, the
  other nodes, and the factory of cached handles.
\<close>

record ('s, 'x) host =
  ho_stub :: "'s Stub"
  ho_client :: "Endpoint \<Rightarrow> 'x S3Client"
  ho_script :: "io_event list"
  ho_steps :: "(nat \<times> io_event list) list"
  ho_ftruncate :: "string option"
  ho_mkdir :: "string \<Rightarrow> Status"
  ho_openFile :: "string \<Rightarrow> string + int"
  ho_transfer :: "string \<Rightarrow> string \<Rightarrow> string \<Rightarrow> size_t \<Rightarrow> size_t \<Rightarrow> (size_t \<times> byte list) StatusOr"
  ho_connect :: "string \<Rightarrow> Status"
  ho_cached :: "Object \<Rightarrow> nat StatusOr"

definition local_class :: "('s, 'x) host \<Rightarrow> LocalFile file_class" where
  "local_class ho = LocalFile_class (ho_script ho) (ho_steps ho) (ho_ftruncate ho)"

definition getS3 :: "('s, 'x) host \<Rightarrow> ('s, 'x) node \<Rightarrow> string \<Rightarrow> 'x S3Client StatusOr" where
  "getS3 ho g bucket =
     (case ObjectStores_get bucket (g_objectStores g) of Inl s \<Rightarrow> Inl s | Inr e \<Rightarrow> Inr (ho_client ho e))"

text \<open>The seal of the service, as the handles call it.\<close>

definition node_seal :: "('s, 'x) host \<Rightarrow> ('s, 'x) node seal_service" where
  "node_seal ho = (\<lambda>bucket key metadata update sz uri g.
     seal_object (ho_stub ho) bucket key metadata update sz uri g)"

section \<open>Factories\<close>

definition heap_newLocal where
  "heap_newLocal ho bucket key path g =
     (case LocalHandle_factory bucket key None (ho_mkdir ho path)
             (LocalFile_new path True (ho_openFile ho path) None []) of
        Inl s \<Rightarrow> (Inl s, g)
      | Inr h \<Rightarrow> (case new_object (HLocal h) g of (i, g') \<Rightarrow> (Inr i, g')))"

text \<open>A transfer service is known by the host it connects to; its number is the position in time.\<close>

definition heap_transfer where
  "heap_transfer ho hostname g =
     (case transfer_service (\<lambda>_ g. (hp_clock (g_heap g), tick g)) (\<lambda>_ g. (ho_connect ho hostname, g)) hostname g of
        (Inl s, g') \<Rightarrow> (Inl s, g') | (Inr _, g') \<Rightarrow> (Inr (), g'))"

definition heap_newRemote where
  "heap_newRemote ho object' g =
     (case RemoteFileHandle_factory (heap_transfer ho) object' g of
        (Inl s, g') \<Rightarrow> (Inl s, g')
      | (Inr h, g') \<Rightarrow> (case new_object (HRemote h) g' of (i, g'') \<Rightarrow> (Inr i, g'')))"

definition heap_newS3 where
  "heap_newS3 ho object' g =
     (case S3FileHandle_factory_object (getS3 ho g) object' (g_s3 g) of
        (Inl s, st) \<Rightarrow> (Inl s, g\<lparr>g_s3 := st\<rparr>)
      | (Inr h, st) \<Rightarrow> (case new_object (HS3 h) (g\<lparr>g_s3 := st\<rparr>) of (i, g') \<Rightarrow> (Inr i, g')))"

definition heap_wrap where
  "heap_wrap h g =
     new_object (HRelocatable (Relocatable_factory (fh_bucket (base_of h g)) (fh_key (base_of h g)) h)) g"

section \<open>Open counts\<close>

definition heap_open :: "nat \<Rightarrow> ('s, 'x) node \<Rightarrow> nat StatusOr \<times> ('s, 'x) node" where
  "heap_open h g =
     (let now = hp_clock (g_heap g) in
      (Inr h, tick (case object_at h g of
          Some (HLocal x) \<Rightarrow> put_object h (HLocal (increaseOpenCount now x)) g
        | Some (HRemote x) \<Rightarrow> put_object h (HRemote (increaseOpenCount now x)) g
        | Some (HS3 x) \<Rightarrow> put_object h (HS3 (increaseOpenCount now x)) g
        | Some (HRelocatable x) \<Rightarrow> put_object h (HRelocatable (increaseOpenCount now x)) g
        | None \<Rightarrow> g)))"

definition heap_notifyUnused :: "('s, 'x) host \<Rightarrow> nat \<Rightarrow> ('s, 'x) node \<Rightarrow> ('s, 'x) node" where
  "heap_notifyUnused ho h g =
     (case object_at h g of
        Some (HLocal x) \<Rightarrow> put_object h (HLocal (LocalHandle_notifyUnused (local_class ho) x)) g
      | _ \<Rightarrow> g)"

text \<open>The last close of a wrapper tells the wrapped handle.\<close>

definition heap_close :: "('s, 'x) host \<Rightarrow> nat \<Rightarrow> ('s, 'x) node \<Rightarrow> ('s, 'x) node" where
  "heap_close ho h g =
     (let now = hp_clock (g_heap g) in
      tick (case object_at h g of
          Some (HLocal x) \<Rightarrow>
            put_object h (HLocal (decreaseOpenCount (LocalHandle_notifyUnused (local_class ho)) now x)) g
        | Some (HRemote x) \<Rightarrow> put_object h (HRemote (decreaseOpenCount (\<lambda>x. x) now x)) g
        | Some (HS3 x) \<Rightarrow> put_object h (HS3 (decreaseOpenCount (\<lambda>x. x) now x)) g
        | Some (HRelocatable x) \<Rightarrow>
            (let x' = decreaseOpenCount (\<lambda>x. x) now x; g' = put_object h (HRelocatable x') g
             in if fh_openCount x' = 0 then heap_notifyUnused ho (rl_fileHandle x') g' else g')
        | None \<Rightarrow> g))"
section \<open>Virtual methods of the wrapped classes\<close>

definition base_size where
  "base_size ho h g =
     (case object_at h g of
        Some (HLocal x) \<Rightarrow> LocalHandle_size (local_class ho) x
      | Some (HRemote x) \<Rightarrow> (case RemoteFileHandle_size x of Inl s \<Rightarrow> Inl s | Inr n \<Rightarrow> Inr (unat n))
      | Some (HS3 x) \<Rightarrow> (case S3FileHandle_size x of Inl s \<Rightarrow> Inl s | Inr n \<Rightarrow> Inr (unat n))
      | _ \<Rightarrow> Inl read_unavailable)"

definition base_localStorageSize where
  "base_localStorageSize ho h g =
     (case object_at h g of Some (HLocal x) \<Rightarrow> LocalHandle_localStorageSize (local_class ho) x | _ \<Rightarrow> 0)"

definition base_localMemorySize where
  "base_localMemorySize ho h g =
     (case object_at h g of Some (HLocal x) \<Rightarrow> LocalHandle_localMemorySize (local_class ho) x | _ \<Rightarrow> 0)"

definition base_isWriteable where
  "base_isWriteable h g = (case object_at h g of Some (HLocal x) \<Rightarrow> True | _ \<Rightarrow> False)"

definition base_setMetadata where
  "base_setMetadata ho h metadata seal g =
     (case object_at h g of
        Some (HLocal x) \<Rightarrow>
          (case LocalHandle_setMetadata (local_class ho) (Some (node_seal ho)) metadata seal (x, g) of
             (status, x', g') \<Rightarrow> (status, put_object h (HLocal x') g'))
      | _ \<Rightarrow> (setMetadata_unavailable, g))"

definition base_readBytes where
  "base_readBytes ho h position length' g =
     (case object_at h g of
        Some (HLocal x) \<Rightarrow>
          (case LocalHandle_readBytes (local_class ho) position length' x of
             (r, x') \<Rightarrow> (r, put_object h (HLocal x') g))
      | Some (HRemote x) \<Rightarrow>
          (case RemoteFileHandle_readBytes (\<lambda>b k p n g. (ho_transfer ho (rh_host x) b k p n, g))
                  position length' (x, g) of
             (r, x', g') \<Rightarrow> (r, put_object h (HRemote x') g'))
      | Some (HS3 x) \<Rightarrow>
          (case getS3 ho g (s3h_bucket x) of
             Inl s \<Rightarrow> (Inl s, g)
           | Inr cl \<Rightarrow>
               (case S3FileHandle_readBytes cl position length' (x, g_s3 g) of
                  (r, x', st) \<Rightarrow> (r, put_object h (HS3 x') (g\<lparr>g_s3 := st\<rparr>))))
      | _ \<Rightarrow> (Inl read_unavailable, g))"

definition base_writeBytes where
  "base_writeBytes ho h bytes position g =
     (case object_at h g of
        Some (HLocal x) \<Rightarrow>
          (case LocalHandle_writeBytes (local_class ho) bytes position x of
             (status, x') \<Rightarrow> (status, put_object h (HLocal x') g))
      | _ \<Rightarrow> (writeBytes_unavailable, g))"

definition base_write where
  "base_write ho h stream position lengthOptional g =
     (case object_at h g of
        Some (HLocal x) \<Rightarrow>
          (case LocalHandle_write (local_class ho) stream position lengthOptional x of
             (status, x') \<Rightarrow> (status, put_object h (HLocal x') g))
      | _ \<Rightarrow> (write_unavailable, g))"

definition base_truncate where
  "base_truncate ho h targetSize g =
     (case object_at h g of
        Some (HLocal x) \<Rightarrow>
          (case LocalHandle_truncate (local_class ho) targetSize x of
             (status, x') \<Rightarrow> (status, put_object h (HLocal x') g))
      | _ \<Rightarrow> (truncate_unavailable, g))"

definition base_seal where
  "base_seal ho h g =
     (case object_at h g of
        Some (HLocal x) \<Rightarrow>
          (case LocalHandle_seal (local_class ho) (Some (node_seal ho)) (x, g) of
             (status, x', g') \<Rightarrow> (status, put_object h (HLocal x') g'))
      | Some (HRemote x) \<Rightarrow> (RemoteFileHandle_seal x, g)
      | Some (HS3 x) \<Rightarrow> S3FileHandle_seal (node_seal ho) x g
      | _ \<Rightarrow> (UnavailableError ''Seal operation is not available.'', g))"

definition base_rawFd where
  "base_rawFd ho h g =
     (case object_at h g of
        Some (HLocal x) \<Rightarrow> LocalHandle_rawFd (local_class ho) x
      | _ \<Rightarrow> Inl rawFd_unavailable)"

text \<open>Relocating a local handle uploads the file and publishes the new S3 handle.\<close>

definition base_relocate where
  "base_relocate ho h g =
     (case object_at h g of
        Some (HLocal x) \<Rightarrow>
          (case LocalHandle_relocate (local_class ho) (getS3 ho g) (node_seal ho) x (g_s3 g) g of
             (Inl s, x', st, g') \<Rightarrow> (Inl s, put_object h (HLocal x') (g'\<lparr>g_s3 := st\<rparr>))
           | (Inr fh, x', st, g') \<Rightarrow>
               (case new_object (HS3 fh) (put_object h (HLocal x') (g'\<lparr>g_s3 := st\<rparr>)) of
                  (i, g'') \<Rightarrow> (Inr i, g'')))
      | _ \<Rightarrow> (Inl relocate_unavailable, g))"

definition base_methods :: "('s, 'x) host \<Rightarrow> (nat, ('s, 'x) node) handle_methods" where
  "base_methods ho =
     \<lparr>v_size = base_size ho, v_localStorageSize = base_localStorageSize ho,
      v_localMemorySize = base_localMemorySize ho, v_isWriteable = base_isWriteable,
      v_metadata = (\<lambda>h g. fh_metadata (base_of h g)), v_setMetadata = base_setMetadata ho,
      v_readBytes = base_readBytes ho, v_writeBytes = base_writeBytes ho, v_write = base_write ho,
      v_truncate = base_truncate ho, v_seal = base_seal ho, v_notifyUnused = heap_notifyUnused ho,
      v_rawFd = base_rawFd ho, v_relocate = base_relocate ho\<rparr>"

section \<open>The service of a node\<close>

text \<open>Factories and bookkeeping, with the methods of the wrapped classes.\<close>

definition base_service :: "('s, 'x) host \<Rightarrow> ('s, 'x, heap) service" where
  "base_service ho =
     \<lparr>sv_stub = ho_stub ho, sv_client = ho_client ho, sv_handle = base_methods ho,
      sv_bucket = (\<lambda>h g. fh_bucket (base_of h g)), sv_key = (\<lambda>h g. fh_key (base_of h g)),
      sv_isValid = (\<lambda>h g. fh_isValid (base_of h g)),
      sv_isRelocatable = (\<lambda>h g. case object_at h g of
          Some (HLocal _) \<Rightarrow> True | Some (HRelocatable _) \<Rightarrow> True | _ \<Rightarrow> False),
      sv_openCount = (\<lambda>h g. fh_openCount (base_of h g)),
      sv_lastReleased = (\<lambda>h g. fh_lastReleased (base_of h g)),
      sv_open = heap_open, sv_close = heap_close ho, sv_download = (\<lambda>src dst g. None),
      sv_newLocal = heap_newLocal ho, sv_newRemote = heap_newRemote ho, sv_newS3 = heap_newS3 ho,
      sv_newCached = (\<lambda>object' g. (ho_cached ho object', g)), sv_wrap = heap_wrap,
      sv_newTransfer = (\<lambda>_ g. (hp_clock (g_heap g), tick g)),
      sv_connectTransfer = (\<lambda>_ g. (OkStatus, g))\<rparr>"

definition node_reopen :: "('s, 'x) host \<Rightarrow> (nat, ('s, 'x) node) reopen_service" where
  "node_reopen ho = (\<lambda>bucket key invalidate g. GEDS_reopenFileHandle (base_service ho) bucket key invalidate g)"

text \<open>A method of the wrapper, or of the class itself.\<close>

definition via_wrapper where
  "via_wrapper wrapper plain h g =
     (case object_at h g of Some (HRelocatable r) \<Rightarrow> wrapper r | _ \<Rightarrow> plain h)"

definition heap_methods :: "('s, 'x) host \<Rightarrow> (nat, ('s, 'x) node) handle_methods" where
  "heap_methods ho = (let v = base_methods ho in
     \<lparr>v_size = (\<lambda>h g. via_wrapper (Relocatable_size v) (v_size v) h g g),
      v_localStorageSize = (\<lambda>h g. via_wrapper (Relocatable_localStorageSize v) (v_localStorageSize v) h g g),
      v_localMemorySize = (\<lambda>h g. via_wrapper (Relocatable_localMemorySize v) (v_localMemorySize v) h g g),
      v_isWriteable = (\<lambda>h g. via_wrapper (Relocatable_isWriteable v) (v_isWriteable v) h g g),
      v_metadata = (\<lambda>h g. via_wrapper (Relocatable_metadata v) (v_metadata v) h g g),
      v_setMetadata = (\<lambda>h m s g. via_wrapper (Relocatable_setMetadata v) (v_setMetadata v) h g m s g),
      v_readBytes = (\<lambda>h p n g. case object_at h g of
          Some (HRelocatable r) \<Rightarrow>
            (case Relocatable_readBytes v (node_reopen ho) (\<lambda>x. x) p n (r, g) of
               (res, r', g') \<Rightarrow> (res, put_object h (HRelocatable r') g'))
        | _ \<Rightarrow> v_readBytes v h p n g),
      v_writeBytes = (\<lambda>h b p g. via_wrapper (Relocatable_writeBytes v) (v_writeBytes v) h g b p g),
      v_write = (\<lambda>h b p n g. via_wrapper (Relocatable_write v) (v_write v) h g b p n g),
      v_truncate = (\<lambda>h n g. via_wrapper (Relocatable_truncate v) (v_truncate v) h g n g),
      v_seal = (\<lambda>h g. via_wrapper (Relocatable_seal v) (v_seal v) h g g),
      v_notifyUnused = (\<lambda>h g. via_wrapper (Relocatable_notifyUnused v) (v_notifyUnused v) h g g),
      v_rawFd = (\<lambda>h g. via_wrapper (Relocatable_rawFd v) (v_rawFd v) h g g),
      v_relocate = (\<lambda>h g. case object_at h g of
          Some (HRelocatable r) \<Rightarrow>
            (case Relocatable_relocate v (r, g) of
               (Inl s, r', g') \<Rightarrow> (Inl s, put_object h (HRelocatable r') g')
             | (Inr _, r', g') \<Rightarrow> (Inr h, put_object h (HRelocatable r') g'))
        | _ \<Rightarrow> v_relocate v h g)\<rparr>)"

text \<open>\<open>copyTo\<close> is a download; a file of known size needs no more rounds than it has bytes.\<close>

definition heap_download where
  "heap_download ho src dst g =
     (let v = heap_methods ho; block = gc_cacheBlockSize (g_config g);
          fuel = (case v_size v src g of Inl _ \<Rightarrow> 1 | Inr n \<Rightarrow> Suc n);
          ranges = (\<lambda>p n q. downloadRange fuel (src = dst) (v_readBytes v src) (v_writeBytes v dst) block p n q)
      in download fuel (v_size v src g) ranges block g)"

definition heap_service :: "('s, 'x) host \<Rightarrow> ('s, 'x, heap) service" where
  "heap_service ho =
     (base_service ho)\<lparr>sv_handle := heap_methods ho, sv_download := heap_download ho\<rparr>"

section \<open>The node provides handles\<close>

definition existing :: "heap \<Rightarrow> nat set" where
  "existing hp = {i. i < hp_next hp}"

lemma object_at_updates [simp]:
  "object_at h (put_object h' ob g) = (if h = h' then Some ob else object_at h g)"
  "object_at h (tick g) = object_at h g"
  "object_at h (g\<lparr>g_fileHandles := m\<rparr>) = object_at h g"
  by (simp_all add: object_at_def put_object_def tick_def)

lemma heap_updates [simp]:
  "existing (g_heap (put_object h ob g)) = existing (g_heap g)" "existing (g_heap (tick g)) = existing (g_heap g)"
  "same_service g (put_object h ob g)" "same_service g (tick g)"
  by (simp_all add: existing_def put_object_def tick_def)

lemma new_object_law:
  assumes "new_object ob g = (h, g')"
  shows "same_service g g' \<and> existing (g_heap g) \<subseteq> existing (g_heap g') \<and>
    h \<in> existing (g_heap g') - existing (g_heap g) \<and> object_at h g' = Some ob"
  using assms
  by (auto simp: new_object_def Let_def put_object_def existing_def object_at_def same_service_def)

lemma quiet_put:
  "same_service g (put_object h ob g) \<and> existing (g_heap g) \<subseteq> existing (g_heap (put_object h ob g))"
  by simp

lemma heap_newLocal_law:
  assumes "heap_newLocal ho b k p g = (r, g')"
  shows "same_service g g' \<and> existing (g_heap g) \<subseteq> existing (g_heap g') \<and>
    (\<forall>h. r = Inr h \<longrightarrow> h \<in> existing (g_heap g') - existing (g_heap g))"
  using assms
  by (auto simp: heap_newLocal_def split: sum.splits prod.splits dest!: new_object_law)

lemma heap_transfer_law:
  assumes "heap_transfer ho host g = (r, g')"
  shows "same_service g g' \<and> existing (g_heap g') = existing (g_heap g)"
  using assms
  by (auto simp: heap_transfer_def transfer_service_def same_service_def existing_def tick_def
      split: sum.splits prod.splits option.splits if_splits)

lemma heap_newRemote_law:
  assumes "heap_newRemote ho ob g = (r, g')"
  shows "same_service g g' \<and> existing (g_heap g) \<subseteq> existing (g_heap g')"
proof -
  obtain fr g1 where f: "RemoteFileHandle_factory (heap_transfer ho) ob g = (fr, g1)" by fastforce
  have "same_service g g1 \<and> existing (g_heap g1) = existing (g_heap g)"
    using f by (auto simp: RemoteFileHandle_factory_def split: sum.splits prod.splits dest!: heap_transfer_law)
  with assms f show ?thesis
    by (auto simp: heap_newRemote_def split: sum.splits prod.splits dest!: new_object_law
        intro: same_service_trans)
qed

lemma heap_newS3_law:
  assumes "heap_newS3 ho ob g = (r, g')"
  shows "same_service g g' \<and> existing (g_heap g) \<subseteq> existing (g_heap g')"
  using assms
  by (auto simp: heap_newS3_def split: sum.splits prod.splits dest!: new_object_law)
    (auto simp: same_service_def)

lemma base_of_Relocatable:
  "object_at h g = Some (HRelocatable (Relocatable_factory b k w)) \<Longrightarrow> fh_isValid (base_of h g)"
  by (simp add: base_of_def object_base_def Relocatable_factory_def FileHandle_new_def FileHandle.defs)

lemma heap_wrap_law:
  assumes "heap_wrap h g = (w, g')"
  shows "same_service g g' \<and> existing (g_heap g) \<subseteq> existing (g_heap g') \<and>
    w \<in> existing (g_heap g') - existing (g_heap g) \<and> fh_isValid (base_of w g')"
  using new_object_law [of _ g w g'] assms base_of_Relocatable [of w g'] by (auto simp: heap_wrap_def)

lemma heap_open_law:
  assumes "heap_open h g = (r, g')"
  shows "same_service g g' \<and> existing (g_heap g) \<subseteq> existing (g_heap g') \<and> r = Inr h \<and>
    fh_isValid (base_of h g') = fh_isValid (base_of h g)"
  using assms
  by (auto simp: heap_open_def Let_def base_of_def object_base_def increaseOpenCount_def FileHandle.defs
      split: option.splits handle_object.splits intro: same_service_trans [OF heap_updates(3) heap_updates(4)])

lemma heap_service_simps [simp]:
  "sv_newLocal (heap_service ho) = heap_newLocal ho" "sv_newRemote (heap_service ho) = heap_newRemote ho"
  "sv_newS3 (heap_service ho) = heap_newS3 ho" "sv_newCached (heap_service ho) ob g = (ho_cached ho ob, g)"
  "sv_wrap (heap_service ho) = heap_wrap" "sv_open (heap_service ho) = heap_open"
  "sv_isValid (heap_service ho) h g = fh_isValid (base_of h g)" "sv_stub (heap_service ho) = ho_stub ho"
  "sv_handle (heap_service ho) = heap_methods ho" "sv_client (heap_service ho) = ho_client ho"
  "sv_bucket (heap_service ho) h g = fh_bucket (base_of h g)" "sv_key (heap_service ho) h g = fh_key (base_of h g)"
  "sv_openCount (heap_service ho) h g = fh_openCount (base_of h g)"
  "sv_lastReleased (heap_service ho) h g = fh_lastReleased (base_of h g)"
  by (simp_all add: heap_service_def base_service_def)

interpretation node: handle_provider "heap_service ho" existing
  by unfold_locales
    (auto dest: heap_newLocal_law heap_newRemote_law heap_newS3_law heap_wrap_law heap_open_law
      simp: base_of_def object_at_def)

section \<open>A sample node\<close>

definition sample_host :: "(MetadataServiceImpl, memory_s3) host" where
  "sample_host =
     \<lparr>ho_stub = server_stub ''ipv4:10.0.0.1:5'' unimplemented, ho_client = (\<lambda>_. memory_client),
      ho_script = [], ho_steps = [], ho_ftruncate = None, ho_mkdir = (\<lambda>_. OkStatus),
      ho_openFile = (\<lambda>_. Inr 3), ho_transfer = (\<lambda>_ _ _ _ _. Inl (UnavailableError ''no peer'')),
      ho_connect = (\<lambda>_. OkStatus), ho_cached = (\<lambda>_. Inl (UnavailableError ''no cache''))\<rparr>"

definition sample_options :: GEDSConfig where
  "sample_options =
     \<lparr>gc_metadataServiceAddress = ''mds:1'', gc_listenAddress = ''0.0.0.0'', gc_hostname = None, gc_port = 7,
      gc_portHttpServer = 8, gc_localStoragePath = ''/tmp'', gc_cacheBlockSize = 4, gc_io_thread_pool_size = 2,
      gc_available_local_storage = 10, gc_available_local_memory = 10, gc_pubSubEnabled = False,
      gc_cache_objects_from_s3 = False, gc_force_relocation_when_stopping = False,
      gc_storage_spilling_fraction = 1 / 2\<rparr>"

definition idle_node :: "(MetadataServiceImpl, memory_s3) node" where
  "idle_node =
     (case GEDS_new sample_options ''u'' None (MetadataServiceImpl_new None) (memory_state [])
             empty_heap of Returns g \<Rightarrow> g)"

definition all_well :: start_events where
  "all_well = \<lparr>se_channel = ChannelReady, se_server = OkStatus, se_port = 7, se_http = None\<rparr>"

definition sample_node :: "(MetadataServiceImpl, memory_s3) node" where
  "sample_node = snd (GEDS_start (heap_service sample_host) all_well idle_node)"

lemma sample_node_ok: "table_ok existing sample_node"
proof -
  have "g_fileHandles sample_node = []" by code_simp
  then show ?thesis by (simp add: table_ok_def)
qed

section \<open>The table of file handles\<close>

text \<open>
  C7. Creating an object on a node: without \<open>overwrite\<close> it succeeds only if the path has no handle yet, and
  then registers a handle that did not exist before; with \<open>overwrite\<close> the new handle replaces the old one. An
  error, for whatever reason, leaves the table as it was. No other path is affected, and every
  handle in the table stays an existing one.
\<close>

theorem GEDS_create_exclusive:
  assumes "table_ok existing g" "GEDS_createAsFileHandle (heap_service ho) b k overwrite g = (r, g')"
  shows "table_ok existing g' \<and>
    (case r of
       Inl e \<Rightarrow> g_fileHandles g' = g_fileHandles g
     | Inr h \<Rightarrow> h \<notin> existing (g_heap g) \<and> (overwrite \<or> map_of (g_fileHandles g) (getPath b k) = None) \<and>
         map_of (g_fileHandles g') = (map_of (g_fileHandles g))(getPath b k \<mapsto> h))"
  using assms by (rule node.createAsFileHandle_table)

theorem GEDS_create_exclusive_witness:
  "\<exists>g1 g2. GEDS_createAsFileHandle (heap_service sample_host) ''abc'' ''x'' False sample_node = (Inr 0, g1) \<and>
     map_of (g_fileHandles g1) (getPath ''abc'' ''x'') = Some 0 \<and>
     GEDS_createAsFileHandle (heap_service sample_host) ''abc'' ''x'' False g1 =
       (Inl (AlreadyExistsError ''The file abc/xalready exists!''), g2) \<and>
     g_fileHandles g2 = g_fileHandles g1"
proof -
  let ?f = "GEDS_createAsFileHandle (heap_service sample_host) ''abc'' ''x'' False"
  have 1: "fst (?f sample_node) = Inr 0" by code_simp
  have 2: "fst (?f (snd (?f sample_node))) = Inl (AlreadyExistsError ''The file abc/xalready exists!'')"
    by code_simp
  obtain g1 where g1: "?f sample_node = (Inr 0, g1)" using 1 by (metis prod.collapse)
  obtain g2 where g2: "?f g1 = (Inl (AlreadyExistsError ''The file abc/xalready exists!''), g2)"
    using 2 g1 by (metis prod.collapse snd_conv)
  note t1 = GEDS_create_exclusive [OF sample_node_ok g1]
  then have "table_ok existing g1" by blast
  from GEDS_create_exclusive [OF this g2] t1 g1 g2 show ?thesis by auto
qed

end
