(* ===== verification/Node_Metadata.thy ===== *)
theory Node_Metadata
  imports Handle_Heap
begin

text \<open>
  Nodes and the metadata server together: the calls that \<^verbatim>\<open>GEDS.cpp\<close> makes through
  \<^verbatim>\<open>MetadataService.cpp\<close> to \<^verbatim>\<open>GRPCServer.cpp\<close> are steps of the abstract metadata store. From this follow
  what a node observes of objects that it or another node has sealed or deleted.
\<close>

definition node_view :: "(MetadataServiceImpl, 'x) node \<Rightarrow> kvs_spec" where
  "node_view g = kvs_abs (srv_kvs (g_server g))"

definition node_coherent :: "(MetadataServiceImpl, 'x) node \<Rightarrow> bool" where
  "node_coherent g \<longleftrightarrow>
     coherent (\<lambda>s. kvs_abs (srv_kvs s)) (g_metadataService g, g_server g) \<and> server_inv (g_server g)"

lemma node_coherent_updates [simp]:
  "node_coherent (g\<lparr>g_fileHandles := m\<rparr>) = node_coherent g" "node_view (g\<lparr>g_fileHandles := m\<rparr>) = node_view g"
  "node_coherent (g\<lparr>g_s3 := st\<rparr>) = node_coherent g" "node_view (g\<lparr>g_s3 := st\<rparr>) = node_view g"
  "node_coherent (g\<lparr>g_knownBuckets := kb\<rparr>) = node_coherent g"
  "node_view (g\<lparr>g_knownBuckets := kb\<rparr>) = node_view g"
  by (simp_all add: node_coherent_def node_view_def)

text \<open>A call of the metadata client is a step of the abstract store.\<close>

lemma metadata_call:
  assumes "node_coherent g" "cache_safe x (ms_mdsCache (g_metadataService g))"
    and "\<And>st. client_step (server_stub peer reg) x st = apfst con (call st)"
    and "on_metadata call g = (r, g')"
  shows "con r = fst (spec_kvs_step x (node_view g))" "node_view g' = snd (spec_kvs_step x (node_view g))"
    "node_coherent g'" "same_service g g'" "g_heap g' = g_heap g"
proof -
  obtain c s where cs: "call (g_metadataService g, g_server g) = (r, c, s)"
    and g': "g' = g\<lparr>g_metadataService := c, g_server := s\<rparr>"
    using assms(4) by (auto simp: on_metadata_def split: prod.splits)
  have "srv.transparent peer reg x (g_metadataService g, g_server g)"
    using assms(1,2) by (intro srv.step_transparent) (simp_all add: node_coherent_def)
  then show "con r = fst (spec_kvs_step x (node_view g))" "node_view g' = snd (spec_kvs_step x (node_view g))"
    "node_coherent g'"
    by (simp_all add: srv.transparent_def assms(3) cs g' node_view_def node_coherent_def
        del: client_step.simps spec_kvs_step.simps)
  show "same_service g g'" "g_heap g' = g_heap g" by (simp_all add: g')
qed

lemmas lookup_call = metadata_call [where x = "Lookup b k" and con = RObject for b k]
lemmas delete_call = metadata_call [where x = "DeleteObject b k" and con = RStatus for b k]
lemmas create_call = metadata_call [where x = "CreateObject ob False" and con = RStatus for ob]
lemmas list_call = metadata_call [where x = "ListObjects b p d" and con = RListing for b p d]

section \<open>Deleting\<close>

lemma open_missing:
  assumes "node_coherent g" "g_state g = Running" "status_ok (isValid_name b k)"
    and "map_of (g_fileHandles g) (getPath b k) = None" "entry (node_view g) b k = None"
    and "ho_stub ho = server_stub peer reg"
  obtains e g' where "GEDS_open (heap_service ho) b k retry g = (Inl e, g')" "status_code e = kNotFound"
    "node_coherent g'" "node_view g' = node_view g"
proof -
  obtain r g1 where l: "on_metadata (MetadataService_lookup (server_stub peer reg) b k False) g = (r, g1)"
    by fastforce
  have c: "RObject r = fst (spec_kvs_step (Lookup b k) (node_view g))"
    "node_view g1 = snd (spec_kvs_step (Lookup b k) (node_view g))" "node_coherent g1"
    using lookup_call [OF assms(1) _ _ l, of b k peer reg] by (simp_all del: spec_kvs_step.simps)
  have "\<exists>e. r = Inl e \<and> status_code e = kNotFound"
    using c(1) assms(5) by (auto simp: entry_def in_bucket_def no_bucket_def no_key_def split: option.splits)
  then obtain e where e: "r = Inl e" "status_code e = kNotFound" by blast
  have "GEDS_open (heap_service ho) b k retry g = (Inl e, g1)"
    using assms(2-4,6) l e(1)
    by (simp add: GEDS_open.simps GEDS_openAsFileHandle_def GEDS_reopenFileHandle.simps Let_def
        ConcurrentMap_get_def)
  moreover have "node_view g1 = node_view g" using c(2) read_step_nop by simp
  ultimately show thesis using that e(2) c(3) by blast
qed
lemma deleteObject_effect:
  assumes "node_coherent g" "map_sorted (g_fileHandles g)" "ho_stub ho = server_stub peer reg"
    and "GEDS_deleteObject (heap_service ho) b k g = (st, g')"
  shows "st = OkStatus \<and> node_coherent g' \<and> g_state g' = g_state g \<and>
    node_view g' = snd (spec_kvs_step (DeleteObject b k) (node_view g)) \<and>
    map_of (g_fileHandles g') = (map_of (g_fileHandles g))(getPath b k := None)"
proof -
  obtain r g1 where d: "on_metadata (MetadataService_deleteObject (server_stub peer reg) b k) g = (r, g1)"
    by fastforce
  have c: "RStatus r = fst (spec_kvs_step (DeleteObject b k) (node_view g))"
    "node_view g1 = snd (spec_kvs_step (DeleteObject b k) (node_view g))" "node_coherent g1" "same_service g g1"
    using delete_call [OF assms(1) _ _ d, of b k peer reg] by (simp_all del: spec_kvs_step.simps)
  have ok: "status_ok r \<or> status_code r = kNotFound"
    using c(1) by (auto simp: in_bucket_def no_bucket_def no_key_def split: option.splits if_splits)
  obtain g2 where g2: "(case ObjectStores_get b (g_objectStores g1) of Inl _ \<Rightarrow> g1
      | Inr store \<Rightarrow> if \<not> prefix CacheBlockMarker k
          then snd (on_s3 (Endpoint_deleteObject (sv_client (heap_service ho) store) b k) g1) else g1) = g2" by blast
  have s3: "g2 = g1 \<or> (\<exists>s3. g2 = g1\<lparr>g_s3 := s3\<rparr>)"
    unfolding g2 [symmetric] by (auto simp: on_s3_def split: sum.splits prod.splits)
  have "st = OkStatus"
    "g' = g2\<lparr>g_fileHandles := snd (ConcurrentMap_remove (getPath b k) (g_fileHandles g2))\<rparr>"
    using assms(3,4) d ok g2 by (auto simp: GEDS_deleteObject_def Let_def)
  with c assms(2) s3 show ?thesis
    by (auto simp: same_service_def ConcurrentMap_remove_def simp del: spec_kvs_step.simps split: option.splits)
qed

text \<open>
  C8. Deleting an object through a node takes effect everywhere the node looks: the call succeeds whether or not
  the object existed, the metadata store has no entry for it any more and keeps all others, the
  local handle is gone, and opening the object afterwards fails with \<open>kNotFound\<close>, in spite of the
  client cache.
\<close>

theorem GEDS_delete_then_open:
  assumes "node_coherent g" "map_sorted (g_fileHandles g)" "g_state g = Running"
    and "status_ok (isValid_name b k)" "ho_stub ho = server_stub peer reg"
    and "GEDS_deleteObject (heap_service ho) b k g = (st, g1)"
  shows "st = OkStatus \<and> node_coherent g1 \<and>
    (\<forall>b' k'. entry (node_view g1) b' k' = (if b' = b \<and> k' = k then None else entry (node_view g) b' k')) \<and>
    (\<exists>e g2. GEDS_open (heap_service ho) b k True g1 = (Inl e, g2) \<and> status_code e = kNotFound)"
proof -
  note d = deleteObject_effect [OF assms(1,2,5,6)]
  have ent: "entry (node_view g1) b' k' = (if b' = b \<and> k' = k then None else entry (node_view g) b' k')" for b' k'
    using d by (simp add: entry_step del: spec_kvs_step.simps)
  have "\<exists>e g2. GEDS_open (heap_service ho) b k True g1 = (Inl e, g2) \<and> status_code e = kNotFound"
  proof -
    have "node_coherent g1" "g_state g1 = Running" "map_of (g_fileHandles g1) (getPath b k) = None"
      "entry (node_view g1) b k = None"
      using d assms(3) ent [of b k] by auto
    then obtain e g2 where "GEDS_open (heap_service ho) b k True g1 = (Inl e, g2)" "status_code e = kNotFound"
      using open_missing [of g1 b k ho peer reg True] assms(4,5) by blast
    then show ?thesis by blast
  qed
  with d ent show ?thesis by blast
qed

lemma sample_node_coherent: "node_coherent sample_node"
proof -
  have "g_metadataService sample_node = (MetadataService_new ''u'' ''mds:1'')\<lparr>ms_connectionState := Connected\<rparr>"
    "g_server sample_node = MetadataServiceImpl_new None"
    by code_simp+
  then show ?thesis
    using kvs_inv_new [of None] server_inv_new [of None]
    by (simp add: node_coherent_def coherent_def MetadataService_new_def submap_def entry_def kvs_abs_def MDSKVS_new_def)
qed

theorem GEDS_delete_then_open_witness:
  "\<exists>g1 e g2. GEDS_deleteObject (heap_service sample_host) ''abc'' ''x'' sample_node = (OkStatus, g1) \<and>
     GEDS_open (heap_service sample_host) ''abc'' ''x'' True g1 = (Inl e, g2) \<and> status_code e = kNotFound"
proof -
  obtain st g1 where d: "GEDS_deleteObject (heap_service sample_host) ''abc'' ''x'' sample_node = (st, g1)"
    by fastforce
  have "map_sorted (g_fileHandles sample_node)" using sample_node_ok by (simp add: table_ok_def)
  moreover have "g_state sample_node = Running" "status_ok (isValid_name ''abc'' ''x'')" by code_simp+
  moreover have "ho_stub sample_host = server_stub ''ipv4:10.0.0.1:5'' unimplemented"
    by (simp add: sample_host_def)
  ultimately show ?thesis using GEDS_delete_then_open [OF sample_node_coherent _ _ _ _ d] d by blast
qed

section \<open>Sealing on one node, opening on another\<close>

lemma seal_object_publishes:
  assumes "node_coherent g" "g_state g = Running" "seal_object (server_stub peer reg) b k md False n None g = (st, g')"
    and "\<not> is_ok (MDSKVS_lookup (ms_mdsCache (g_metadataService g)) b k)" "status_ok st"
  shows "entry (node_view g') b k = Some \<lparr>info_location = g_hostURI g, info_size = of_nat n,
      info_sealedOffset = of_nat n, info_metadata = md\<rparr> \<and>
    (\<forall>b' k'. (b', k') \<noteq> (b, k) \<longrightarrow> entry (node_view g') b' k' = entry (node_view g) b' k')"
proof -
  let ?ob = "mk_Object b k \<lparr>info_location = g_hostURI g, info_size = of_nat n,
      info_sealedOffset = of_nat n, info_metadata = md\<rparr>"
  have m: "on_metadata (MetadataService_createObject (server_stub peer reg) ?ob) g = (st, g')"
    using assms(2,3) by (simp add: seal_object_def Let_def)
  have c: "RStatus st = fst (spec_kvs_step (CreateObject ?ob False) (node_view g))"
    "node_view g' = snd (spec_kvs_step (CreateObject ?ob False) (node_view g))"
    using create_call [OF assms(1) _ _ m, of ?ob peer reg] assms(4) by (simp_all del: spec_kvs_step.simps)
  have "node_view g b \<noteq> None"
    using c(1) assms(5) by (cases "node_view g b") (auto simp: in_bucket_def no_bucket_def)
  then show ?thesis unfolding c(2) by (simp add: entry_step del: spec_kvs_step.simps)
qed

lemma seal_object_coherent:
  assumes "node_coherent g" "seal_object (server_stub peer reg) b k md False n None g = (st, g')"
    and "\<not> is_ok (MDSKVS_lookup (ms_mdsCache (g_metadataService g)) b k)"
  shows "node_coherent g'"
proof (cases "g_state g = Running")
  case True
  let ?ob = "mk_Object b k \<lparr>info_location = g_hostURI g, info_size = of_nat n,
      info_sealedOffset = of_nat n, info_metadata = md\<rparr>"
  have "on_metadata (MetadataService_createObject (server_stub peer reg) ?ob) g = (st, g')"
    using assms(2) True by (simp add: seal_object_def Let_def)
  from create_call(3) [OF assms(1) _ _ this, of ?ob peer reg] assms(3) show ?thesis by simp
qed (use assms in \<open>simp add: seal_object_def\<close>)

lemma geds_location:
  "geds_parse_location (computeHostUri host port) = Inr (host @ '':'' @ show_nat (unat port))"
  by (simp add: geds_parse_location_def computeHostUri_def)

lemma remote_handle_made:
  assumes "info_location (obj_info ob) = computeHostUri host port" "\<And>h. status_ok (ho_connect ho h)"
  obtains i g' x where "heap_newRemote ho ob g = (Inr i, g')" "object_at i g' = Some (HRemote x)"
    "rh_host x = host @ '':'' @ show_nat (unat port)" "rh_info x = obj_info ob"
    "fh_bucket x = obj_bucket ob" "fh_key x = obj_key ob" "i \<in> existing (g_heap g')"
proof -
  let ?host = "host @ '':'' @ show_nat (unat port)"
  have "\<exists>u g1. heap_transfer ho ?host g = (Inr u, g1)"
    using assms(2) [of ?host]
    by (cases "ConcurrentMap_get (g_fileTransfers g) ?host";
        cases "ConcurrentMap_insertOrExists ?host (hp_clock (g_heap g)) (g_fileTransfers (tick g))")
      (simp_all add: heap_transfer_def transfer_service_def)
  then obtain u g1 where t: "heap_transfer ho ?host g = (Inr u, g1)" by blast
  let ?x = "FileHandle.extend (FileHandle_new (obj_bucket ob) (obj_key ob) (info_metadata (obj_info ob)))
      \<lparr>rh_info = obj_info ob, rh_host = ?host, rh_statistics = 0\<rparr>"
  obtain i g2 where n: "new_object (HRemote ?x) g1 = (i, g2)" by fastforce
  have "heap_newRemote ho ob g = (Inr i, g2)"
    using t n assms(1) geds_location [of host port]
    by (simp add: heap_newRemote_def RemoteFileHandle_factory_def)
  with new_object_law [OF n] that [of i g2 ?x] show thesis
    by (simp add: FileHandle.extend_def FileHandle_new_def)
qed

text \<open>
  An object sealed on one node is reachable from every other node: a node \<open>b\<close> connected to the same metadata
  server, that does not know the object yet, opens it as a relocatable handle around a remote
  handle that points to node \<open>a\<close>, with the size and metadata that were sealed.
\<close>

lemma seal_reaches_other_node:
  assumes "node_coherent ga" "g_state ga = Running" "g_hostURI ga = computeHostUri host port"
    and "\<not> is_ok (MDSKVS_lookup (ms_mdsCache (g_metadataService ga)) b k)"
    and "seal_object (server_stub peer reg) b k md False n None ga = (st, ga')" "status_ok st"
    and "node_coherent gb" "g_state gb = Running" "g_server gb = g_server ga'"
    and "status_ok (isValid_name b k)" "map_of (g_fileHandles gb) (getPath b k) = None"
    and "ho_stub ho = server_stub peer' reg'" "\<forall>h. status_ok (ho_connect ho h)"
  shows "\<exists>w gb' r x. GEDS_openAsFileHandle (heap_service ho) b k gb = (Inr w, gb') \<and>
    object_at w gb' = Some (HRelocatable r) \<and> object_at (rl_fileHandle r) gb' = Some (HRemote x) \<and>
    rh_host x = host @ '':'' @ show_nat (unat port) \<and> fh_bucket x = b \<and> fh_key x = k \<and>
    info_size (rh_info x) = of_nat n \<and> info_metadata (rh_info x) = md"
proof -
  let ?i = "\<lparr>info_location = computeHostUri host port, info_size = of_nat n, info_sealedOffset = of_nat n,
      info_metadata = md\<rparr>"
  have ent: "entry (node_view gb) b k = Some ?i"
    using seal_object_publishes [OF assms(1,2,5,4,6)] assms(3,9) by (simp add: node_view_def)
  obtain lr g1 where l: "on_metadata (MetadataService_lookup (server_stub peer' reg') b k False) gb = (lr, g1)"
    by fastforce
  have "RObject lr = fst (spec_kvs_step (Lookup b k) (node_view gb))" "same_service gb g1"
    using lookup_call [OF assms(7) _ _ l, of b k peer' reg'] by (simp_all del: spec_kvs_step.simps)
  then have lr: "lr = Inr (mk_Object b k ?i)" and same: "same_service gb g1"
    using entry_lookup_spec [OF ent] by (simp_all del: spec_kvs_step.simps)
  obtain i g2 x where r: "heap_newRemote ho (mk_Object b k ?i) g1 = (Inr i, g2)" "object_at i g2 = Some (HRemote x)"
    "rh_host x = host @ '':'' @ show_nat (unat port)" "rh_info x = ?i" "fh_bucket x = b" "fh_key x = k"
    "i \<in> existing (g_heap g2)"
    using remote_handle_made [of "mk_Object b k ?i" host port ho g1] assms(13) by auto
  have ro: "GEDS_reopenFileHandle (heap_service ho) b k False gb = (Inr i, g2)"
    using l lr r(1) assms(12) by (simp add: GEDS_reopenFileHandle.simps computeHostUri_def prefix_def)
  let ?r = "Relocatable_factory (fh_bucket (base_of i g2)) (fh_key (base_of i g2)) i"
  obtain w g3 where w: "heap_wrap i g2 = (w, g3)" by fastforce
  note wl = new_object_law [OF w [unfolded heap_wrap_def]]
  have old: "object_at i g3 = object_at i g2"
    using w r(7) by (auto simp: heap_wrap_def new_object_def Let_def object_at_def put_object_def existing_def)
  have "g_fileHandles g3 = g_fileHandles gb"
    using same wl heap_newRemote_law [OF r(1)] by (simp add: same_service_def)
  then have "GEDS_openAsFileHandle (heap_service ho) b k gb =
      (Inr w, g3\<lparr>g_fileHandles := map_assign (getPath b k) w (g_fileHandles gb)\<rparr>)"
    using assms(8,10,11) ro w
    by (simp add: GEDS_openAsFileHandle_def Let_def ConcurrentMap_get_def ConcurrentMap_insertOrExists_def)
  moreover have "rl_fileHandle ?r = i" by (simp add: Relocatable_factory_def FileHandle.extend_def)
  ultimately show ?thesis
    using wl old r by (intro exI [of _ w] exI [of _ ?r] exI [of _ x] exI conjI) auto
qed

lemma createBucket_coherent:
  assumes "node_coherent g" "ho_stub ho = server_stub peer reg"
    and "GEDS_createBucket (heap_service ho) b g = (st, g')"
  shows "node_coherent g'"
proof (cases "status_ok (isValidBucketName b)")
  case True
  obtain f g1 where l: "GEDS_lookupBucket (heap_service ho) b g = (f, g1)" by fastforce
  obtain lr g0 where lb: "on_metadata (MetadataService_lookupBucket (server_stub peer reg) b) g = (lr, g0)"
    by fastforce
  have "node_coherent g0"
    using metadata_call(3) [OF assms(1) _ _ lb, where x = "BucketStatus b" and con = RStatus and peer = peer
        and reg = reg] by simp
  then have c1: "node_coherent g1"
    using l lb assms(1,2) by (auto simp: GEDS_lookupBucket_def split: if_splits)
  obtain cr g2 where cb: "on_metadata (MetadataService_createBucket (server_stub peer reg) b) g1 = (cr, g2)"
    by fastforce
  have "node_coherent g2"
    using metadata_call(3) [OF c1 _ _ cb, where x = "CreateBucket b" and con = RStatus and peer = peer
        and reg = reg] by simp
  with c1 assms(2,3) True l cb show ?thesis by (auto simp: GEDS_createBucket_def Let_def split: if_splits)
qed (use assms in \<open>simp add: GEDS_createBucket_def Let_def\<close>)

lemma empty_cache_coherent:
  assumes "server_inv (g_server g)" "ms_connectionState (g_metadataService g) = Connected"
    and "ms_mdsCache (g_metadataService g) = MDSKVS_new None"
  shows "node_coherent g"
  using assms kvs_inv_new [of None]
  by (simp add: node_coherent_def coherent_def submap_def entry_def kvs_abs_def MDSKVS_new_def)

definition node_a :: "(MetadataServiceImpl, memory_s3) node" where
  "node_a = snd (GEDS_createBucket (heap_service sample_host) ''abc'' sample_node)"

definition seal_a where
  "seal_a = seal_object (server_stub ''ipv4:10.0.0.1:5'' unimplemented) ''abc'' ''x'' None False 3 None node_a"

definition node_b :: "(MetadataServiceImpl, memory_s3) node" where
  "node_b = sample_node\<lparr>g_server := g_server (snd seal_a)\<rparr>"

lemma sample_stub: "ho_stub sample_host = server_stub ''ipv4:10.0.0.1:5'' unimplemented"
  by (simp add: sample_host_def)

lemma node_a_coherent: "node_coherent node_a"
  using createBucket_coherent [OF sample_node_coherent sample_stub] by (metis node_a_def prod.collapse)

lemma node_a_miss: "\<not> is_ok (MDSKVS_lookup (ms_mdsCache (g_metadataService node_a)) ''abc'' ''x'')"
  by code_simp

lemma node_b_coherent: "node_coherent node_b"
proof -
  have sl: "seal_object (server_stub ''ipv4:10.0.0.1:5'' unimplemented) ''abc'' ''x'' None False 3 None node_a =
      (fst seal_a, snd seal_a)" by (simp add: seal_a_def)
  have "node_coherent (snd seal_a)" by (rule seal_object_coherent [OF node_a_coherent sl node_a_miss])
  then have "server_inv (g_server (snd seal_a))" by (simp add: node_coherent_def)
  moreover have "ms_mdsCache (g_metadataService node_b) = MDSKVS_new None"
    "ms_connectionState (g_metadataService node_b) = Connected"
    by code_simp+
  ultimately show ?thesis by (intro empty_cache_coherent) (simp_all add: node_b_def)
qed

section \<open>Opening the requested object\<close>

text \<open>
  The handle registered for the path of an object is a handle of that object: it has the bucket and
  the key the path was made from.
\<close>

definition handle_names :: "nat \<Rightarrow> string \<Rightarrow> string \<Rightarrow> ('s, 'x) node \<Rightarrow> bool" where
  "handle_names h b k g \<longleftrightarrow> fh_bucket (base_of h g) = b \<and> fh_key (base_of h g) = k"

definition table_named :: "('s, 'x) node \<Rightarrow> bool" where
  "table_named g \<longleftrightarrow> (\<forall>b k h. status_ok (isValid_name b k) \<longrightarrow>
     map_of (g_fileHandles g) (getPath b k) = Some h \<longrightarrow> handle_names h b k g)"

text \<open>What the calls around an open leave alone.\<close>

definition calm :: "('s, 'x) node \<Rightarrow> ('s, 'x) node \<Rightarrow> bool" where
  "calm g g' \<longleftrightarrow> same_service g g' \<and> existing (g_heap g) \<subseteq> existing (g_heap g') \<and>
     (\<forall>h b k. h \<in> existing (g_heap g) \<longrightarrow> handle_names h b k g' = handle_names h b k g)"

definition same_metadata :: "('s, 'x) node \<Rightarrow> ('s, 'x) node \<Rightarrow> bool" where
  "same_metadata g g' \<longleftrightarrow> g_metadataService g' = g_metadataService g \<and> g_server g' = g_server g"

lemma calm_refl [simp]: "calm g g"
  by (simp add: calm_def)

lemma calm_trans: "calm a b \<Longrightarrow> calm b c \<Longrightarrow> calm a c"
  by (auto simp: calm_def intro: same_service_trans)

lemma same_metadata_coherent: "same_metadata g g' \<Longrightarrow> node_coherent g \<Longrightarrow> node_coherent g'"
  by (simp add: same_metadata_def node_coherent_def)

lemma handle_names_heap: "g_heap g' = g_heap g \<Longrightarrow> handle_names h b k g' = handle_names h b k g"
  by (simp add: handle_names_def base_of_def object_at_def)

lemma calm_heap: "same_service g g' \<Longrightarrow> g_heap g' = g_heap g \<Longrightarrow> calm g g'"
  using handle_names_heap [of g' g] by (auto simp: calm_def)

lemma calm_tick [simp]: "calm g (tick g)" "same_metadata g (tick g)"
  by (simp_all add: calm_def handle_names_def base_of_def same_metadata_def) (simp_all add: tick_def)

lemma new_object_calm:
  assumes "new_object ob g = (h, g')"
  shows "calm g g' \<and> same_metadata g g' \<and> h \<in> existing (g_heap g') \<and>
    handle_names h (fh_bucket (object_base ob)) (fh_key (object_base ob)) g'"
  using assms
  by (auto simp: new_object_def Let_def calm_def same_metadata_def handle_names_def base_of_def object_at_def
      put_object_def existing_def same_service_def)

lemma base_of_names: "handle_names h (fh_bucket (base_of h g)) (fh_key (base_of h g)) g"
  by (simp add: handle_names_def)

lemma heap_transfer_calm:
  assumes "heap_transfer ho host g = (r, g')"
  shows "calm g g' \<and> same_metadata g g'"
proof -
  have "g' = g \<or> (\<exists>t. g' = (tick g)\<lparr>g_fileTransfers := t\<rparr>) \<or> g' = tick g"
    using assms
    by (auto simp: heap_transfer_def transfer_service_def split: sum.splits prod.splits option.splits if_splits)
  moreover have "calm g ((tick g)\<lparr>g_fileTransfers := t\<rparr>)" for t
    by (rule calm_trans [OF calm_tick(1)]) (simp add: calm_heap)
  ultimately show ?thesis by (auto simp: same_metadata_def tick_def calm_heap intro: calm_tick [unfolded tick_def])
qed

lemma heap_newRemote_calm:
  assumes "heap_newRemote ho ob g = (r, g')"
  shows "calm g g' \<and> same_metadata g g' \<and> (\<forall>h. r = Inr h \<longrightarrow> h \<in> existing (g_heap g') \<and>
    handle_names h (obj_bucket ob) (obj_key ob) g')"
proof -
  obtain fr g1 where f: "RemoteFileHandle_factory (heap_transfer ho) ob g = (fr, g1)" by fastforce
  have c: "calm g g1 \<and> same_metadata g g1"
    using f by (auto simp: RemoteFileHandle_factory_def same_metadata_def split: sum.splits prod.splits
        dest!: heap_transfer_calm)
  show ?thesis
  proof (cases fr)
    case (Inl e)
    with assms f c show ?thesis by (auto simp: heap_newRemote_def)
  next
    case (Inr x)
    obtain i g2 where n: "new_object (HRemote x) g1 = (i, g2)" by fastforce
    have "fh_bucket (object_base (HRemote x)) = obj_bucket ob" "fh_key (object_base (HRemote x)) = obj_key ob"
      using f Inr by (auto simp: RemoteFileHandle_factory_def object_base_def FileHandle.defs FileHandle_new_def
          split: sum.splits prod.splits)
    with new_object_calm [OF n] c assms f Inr n show ?thesis
      by (auto simp: heap_newRemote_def same_metadata_def intro: calm_trans)
  qed
qed

lemma heap_newS3_calm:
  assumes "heap_newS3 ho ob g = (r, g')"
  shows "calm g g' \<and> same_metadata g g' \<and> (\<forall>h. r = Inr h \<longrightarrow> h \<in> existing (g_heap g') \<and>
    handle_names h (obj_bucket ob) (obj_key ob) g')"
proof -
  obtain fr st where f: "S3FileHandle_factory_object (getS3 ho g) ob (g_s3 g) = (fr, st)" by fastforce
  have c: "calm g (g\<lparr>g_s3 := st\<rparr>)" "same_metadata g (g\<lparr>g_s3 := st\<rparr>)"
    by (simp_all add: calm_heap same_metadata_def)
  show ?thesis
  proof (cases fr)
    case (Inl e)
    with assms f c show ?thesis by (auto simp: heap_newS3_def)
  next
    case (Inr x)
    obtain i g2 where n: "new_object (HS3 x) (g\<lparr>g_s3 := st\<rparr>) = (i, g2)" by fastforce
    have "fh_bucket (object_base (HS3 x)) = obj_bucket ob" "fh_key (object_base (HS3 x)) = obj_key ob"
      using f Inr by (auto simp: S3FileHandle_factory_object_def S3FileHandle_factory_at_def S3FileHandle_new_def
          S3FileHandle_mk_def object_base_def FileHandle.defs FileHandle_new_def split: sum.splits prod.splits)
    with new_object_calm [OF n] c assms f Inr n show ?thesis
      by (auto simp: heap_newS3_def same_metadata_def intro: calm_trans)
  qed
qed

lemma heap_wrap_calm:
  assumes "heap_wrap h g = (w, g')"
  shows "calm g g' \<and> same_metadata g g' \<and> (\<forall>b k. handle_names h b k g \<longrightarrow> handle_names w b k g')"
proof -
  let ?ob = "HRelocatable (Relocatable_factory (fh_bucket (base_of h g)) (fh_key (base_of h g)) h)"
  have "fh_bucket (object_base ?ob) = fh_bucket (base_of h g)" "fh_key (object_base ?ob) = fh_key (base_of h g)"
    by (simp_all add: object_base_def Relocatable_factory_def FileHandle.defs FileHandle_new_def)
  with new_object_calm [OF assms [unfolded heap_wrap_def]] show ?thesis by (auto simp: handle_names_def)
qed

lemma handle_names_put:
  "handle_names x b k (put_object h ob g) =
     (if x = h then fh_bucket (object_base ob) = b \<and> fh_key (object_base ob) = k else handle_names x b k g)"
  by (simp add: handle_names_def base_of_def)

lemma object_base_opened [simp]:
  "fh_bucket (increaseOpenCount now x) = fh_bucket x" "fh_key (increaseOpenCount now x) = fh_key x"
  by (simp_all add: increaseOpenCount_def)

lemma heap_open_names: "handle_names x b k (snd (heap_open h g)) = handle_names x b k g"
proof (cases "object_at h g")
  case None
  then show ?thesis by (simp add: heap_open_def handle_names_def base_of_def)
next
  case (Some ob)
  then show ?thesis
    by (cases ob) (simp_all add: heap_open_def Let_def handle_names_def base_of_def object_base_def FileHandle.defs)
qed

lemma heap_open_calm:
  assumes "heap_open h g = (r, g')"
  shows "calm g g' \<and> same_metadata g g' \<and> (\<forall>b k. handle_names h b k g' = handle_names h b k g)"
proof -
  have "same_metadata g (snd (heap_open h g))"
    by (simp add: heap_open_def Let_def same_metadata_def tick_def put_object_def
        split: option.splits handle_object.splits)
  with heap_open_names [of _ _ _ h g] heap_open_law [OF assms] assms show ?thesis by (simp add: calm_def)
qed

lemma node_lookup:
  assumes "node_coherent g" "on_metadata (MetadataService_lookup (server_stub peer reg) b k invalidate) g = (r, g')"
  shows "node_coherent g' \<and> calm g g' \<and> (\<forall>ob. r = Inr ob \<longrightarrow> obj_bucket ob = b \<and> obj_key ob = k)"
proof -
  obtain c s where cs: "MetadataService_lookup (server_stub peer reg) b k invalidate
      (g_metadataService g, g_server g) = (r, c, s)" and g': "g' = g\<lparr>g_metadataService := c, g_server := s\<rparr>"
    using assms(2) by (auto simp: on_metadata_def split: prod.splits)
  show ?thesis
    using srv.lookup_named [OF _ _ cs] assms(1) by (simp add: g' node_coherent_def calm_heap)
qed

text \<open>\<open>reopenFileHandle\<close> makes a handle of the requested object.\<close>

lemma reopen_names:
  assumes "ho_stub ho = server_stub peer reg" "\<not> gc_cache_objects_from_s3 (g_config g)" "node_coherent g"
    and "GEDS_reopenFileHandle (heap_service ho) b k invalidate g = (r, g')"
  shows "node_coherent g' \<and> calm g g' \<and> (\<forall>h. r = Inr h \<longrightarrow> handle_names h b k g')"
  using assms
proof (induction "heap_service ho" b k invalidate g rule: GEDS_reopenFileHandle.induct)
  case (1 b k invalidate g)
  obtain lr g1 where l: "on_metadata (MetadataService_lookup (ho_stub ho) b k invalidate) g = (lr, g1)" by fastforce
  have n: "node_coherent g1" "calm g g1" "\<And>ob. lr = Inr ob \<Longrightarrow> obj_bucket ob = b \<and> obj_key ob = k"
    using node_lookup [OF "1.prems"(3) l [unfolded "1.prems"(1)]] by blast+
  have cfg: "\<not> gc_cache_objects_from_s3 (g_config g1)"
    using n(2) "1.prems"(2) by (simp add: calm_def same_service_def)
  show ?case
  proof (cases lr)
    case (Inl e)
    with "1.prems"(4) l n show ?thesis by (subst (asm) GEDS_reopenFileHandle.simps) auto
  next
    case (Inr ob)
    let ?loc = "info_location (obj_info ob)"
    obtain fr g2 where f: "(if prefix ''geds://'' ?loc then heap_newRemote ho ob g1 else heap_newS3 ho ob g1) = (fr, g2)"
      by fastforce
    have c2: "calm g1 g2" "same_metadata g1 g2" "\<And>h. fr = Inr h \<Longrightarrow> handle_names h b k g2"
      using f n(3) [OF Inr] by (auto split: if_splits dest!: heap_newRemote_calm heap_newS3_calm)
    have g2: "node_coherent g2" "calm g g2" "\<not> gc_cache_objects_from_s3 (g_config g2)"
      using c2 n cfg same_metadata_coherent calm_trans by (auto simp: calm_def same_service_def)
    consider "r = Inl (UnknownError (''The remote location format '' @ ?loc @ '' is not known.''))" "g' = g1"
      | h where "fr = Inr h" "r = Inr h" "g' = g2"
      | e where "fr = Inl e" "r = Inl e" "g' = g2"
      | e where "fr = Inl e" "\<not> invalidate" "prefix ''geds://'' ?loc \<or> prefix ''s3://'' ?loc"
          "GEDS_reopenFileHandle (heap_service ho) b k True g2 = (r, g')"
      using "1.prems"(4) l Inr f cfg
      by (subst (asm) GEDS_reopenFileHandle.simps) (auto simp: Let_def split: if_splits sum.splits)
    then show ?thesis
    proof cases
      case 4
      have "node_coherent g' \<and> calm g2 g' \<and> (\<forall>h. r = Inr h \<longrightarrow> handle_names h b k g')"
        using 4 l Inr f g2 cfg "1.prems"(1) by (intro "1.hyps") (auto split: if_splits)
      with g2 show ?thesis by (blast intro: calm_trans)
    qed (use n c2 g2 in auto)
  qed
qed

lemma table_named_calm:
  assumes "table_ok existing g" "table_named g" "calm g g'"
  shows "table_named g'"
  using assms by (fastforce simp: table_named_def calm_def same_service_def table_ok_def ran_def)

lemma table_named_sub:
  assumes "table_named g" "g_heap g' = g_heap g"
    and "\<And>p h. map_of (g_fileHandles g') p = Some h \<Longrightarrow> map_of (g_fileHandles g) p = Some h"
  shows "table_named g'"
  using assms(1,3) handle_names_heap [OF assms(2)] by (simp add: table_named_def)

lemma table_named_assign:
  assumes "table_named g" "map_sorted (g_fileHandles g)" "handle_names h b k g" "status_ok (isValid_name b k)"
  shows "table_named (g\<lparr>g_fileHandles := map_assign (getPath b k) h (g_fileHandles g)\<rparr>)"
proof -
  let ?g = "g\<lparr>g_fileHandles := map_assign (getPath b k) h (g_fileHandles g)\<rparr>"
  have nm: "handle_names x b' k' ?g = handle_names x b' k' g" for x b' k' by (rule handle_names_heap) simp
  have inj: "b' = b \<and> k' = k" if "getPath b' k' = getPath b k" "status_ok (isValid_name b' k')" for b' k'
    using that assms(4) by (subst (asm) getPath_inject) (auto simp: isValid_name_ok dest: bucket_no_slash)
  show ?thesis
    unfolding table_named_def nm using assms(1-3) by (auto simp: table_named_def split: if_splits dest: inj)
qed

lemma openAsFileHandle_names:
  assumes "ho_stub ho = server_stub peer reg" "\<not> gc_cache_objects_from_s3 (g_config g)" "node_coherent g"
    and "table_ok existing g" "table_named g" "GEDS_openAsFileHandle (heap_service ho) b k g = (r, g')"
  shows "node_coherent g' \<and> table_named g' \<and> g_config g' = g_config g \<and>
    (\<forall>h. r = Inr h \<longrightarrow> handle_names h b k g')"
proof (cases "g_state g \<noteq> Running \<or> \<not> status_ok (isValid_name b k) \<or> map_of (g_fileHandles g) (getPath b k) \<noteq> None")
  case True
  with assms show ?thesis
    by (auto simp: GEDS_openAsFileHandle_def Let_def ConcurrentMap_get_def table_named_def split: if_splits option.splits)
next
  case False
  obtain rr g1 where c: "GEDS_reopenFileHandle (heap_service ho) b k False g = (rr, g1)" by fastforce
  note q1 = reopen_names [OF assms(1-3) c]
  note old = table_named_calm [OF assms(4,5)]
  show ?thesis
  proof (cases rr)
    case (Inl e)
    with False assms(6) c q1 old show ?thesis
      by (auto simp: GEDS_openAsFileHandle_def Let_def ConcurrentMap_get_def calm_def same_service_def)
  next
    case (Inr h)
    obtain w g2 where wr: "heap_wrap h g1 = (w, g2)" by fastforce
    have q2: "calm g1 g2" "same_metadata g1 g2" "handle_names w b k g2"
      using heap_wrap_calm [OF wr] q1 Inr by auto
    have c2: "calm g g2" using q1 q2 calm_trans by blast
    let ?g = "g2\<lparr>g_fileHandles := map_assign (getPath b k) w (g_fileHandles g)\<rparr>"
    have g': "r = Inr w" "g' = ?g"
      using False assms(6) c Inr wr c2
      by (auto simp: GEDS_openAsFileHandle_def Let_def ConcurrentMap_get_def ConcurrentMap_insertOrExists_def
          calm_def same_service_def)
    have nm: "handle_names x b' k' ?g = handle_names x b' k' g2" for x b' k' by (rule handle_names_heap) simp
    have "table_named ?g"
      using table_named_assign [OF old [OF c2] _ q2(3)] assms(4) False c2
      by (auto simp: calm_def same_service_def table_ok_def)
    moreover have "node_coherent ?g" using q1 q2(2) same_metadata_coherent by simp blast
    ultimately show ?thesis using g' q2(3) c2 by (auto simp: nm calm_def same_service_def)
  qed
qed

lemma open_names:
  assumes "ho_stub ho = server_stub peer reg" "\<not> gc_cache_objects_from_s3 (g_config g)" "node_coherent g"
    and "table_ok existing g" "table_named g" "GEDS_open (heap_service ho) b k retry g = (r, g')"
  shows "node_coherent g' \<and> table_named g' \<and> (\<forall>h. r = Inr h \<longrightarrow> handle_names h b k g')"
  using assms
proof (induction "heap_service ho" b k retry g rule: GEDS_open.induct)
  case (1 b k retry g)
  obtain ar g1 where a: "GEDS_openAsFileHandle (heap_service ho) b k g = (ar, g1)" by fastforce
  note n = openAsFileHandle_names [OF "1.prems"(1-5) a]
  note t = node.openAsFileHandle_table [OF "1.prems"(4) a]
  show ?case
  proof (cases ar)
    case (Inl e)
    with "1.prems"(6) a n show ?thesis by (subst (asm) GEDS_open.simps) auto
  next
    case (Inr h)
    let ?g = "g1\<lparr>g_filesOpened := g_filesOpened g1 + 1\<rparr>"
    let ?g2 = "g1\<lparr>g_fileHandles := snd (ConcurrentMap_removeIf (getPath b k) (\<lambda>c. h = c) (g_fileHandles g1))\<rparr>"
    have h: "map_of (g_fileHandles g1) (getPath b k) = Some h" using t Inr by simp
    show ?thesis
    proof (cases "fh_isValid (base_of h g1)")
      case True
      with "1.prems"(6) a Inr have op: "heap_open h ?g = (r, g')" by (subst (asm) GEDS_open.simps) simp
      note o = heap_open_calm [OF op]
      have c: "calm g1 g'" "same_metadata g1 g'"
        using o calm_trans [of g1 ?g g'] calm_heap [of g1 ?g] by (auto simp: same_metadata_def)
      have "handle_names x b' k' g' = handle_names x b' k' g1" for x b' k'
        using heap_open_names [of x b' k' h ?g] op handle_names_heap [of ?g g1] by simp
      then have "table_named g'" using n c(1) by (simp add: table_named_def calm_def same_service_def)
      moreover have "\<forall>x. r = Inr x \<longrightarrow> handle_names x b k g'"
        using n Inr heap_open_law [OF op] \<open>\<And>x b' k'. handle_names x b' k' g' = handle_names x b' k' g1\<close> by simp
      ultimately show ?thesis using n c(2) same_metadata_coherent by blast
    next
      case False
      note rm = node.removeIf_self [OF _ h]
      have ok: "table_ok existing ?g2" "map_of (g_fileHandles ?g2) = (map_of (g_fileHandles g1))(getPath b k := None)"
        using rm t by blast+
      have "table_named g1" using n by blast
      then have n2: "table_named ?g2"
        by (rule table_named_sub) (use ok(2) in \<open>auto split: if_splits\<close>)
      have n3: "\<not> gc_cache_objects_from_s3 (g_config ?g2)" "node_coherent ?g2"
        using n "1.prems"(2) by auto
      show ?thesis
      proof (cases retry)
        case True
        with "1.prems"(6) a Inr False have "GEDS_open (heap_service ho) b k False ?g2 = (r, g')"
          by (subst (asm) GEDS_open.simps) simp
        from "1.hyps" [OF a [symmetric] Inr _ refl refl True "1.prems"(1) n3 ok(1) n2 this] False
        show ?thesis by simp
      next
        case no: False
        with "1.prems"(6) a Inr False n2 n3 show ?thesis by (subst (asm) GEDS_open.simps) (auto simp: Let_def)
      qed
    qed
  qed
qed

text \<open>Creating an object registers a handle of that object.\<close>

lemma heap_newLocal_calm:
  assumes "heap_newLocal ho b k p g = (r, g')"
  shows "calm g g' \<and> same_metadata g g' \<and> (\<forall>h. r = Inr h \<longrightarrow> handle_names h b k g')"
proof (cases "LocalHandle_factory b k None (ho_mkdir ho p) (LocalFile_new p True (ho_openFile ho p) None [])")
  case (Inl e)
  with assms show ?thesis by (auto simp: heap_newLocal_def same_metadata_def)
next
  case (Inr x)
  obtain i g2 where n: "new_object (HLocal x) g = (i, g2)" by fastforce
  have "fh_bucket (object_base (HLocal x)) = b" "fh_key (object_base (HLocal x)) = k"
    using Inr by (auto simp: LocalHandle_factory_def LocalHandle_mk_def object_base_def FileHandle.defs
        FileHandle_new_def split: if_splits outcome.splits)
  with new_object_calm [OF n] assms Inr n show ?thesis by (auto simp: heap_newLocal_def)
qed

lemma new_local_names:
  assumes "new_local_handle (heap_service ho) b k g = (r, g')"
  shows "calm g g' \<and> same_metadata g g' \<and> (\<forall>h. r = Inr h \<longrightarrow> handle_names h b k g')"
proof -
  obtain path fn where p: "getLocalPath (g_pathPrefix g) b k (g_fileNames g) = (path, fn)" by fastforce
  let ?g = "g\<lparr>g_fileNames := fn\<rparr>"
  from assms p have "heap_newLocal ho b k path ?g = (r, g')"
    by (simp add: new_local_handle_def GEDS_getLocalPath_def)
  from heap_newLocal_calm [OF this] calm_trans [of g ?g g'] calm_heap [of g ?g] show ?thesis
    by (auto simp: same_metadata_def)
qed

lemma create_names:
  assumes "ho_stub ho = server_stub peer reg" "node_coherent g" "table_ok existing g" "table_named g"
    and "GEDS_createAsFileHandle (heap_service ho) b k overwrite g = (r, g')"
  shows "node_coherent g' \<and> table_named g'"
proof -
  obtain st g1 where c: "GEDS_createBucket (heap_service ho) b g = (st, g1)" by fastforce
  have c1: "calm g g1" "node_coherent g1"
    using createBucket_same [OF c] createBucket_coherent [OF assms(2,1) c] by (auto intro: calm_heap)
  obtain nr g2 where n: "new_local_handle (heap_service ho) b k g1 = (nr, g2)" by fastforce
  have c2: "calm g1 g2" "same_metadata g1 g2" "\<And>h. nr = Inr h \<Longrightarrow> handle_names h b k g2"
    using new_local_names [OF n] by auto
  have g2: "calm g g2" "node_coherent g2"
    using c1 c2 calm_trans same_metadata_coherent by blast+
  have t: "table_named g1" "table_named g2" using table_named_calm [OF assms(3,4)] c1 g2 by blast+
  have f: "g_fileHandles g2 = g_fileHandles g" "map_sorted (g_fileHandles g)"
    using g2(1) assms(3) by (simp_all add: calm_def same_service_def table_ok_def)
  have asg: "table_named (g2\<lparr>g_fileHandles := map_assign (getPath b k) h (g_fileHandles g)\<rparr>)"
    if "nr = Inr h" "status_ok (isValid_name b k)" for h
    using table_named_assign [OF t(2) _ c2(3) [OF that(1)] that(2)] f by simp
  have id: "table_named (g2\<lparr>g_fileHandles := g_fileHandles g\<rparr>)" using t(2) by (rule table_named_sub) (simp_all add: f)
  show ?thesis
    using assms(2,4,5) c1(2) g2(2) t asg id f
    by (auto simp: GEDS_createAsFileHandle_def c n Let_def ConcurrentMap_insertOrReplace_def
        ConcurrentMap_insertOrExists_def split: if_splits sum.splits option.splits)
qed

text \<open>
  C6. Opening an object on a node ends with one of two states of the table: either the result is a valid handle
  and it is the one registered for the path, or the call fails and no handle is left for the
  path, so that an invalid handle is never found again. Other paths keep their handles. The call returns: it
  tries at most twice. On a node that talks to the metadata server, whose table holds handles of the objects
  it names and that does not keep S3 objects in its block cache, the returned handle is one of the requested
  object: it has the bucket and the key that were asked for, whether it was registered before, made for an
  object of the client's metadata cache, or made after a second lookup at the server.
\<close>

theorem GEDS_open_valid:
  assumes "table_ok existing g" "node_coherent g" "table_named g" "ho_stub ho = server_stub peer reg"
    and "GEDS_open (heap_service ho) b k retry g = (r, g')"
  shows "table_ok existing g' \<and>
    (\<forall>p. p \<noteq> getPath b k \<longrightarrow> map_of (g_fileHandles g') p = map_of (g_fileHandles g) p) \<and>
    (case r of
       Inr h \<Rightarrow> map_of (g_fileHandles g') (getPath b k) = Some h \<and> fh_isValid (base_of h g') \<and>
         (\<not> gc_cache_objects_from_s3 (g_config g) \<longrightarrow>
            fh_bucket (base_of h g') = b \<and> fh_key (base_of h g') = k)
     | Inl e \<Rightarrow> g_state g = Running \<longrightarrow> status_ok (isValid_name b k) \<longrightarrow>
         map_of (g_fileHandles g') (getPath b k) = None) \<and>
    (\<not> gc_cache_objects_from_s3 (g_config g) \<longrightarrow> node_coherent g' \<and> table_named g')"
proof -
  have "node_coherent g' \<and> table_named g' \<and> (\<forall>h. r = Inr h \<longrightarrow> handle_names h b k g')"
    if "\<not> gc_cache_objects_from_s3 (g_config g)"
    by (rule open_names [OF assms(4) that assms(2,1,3,5)])
  with node.open_table [OF assms(1,5)] show ?thesis by (cases r) (auto simp: handle_names_def)
qed

theorem GEDS_open_valid_witness:
  "\<exists>g1 g2. GEDS_createAsFileHandle (heap_service sample_host) ''abc'' ''x'' False sample_node = (Inr 0, g1) \<and>
     GEDS_open (heap_service sample_host) ''abc'' ''x'' True g1 = (Inr 0, g2) \<and> fh_isValid (base_of 0 g2) \<and>
     fh_bucket (base_of 0 g2) = ''abc'' \<and> fh_key (base_of 0 g2) = ''x''"
proof -
  let ?f = "GEDS_createAsFileHandle (heap_service sample_host) ''abc'' ''x'' False sample_node"
  have 1: "fst ?f = Inr 0" by code_simp
  have 2: "fst (GEDS_open (heap_service sample_host) ''abc'' ''x'' True (snd ?f)) = Inr 0" by code_simp
  obtain g1 where g1: "?f = (Inr 0, g1)" using 1 by (metis prod.collapse)
  obtain g2 where g2: "GEDS_open (heap_service sample_host) ''abc'' ''x'' True g1 = (Inr 0, g2)"
    using 2 g1 by (metis prod.collapse snd_conv)
  have stub: "ho_stub sample_host = server_stub ''ipv4:10.0.0.1:5'' unimplemented"
    by (simp add: sample_host_def)
  have "g_fileHandles sample_node = []" by code_simp
  then have "table_named sample_node" by (simp add: table_named_def)
  with create_names [OF stub sample_node_coherent sample_node_ok _ g1]
  have c: "node_coherent g1" "table_named g1" by blast+
  have "table_ok existing g1" using node.createAsFileHandle_table [OF sample_node_ok g1] by blast
  moreover have "\<not> gc_cache_objects_from_s3 (g_config (snd ?f))" by code_simp
  then have "\<not> gc_cache_objects_from_s3 (g_config g1)" using g1 by simp
  ultimately show ?thesis using GEDS_open_valid [OF _ c stub g2] g1 g2 by auto
qed

section \<open>Listing\<close>

lemma fs_emplace_last:
  assumes "\<And>y. y \<in> set ys \<Longrightarrow> GEDSFileStatus_less y x"
  shows "fs_emplace x ys = ys @ [x]"
  using assms by (induction ys) auto

lemma emplace_files:
  assumes "sorted_wrt (<) (map obj_key objs)"
    and "\<And>y v. y \<in> set acc \<Longrightarrow> v \<in> set objs \<Longrightarrow> \<not> fs_isDirectory y \<and> fs_key y < obj_key v"
  shows "fold (\<lambda>v. fs_emplace (mk_FileStatus (obj_key v) (info_size (obj_info v)) False)) objs acc =
    acc @ map (\<lambda>v. mk_FileStatus (obj_key v) (info_size (obj_info v)) False) objs"
  using assms
proof (induction objs arbitrary: acc)
  case (Cons v objs)
  let ?x = "mk_FileStatus (obj_key v) (info_size (obj_info v)) False"
  have "fs_emplace ?x acc = acc @ [?x]"
    using Cons.prems(2) by (intro fs_emplace_last) (simp add: GEDSFileStatus_less_def)
  moreover have "\<not> fs_isDirectory y \<and> fs_key y < obj_key w" if "y \<in> set (acc @ [?x])" "w \<in> set objs" for y w
    using that Cons.prems by auto
  ultimately show ?case using Cons.IH [of "acc @ [?x]"] Cons.prems(1) by simp
qed simp

lemma node_view_finite: "node_view g b = Some f \<Longrightarrow> finite (dom f)"
  by (auto simp: node_view_def kvs_abs_def)

text \<open>
  C9. Listing a prefix on a node without publish/subscribe gives exactly the objects the metadata server
  holds under it: one entry for every object of the bucket whose key starts with the prefix, with its
  size, in the order of the keys and without duplicates; an unknown bucket is \<open>kNotFound\<close>. Listing
  changes neither the server nor the coherence of the cache.
\<close>

theorem GEDS_list_exact:
  assumes "node_coherent g" "\<not> gc_pubSubEnabled (g_config g)" "ho_stub ho = server_stub peer reg"
    and "GEDS_list (heap_service ho) b p g = (r, g')"
  shows "node_coherent g' \<and> node_view g' = node_view g \<and>
    (case node_view g b of
       None \<Rightarrow> \<exists>e. r = Inl e \<and> status_code e = kNotFound
     | Some f \<Rightarrow> \<exists>files. r = Inr files \<and> sorted_wrt (\<lambda>x y. fs_key x < fs_key y) files \<and>
         set files = {mk_FileStatus k (info_size i) False | k i. f k = Some i \<and> prefix p k})"
proof -
  obtain lr g1 where l: "on_metadata (MetadataService_listPrefix_delim (server_stub peer reg) b p CHR 0x00) g = (lr, g1)"
    by fastforce
  have c: "RListing lr = fst (spec_kvs_step (ListObjects b p CHR 0x00) (node_view g))"
    "node_view g1 = snd (spec_kvs_step (ListObjects b p CHR 0x00) (node_view g))" "node_coherent g1"
    using list_call [OF assms(1) _ _ l, of b p "CHR 0x00" peer reg] by (simp_all del: spec_kvs_step.simps)
  have v: "node_view g1 = node_view g" using c(2) read_step_nop by simp
  show ?thesis
  proof (cases "node_view g b")
    case None
    then have "lr = Inl (no_bucket b)" using c(1) by (simp add: in_bucket_def)
    then have "r = Inl (no_bucket b)" "g' = g1"
      using assms(2-4) l by (auto simp: GEDS_list_def GEDS_list_delim_def)
    with None c(3) v show ?thesis by (simp add: no_bucket_def)
  next
    case (Some f)
    obtain objs cps where ls: "listing_spec b f p CHR 0x00 = (objs, cps)" by fastforce
    note fin = node_view_finite [OF Some]
    have cps: "cps = []" using listing_spec_prefixes [OF fin, of b p "CHR 0x00"] ls by simp
    have lr: "lr = Inr (objs, [])" using c(1) Some ls cps by (simp add: in_bucket_def)
    have srt: "sorted_wrt (<) (map obj_key objs)" using listing_spec_sorted(1) [of b f p "CHR 0x00"] ls by simp
    let ?files = "map (\<lambda>v. mk_FileStatus (obj_key v) (info_size (obj_info v)) False) objs"
    have "list_result CHR 0x00 objs [] = ?files"
      using emplace_files [OF srt, of "[]"] by (simp add: list_result_def Let_def)
    then have "r = Inr ?files" "node_coherent g'" "node_view g' = node_view g"
      using assms(2-4) l lr c(3) v by (auto simp: GEDS_list_def GEDS_list_delim_def Let_def)
    moreover have "sorted_wrt (\<lambda>x y. fs_key x < fs_key y) ?files"
      using srt by (simp add: sorted_wrt_map)
    moreover have "set ?files = {mk_FileStatus k (info_size i) False | k i. f k = Some i \<and> prefix p k}"
      using listing_spec_objects [OF fin, of b p "CHR 0x00"] ls by force
    ultimately show ?thesis by (simp add: Some)
  qed
qed

theorem GEDS_list_exact_witness:
  "\<exists>files g'. GEDS_list (heap_service sample_host) ''abc'' '''' node_b = (Inr files, g') \<and>
     sorted_wrt (\<lambda>x y. fs_key x < fs_key y) files \<and> mk_FileStatus ''x'' 3 False \<in> set files"
proof -
  have code: "\<not> gc_pubSubEnabled (g_config node_b)"
    "fst (GEDS_list (heap_service sample_host) ''abc'' '''' node_b) = Inr [mk_FileStatus ''x'' 3 False]"
    by code_simp+
  obtain g' where l: "GEDS_list (heap_service sample_host) ''abc'' '''' node_b =
      (Inr [mk_FileStatus ''x'' 3 False], g')"
    using code(2) by (metis prod.collapse)
  from GEDS_list_exact [OF node_b_coherent code(1) sample_stub l] l show ?thesis by (auto split: option.splits)
qed

end
