(* ===== verification/Tcp_Protocol.thy ===== *)
theory Tcp_Protocol
  imports Object_Names Local_File
begin

text \<open>
  The transfer of file ranges between nodes: the text of a request and the binary header of a
  response, \<^verbatim>\<open>src/libgeds/TcpDataTransport.{h,cpp}\<close>, the server side of a connection,
  \<^verbatim>\<open>TcpConnection.cpp\<close>, and the client, \<^verbatim>\<open>TcpClient.cpp\<close>. The file the server opens is reached through a
  record of the calls it makes; the result of every asynchronous operation is an argument. A request
  survives printing and parsing, and a client reads exactly the range of the file
  that the server opened, on each of the three paths by which the server sends it.
\<close>

section \<open>Requests\<close>

datatype RequestType = GET

definition parseRequestType :: "string \<Rightarrow> RequestType StatusOr" where
  "parseRequestType message =
     (if prefix ''GET'' message then Inr GET else Inl (InvalidArgumentError ''Invalid request!''))"

definition createGetRequest :: "string \<Rightarrow> string \<Rightarrow> size_t \<Rightarrow> size_t \<Rightarrow> string" where
  "createGetRequest bucket key offset length' =
     ''GET '' @ bucket @ ''/'' @ key @ [CHR 0x0A] @ ''RANGE '' @ show_nat offset @ '' '' @ show_nat length'"

text \<open>
  The regular expression
  \<open>GET ([a-z\d][a-z\d\.\-]+[a-z\d])\/(.+)[\n]+RANGE (\d+) (\d+)\D*\<close>, matched against the whole request.
  A bucket has no slash, the key ends at the first line terminator, and a run of digits cannot
  be continued by what follows it, so each group is determined from left to right.
\<close>

definition strip :: "string \<Rightarrow> string \<Rightarrow> string option" where
  "strip p s = (if prefix p s then Some (drop (length p) s) else None)"

definition match_range :: "string \<Rightarrow> (string \<times> string) option" where
  "match_range s =
     (case strip ''RANGE '' s of
        None \<Rightarrow> None
      | Some s1 \<Rightarrow>
          let first = takeWhile is_digit s1; s2 = dropWhile is_digit s1 in
          if first = [] then None
          else case strip '' '' s2 of
              None \<Rightarrow> None
            | Some s3 \<Rightarrow>
                let second = takeWhile is_digit s3; s4 = dropWhile is_digit s3 in
                if second = [] \<or> list_ex is_digit s4 then None else Some (first, second))"

definition match_get :: "string \<Rightarrow> (string \<times> string \<times> string \<times> string) option" where
  "match_get s =
     (case strip ''GET '' s of
        None \<Rightarrow> None
      | Some s1 \<Rightarrow>
          let bucket = takeWhile (\<lambda>c. c \<noteq> CHR ''/'') s1; s2 = dropWhile (\<lambda>c. c \<noteq> CHR ''/'') s1 in
          if \<not> bucket_regex bucket \<or> s2 = [] then None
          else
            let key = takeWhile (\<lambda>c. c \<noteq> CHR 0x0A \<and> c \<noteq> CHR 0x0D) (tl s2);
                s3 = dropWhile (\<lambda>c. c \<noteq> CHR 0x0A \<and> c \<noteq> CHR 0x0D) (tl s2)
            in if key = [] \<or> \<not> prefix [CHR 0x0A] s3 then None
               else map_option (\<lambda>(p, n). (bucket, key, p, n)) (match_range (dropWhile (\<lambda>c. c = CHR 0x0A) s3)))"

text \<open>\<open>std::stoull\<close> throws when the value does not fit.\<close>

definition stoull :: "string \<Rightarrow> size_t outcome" where
  "stoull s = (if read_nat s < 2 ^ 64 then Returns (read_nat s) else Raises ''stoull'')"

definition parseGetRequest :: "string \<Rightarrow> (string \<times> string \<times> size_t \<times> size_t) StatusOr outcome" where
  "parseGetRequest request =
     (case match_get request of
        None \<Rightarrow> Returns (Inl (InvalidArgumentError (''Unable to parse '' @ [CHR 0x27] @ request @ [CHR 0x27])))
      | Some (bucket, key, p, n) \<Rightarrow>
          (case stoull p of
             Raises e \<Rightarrow> Raises e
           | Returns offset \<Rightarrow>
               (case stoull n of
                  Raises e \<Rightarrow> Raises e
                | Returns length' \<Rightarrow> Returns (Inr (bucket, key, offset, length')))))"

section \<open>Responses\<close>

text \<open>
  The struct \<open>Response\<close> travels as it lies in memory on the little-endian 64-bit platforms the
  program is built for: four bytes of code, four bytes of padding with unspecified content, eight
  bytes of length.
\<close>

record Response =
  rs_statusCode :: int
  rs_length :: size_t

definition le_bytes :: "nat \<Rightarrow> nat \<Rightarrow> byte list" where
  "le_bytes k n = map (\<lambda>i. of_nat (n div 256 ^ i)) [0..<k]"

fun le_value :: "byte list \<Rightarrow> nat" where
  "le_value [] = 0"
| "le_value (b # bs) = unat b + 256 * le_value bs"

definition encode_Response :: "byte list \<Rightarrow> Response \<Rightarrow> byte list" where
  "encode_Response padding r =
     le_bytes 4 (nat (rs_statusCode r mod 2 ^ 32)) @ padding @ le_bytes 8 (rs_length r)"

definition decode_Response :: "byte list \<Rightarrow> Response" where
  "decode_Response bs =
     (let c = int (le_value (take 4 bs))
      in \<lparr>rs_statusCode = (if c < 2 ^ 31 then c else c - 2 ^ 32), rs_length = le_value (drop 8 bs)\<rparr>)"

definition bytes_of_string :: "string \<Rightarrow> byte list" where
  "bytes_of_string s = map of_char s"

definition string_of_bytes :: "byte list \<Rightarrow> string" where
  "string_of_bytes bs = map (\<lambda>b. char_of (unat b)) bs"

text \<open>\<open>static_cast<absl::StatusCode>\<close> of an integer, as \<open>Status::code\<close> reports it.\<close>

definition code_of_int :: "int \<Rightarrow> StatusCode" where
  "code_of_int c = (if 0 \<le> c \<and> c < 17 then absl_codes ! nat c else kUnknown)"

section \<open>The server side of a connection\<close>

text \<open>After a request the connection waits for the next one, is dropped, or is busy for ever.\<close>

datatype connection_state = AwaitsRequest | Closed | Stalled

text \<open>The calls of the service and of an open file.\<close>

record 'g file_api =
  fa_open :: "string \<Rightarrow> string \<Rightarrow> 'g \<Rightarrow> nat StatusOr \<times> 'g"
  fa_close :: "nat \<Rightarrow> 'g \<Rightarrow> 'g"
  fa_size :: "nat \<Rightarrow> 'g \<Rightarrow> size_t"
  fa_rawFd :: "nat \<Rightarrow> 'g \<Rightarrow> int StatusOr"
  fa_rawPtr :: "nat \<Rightarrow> 'g \<Rightarrow> byte list StatusOr \<times> 'g"
  fa_readBytes :: "nat \<Rightarrow> size_t \<Rightarrow> size_t \<Rightarrow> 'g \<Rightarrow> (size_t \<times> byte list) StatusOr \<times> 'g"
  fa_stored :: "nat \<Rightarrow> int \<Rightarrow> 'g \<Rightarrow> byte list"

text \<open>
  The events of one request: the padding of the header, how many bytes the first write transfers before it
  fails, if it fails, and per round of \<open>sendfile\<close> whether the wait for the socket fails and the
  results of the calls. Without further rounds the socket takes all that the file has.
\<close>

record tcp_events =
  te_padding :: "byte list"
  te_write :: "nat option"
  te_rounds :: "(bool \<times> io_event list) list"

definition async_write :: "nat option \<Rightarrow> byte list \<Rightarrow> byte list \<times> connection_state" where
  "async_write ec bs = (case ec of None \<Rightarrow> (bs, AwaitsRequest) | Some n \<Rightarrow> (take n bs, Closed))"

definition handleError :: "tcp_events \<Rightarrow> Status \<Rightarrow> byte list \<times> connection_state" where
  "handleError ev status =
     async_write (te_write ev)
       (encode_Response (te_padding ev)
          \<lparr>rs_statusCode = code_int (status_code status), rs_length = length (status_message status)\<rparr> @
        bytes_of_string (status_message status))"

text \<open>
  \<open>handleWriteSendfile\<close>: one \<open>sendfile\<close> per round. A socket that would block is waited for again. A
  file shorter than announced makes the call transfer nothing, again and again.
\<close>

function handleWriteSendfile ::
  "(bool \<times> io_event list) list \<Rightarrow> byte list \<Rightarrow> size_t \<Rightarrow> size_t \<Rightarrow> byte list \<times> connection_state" where
  "handleWriteSendfile rounds content offset count =
     (if count = 0 then ([], AwaitsRequest)
      else
        let (ec, script) = (case rounds of [] \<Rightarrow> (False, []) | r # _ \<Rightarrow> r) in
        if ec then ([], Closed)
        else case fst (retry_eintr script count) of
            Failed err \<Rightarrow>
              if err \<noteq> ''EWOULDBLOCK'' then ([], Closed)
              else handleWriteSendfile (tl rounds) content offset count
          | Moved n \<Rightarrow>
              let sent = file_read offset (min n count) content in
              if rounds = [] \<and> sent = [] then ([], Stalled)
              else apfst ((@) sent)
                     (handleWriteSendfile (tl rounds) content (offset + length sent) (count - length sent))
          | Interrupted \<Rightarrow> ([], Stalled))"
  by pat_completeness auto

termination handleWriteSendfile
proof (relation "measure (\<lambda>(rounds, _, _, count). count + length rounds)", goal_cases)
  case (2 rounds content offset count x ec script err)
  then show ?case by (cases rounds) auto
next
  case (3 rounds content offset count x ec script n sent)
  then have "rounds \<noteq> [] \<or> sent \<noteq> []" by simp
  then have "length (tl rounds) < length rounds \<or> 0 < length sent" by (cases rounds) auto
  moreover have "length sent \<le> count" using 3 by (auto simp: file_read_def)
  ultimately show ?case using 3 by (cases rounds) auto
qed simp

declare handleWriteSendfile.simps [simp del]

definition served_length :: "size_t \<Rightarrow> size_t \<Rightarrow> size_t \<Rightarrow> size_t" where
  "served_length size' offset length' = (if offset > size' then 0 else min (size' - offset) length')"

text \<open>
  The header and the message of an error are written from variables that end with the call; the model takes the bytes they had. The buffer
  of the last branch has the length of the request, whatever the size of the file; that its allocation fails for a huge
  length is not modelled.
\<close>

definition handleWrite ::
  "'g file_api \<Rightarrow> tcp_events \<Rightarrow> string \<Rightarrow> string \<Rightarrow> size_t \<Rightarrow> size_t \<Rightarrow> 'g \<Rightarrow> (byte list \<times> connection_state) \<times> 'g"
where
  "handleWrite fa ev bucket key offset length' g =
     (case fa_open fa bucket key g of
        (Inl s, g1) \<Rightarrow> (handleError ev s, g1)
      | (Inr file, g1) \<Rightarrow>
          let header = (\<lambda>n. encode_Response (te_padding ev) \<lparr>rs_statusCode = code_int kOk, rs_length = n\<rparr>);
              rawFd = fa_rawFd fa file g1
          in case fa_rawPtr fa file g1 of
              (Inr ptr, g2) \<Rightarrow>
                let n = served_length (fa_size fa file g2) offset length'
                in (async_write (te_write ev) (header n @ take n (drop offset ptr)), fa_close fa file g2)
            | (Inl _, g2) \<Rightarrow>
                if is_ok rawFd \<and> length' > 8192 then
                  (let n = served_length (fa_size fa file g2) offset length';
                       fd = (case rawFd of Inl _ \<Rightarrow> 0 | Inr fd \<Rightarrow> fd)
                   in case async_write (te_write ev) (header n) of
                        (out, AwaitsRequest) \<Rightarrow>
                          (apfst ((@) out)
                             (handleWriteSendfile (te_rounds ev) (fa_stored fa file fd g2) offset n),
                           fa_close fa file g2)
                      | (out, c) \<Rightarrow> ((out, c), fa_close fa file g2))
                else
                  (case fa_readBytes fa file offset length' g2 of
                     (Inl s, g3) \<Rightarrow> (handleError ev s, fa_close fa file g3)
                   | (Inr (n, bytes), g3) \<Rightarrow>
                       (async_write (te_write ev) (header n @ take n bytes), fa_close fa file g3)))"

text \<open>
  The completion handler of \<open>awaitRequest\<close>: it takes all that is in the buffer, which holds at
  least one NUL, as the request. An exception of the parser leaves the handler and ends the program.
\<close>

definition awaitRequest ::
  "'g file_api \<Rightarrow> tcp_events \<Rightarrow> string \<Rightarrow> 'g \<Rightarrow> ((byte list \<times> connection_state) \<times> 'g) outcome" where
  "awaitRequest fa ev requestStr g =
     (case parseGetRequest requestStr of
        Raises e \<Rightarrow> Raises e
      | Returns (Inl status) \<Rightarrow> Returns (handleError ev status, g)
      | Returns (Inr (bucket, key, offset, length')) \<Rightarrow>
          Returns (handleWrite fa ev bucket key offset length' g))"

section \<open>The client\<close>

text \<open>
  A connected socket: a write returns the number of bytes or throws, a read of exactly \<open>n\<close> bytes
  returns them, throws at the end of the stream, or waits for ever (\<^const>\<open>None\<close>).
\<close>

record 'w socket =
  so_write :: "string \<Rightarrow> 'w \<Rightarrow> nat outcome \<times> 'w"
  so_read :: "nat \<Rightarrow> 'w \<Rightarrow> byte list outcome option \<times> 'w"

definition TcpClient_readResponse ::
  "'w socket \<Rightarrow> 'w \<Rightarrow> (size_t \<times> byte list) StatusOr outcome option \<times> 'w" where
  "TcpClient_readResponse so w =
     (case so_read so 16 w of
        (None, w1) \<Rightarrow> (None, w1)
      | (Some (Raises e), w1) \<Rightarrow> (Some (Raises e), w1)
      | (Some (Returns bs), w1) \<Rightarrow>
          if length bs \<noteq> 16
          then (Some (Returns (Inl (UnknownError ''TcpClient received an invalid amount of data!''))), w1)
          else
            let response = decode_Response bs in
            if rs_statusCode response \<noteq> code_int kOk then
              (case so_read so (rs_length response) w1 of
                 (None, w2) \<Rightarrow> (None, w2)
               | (Some (Raises e), w2) \<Rightarrow> (Some (Raises e), w2)
               | (Some (Returns msg), w2) \<Rightarrow>
                   if length msg \<noteq> rs_length response
                   then (Some (Returns (Inl (UnknownError ''TcpClient received an unexpected length!''))), w2)
                   else (Some (Returns (Inl (mk_Status (code_of_int (rs_statusCode response))
                           (string_of_bytes msg)))), w2))
            else if rs_length response > 0 then
              (case so_read so (rs_length response) w1 of
                 (None, w2) \<Rightarrow> (None, w2)
               | (Some (Raises e), w2) \<Rightarrow> (Some (Raises e), w2)
               | (Some (Returns bytes), w2) \<Rightarrow>
                   if length bytes \<noteq> rs_length response
                   then (Some (Returns (Inl (UnknownError ''TcpClient received an unexpected length!''))), w2)
                   else (Some (Returns (Inr (rs_length response, bytes))), w2))
            else (Some (Returns (Inr (0, []))), w1))"

definition TcpClient_readBytes ::
  "'w socket \<Rightarrow> string \<Rightarrow> string \<Rightarrow> size_t \<Rightarrow> size_t \<Rightarrow> 'w
     \<Rightarrow> (size_t \<times> byte list) StatusOr outcome option \<times> 'w" where
  "TcpClient_readBytes so bucket key position length' w =
     (let request = createGetRequest bucket key position length' @ [CHR 0x00] in
      case so_write so request w of
        (Raises e, w1) \<Rightarrow> (Some (Raises e), w1)
      | (Returns rc, w1) \<Rightarrow>
          if rc \<noteq> length request
          then (Some (Returns (Inl (UnknownError ''TcpClient sent an unexpected length!''))), w1)
          else TcpClient_readResponse so w1)"

text \<open>\<open>connect\<close>: resolving may throw, connecting may report an error code.\<close>

definition TcpClient_connect :: "string outcome \<Rightarrow> bool \<Rightarrow> Status" where
  "TcpClient_connect resolved isOpen =
     (case resolved of
        Raises e \<Rightarrow> UnknownError e
      | Returns ec \<Rightarrow>
          if ec \<noteq> [] \<or> \<not> isOpen then UnavailableError (''Unable to connect '' @ ec) else OkStatus)"

section \<open>Printing and parsing\<close>

lemma strip_append [simp]: "strip p (p @ s) = Some s"
  by (simp add: strip_def)

lemma not_digit_controls [simp]: "\<not> is_digit (CHR 0x20)" "\<not> is_digit (CHR 0x00)" "\<not> is_digit (CHR 0x0A)"
  by (simp_all add: is_digit_iff)

lemma digits_split:
  "\<not> is_digit c \<Longrightarrow> takeWhile is_digit (show_nat n @ c # s) = show_nat n"
  "\<not> is_digit c \<Longrightarrow> dropWhile is_digit (show_nat n @ c # s) = c # s"
  using show_nat_digits [of _ n]
  by (auto simp: takeWhile_all_append dropWhile_all_append)

lemma match_range_shown [simp]:
  "match_range (''RANGE '' @ show_nat m @ CHR '' '' # show_nat n @ [CHR 0x00]) = Some (show_nat m, show_nat n)"
proof -
  have "strip ''RANGE '' (''RANGE '' @ show_nat m @ CHR '' '' # show_nat n @ [CHR 0x00]) =
      Some (show_nat m @ CHR '' '' # show_nat n @ [CHR 0x00])" by (rule strip_append)
  moreover have "strip '' '' (CHR '' '' # show_nat n @ [CHR 0x00]) = Some (show_nat n @ [CHR 0x00])"
    using strip_append [of "'' ''"] by simp
  ultimately show ?thesis by (simp add: match_range_def Let_def digits_split)
qed

lemma match_get_created:
  assumes "bucket_regex b" and "k \<noteq> []" and "CHR 0x0A \<notin> set k" and "CHR 0x0D \<notin> set k"
  shows "match_get (createGetRequest b k m n @ [CHR 0x00]) = Some (b, k, show_nat m, show_nat n)"
proof -
  let ?r = "''RANGE '' @ show_nat m @ CHR '' '' # show_nat n @ [CHR 0x00]"
  have eq: "createGetRequest b k m n @ [CHR 0x00] = ''GET '' @ b @ CHR ''/'' # k @ CHR 0x0A # ?r"
    by (simp add: createGetRequest_def)
  have k: "\<And>c. c \<in> set k \<Longrightarrow> c \<noteq> CHR 0x0A \<and> c \<noteq> CHR 0x0D" using assms(3,4) by metis
  have "takeWhile (\<lambda>c. c \<noteq> CHR 0x0A \<and> c \<noteq> CHR 0x0D) (k @ CHR 0x0A # ?r) = k"
    using takeWhile_all_append [of k "\<lambda>c. c \<noteq> CHR 0x0A \<and> c \<noteq> CHR 0x0D", OF k] by simp
  moreover have "dropWhile (\<lambda>c. c \<noteq> CHR 0x0A \<and> c \<noteq> CHR 0x0D) (k @ CHR 0x0A # ?r) = CHR 0x0A # ?r"
    using dropWhile_all_append [of k "\<lambda>c. c \<noteq> CHR 0x0A \<and> c \<noteq> CHR 0x0D", OF k] by simp
  moreover have "strip ''GET '' (''GET '' @ b @ CHR ''/'' # k @ CHR 0x0A # ?r) =
      Some (b @ CHR ''/'' # k @ CHR 0x0A # ?r)" by (rule strip_append)
  moreover have "dropWhile (\<lambda>c. c = CHR 0x0A) (CHR 0x0A # ?r) = ?r" by simp
  ultimately show ?thesis
    unfolding eq match_get_def
    using bucket_regex_no_slash [OF assms(1)] assms(1,2) match_range_shown [of m n]
    by (simp only: option.case Let_def takeWhile_sep dropWhile_sep list.sel simp_thms list.distinct
        append_Cons append_Nil prefix_code option.map prod.case not_False_eq_True if_False if_True)
qed

lemma match_get_key:
  assumes "match_get s = Some (b, k, p, n)"
  shows "k \<noteq> [] \<and> CHR 0x0A \<notin> set k \<and> CHR 0x0D \<notin> set k \<and> bucket_regex b"
  using assms set_takeWhileD
  by (fastforce simp: match_get_def Let_def split: option.splits if_splits)


text \<open>
  C24. A request for a range of an object arrives as it was sent: for every bucket of the accepted form and every
  position and length of 64 bits, the server parses the request that the client prints, with the NUL that
  ends it, to the same bucket, key, position and length exactly when the key is not empty and
  has no line terminator. A number of more than 64 bits makes the parser throw.
\<close>

theorem parse_created_request:
  assumes "bucket_regex b" and "position < 2 ^ 64" and "length' < 2 ^ 64" and "2 ^ 64 \<le> huge"
  shows "let key_ok = (k \<noteq> [] \<and> CHR 0x0A \<notin> set k \<and> CHR 0x0D \<notin> set k) in
    (parseGetRequest (createGetRequest b k position length' @ [CHR 0x00]) =
       Returns (Inr (b, k, position, length')) \<longleftrightarrow> key_ok) \<and>
    (key_ok \<longrightarrow> parseGetRequest (createGetRequest b k position huge @ [CHR 0x00]) = Raises ''stoull'')"
proof (cases "k \<noteq> [] \<and> CHR 0x0A \<notin> set k \<and> CHR 0x0D \<notin> set k")
  case True
  with match_get_created [OF assms(1), of k position] assms(2-4)
  show ?thesis by (simp add: parseGetRequest_def stoull_def)
next
  case False
  then have "match_get (createGetRequest b k position length' @ [CHR 0x00]) \<noteq> Some (b, k, p, n)" for p n
    using match_get_key by blast
  then have "parseGetRequest (createGetRequest b k position length' @ [CHR 0x00]) \<noteq>
      Returns (Inr (b, k, position, length'))"
    by (auto simp: parseGetRequest_def split: option.splits outcome.splits prod.splits)
  with False show ?thesis by (auto simp: Let_def)
qed

theorem parse_created_request_witness:
  "parseGetRequest (createGetRequest ''abc'' ''x/y'' 5 9 @ [CHR 0x00]) = Returns (Inr (''abc'', ''x/y'', 5, 9)) \<and>
   parseGetRequest (createGetRequest ''abc'' ''x/y'' 5 (2 ^ 64) @ [CHR 0x00]) = Raises ''stoull''"
  using parse_created_request [of "''abc''" 5 9 "2 ^ 64" "''x/y''"]
  by (simp add: bucket_regex_def is_lower_or_digit_def is_digit_def Let_def)

section \<open>Headers\<close>

lemma le_bytes_Suc: "le_bytes (Suc k) n = of_nat n # le_bytes k (n div 256)"
  by (simp add: le_bytes_def upt_conv_Cons del: upt_Suc)
    (simp add: map_Suc_upt [symmetric] div_mult2_eq del: upt_Suc)

lemma length_le_bytes [simp]: "length (le_bytes k n) = k"
  by (simp add: le_bytes_def)

lemma le_value_le_bytes: "le_value (le_bytes k n) = n mod 256 ^ k"
proof (induction k arbitrary: n)
  case 0
  then show ?case by (simp add: le_bytes_def)
next
  case (Suc k)
  have "n mod (256 * 256 ^ k) = 256 * (n div 256 mod 256 ^ k) + n mod 256" by (rule mod_mult2_eq)
  then show ?case by (simp add: le_bytes_Suc Suc unat_of_nat)
qed

lemma length_encode_Response [simp]: "length padding = 4 \<Longrightarrow> length (encode_Response padding r) = 16"
  by (simp add: encode_Response_def)

lemma decode_encode_Response:
  assumes "length padding = 4" "- (2 ^ 31) \<le> rs_statusCode r" "rs_statusCode r < 2 ^ 31" "rs_length r < 2 ^ 64"
  shows "decode_Response (encode_Response padding r) = r"
proof -
  let ?c = "rs_statusCode r"
  have "le_value (le_bytes 4 (nat (?c mod 2 ^ 32))) = nat (?c mod 2 ^ 32)"
    by (simp add: le_value_le_bytes nat_less_iff)
  moreover have "le_value (le_bytes 8 (rs_length r)) = rs_length r"
    using assms(4) by (simp add: le_value_le_bytes)
  moreover have "(if ?c mod 2 ^ 32 < 2 ^ 31 then ?c mod 2 ^ 32 else ?c mod 2 ^ 32 - 2 ^ 32) = ?c"
  proof (cases "0 \<le> ?c")
    case False
    have "?c mod 2 ^ 32 = (?c + 2 ^ 32) mod 2 ^ 32" by simp
    also have "\<dots> = ?c + 2 ^ 32" using False assms(2) by (intro mod_pos_pos_trivial) simp_all
    finally show ?thesis using assms(2) by simp
  qed (use assms(3) in simp)
  ultimately show ?thesis using assms(1)
    by (cases r) (simp add: decode_Response_def encode_Response_def Let_def split: if_splits)
qed

lemma string_of_bytes_of_string [simp]: "string_of_bytes (bytes_of_string s) = s"
proof -
  have "unat (of_char c :: byte) = of_char c" for c
    by (cases c) (simp add: of_char_def)
  then show ?thesis by (simp add: string_of_bytes_def bytes_of_string_def map_idI)
qed

lemma length_bytes_of_string [simp]: "length (bytes_of_string s) = length s"
  by (simp add: bytes_of_string_def)

lemma code_of_int_code_int [simp]: "code_of_int (code_int c) = c"
  by (cases c) (simp_all add: code_of_int_def code_int_def absl_codes_def)

lemma code_int_bounds: "0 \<le> code_int c" "code_int c < 17" "code_int c = code_int kOk \<longleftrightarrow> c = kOk"
  by (cases c; simp add: code_int_def absl_codes_def)+


section \<open>A connection\<close>

text \<open>
  Client and server joined by a connection: a write runs the server's handler on the request, the
  bytes it sends wait to be read. A server that is busy for ever or waits for the next request
  leaves a reader waiting; a dropped connection ends the stream.
\<close>

record 'g link =
  ln_node :: 'g
  ln_pending :: "byte list"
  ln_state :: connection_state

definition link_write :: "'g file_api \<Rightarrow> tcp_events \<Rightarrow> string \<Rightarrow> 'g link \<Rightarrow> nat outcome \<times> 'g link" where
  "link_write fa ev request l =
     (if ln_state l \<noteq> AwaitsRequest then (Raises ''write: Broken pipe'', l)
      else case awaitRequest fa ev request (ln_node l) of
          Raises _ \<Rightarrow> (Returns (length request), l\<lparr>ln_state := Closed\<rparr>)
        | Returns ((out, c), g) \<Rightarrow>
            (Returns (length request), \<lparr>ln_node = g, ln_pending = ln_pending l @ out, ln_state = c\<rparr>))"

definition link_read :: "nat \<Rightarrow> 'g link \<Rightarrow> byte list outcome option \<times> 'g link" where
  "link_read n l =
     (if n \<le> length (ln_pending l)
      then (Some (Returns (take n (ln_pending l))), l\<lparr>ln_pending := drop n (ln_pending l)\<rparr>)
      else (if ln_state l = Closed then Some (Raises ''read: End of file'') else None, l\<lparr>ln_pending := []\<rparr>))"

definition link_socket :: "'g file_api \<Rightarrow> tcp_events \<Rightarrow> 'g link socket" where
  "link_socket fa ev = \<lparr>so_write = link_write fa ev, so_read = link_read\<rparr>"

definition idle_link :: "'g \<Rightarrow> 'g link" where
  "idle_link g = \<lparr>ln_node = g, ln_pending = [], ln_state = AwaitsRequest\<rparr>"

section \<open>The client reads what the server sent\<close>

text \<open>A frame, success or error, is read to its end and nothing remains.\<close>

lemma read_data_frame:
  assumes "length padding = 4" "length bytes < 2 ^ 64"
    and "ln_pending l = encode_Response padding \<lparr>rs_statusCode = code_int kOk, rs_length = length bytes\<rparr> @ bytes"
  shows "TcpClient_readResponse (link_socket fa ev) l =
    (Some (Returns (Inr (length bytes, bytes))), l\<lparr>ln_pending := []\<rparr>)"
proof -
  have "decode_Response (encode_Response padding \<lparr>rs_statusCode = code_int kOk, rs_length = length bytes\<rparr>) =
      \<lparr>rs_statusCode = code_int kOk, rs_length = length bytes\<rparr>"
    using assms(1,2) code_int_bounds [of kOk] by (intro decode_encode_Response) simp_all
  with assms show ?thesis
    by (cases "bytes = []") (simp_all add: TcpClient_readResponse_def link_socket_def link_read_def Let_def)
qed

lemma read_error_frame:
  assumes "length (te_padding ev) = 4" "te_write ev = None" "length (status_message s) < 2 ^ 64" "\<not> status_ok s"
    and "ln_pending l = fst (handleError ev s)"
  shows "TcpClient_readResponse (link_socket fa ev) l =
    (Some (Returns (Inl s)), l\<lparr>ln_pending := []\<rparr>)"
proof -
  let ?r = "\<lparr>rs_statusCode = code_int (status_code s), rs_length = length (status_message s)\<rparr>"
  have "decode_Response (encode_Response (te_padding ev) ?r) = ?r"
    using assms(1,3) code_int_bounds [of "status_code s"] by (intro decode_encode_Response) simp_all
  moreover have "code_int (status_code s) \<noteq> code_int kOk" using assms(4) code_int_bounds(3) by (simp add: status_ok_def)
  moreover have "mk_Status (status_code s) (status_message s) = s" using assms(4)
    by (simp add: mk_Status_def status_ok_def)
  ultimately show ?thesis using assms
    by (simp add: TcpClient_readResponse_def link_socket_def link_read_def Let_def handleError_def async_write_def)
qed

text \<open>Rounds of \<open>sendfile\<close> in which the socket stays usable and every call ends well or would block.\<close>

definition rounds_ok :: "(bool \<times> io_event list) list \<Rightarrow> bool" where
  "rounds_ok rounds \<longleftrightarrow> (\<forall>(ec, script) \<in> set rounds. \<not> ec \<and>
     (\<forall>e \<in> set script. e = Interrupted \<or> e = Failed ''EWOULDBLOCK'' \<or> (\<exists>n. e = Moved n)))"

lemma retry_eintr_member:
  "retry_eintr script count = (e, rest) \<Longrightarrow> e \<noteq> Interrupted \<and> (e \<in> set script \<or> e = Moved count)"
  by (induction script count rule: retry_eintr.induct) auto

lemma handleWriteSendfile_exact:
  assumes "rounds_ok rounds" "offset + count \<le> length content"
  shows "handleWriteSendfile rounds content offset count = (file_read offset count content, AwaitsRequest)"
  using assms
proof (induction "count + length rounds" arbitrary: rounds offset count rule: less_induct)
  case less
  show ?case
  proof (cases "count = 0")
    case True
    then show ?thesis by (subst handleWriteSendfile.simps) (simp add: file_read_def)
  next
    case False
    define r where "r = (case rounds of [] \<Rightarrow> (False, []) | r # _ \<Rightarrow> r)"
    obtain e rest where e: "retry_eintr (snd r) count = (e, rest)" by fastforce
    have r: "\<not> fst r" "e = Failed ''EWOULDBLOCK'' \<or> (\<exists>n. e = Moved n)" "rounds_ok (tl rounds)"
      using less.prems(1) retry_eintr_member [OF e] by (auto simp: r_def rounds_ok_def split: list.splits)
    have nil: "rounds = [] \<Longrightarrow> e = Moved count" using e by (simp add: r_def)
    show ?thesis
    proof (cases "e = Failed ''EWOULDBLOCK''")
      case True
      then have "rounds \<noteq> []" using nil by auto
      then have "count + length (tl rounds) < count + length rounds" by (cases rounds) simp_all
      from less.hyps [OF this r(3) less.prems(2)] True False r(1) e show ?thesis
        by (subst handleWriteSendfile.simps) (simp add: r_def split_beta)
    next
      case F: False
      then obtain n where n: "e = Moved n" using r(2) by blast
      let ?sent = "file_read offset (min n count) content"
      have len: "length ?sent = min n count" using less.prems(2) by (simp add: file_read_def)
      have ne: "rounds = [] \<Longrightarrow> ?sent \<noteq> []" using nil n len False by auto
      have "rounds = [] \<Longrightarrow> 0 < min n count" using nil n False by auto
      then have "count - length ?sent + length (tl rounds) < count + length rounds"
        unfolding len using False by (cases rounds) auto
      then have "handleWriteSendfile (tl rounds) content (offset + length ?sent) (count - length ?sent) =
          (file_read (offset + min n count) (count - min n count) content, AwaitsRequest)"
        using less.hyps r(3) less.prems(2) len by simp
      moreover have "?sent @ file_read (offset + min n count) (count - min n count) content =
          file_read offset count content" by (rule file_read_split [symmetric]) simp
      ultimately show ?thesis using False r(1) e n ne
        by (subst handleWriteSendfile.simps) (simp add: r_def split_beta Let_def)
    qed
  qed
qed

section \<open>Serving files\<close>

text \<open>
  What the connection relies on: a node \<open>holds\<close> objects with their contents, an opened file has the
  size of the object, its memory and its descriptor show the object's bytes, reading delivers
  the requested range, and closing it leaves the object in place.
\<close>

locale file_provider =
  fixes fa :: "'g file_api"
    and holds :: "string \<Rightarrow> string \<Rightarrow> byte list \<Rightarrow> 'g \<Rightarrow> bool"
    and opened :: "string \<Rightarrow> string \<Rightarrow> byte list \<Rightarrow> nat \<Rightarrow> 'g \<Rightarrow> bool"
  assumes open_held: "holds b k bs g \<Longrightarrow> \<exists>h g'. fa_open fa b k g = (Inr h, g') \<and> opened b k bs h g'"
    and opened_size: "opened b k bs h g \<Longrightarrow> fa_size fa h g = length bs"
    and opened_bound: "opened b k bs h g \<Longrightarrow> length bs < 2 ^ 63"
    and opened_ptr: "opened b k bs h g \<Longrightarrow> fa_rawPtr fa h g = (r, g') \<Longrightarrow>
      opened b k bs h g' \<and> (\<forall>p. r = Inr p \<longrightarrow> prefix bs p) \<and>
      (\<forall>fd. fa_rawFd fa h g = Inr fd \<longrightarrow> prefix bs (fa_stored fa h fd g'))"
    and opened_read: "opened b k bs h g \<Longrightarrow> offset < INT64_MAX \<Longrightarrow>
      \<exists>g'. fa_readBytes fa h offset n g = (Inr (length (file_read offset n bs), file_read offset n bs), g') \<and>
        opened b k bs h g'"
    and close_held: "opened b k bs h g \<Longrightarrow> holds b k bs (fa_close fa h g)"
begin

lemma file_read_served:
  "prefix bs p \<Longrightarrow> take (served_length (length bs) offset n) (drop offset p) = file_read offset n bs"
  by (auto simp: prefix_def served_length_def file_read_def min_def)

lemma length_file_read_served: "length (file_read offset n bs) = served_length (length bs) offset n"
  by (auto simp: served_length_def file_read_def)

text \<open>Whatever way the server takes, it sends one frame with the range and waits again.\<close>

lemma handleWrite_sends:
  assumes held: "holds b k bs g" and off: "offset < INT64_MAX"
    and ev: "te_write ev = None" "rounds_ok (te_rounds ev)"
  shows "\<exists>g'. handleWrite fa ev b k offset n g =
      ((encode_Response (te_padding ev) \<lparr>rs_statusCode = code_int kOk, rs_length = length (file_read offset n bs)\<rparr> @
        file_read offset n bs, AwaitsRequest), g') \<and> holds b k bs g'"
proof -
  obtain h g1 where o: "fa_open fa b k g = (Inr h, g1)" "opened b k bs h g1"
    using open_held [OF held] by blast
  obtain r g2 where p: "fa_rawPtr fa h g1 = (r, g2)" by fastforce
  note ptr = opened_ptr [OF o(2) p]
  then have o2: "opened b k bs h g2" by blast
  show ?thesis
  proof (cases r)
    case (Inr m)
    then have "prefix bs m" using ptr by blast
    with Inr o p ev o2 show ?thesis
      by (simp add: handleWrite_def Let_def opened_size [OF o2] file_read_served length_file_read_served
          async_write_def close_held)
  next
    case (Inl e)
    note r = Inl
    show ?thesis
    proof (cases "is_ok (fa_rawFd fa h g1) \<and> n > 8192")
      case True
      then obtain fd where fd: "fa_rawFd fa h g1 = Inr fd" by (auto simp: is_ok_iff)
      let ?c = "fa_stored fa h fd g2" and ?n = "served_length (length bs) offset n"
      have c: "prefix bs ?c" using ptr fd by blast
      have "?n = 0 \<or> offset + ?n \<le> length ?c"
        using prefix_length_le [OF c] by (auto simp: served_length_def)
      then have "handleWriteSendfile (te_rounds ev) ?c offset ?n = (file_read offset ?n ?c, AwaitsRequest)"
        using handleWriteSendfile_exact [OF ev(2)]
        by (elim disjE) (simp_all add: handleWriteSendfile.simps file_read_def)
      moreover have "file_read offset ?n ?c = file_read offset n bs"
        using file_read_served [OF c] by (simp add: file_read_def)
      ultimately show ?thesis using True r o p ev fd o2
        by (simp add: handleWrite_def Let_def opened_size [OF o2] length_file_read_served async_write_def close_held)
    next
      case False
      obtain g3 where rd: "fa_readBytes fa h offset n g2 =
          (Inr (length (file_read offset n bs), file_read offset n bs), g3)" "opened b k bs h g3"
        using opened_read [OF o2 off] by blast
      with False r o p ev show ?thesis
        by (auto simp: handleWrite_def Let_def async_write_def close_held split: if_splits)
    qed
  qed
qed

lemma tcp_read_exact:
  assumes held: "holds b k bs g" and ev: "te_write ev = None" "rounds_ok (te_rounds ev)" "length (te_padding ev) = 4"
    and req: "bucket_regex b" "k \<noteq> []" "CHR 0x0A \<notin> set k" "CHR 0x0D \<notin> set k"
    and num: "position < INT64_MAX" "n < 2 ^ 64"
  shows "\<exists>g'. TcpClient_readBytes (link_socket fa ev) b k position n (idle_link g) =
      (Some (Returns (Inr (length (file_read position n bs), file_read position n bs))), idle_link g') \<and>
    holds b k bs g'"
proof -
  have "position < 2 ^ 64" using num(1) by (simp add: INT64_MAX_def)
  then have parsed: "parseGetRequest (createGetRequest b k position n @ [CHR 0x00]) = Returns (Inr (b, k, position, n))"
    using match_get_created [OF req, of position n] num(2) by (simp add: parseGetRequest_def stoull_def)
  obtain g' where w: "handleWrite fa ev b k position n g =
      ((encode_Response (te_padding ev) \<lparr>rs_statusCode = code_int kOk, rs_length = length (file_read position n bs)\<rparr> @
        file_read position n bs, AwaitsRequest), g')" "holds b k bs g'"
    using handleWrite_sends [OF held num(1) ev(1,2)] by blast
  have "length bs < 2 ^ 63" using open_held [OF held] opened_bound by blast
  moreover have "length (file_read position n bs) \<le> length bs" by (simp add: file_read_def)
  ultimately have len: "length (file_read position n bs) < 2 ^ 64" by simp
  show ?thesis
    using w read_data_frame [OF ev(3) len, of "\<lparr>ln_node = g', ln_pending = _, ln_state = AwaitsRequest\<rparr>"] parsed
    by (simp add: TcpClient_readBytes_def Let_def link_socket_def link_write_def awaitRequest_def idle_link_def)
qed

end


section \<open>Errors reach the client\<close>

text \<open>
  C25. An error on the serving node arrives at the client as it is: when the object cannot be opened, or its
  bytes cannot be read into the buffer, the client's read returns the same status, code and
  message, nothing is left unread, and the connection takes the next request.
\<close>

theorem tcp_error_roundtrip:
  assumes "te_write ev = None" "length (te_padding ev) = 4" "position < 2 ^ 64" "n < 2 ^ 64"
    and "bucket_regex b" "k \<noteq> []" "CHR 0x0A \<notin> set k" "CHR 0x0D \<notin> set k"
    and "\<not> status_ok s" "length (status_message s) < 2 ^ 64"
    and "fa_open fa b k g = (Inl s, g1) \<or>
      (\<exists>h g2 g3 g4 e. fa_open fa b k g = (Inr h, g2) \<and> fa_rawPtr fa h g2 = (Inl e, g3) \<and>
         (n \<le> 8192 \<or> \<not> is_ok (fa_rawFd fa h g2)) \<and> fa_readBytes fa h position n g3 = (Inl s, g4) \<and>
         g1 = fa_close fa h g4)"
  shows "TcpClient_readBytes (link_socket fa ev) b k position n (idle_link g) =
    (Some (Returns (Inl s)), idle_link g1)"
proof -
  have "handleWrite fa ev b k position n g = (handleError ev s, g1)"
    using assms(11) by (auto simp: handleWrite_def Let_def)
  moreover have "parseGetRequest (createGetRequest b k position n @ [CHR 0x00]) = Returns (Inr (b, k, position, n))"
    using match_get_created [OF assms(5-8), of position n] assms(3,4) by (simp add: parseGetRequest_def stoull_def)
  moreover have "snd (handleError ev s) = AwaitsRequest"
    using assms(1) by (simp add: handleError_def async_write_def)
  ultimately show ?thesis
    using read_error_frame [OF assms(2,1,10,9), of "\<lparr>ln_node = g1, ln_pending = fst (handleError ev s), ln_state = AwaitsRequest\<rparr>" fa]
    by (cases "handleError ev s")
      (simp add: TcpClient_readBytes_def Let_def link_socket_def link_write_def awaitRequest_def idle_link_def)
qed

definition refusing_files :: "nat file_api" where
  "refusing_files =
     \<lparr>fa_open = (\<lambda>b k g. (Inl (NotFoundError (b @ ''/'' @ k)), g + 1)), fa_close = (\<lambda>_ g. g), fa_size = (\<lambda>_ _. 0),
      fa_rawFd = (\<lambda>_ _. Inr 3), fa_rawPtr = (\<lambda>_ g. (Inr [], g)), fa_readBytes = (\<lambda>_ _ _ g. (Inr (0, []), g)),
      fa_stored = (\<lambda>_ _ _. [])\<rparr>"

theorem tcp_error_roundtrip_witness:
  "TcpClient_readBytes (link_socket refusing_files \<lparr>te_padding = [0, 0, 0, 0], te_write = None, te_rounds = []\<rparr>)
      ''abc'' ''x'' 0 9 (idle_link 4) = (Some (Returns (Inl (NotFoundError ''abc/x''))), idle_link 5)"
  by (rule tcp_error_roundtrip)
    (simp_all add: refusing_files_def bucket_regex_def is_lower_or_digit_def is_digit_def)

end
