(* ===== verification/Transfer_Service.thy ===== *)
theory Transfer_Service
  imports GEDS_Service Tcp_Protocol
begin

text \<open>
  Both ends of the data path between nodes: \<^verbatim>\<open>src/libgeds/Server.cpp\<close> chooses the ports of a node and
  publishes the addresses of its TCP server, \<^verbatim>\<open>FileTransferService.cpp\<close> asks a node for these addresses, keeps a
  pool of TCP connections and sends each read through one of them. The results say when the pool
  is filled, that reads give their connection back, and when a caller waits for ever.
\<close>

section \<open>The server of a node\<close>

datatype FileTransferProtocol = Socket | RDMA

record Server =
  sr_state :: ServiceState
  sr_hostname :: string
  sr_port :: u16
  sr_tcp :: "u16 option"
  sr_endpoints :: "(FileTransferProtocol \<times> string \<times> u16) list"

definition defaultGEDSPort :: u16 where "defaultGEDSPort = 4382"

definition Server_new :: "string \<Rightarrow> u16 option \<Rightarrow> Server" where
  "Server_new hostname port =
     (let p = (case port of None \<Rightarrow> defaultGEDSPort | Some p \<Rightarrow> p)
      in \<lparr>sr_state = Stopped, sr_hostname = hostname, sr_port = (if p = 0 then defaultGEDSPort else p),
          sr_tcp = None, sr_endpoints = []\<rparr>)"

text \<open>
  The search for a port: \<open>bind\<close> is the port that the gRPC library selects when it is asked for one,
  or 0 if it cannot be had. The port counter has 16 bits.
\<close>

fun grpc_bind_loop :: "nat \<Rightarrow> (u16 \<Rightarrow> u16) \<Rightarrow> u16 \<Rightarrow> u16 option" where
  "grpc_bind_loop 0 bind port = None"
| "grpc_bind_loop (Suc fuel) bind port =
     (let selectedPort = bind port
      in if selectedPort = 0 then grpc_bind_loop fuel bind (port + 1) else Some selectedPort)"

text \<open>
  The TCP server takes one of the ten ports that follow. An attempt fails in the constructor, which leaves the pointer as
  it was, or in \<open>start\<close>, by an exception or a status, after the new server has been assigned.
  \<open>socketServerPort\<close> is an \<open>int\<close> and cut to 16 bits only when it is passed on.
\<close>

datatype tcp_attempt = CtorThrows string | StartThrows string | StartReturns Status

fun attempt_status :: "tcp_attempt \<Rightarrow> Status" where
  "attempt_status (CtorThrows what) = UnknownError (''Error starting the socket transport '' @ what)"
| "attempt_status (StartThrows what) = UnknownError (''Error starting the socket transport '' @ what)"
| "attempt_status (StartReturns status) = status"

fun attempt_server :: "u16 \<Rightarrow> tcp_attempt \<Rightarrow> u16 option \<Rightarrow> u16 option" where
  "attempt_server port (CtorThrows what) server = server"
| "attempt_server port a server = Some port"

function tcp_start_loop :: "(u16 \<Rightarrow> tcp_attempt) \<Rightarrow> nat \<Rightarrow> nat \<Rightarrow> u16 option \<Rightarrow> Status \<times> u16 option" where
  "tcp_start_loop tcp retryCount socketServerPort server =
     (let retryCount' = retryCount + 1; port = socketServerPort + 1; attempt = tcp (of_nat port);
          status = attempt_status attempt; server' = attempt_server (of_nat port) attempt server
      in if retryCount' < 10 \<and> \<not> status_ok status then tcp_start_loop tcp retryCount' port server'
         else (status, server'))"
  by pat_completeness auto

termination tcp_start_loop
  by (relation "measure (\<lambda>(_, retryCount, _, _). 10 - retryCount)") auto

declare tcp_start_loop.simps [simp del]

text \<open>A network interface: whether it is up, and its IPv4 address if it has one.\<close>

type_synonym interface = "bool \<times> string option"

definition exported_endpoints :: "u16 \<Rightarrow> interface list \<Rightarrow> (FileTransferProtocol \<times> string \<times> u16) list" where
  "exported_endpoints tcpPort interfaces =
     List.map_filter (\<lambda>(up, addr). case addr of
         None \<Rightarrow> None
       | Some str \<Rightarrow> if \<not> up \<or> str = ''127.0.0.1'' then None else Some (Socket, str, tcpPort)) interfaces"

text \<open>
  \<open>start\<close>; the state is set to running before the steps that may still fail. A failure can leave a server that was
  made but did not start. A status OK comes from a server that was made.
\<close>

definition Server_start ::
  "nat \<Rightarrow> (u16 \<Rightarrow> u16) \<Rightarrow> (u16 \<Rightarrow> tcp_attempt) \<Rightarrow> interface list option \<Rightarrow> Server \<Rightarrow> (Status \<times> Server) option" where
  "Server_start fuel bind tcp ifaddrs s =
     (if sr_state s = Running then Some (FailedPreconditionError ''The server is already running!'', s)
      else case grpc_bind_loop fuel bind (sr_port s) of
          None \<Rightarrow> None
        | Some selectedPort \<Rightarrow>
            let s1 = s\<lparr>sr_port := selectedPort, sr_state := Running\<rparr> in
            case tcp_start_loop tcp 0 (unat selectedPort) (sr_tcp s1) of (status, server) \<Rightarrow>
              let s2 = s1\<lparr>sr_tcp := server\<rparr> in
              if \<not> status_ok status then Some (status, s2)
              else case ifaddrs of
                  None \<Rightarrow> Some (UnknownError ''Could not query iffaddrs.'', s2)
                | Some interfaces \<Rightarrow>
                    Some (OkStatus, s2\<lparr>sr_endpoints := sr_endpoints s2 @ exported_endpoints (the server) interfaces\<rparr>))"

text \<open>\<open>stop\<close> uses the TCP server without a test; without one the pointer is null.\<close>

definition Server_stop :: "Server \<Rightarrow> (Status \<times> Server) outcome" where
  "Server_stop s =
     (if sr_state s \<noteq> Running
      then Returns (FailedPreconditionError (''The service is '' @ ServiceState_to_string (sr_state s) @ ''.''), s)
      else case sr_tcp s of
          None \<Rightarrow> Raises ''null pointer''
        | Some _ \<Rightarrow> Returns (OkStatus, s\<lparr>sr_tcp := None, sr_state := Stopped\<rparr>))"

text \<open>The reply of \<open>GetAvailEndpoints\<close>: type, address and port of each endpoint.\<close>

datatype rpc_protocol = rpc_Socket | rpc_RDMA

definition GetAvailEndpoints :: "Server \<Rightarrow> (rpc_protocol \<times> string \<times> nat) list" where
  "GetAvailEndpoints s =
     map (\<lambda>(type, addr, port). (if type = RDMA then rpc_RDMA else rpc_Socket, addr, unat port)) (sr_endpoints s)"

section \<open>The transfer service\<close>

record 'c FileTransferService =
  ft_nodeAddress :: string
  ft_connectionState :: ConnectionState
  ft_connections :: "'c list"

definition FileTransferService_new :: "string \<Rightarrow> 'c FileTransferService" where
  "FileTransferService_new nodeAddress =
     \<lparr>ft_nodeAddress = nodeAddress, ft_connectionState = Disconnected, ft_connections = []\<rparr>"

definition availTransportEndpoints ::
  "(rpc_protocol \<times> string \<times> nat) list option \<Rightarrow> (string \<times> u16 \<times> FileTransferProtocol) list StatusOr" where
  "availTransportEndpoints reply =
     (case reply of
        None \<Rightarrow> Inl (UnknownError ''Unable to obtain available endpoints!'')
      | Some eps \<Rightarrow> Inr (map (\<lambda>(type, addr, port). (addr, of_nat port, if type = rpc_RDMA then RDMA else Socket)) eps))"

text \<open>One round of the connection loop: the first suitable endpoint that can be reached.\<close>

fun dial_endpoints ::
  "(string \<Rightarrow> u16 \<Rightarrow> Status \<times> 'c) \<Rightarrow> string \<Rightarrow> (string \<times> u16 \<times> FileTransferProtocol) list \<Rightarrow> 'c option" where
  "dial_endpoints dial nodeLoc [] = None"
| "dial_endpoints dial nodeLoc ((ep_ip, ep_port, type) # eps) =
     (if type = Socket then
        (if ep_ip \<noteq> nodeLoc then dial_endpoints dial nodeLoc eps
         else case dial ep_ip ep_port of (status, connection) \<Rightarrow>
           if \<not> status_ok status then dial_endpoints dial nodeLoc eps else Some connection)
      else dial_endpoints dial nodeLoc eps)"

text \<open>\<open>dial i\<close> is the behaviour of the network in round \<open>i\<close>.\<close>

fun connect_loop ::
  "(nat \<Rightarrow> string \<Rightarrow> u16 \<Rightarrow> Status \<times> 'c) \<Rightarrow> string \<Rightarrow> (string \<times> u16 \<times> FileTransferProtocol) list \<Rightarrow> nat list
     \<Rightarrow> 'c list \<Rightarrow> 'c list" where
  "connect_loop dial nodeLoc eps [] q = q"
| "connect_loop dial nodeLoc eps (i # is) q =
     (case dial_endpoints (dial i) nodeLoc eps of
        None \<Rightarrow> connect_loop dial nodeLoc eps is q
      | Some c \<Rightarrow> connect_loop dial nodeLoc eps is (ConcurrentQueue_push c q))"

definition FileTransferService_connect ::
  "channel_result \<Rightarrow> (rpc_protocol \<times> string \<times> nat) list option \<Rightarrow> (nat \<Rightarrow> string \<Rightarrow> u16 \<Rightarrow> Status \<times> 'c) \<Rightarrow> nat
     \<Rightarrow> 'c FileTransferService \<Rightarrow> Status \<times> 'c FileTransferService" where
  "FileTransferService_connect channel reply dial hw s =
     (if ft_connectionState s \<noteq> Disconnected then (FailedPreconditionError ''Cannot reinitialize service.'', s)
      else case channel of
          ChannelTimeout \<Rightarrow> (UnavailableError (''Could not connect to '' @ ft_nodeAddress s @ ''.''), s)
        | ChannelException e \<Rightarrow>
            (UnavailableError (''Could not open channel with '' @ ft_nodeAddress s @ ''. Reason: '' @ e), s)
        | ChannelReady \<Rightarrow>
            (case str_find CHR '':'' (ft_nodeAddress s) of
               None \<Rightarrow> (UnknownError ''Unable to parse node address.'', s)
             | Some it \<Rightarrow>
                 (case availTransportEndpoints reply of
                    Inl e \<Rightarrow> (e, s)
                  | Inr endpoints \<Rightarrow>
                      (OkStatus, s\<lparr>ft_connections := connect_loop dial (take it (ft_nodeAddress s)) endpoints
                           [0..<MAXIMUM_TCP_THREADS hw] (ft_connections s), ft_connectionState := Connected\<rparr>))))"

text \<open>\<open>disconnect\<close> takes the full number of connections out of the pool and waits for
  each; \<open>periods\<close> is what other threads give back meanwhile.\<close>

fun drain :: "(nat \<Rightarrow> 'a list list) \<Rightarrow> nat \<Rightarrow> 'a list \<Rightarrow> 'a list option" where
  "drain periods 0 q = Some q"
| "drain periods (Suc n) q =
     (case ConcurrentQueue_pop_wait (periods n) q of None \<Rightarrow> None | Some (_, q') \<Rightarrow> drain periods n q')"

definition FileTransferService_disconnect ::
  "(nat \<Rightarrow> 'c list list) \<Rightarrow> nat \<Rightarrow> 'c FileTransferService \<Rightarrow> (Status \<times> 'c FileTransferService) option" where
  "FileTransferService_disconnect periods hw s =
     (if ft_connectionState s \<noteq> Connected
      then Some (UnknownError ''The service is in the wrong state!'', s)
      else case drain periods (MAXIMUM_TCP_THREADS hw) (ft_connections s) of
          None \<Rightarrow> None
        | Some q \<Rightarrow> Some (OkStatus, s\<lparr>ft_connections := q, ft_connectionState := Disconnected\<rparr>))"

text \<open>
  \<open>readBytes\<close>: a connection is taken from the pool and given back after the call, unless the call
  throws. \<open>periods\<close> is what other threads give back while this one waits.
\<close>

definition FileTransferService_readBytes where
  "FileTransferService_readBytes periods rd bucket key position length' s w =
     (if ft_connectionState s \<noteq> Connected
      then (Some (Returns (Inl (FailedPreconditionError ''Not connected.''))), s, w)
      else case ConcurrentQueue_pop_wait periods (ft_connections s) of
          None \<Rightarrow> (None, s, w)
        | Some (tcp, q) \<Rightarrow>
            (case rd tcp bucket key position length' w of
               (Some (Returns status), w') \<Rightarrow>
                 (Some (Returns status), s\<lparr>ft_connections := ConcurrentQueue_push tcp q\<rparr>, w')
             | (r, w') \<Rightarrow> (r, s\<lparr>ft_connections := q\<rparr>, w')))"

section \<open>Ports\<close>

lemma grpc_bind_loop_first:
  assumes "\<forall>j < i. bind (port + of_nat j) = 0" "bind (port + of_nat i) \<noteq> 0" "i < fuel"
  shows "grpc_bind_loop fuel bind port = Some (bind (port + of_nat i))"
  using assms
proof (induction fuel arbitrary: i port)
  case 0
  then show ?case by simp
next
  case (Suc fuel)
  show ?case
  proof (cases i)
    case 0
    with Suc.prems show ?thesis by simp
  next
    case (Suc n)
    then have "bind port = 0" using Suc.prems(1) [rule_format, of 0] by simp
    moreover have "grpc_bind_loop fuel bind (port + 1) = Some (bind (port + 1 + of_nat n))"
      using Suc.prems(1) [rule_format, of "Suc _"] Suc.prems(2,3) Suc by (intro Suc.IH) (auto simp: algebra_simps)
    ultimately show ?thesis using Suc by (simp add: algebra_simps)
  qed
qed

text \<open>
  The search for a port ends: since port 0 makes the system choose one, \<open>2 ^ 16\<close> attempts are enough
  whatever ports are taken, although the counter wraps around. The server gets the
  first port, from the configured one on and in this cyclic order, that can be bound.
\<close>

theorem port_search_ends:
  assumes "bind 0 \<noteq> 0" and "2 ^ 16 \<le> fuel"
  shows "\<exists>i. grpc_bind_loop fuel bind port = Some (bind (port + of_nat i)) \<and>
    bind (port + of_nat i) \<noteq> 0 \<and> (\<forall>j < i. bind (port + of_nat j) = 0)"
proof -
  let ?P = "\<lambda>i. bind (port + of_nat i) \<noteq> 0"
  have wrap: "?P (unat (- port))" using assms(1) by simp
  define i where "i = (LEAST i. ?P i)"
  have "?P i" unfolding i_def by (rule LeastI [of ?P, OF wrap])
  moreover have "\<forall>j < i. \<not> ?P j" unfolding i_def by (meson not_less_Least)
  moreover have "i < fuel"
  proof -
    have "i \<le> unat (- port)" unfolding i_def by (rule Least_le [of ?P, OF wrap])
    moreover have "unat (- port) < 2 ^ len_of TYPE(16)" by (rule unsigned_less)
    ultimately show ?thesis using assms(2) by simp
  qed
  ultimately show ?thesis using grpc_bind_loop_first [of i bind port fuel] by blast
qed

theorem port_search_ends_witness:
  "grpc_bind_loop (2 ^ 16) (\<lambda>p. if p = 0 then 40000 else 0) 65000 = Some (40000 :: u16)"
proof -
  let ?bind = "\<lambda>p :: u16. if p = 0 then 40000 else 0 :: u16"
  obtain i where "grpc_bind_loop (2 ^ 16) ?bind 65000 = Some (?bind (65000 + of_nat i))"
    "?bind (65000 + of_nat i) \<noteq> 0"
    using port_search_ends [of ?bind "2 ^ 16" 65000] by auto
  then show ?thesis by (simp split: if_splits)
qed

section \<open>The pool of connections\<close>

lemma drain_now: "drain (\<lambda>_. []) n q = (if n \<le> length q then Some (drop n q) else None)"
proof (induction n arbitrary: q)
  case (Suc n)
  then show ?case by (cases q) simp_all
qed simp

lemma dial_endpoints_exported:
  assumes "status_ok (fst (dial host p))"
  shows "dial_endpoints dial host (map (\<lambda>(t, a, q). (a, of_nat q, if t = rpc_RDMA then RDMA else Socket))
      (map (\<lambda>(t, a, q). (if t = RDMA then rpc_RDMA else rpc_Socket, a, unat q)) (exported_endpoints p interfaces))) =
    (if (True, Some host) \<in> set interfaces \<and> host \<noteq> ''127.0.0.1'' then Some (snd (dial host p)) else None)"
proof (induction interfaces)
  case Nil
  then show ?case by (simp add: exported_endpoints_def)
next
  case (Cons x xs)
  then show ?case using assms
    by (cases x) (auto simp: exported_endpoints_def map_filter_simps split: option.splits prod.splits if_splits)
qed

lemma connect_loop_reached:
  assumes "\<And>i. dial_endpoints (dial i) host eps = (if ok then Some (c i) else None)"
  shows "connect_loop dial host eps is q = q @ (if ok then map c is else [])"
  using assms by (induction "is" arbitrary: q) (simp_all add: ConcurrentQueue_push_def)

text \<open>
  C26. Filling the pool. A node that has started publishes its TCP port under each of its interfaces that is
  up and not the loopback address. A client that connects to \<open>host:port\<close> and can reach that port fills
  its pool with the full number of connections exactly when \<open>host\<close> is literally one of these addresses.
  For any other name of the same node \<open>connect\<close> reports success with an empty pool, and
  from then on every read waits for ever, and so does \<open>disconnect\<close>.
\<close>

theorem transfer_pool_filled:
  assumes "Server_start fuel bind tcp (Some interfaces) (Server_new name port) = Some (OkStatus, sv)"
    and "sr_tcp sv = Some p" and "CHR '':'' \<notin> set host" and "0 < hw"
    and "\<And>i. status_ok (fst (dial i host p))"
    and "FileTransferService_connect ChannelReady (Some (GetAvailEndpoints sv)) dial hw
      (FileTransferService_new (host @ CHR '':'' # rest)) = (status, t)"
  shows "status = OkStatus \<and> ft_connectionState t = Connected \<and>
    (if (True, Some host) \<in> set interfaces \<and> host \<noteq> ''127.0.0.1''
     then ft_connections t = map (\<lambda>i. snd (dial i host p)) [0..<MAXIMUM_TCP_THREADS hw]
     else ft_connections t = [] \<and> fst (FileTransferService_readBytes [] rd b k pos n t w) = None \<and>
       FileTransferService_disconnect (\<lambda>_. []) hw t = None)"
proof -
  let ?ok = "(True, Some host) \<in> set interfaces \<and> host \<noteq> ''127.0.0.1''"
  have ep: "sr_endpoints sv = exported_endpoints p interfaces"
    using assms(1,2) by (auto simp: Server_start_def Server_new_def Let_def split: option.splits prod.splits if_splits)
  have t: "status = OkStatus" "ft_connectionState t = Connected"
    "ft_connections t = (if ?ok then map (\<lambda>i. snd (dial i host p)) [0..<MAXIMUM_TCP_THREADS hw] else [])"
    using assms(6) connect_loop_reached [OF dial_endpoints_exported, of dial host p, OF assms(5)]
      str_find_append_notin [OF assms(3), of rest]
    by (auto simp: FileTransferService_connect_def FileTransferService_new_def availTransportEndpoints_def
        GetAvailEndpoints_def ep)
  have "0 < MAXIMUM_TCP_THREADS hw" using assms(4) by (simp add: MAXIMUM_TCP_THREADS_def)
  with t show ?thesis
    by (simp add: FileTransferService_readBytes_def FileTransferService_disconnect_def drain_now)
qed

definition started_server :: Server where
  "started_server = snd (the (Server_start 10 (\<lambda>p. p) (\<lambda>_. StartReturns OkStatus)
     (Some [(True, Some ''127.0.0.1''), (True, Some ''10.0.0.1'')]) (Server_new ''0.0.0.0'' (Some 7))))"

theorem transfer_pool_filled_witness:
  "\<exists>t t'. FileTransferService_connect ChannelReady (Some (GetAvailEndpoints started_server))
      (\<lambda>i ip p. (OkStatus, (i, ip, p))) 1 (FileTransferService_new ''10.0.0.1:7'') = (OkStatus, t) \<and>
    ft_connections t = [(0, ''10.0.0.1'', 8), (1, ''10.0.0.1'', 8)] \<and>
    FileTransferService_connect ChannelReady (Some (GetAvailEndpoints started_server))
      (\<lambda>i ip p. (OkStatus, (i, ip, p))) 1 (FileTransferService_new ''node-a:7'') = (OkStatus, t') \<and>
    FileTransferService_disconnect (\<lambda>_. []) 1 t' = None"
proof -
  let ?dial = "\<lambda>(i :: nat) (ip :: string) (p :: u16). (OkStatus, (i, ip, p))"
  let ?connect = "\<lambda>addr. FileTransferService_connect ChannelReady (Some (GetAvailEndpoints started_server)) ?dial 1
      (FileTransferService_new addr)"
  let ?ifs = "[(True, Some ''127.0.0.1''), (True, Some ''10.0.0.1'')]"
  have start: "Server_start 10 (\<lambda>p. p) (\<lambda>_. StartReturns OkStatus) (Some ?ifs) (Server_new ''0.0.0.0'' (Some 7)) =
      Some (OkStatus, started_server)" "sr_tcp started_server = Some 8"
    by (code_simp, code_simp)
  have max: "[0..<MAXIMUM_TCP_THREADS 1] = [0, 1]" by code_simp
  obtain s t where a: "?connect ''10.0.0.1:7'' = (s, t)" by fastforce
  obtain s' t' where b: "?connect ''node-a:7'' = (s', t')" by fastforce
  have "s = OkStatus \<and> ft_connections t = [(0, ''10.0.0.1'', 8), (1, ''10.0.0.1'', 8)]"
    using transfer_pool_filled [OF start, of "''10.0.0.1''" 1 ?dial "''7''" s t] a max by simp
  moreover have "s' = OkStatus \<and> FileTransferService_disconnect (\<lambda>_. []) 1 t' = None"
    using transfer_pool_filled [OF start, of "''node-a''" 1 ?dial "''7''" s' t'
        "\<lambda>c b k p n w. (None, w)" "()" "()" "()" "()" "()"] b by (simp, blast)
  ultimately show ?thesis using a b by blast
qed

text \<open>A history of reads that one caller makes after another.\<close>

fun reads_run where
  "reads_run rd [] s w = (Some [], s, w)"
| "reads_run rd ((b, k, p, n) # reqs) s w =
     (case FileTransferService_readBytes [] rd b k p n s w of
        (None, s1, w1) \<Rightarrow> (None, s1, w1)
      | (Some r, s1, w1) \<Rightarrow>
          (case reads_run rd reqs s1 w1 of (rs, s2, w2) \<Rightarrow> (map_option ((#) r) rs, s2, w2)))"

definition raised :: "'a outcome list \<Rightarrow> nat" where
  "raised rs = length (filter (\<lambda>r. \<exists>e. r = Raises e) rs)"

text \<open>
  Every read gives its connection back, except one that ends by an exception of the socket: over any
  history of reads that all return, the pool has lost exactly as many connections as reads
  have thrown, and the service stays connected. When as many reads have thrown as there were connections,
  the next one waits for ever.
\<close>

theorem pool_loses_raising_connections:
  assumes "ft_connectionState s = Connected" "reads_run rd reqs s w = (Some rs, s', w')"
  shows "ft_connectionState s' = Connected \<and> length (ft_connections s') + raised rs = length (ft_connections s) \<and>
    (raised rs = length (ft_connections s) \<longrightarrow> fst (FileTransferService_readBytes [] rd b k p n s' w') = None)"
proof -
  have "ft_connectionState s' = Connected \<and> length (ft_connections s') + raised rs = length (ft_connections s)"
    using assms
  proof (induction reqs arbitrary: s w rs)
    case Nil
    then show ?case by (simp add: raised_def)
  next
    case (Cons req reqs)
    obtain b k p n where req: "req = (b, k, p, n)" by (cases req) auto
    obtain r s1 w1 rs1 where r: "FileTransferService_readBytes [] rd b k p n s w = (Some r, s1, w1)"
      "reads_run rd reqs s1 w1 = (Some rs1, s', w')" "rs = r # rs1"
      using Cons.prems(2) by (auto simp: req split: prod.splits option.splits)
    have "ft_connectionState s1 = Connected \<and>
        length (ft_connections s1) + raised [r] = length (ft_connections s)"
      using r(1) Cons.prems(1)
      by (cases "ft_connections s")
        (auto simp: FileTransferService_readBytes_def raised_def ConcurrentQueue_push_def
          split: prod.splits option.splits outcome.splits)
    with Cons.IH [of s1 w1 rs1] r(2,3) show ?case by (auto simp: raised_def split: if_splits)
  qed
  then show ?thesis by (auto simp: FileTransferService_readBytes_def)
qed

definition broken_socket :: "nat \<Rightarrow> string \<Rightarrow> string \<Rightarrow> size_t \<Rightarrow> size_t \<Rightarrow> unit
    \<Rightarrow> (size_t \<times> byte list) StatusOr outcome option \<times> unit" where
  "broken_socket c b k p n w = (Some (Raises ''read: End of file''), w)"

definition small_pool :: "nat FileTransferService" where
  "small_pool = \<lparr>ft_nodeAddress = ''h:1'', ft_connectionState = Connected, ft_connections = [7]\<rparr>"

theorem pool_loses_raising_connections_witness:
  "\<exists>s'. reads_run broken_socket [(''abc'', ''x'', 0, 1)] small_pool () =
      (Some [Raises ''read: End of file''], s', ()) \<and>
    fst (FileTransferService_readBytes [] broken_socket ''abc'' ''x'' 0 1 s' ()) = None"
proof -
  have run: "reads_run broken_socket [(''abc'', ''x'', 0, 1)] small_pool () =
      (Some [Raises ''read: End of file''], small_pool\<lparr>ft_connections := []\<rparr>, ())"
    by code_simp
  have "ft_connectionState small_pool = Connected" "length (ft_connections small_pool) = 1"
    by (simp_all add: small_pool_def)
  with pool_loses_raising_connections [OF _ run, of "''abc''" "''x''" 0 1] run
  show ?thesis by (auto simp: raised_def)
qed

end
