(* ===== verification/Node_Transfer.thy ===== *)
theory Node_Transfer
  imports Node_Metadata Transfer_Service
begin

text \<open>
  The whole data path: a node serves its local files over TCP, another node finds the object through
  the metadata server and reads it. The theory shows that the node of \<open>Handle_Heap\<close> is a provider of files in
  the sense of the TCP connection and composes sealing, opening and reading across two nodes.
\<close>

section \<open>A node as a provider of files\<close>

text \<open>The bytes behind the descriptor of a handle or of the handle inside a wrapper.\<close>

definition stored_bytes :: "nat \<Rightarrow> ('s, 'x) node \<Rightarrow> byte list" where
  "stored_bytes h g =
     (case object_at h g of
        Some (HLocal x) \<Rightarrow> lf_content (lh_file x)
      | Some (HRelocatable r) \<Rightarrow>
          (case object_at (rl_fileHandle r) g of Some (HLocal x) \<Rightarrow> lf_content (lh_file x) | _ \<Rightarrow> [])
      | _ \<Rightarrow> [])"

definition node_rawPtr :: "('s, 'x) host \<Rightarrow> nat \<Rightarrow> ('s, 'x) node \<Rightarrow> byte list StatusOr \<times> ('s, 'x) node" where
  "node_rawPtr ho h g =
     (case object_at h g of
        Some (HLocal x) \<Rightarrow>
          (case LocalHandle_rawPtr (local_class ho) x of (r, x') \<Rightarrow> (r, put_object h (HLocal x') g))
      | _ \<Rightarrow> (Inl rawPtr_unavailable, g))"

definition node_files :: "('s, 'x) host \<Rightarrow> ('s, 'x) node file_api" where
  "node_files ho =
     \<lparr>fa_open = (\<lambda>b k g. GEDS_open (heap_service ho) b k True g), fa_close = heap_close ho,
      fa_size = (\<lambda>h g. case v_size (heap_methods ho) h g of Inl _ \<Rightarrow> 0 | Inr n \<Rightarrow> n),
      fa_rawFd = v_rawFd (heap_methods ho), fa_rawPtr = node_rawPtr ho,
      fa_readBytes = v_readBytes (heap_methods ho), fa_stored = (\<lambda>h fd g. stored_bytes h g)\<rparr>"

text \<open>A node that runs and has a valid local handle with the given content for the object.\<close>

definition node_opened :: "('s, 'x) host \<Rightarrow> string \<Rightarrow> string \<Rightarrow> byte list \<Rightarrow> nat \<Rightarrow> ('s, 'x) node \<Rightarrow> bool" where
  "node_opened ho b k bs h g \<longleftrightarrow> io_ok (ho_script ho) \<and> g_state g = Running \<and> status_ok (isValid_name b k) \<and>
     map_of (g_fileHandles g) (getPath b k) = Some h \<and>
     (\<exists>x. object_at h g = Some (HLocal x) \<and> fh_isValid x \<and> fh_bucket x = b \<and> fh_key x = k \<and>
        lf_inv (lh_file x) \<and> lf_content (lh_file x) = bs)"

definition node_holds :: "('s, 'x) host \<Rightarrow> string \<Rightarrow> string \<Rightarrow> byte list \<Rightarrow> ('s, 'x) node \<Rightarrow> bool" where
  "node_holds ho b k bs g \<longleftrightarrow> (\<exists>h. node_opened ho b k bs h g)"

lemma node_opened_put:
  assumes "node_opened ho b k bs h g"
    and "fh_isValid x'" "fh_bucket x' = b" "fh_key x' = k" "lf_inv (lh_file x')" "lf_content (lh_file x') = bs"
  shows "node_opened ho b k bs h (put_object h (HLocal x') g)" "node_opened ho b k bs h (tick (put_object h (HLocal x') g))"
    "node_opened ho b k bs h (tick (put_object h (HLocal x') (g\<lparr>g_filesOpened := n\<rparr>)))"
  using assms by (auto simp: node_opened_def put_object_def tick_def object_at_def)

lemma io_ok_sync:
  assumes "io_ok script" "0 \<le> lf_fd f"
  shows "LocalFile_fsync script f = OkStatus"
proof -
  obtain e rest where "retry_eintr script 0 = (e, rest)" by fastforce
  moreover from retry_eintr_member [OF this] assms(1) have "\<exists>n. e = Moved n" by (auto simp: io_ok_def)
  ultimately show ?thesis using assms(2) by (auto simp: LocalFile_fsync_def)
qed

lemma node_open_held:
  assumes "node_holds ho b k bs g"
  shows "\<exists>h g'. fa_open (node_files ho) b k g = (Inr h, g') \<and> node_opened ho b k bs h g'"
proof -
  obtain h x where o: "node_opened ho b k bs h g" "object_at h g = Some (HLocal x)" "fh_isValid x"
    "fh_bucket x = b" "fh_key x = k" "lf_inv (lh_file x)" "lf_content (lh_file x) = bs"
    using assms by (auto simp: node_holds_def node_opened_def)
  have "GEDS_openAsFileHandle (heap_service ho) b k g = (Inr h, g)"
    using o(1) by (simp add: node_opened_def GEDS_openAsFileHandle_def Let_def ConcurrentMap_get_def)
  moreover have "fh_isValid (base_of h g)" using o(2,3) by (simp add: base_of_def object_base_def FileHandle.defs)
  ultimately have "fa_open (node_files ho) b k g = heap_open h (g\<lparr>g_filesOpened := g_filesOpened g + 1\<rparr>)"
    by (simp add: node_files_def GEDS_open.simps)
  then show ?thesis using o
    by (simp add: heap_open_def Let_def object_at_def node_opened_put increaseOpenCount_def)
qed

lemma node_opened_ptr:
  assumes "node_opened ho b k bs h g" "fa_rawPtr (node_files ho) h g = (r, g')"
  shows "node_opened ho b k bs h g' \<and> (\<forall>p. r = Inr p \<longrightarrow> prefix bs p) \<and>
    (\<forall>fd. fa_rawFd (node_files ho) h g = Inr fd \<longrightarrow> prefix bs (fa_stored (node_files ho) h fd g'))"
proof -
  obtain x where x: "object_at h g = Some (HLocal x)" "fh_isValid x" "fh_bucket x = b" "fh_key x = k"
    "lf_inv (lh_file x)" "lf_content (lh_file x) = bs" "io_ok (ho_script ho)"
    using assms(1) by (auto simp: node_opened_def)
  have "LocalHandle_rawPtr (local_class ho) x = (Inl (UnavailableError ''RawPtr is not supported for LocalFile.''), x)"
    using x(5,7) io_ok_sync [of "ho_script ho" "lh_file x"]
    by (simp add: LocalHandle_rawPtr_def local_class_def LocalFile_class_def Let_def LocalFile_rawPtr_def lf_inv_def)
  with assms(2) x(1) have "g' = put_object h (HLocal x) g"
    "r = Inl (UnavailableError ''RawPtr is not supported for LocalFile.'')"
    by (simp_all add: node_files_def node_rawPtr_def)
  then show ?thesis using node_opened_put(1) [OF assms(1) x(2-6)] x(6)
    by (simp add: node_files_def stored_bytes_def)
qed

lemma node_opened_read:
  assumes "node_opened ho b k bs h g" "offset < INT64_MAX"
  shows "\<exists>g'. fa_readBytes (node_files ho) h offset n g =
      (Inr (length (file_read offset n bs), file_read offset n bs), g') \<and> node_opened ho b k bs h g'"
proof -
  obtain x where x: "object_at h g = Some (HLocal x)" "fh_isValid x" "fh_bucket x = b" "fh_key x = k"
    "lf_inv (lh_file x)" "lf_content (lh_file x) = bs" "io_ok (ho_script ho)"
    using assms(1) by (auto simp: node_opened_def)
  have "LocalHandle_readBytes (local_class ho) offset n x =
      (Inr (length (file_read offset n bs), file_read offset n bs),
       x\<lparr>lh_readStatistics := lh_readStatistics x + of_nat (length (file_read offset n bs))\<rparr>)"
    using LocalFile_readBytes_correct [OF x(7,5) assms(2), of n] x(6)
    by (simp add: LocalHandle_readBytes_def local_class_def LocalFile_class_def LocalFile_reader_def)
  then show ?thesis using x node_opened_put(1) [OF assms(1)]
    by (simp add: node_files_def heap_methods_def Let_def base_methods_def base_readBytes_def)
qed

lemma node_close_held:
  assumes "node_opened ho b k bs h g"
  shows "node_holds ho b k bs (fa_close (node_files ho) h g)"
proof -
  obtain x where x: "object_at h g = Some (HLocal x)" "fh_isValid x" "fh_bucket x = b" "fh_key x = k"
    "lf_inv (lh_file x)" "lf_content (lh_file x) = bs"
    using assms by (auto simp: node_opened_def)
  then show ?thesis using node_opened_put(2) [OF assms]
    by (auto simp: node_holds_def node_files_def heap_close_def Let_def decreaseOpenCount_def
        LocalHandle_notifyUnused_def local_class_def LocalFile_class_def LocalFile_notifyUnused_def
        intro!: exI [of _ h])
qed

interpretation files: file_provider "node_files ho" "node_holds ho" "node_opened ho"
proof unfold_locales
  show "fa_size (node_files ho) h g = length bs" if "node_opened ho b k bs h g" for b k bs h g
    using that
    by (auto simp: node_opened_def node_files_def heap_methods_def Let_def via_wrapper_def base_methods_def
        base_size_def LocalHandle_size_def local_class_def LocalFile_class_def lf_inv_def)
  show "length bs < 2 ^ 63" if "node_opened ho b k bs h g" for b k bs h g
    using that by (auto simp: node_opened_def lf_inv_def)
qed (blast intro: node_open_held node_opened_ptr [THEN conjunct1] node_opened_ptr [THEN conjunct2, THEN conjunct1, rule_format]
    node_opened_ptr [THEN conjunct2, THEN conjunct2, rule_format] node_opened_read node_close_held)+

section \<open>Reading across nodes\<close>

text \<open>The transfer between two nodes, as the remote handle of one calls the server of the other.\<close>

definition tcp_transfer ::
  "'g file_api \<Rightarrow> tcp_events \<Rightarrow> 'g \<Rightarrow> string \<Rightarrow> string \<Rightarrow> size_t \<Rightarrow> size_t \<Rightarrow> (size_t \<times> byte list) StatusOr" where
  "tcp_transfer fa ev g b k p n =
     (case fst (TcpClient_readBytes (link_socket fa ev) b k p n (idle_link g)) of
        Some (Returns r) \<Rightarrow> r
      | _ \<Rightarrow> Inl (UnknownError ''The connection was lost.''))"

definition key_sendable :: "string \<Rightarrow> bool" where
  "key_sendable k \<longleftrightarrow> CHR 0x0A \<notin> set k \<and> CHR 0x0D \<notin> set k"

definition events_ok :: "tcp_events \<Rightarrow> bool" where
  "events_ok ev \<longleftrightarrow> te_write ev = None \<and> rounds_ok (te_rounds ev) \<and> length (te_padding ev) = 4"

lemma tcp_transfer_exact:
  assumes "node_holds ho b k bs g" "events_ok ev" "key_sendable k" "pos < INT64_MAX" "n < 2 ^ 64"
  shows "tcp_transfer (node_files ho) ev g b k pos n = Inr (length (file_read pos n bs), file_read pos n bs)"
proof -
  have "status_ok (isValid_name b k)" using assms(1) by (auto simp: node_holds_def node_opened_def)
  then have "bucket_regex b" "k \<noteq> []"
    using isValid_bucket_regex by (auto simp: isValid_name_ok isValidKeyName_def)
  then obtain g' where "TcpClient_readBytes (link_socket (node_files ho) ev) b k pos n (idle_link g) =
      (Some (Returns (Inr (length (file_read pos n bs), file_read pos n bs))), idle_link g')"
    using files.tcp_read_exact [OF assms(1), of ev pos n] assms(2-5) by (auto simp: events_ok_def key_sendable_def)
  then show ?thesis by (simp add: tcp_transfer_def)
qed

lemma seal_opened:
  assumes "node_opened ho b k bs h g" "object_at h g = Some (HLocal x)" "\<not> lh_isSealed x"
    and "v_seal (heap_methods ho) h g = (st, g')"
  obtains g1 where "seal_object (ho_stub ho) b k (fh_metadata x) False (length bs) None g = (st, g1)"
    "g_server g' = g_server g1" "node_opened ho b k bs h g'"
proof -
  have x: "fh_bucket x = b" "fh_key x = k" "lf_size (lh_file x) = length bs" "fh_isValid x" "lf_inv (lh_file x)"
    "lf_content (lh_file x) = bs"
    using assms(1,2) by (auto simp: node_opened_def lf_inv_def)
  obtain s g1 where sl: "seal_object (ho_stub ho) b k (fh_metadata x) False (length bs) None g = (s, g1)"
    by fastforce
  have "v_seal (heap_methods ho) h g = (s, put_object h (HLocal (if status_ok s then x\<lparr>lh_isSealed := True\<rparr> else x)) g1)"
    using sl x assms(2,3)
    by (simp add: heap_methods_def Let_def via_wrapper_def base_methods_def base_seal_def LocalHandle_seal_def
        node_seal_def local_class_def LocalFile_class_def)
  moreover have "node_opened ho b k bs h g1"
    using sl assms(1)
    by (auto simp: seal_object_def Let_def on_metadata_def node_opened_def object_at_def
        split: if_splits prod.splits)
  ultimately show thesis
    using that [of g1] sl assms(4) x node_opened_put(1) [of ho b k bs h g1]
    by (auto simp: put_object_def)
qed

text \<open>
  C1. An object written on one node is read on another with the bytes it was sealed with. Node \<open>a\<close> has the
  object in a local file and seals it; node \<open>b\<close>, connected to the same metadata server and not
  knowing the object yet, opens it. Then the size of the file on \<open>b\<close> is the number of bytes on \<open>a\<close>, and a read on
  \<open>b\<close> at any position returns exactly that range, whichever way the server of \<open>a\<close> takes to send
  it and however the socket splits the transfer, as long as \<open>a\<close> still has the object and
  the key can be sent in a request.
\<close>

theorem cross_node_read:
  assumes "node_coherent ga" "g_hostURI ga = computeHostUri host port" "ho_stub hoa = server_stub peer reg"
    and "\<not> is_ok (MDSKVS_lookup (ms_mdsCache (g_metadataService ga)) b k)"
    and "node_opened hoa b k bs h ga" "object_at h ga = Some (HLocal x)" "\<not> lh_isSealed x"
    and "v_seal (heap_methods hoa) h ga = (st, ga')" "status_ok st"
    and "node_holds hoa b k bs gs" "events_ok ev" "key_sendable k" "pos < INT64_MAX" "n < 2 ^ 64"
    and "node_coherent gb" "g_state gb = Running" "g_server gb = g_server ga'"
    and "map_of (g_fileHandles gb) (getPath b k) = None"
    and "ho_stub hob = server_stub peer' reg'" "\<forall>h. status_ok (ho_connect hob h)"
    and "ho_transfer hob (host @ '':'' @ show_nat (unat port)) = tcp_transfer (node_files hoa) ev gs"
  shows "node_holds hoa b k bs ga' \<and>
    (\<exists>w gb'. GEDS_openAsFileHandle (heap_service hob) b k gb = (Inr w, gb') \<and>
       v_size (heap_methods hob) w gb' = Inr (length bs) \<and>
       fst (v_readBytes (heap_methods hob) w pos n gb') = Inr (length (file_read pos n bs), file_read pos n bs))"
proof -
  obtain g1 where sl: "seal_object (server_stub peer reg) b k (fh_metadata x) False (length bs) None ga = (st, g1)"
    "g_server ga' = g_server g1" "node_opened hoa b k bs h ga'"
    using seal_opened [OF assms(5-8)] assms(3) by metis
  have run: "g_state ga = Running" "status_ok (isValid_name b k)" "length bs < 2 ^ 63"
    using assms(5) by (auto simp: node_opened_def lf_inv_def)
  have srv: "g_server gb = g_server g1" using assms(17) sl(2) by simp
  obtain w gb' r y where o: "GEDS_openAsFileHandle (heap_service hob) b k gb = (Inr w, gb')"
    "object_at w gb' = Some (HRelocatable r)" "object_at (rl_fileHandle r) gb' = Some (HRemote y)"
    "rh_host y = host @ '':'' @ show_nat (unat port)" "fh_bucket y = b" "fh_key y = k"
    "info_size (rh_info y) = of_nat (length bs)"
    using seal_reaches_other_node [OF assms(1) run(1) assms(2,4) sl(1) assms(9,15,16) srv run(2) assms(18-20)] by blast
  have "v_size (heap_methods hob) w gb' = Inr (length bs)"
    using o run(3)
    by (simp add: heap_methods_def Let_def via_wrapper_def base_methods_def Relocatable_size_def base_size_def
        RemoteFileHandle_size_def unat_of_nat)
  moreover have "fst (v_readBytes (heap_methods hob) w pos n gb') =
      Inr (length (file_read pos n bs), file_read pos n bs)"
    using o assms(21) tcp_transfer_exact [OF assms(10-14)]
    by (simp add: heap_methods_def Let_def base_methods_def Relocatable_readBytes_def readBytes_shared_def
        base_readBytes_def RemoteFileHandle_readBytes_def file_read_def split: prod.splits)
  ultimately show ?thesis using o(1) sl(3) by (auto simp: node_holds_def)
qed


text \<open>Two sample nodes: the first creates an object, writes three bytes and seals it.\<close>

definition writer :: "(MetadataServiceImpl, memory_s3) node" where
  "writer = snd (v_writeBytes (heap_methods sample_host) 0 [7, 8, 9] 0
     (snd (GEDS_createAsFileHandle (heap_service sample_host) ''abc'' ''x'' False sample_node)))"

definition sealed_writer :: "Status \<times> (MetadataServiceImpl, memory_s3) node" where
  "sealed_writer = v_seal (heap_methods sample_host) 0 writer"

definition reader :: "(MetadataServiceImpl, memory_s3) node" where
  "reader = sample_node\<lparr>g_server := g_server (snd sealed_writer)\<rparr>"

definition quick_events :: tcp_events where
  "quick_events = \<lparr>te_padding = [0, 0, 0, 0], te_write = None, te_rounds = []\<rparr>"

definition reader_host :: "(MetadataServiceImpl, memory_s3) host" where
  "reader_host = sample_host\<lparr>ho_transfer := (\<lambda>_. tcp_transfer (node_files sample_host) quick_events (snd sealed_writer))\<rparr>"


lemma writer_facts:
  "g_state writer = Running" "g_hostURI writer = computeHostUri ''10.0.0.1'' 7"
  "map_of (g_fileHandles writer) (getPath ''abc'' ''x'') = Some 0" "fst sealed_writer = OkStatus"
  "\<not> is_ok (MDSKVS_lookup (ms_mdsCache (g_metadataService writer)) ''abc'' ''x'')"
  "status_ok (isValid_name ''abc'' ''x'')" "g_server writer = g_server node_a"
  "ms_connectionState (g_metadataService writer) = Connected" "ms_mdsCache (g_metadataService writer) = MDSKVS_new None"
  by code_simp+

lemma writer_object:
  obtains x where "object_at 0 writer = Some (HLocal x)" "fh_isValid x" "fh_bucket x = ''abc''" "fh_key x = ''x''"
    "lf_inv (lh_file x)" "lf_content (lh_file x) = [7, 8, 9]" "\<not> lh_isSealed x"
proof -
  have "case object_at 0 writer of
      Some (HLocal x) \<Rightarrow> fh_isValid x \<and> fh_bucket x = ''abc'' \<and> fh_key x = ''x'' \<and> lf_fd (lh_file x) = 3 \<and>
        lf_size (lh_file x) = 3 \<and> lf_content (lh_file x) = [7, 8, 9] \<and> \<not> lh_isSealed x
    | _ \<Rightarrow> False" by code_simp
  then show thesis using that
    by (auto simp: lf_inv_def split: option.splits handle_object.splits)
qed

lemma writer_opened: "node_opened sample_host ''abc'' ''x'' [7, 8, 9] 0 writer"
proof -
  have "io_ok (ho_script sample_host)" by (simp add: sample_host_def)
  with writer_object writer_facts(1,3,6) show ?thesis unfolding node_opened_def by metis
qed

lemma writer_coherent: "node_coherent writer"
  using node_a_coherent writer_facts(7-9) by (intro empty_cache_coherent) (simp_all add: node_coherent_def)

lemma reader_coherent: "node_coherent reader"
proof -
  obtain x where x: "object_at 0 writer = Some (HLocal x)" "\<not> lh_isSealed x" by (rule writer_object)
  have s: "v_seal (heap_methods sample_host) 0 writer = (fst sealed_writer, snd sealed_writer)"
    by (simp add: sealed_writer_def)
  obtain g1 where g1: "seal_object (server_stub ''ipv4:10.0.0.1:5'' unimplemented) ''abc'' ''x'' (fh_metadata x) False
      (length [7, 8, 9 :: byte]) None writer = (fst sealed_writer, g1)" "g_server (snd sealed_writer) = g_server g1"
    using seal_opened [OF writer_opened x s] sample_stub by metis
  have "node_coherent g1" by (rule seal_object_coherent [OF writer_coherent g1(1) writer_facts(5)])
  moreover have "ms_mdsCache (g_metadataService reader) = MDSKVS_new None"
    "ms_connectionState (g_metadataService reader) = Connected"
    by code_simp+
  ultimately show ?thesis
    using g1(2) by (intro empty_cache_coherent) (simp_all add: node_coherent_def reader_def)
qed

theorem cross_node_read_witness:
  "\<exists>w gb'. GEDS_openAsFileHandle (heap_service reader_host) ''abc'' ''x'' reader = (Inr w, gb') \<and>
     v_size (heap_methods reader_host) w gb' = Inr 3 \<and>
     fst (v_readBytes (heap_methods reader_host) w 1 5 gb') = Inr (2, [8, 9])"
proof -
  obtain x where x: "object_at 0 writer = Some (HLocal x)" "\<not> lh_isSealed x" by (rule writer_object)
  have s: "v_seal (heap_methods sample_host) 0 writer = (fst sealed_writer, snd sealed_writer)"
    by (simp add: sealed_writer_def)
  have "node_opened sample_host ''abc'' ''x'' [7, 8, 9] 0 (snd sealed_writer)"
    using seal_opened [OF writer_opened x s] by metis
  then have held: "node_holds sample_host ''abc'' ''x'' [7, 8, 9] (snd sealed_writer)"
    by (auto simp: node_holds_def)
  have ok: "status_ok (fst sealed_writer)" "events_ok quick_events" "key_sendable ''x''" "1 < INT64_MAX"
    "5 < (2 :: nat) ^ 64"
    by (simp_all add: writer_facts(4) events_ok_def quick_events_def rounds_ok_def key_sendable_def INT64_MAX_def)
  have r: "g_state reader = Running" "g_server reader = g_server (snd sealed_writer)"
    "map_of (g_fileHandles reader) (getPath ''abc'' ''x'') = None"
    by (code_simp, simp add: reader_def, code_simp)
  have h: "ho_stub reader_host = server_stub ''ipv4:10.0.0.1:5'' unimplemented"
    "\<forall>h. status_ok (ho_connect reader_host h)"
    "ho_transfer reader_host (''10.0.0.1'' @ '':'' @ show_nat (unat (7 :: u16))) =
       tcp_transfer (node_files sample_host) quick_events (snd sealed_writer)"
    by (simp_all add: reader_host_def sample_stub sample_host_def)
  from cross_node_read [OF writer_coherent writer_facts(2) sample_stub writer_facts(5) writer_opened x s ok(1) held
      ok(2-5) reader_coherent r h]
  show ?thesis by (simp add: file_read_def numeral_nat)
qed

end
