(* ===== verification/Relocation_Pool.thy ===== *)
theory Relocation_Pool
  imports GEDS_Prelude "HOL-Library.Multiset"
begin

text \<open>
  The thread pool of \<open>GEDS::relocate\<close> (\<^verbatim>\<open>src/libgeds/GEDS.cpp\<close>): the caller posts one task per handle, waits
  while too many are active, and at the end waits until the number of outstanding tasks is zero; the tasks
  finish in any order. The steps of caller and tasks are a transition relation, so that the
  results hold for every schedule.
\<close>

section \<open>States and steps\<close>

datatype relocate_phase = Posting | AwaitSlot | AwaitAll | Returned

text \<open>
  The loop variable with the handles still to come, the posted tasks, and the two counters of
  \<open>RelocateHelper\<close>; \<open>rp_skipped\<close> records the handles that were found invalid.
\<close>

record 'h relocation =
  rp_phase :: relocate_phase
  rp_todo :: "'h list"
  rp_pool :: "'h multiset"
  rp_skipped :: "'h list"
  rp_nTasks :: size_t
  rp_activeTasks :: int

definition relocation_start :: "'h list \<Rightarrow> 'h relocation" where
  "relocation_start relocatable =
     \<lparr>rp_phase = Posting, rp_todo = relocatable, rp_pool = {#}, rp_skipped = [],
      rp_nTasks = length relocatable, rp_activeTasks = 0\<rparr>"

text \<open>
  Whether a handle is valid is decided when its turn comes, by what other threads have done: the step
  \<open>skip\<close> is the \<open>continue\<close> of the loop. A task, successful or not, ends with the two decrements.
\<close>

inductive relocation_step :: "nat \<Rightarrow> 'h relocation \<Rightarrow> 'h relocation \<Rightarrow> bool" for tp_size where
  skip: "rp_phase s = Posting \<Longrightarrow> rp_todo s = fh # rest \<Longrightarrow>
    relocation_step tp_size s (s\<lparr>rp_todo := rest, rp_skipped := fh # rp_skipped s\<rparr>)"
| post: "rp_phase s = Posting \<Longrightarrow> rp_todo s = fh # rest \<Longrightarrow>
    relocation_step tp_size s (s\<lparr>rp_phase := AwaitSlot, rp_todo := rest,
      rp_activeTasks := rp_activeTasks s + 1, rp_pool := add_mset fh (rp_pool s)\<rparr>)"
| slot: "rp_phase s = AwaitSlot \<Longrightarrow> rp_activeTasks s \<le> int tp_size + 1 \<Longrightarrow>
    relocation_step tp_size s (s\<lparr>rp_phase := Posting\<rparr>)"
| all_posted: "rp_phase s = Posting \<Longrightarrow> rp_todo s = [] \<Longrightarrow> relocation_step tp_size s (s\<lparr>rp_phase := AwaitAll\<rparr>)"
| task_ends: "fh \<in># rp_pool s \<Longrightarrow>
    relocation_step tp_size s (s\<lparr>rp_pool := rp_pool s - {#fh#}, rp_nTasks := sz_sub (rp_nTasks s) 1,
      rp_activeTasks := rp_activeTasks s - 1\<rparr>)"
| return: "rp_phase s = AwaitAll \<Longrightarrow> rp_nTasks s = 0 \<Longrightarrow> relocation_step tp_size s (s\<lparr>rp_phase := Returned\<rparr>)"

inductive_cases relocation_stepE: "relocation_step tp_size s t"

definition relocation_reachable :: "nat \<Rightarrow> 'h list \<Rightarrow> 'h relocation \<Rightarrow> bool" where
  "relocation_reachable tp_size hs s \<longleftrightarrow> (relocation_step tp_size)\<^sup>*\<^sup>* (relocation_start hs) s"

section \<open>Invariants\<close>

text \<open>
  The active counter is the number of posted tasks. The outstanding counter is what is still to
  come, what is posted, and what was skipped: a skipped handle is never taken off.
\<close>

definition relocation_inv :: "nat \<Rightarrow> 'h list \<Rightarrow> 'h relocation \<Rightarrow> bool" where
  "relocation_inv tp_size hs s \<longleftrightarrow>
     rp_activeTasks s = int (size (rp_pool s)) \<and>
     rp_nTasks s = length (rp_todo s) + size (rp_pool s) + length (rp_skipped s) \<and>
     rp_nTasks s \<le> length hs \<and>
     (rp_phase s = AwaitSlot \<longrightarrow> rp_activeTasks s \<le> int tp_size + 2) \<and>
     (rp_phase s \<noteq> AwaitSlot \<longrightarrow> rp_activeTasks s \<le> int tp_size + 1) \<and>
     (rp_phase s \<in> {AwaitAll, Returned} \<longrightarrow> rp_todo s = []) \<and>
     (rp_phase s = Returned \<longrightarrow> rp_nTasks s = 0)"

lemma relocation_inv_start: "relocation_inv tp_size hs (relocation_start hs)"
  by (simp add: relocation_inv_def relocation_start_def)

lemma relocation_inv_step:
  assumes "relocation_step tp_size s t" "relocation_inv tp_size hs s"
  shows "relocation_inv tp_size hs t"
  using assms(1)
proof (cases rule: relocation_step.cases)
  case (task_ends fh)
  then obtain M where "rp_pool s = add_mset fh M" by (metis multi_member_split)
  with task_ends assms(2) show ?thesis by (cases "rp_phase s") (simp_all add: relocation_inv_def, linarith?)
qed (use assms(2) in \<open>simp_all add: relocation_inv_def\<close>)

lemma relocation_inv_reachable: "relocation_reachable tp_size hs s \<Longrightarrow> relocation_inv tp_size hs s"
  unfolding relocation_reachable_def
  by (induction rule: rtranclp_induct) (auto intro: relocation_inv_start relocation_inv_step)

section \<open>Termination\<close>

definition phase_rank :: "relocate_phase \<Rightarrow> nat" where
  "phase_rank p = (case p of Returned \<Rightarrow> 0 | AwaitAll \<Rightarrow> 1 | Posting \<Rightarrow> 2 | AwaitSlot \<Rightarrow> 3)"

text \<open>Every step lowers this measure: posting moves a handle to the pool and leaves one slot to wait for.\<close>

definition relocation_measure :: "'h relocation \<Rightarrow> nat" where
  "relocation_measure s = 3 * length (rp_todo s) + size (rp_pool s) + phase_rank (rp_phase s)"

lemma relocation_measure_step:
  assumes "relocation_step tp_size s t"
  shows "relocation_measure t < relocation_measure s"
  using assms
proof (cases rule: relocation_step.cases)
  case (task_ends fh)
  then obtain M where "rp_pool s = add_mset fh M" by (metis multi_member_split)
  with task_ends show ?thesis by (simp add: relocation_measure_def)
qed (simp_all add: relocation_measure_def phase_rank_def)

lemma relocation_terminates: "wfP (\<lambda>t s. relocation_step tp_size s t)"
  by (rule wfp_if_convertible_to_nat [where f = relocation_measure]) (rule relocation_measure_step)

lemma relocation_stuck:
  assumes "relocation_inv tp_size hs s" "\<nexists>t. relocation_step tp_size s t"
  shows "rp_pool s = {#} \<and> rp_todo s = [] \<and> (rp_phase s = Returned \<longleftrightarrow> rp_skipped s = [])"
proof -
  have pool: "rp_pool s = {#}" using assms(2) task_ends by (metis multiset_nonemptyE)
  have "rp_phase s \<noteq> AwaitSlot"
    using assms slot [of s tp_size] pool by (auto simp: relocation_inv_def)
  moreover have "rp_phase s \<noteq> Posting"
    using assms(2) post [of s _ _ tp_size] all_posted [of s tp_size] by (cases "rp_todo s") blast+
  moreover have "rp_phase s = AwaitAll \<Longrightarrow> rp_nTasks s \<noteq> 0" using assms(2) return [of s tp_size] by blast
  ultimately show ?thesis using pool assms(1) by (cases "rp_phase s") (auto simp: relocation_inv_def)
qed

section \<open>Properties\<close>

text \<open>
  C11. At every moment of every schedule of a relocation at most two tasks more than the size of the I/O
  thread pool are active, the counters count what they stand for, and the unsigned counter
  of outstanding tasks never falls below zero.
\<close>

theorem relocation_bounded:
  assumes "relocation_reachable tp_size hs s"
  shows "0 \<le> rp_activeTasks s \<and> rp_activeTasks s \<le> int tp_size + 2 \<and>
    rp_activeTasks s = int (size (rp_pool s)) \<and> rp_nTasks s \<le> length hs \<and>
    rp_nTasks s = length (rp_todo s) + size (rp_pool s) + length (rp_skipped s)"
  using relocation_inv_reachable [OF assms] by (cases "rp_phase s = AwaitSlot") (auto simp: relocation_inv_def)

text \<open>
  C10. A relocation comes to an end: there is no infinite run of caller and tasks, and a state that allows no
  further step has no task left. The call has then returned exactly if no handle was skipped as invalid;
  otherwise the caller waits for ever for tasks that were never posted.
\<close>

theorem relocation_returns:
  "wfP (\<lambda>t s. relocation_step tp_size s t) \<and>
   (\<forall>s. relocation_reachable tp_size hs s \<and> (\<nexists>t. relocation_step tp_size s t) \<longrightarrow>
      rp_pool s = {#} \<and> rp_todo s = [] \<and> (rp_phase s = Returned \<longleftrightarrow> rp_skipped s = []))"
  using relocation_terminates relocation_stuck relocation_inv_reachable by metis

lemma relocation_step_run:
  "relocation_reachable tp_size hs s \<Longrightarrow> relocation_step tp_size s t \<Longrightarrow> relocation_reachable tp_size hs t"
  by (simp add: relocation_reachable_def rtranclp.rtrancl_into_rtrancl)

lemma skipped_run:
  "relocation_reachable 0 [x] (relocation_start [x]\<lparr>rp_todo := [], rp_skipped := [x], rp_phase := AwaitAll\<rparr>)"
proof -
  let ?s = "relocation_start [x]" and ?t = "relocation_start [x]\<lparr>rp_todo := [], rp_skipped := [x]\<rparr>"
  have "relocation_step 0 ?s ?t"
    using skip [of ?s x "[]" 0] by (simp add: relocation_start_def)
  moreover have "relocation_step 0 ?t (?t\<lparr>rp_phase := AwaitAll\<rparr>)"
    using all_posted [of ?t 0] by (simp add: relocation_start_def)
  moreover have "relocation_reachable 0 [x] ?s" by (simp add: relocation_reachable_def)
  ultimately have "relocation_reachable 0 [x] (?t\<lparr>rp_phase := AwaitAll\<rparr>)"
    by (meson relocation_step_run)
  then show ?thesis by (simp add: relocation_start_def)
qed

theorem relocation_bounded_witness:
  "relocation_reachable 0 [4 :: nat] (relocation_start [4]\<lparr>rp_todo := [], rp_skipped := [4], rp_phase := AwaitAll\<rparr>) \<and>
   rp_nTasks (relocation_start [4 :: nat]\<lparr>rp_todo := [], rp_skipped := [4], rp_phase := AwaitAll\<rparr>) = 1"
  using relocation_bounded [OF skipped_run [of "4 :: nat"]] skipped_run [of "4 :: nat"]
  by (simp add: relocation_start_def)

theorem relocation_returns_witness:
  "let s = relocation_start [4 :: nat]\<lparr>rp_todo := [], rp_skipped := [4], rp_phase := AwaitAll\<rparr>
   in relocation_reachable 0 [4] s \<and> (\<nexists>t. relocation_step 0 s t) \<and> rp_phase s \<noteq> Returned"
proof -
  let ?s = "relocation_start [4 :: nat]\<lparr>rp_todo := [], rp_skipped := [4], rp_phase := AwaitAll\<rparr>"
  have stuck: "\<nexists>t. relocation_step 0 ?s t"
    by (auto simp: relocation_start_def elim!: relocation_stepE)
  have "rp_phase ?s = Returned \<longleftrightarrow> rp_skipped ?s = []"
    using relocation_returns [of 0 "[4 :: nat]"] skipped_run [of "4 :: nat"] stuck by blast
  with skipped_run [of "4 :: nat"] stuck show ?thesis by (simp add: Let_def)
qed

end
