(* ===== verification/Statistics.thy ===== *)
theory Statistics
  imports Concurrent
begin

text \<open>
  Counters, gauges and histograms (\<^verbatim>\<open>src/statistics\<close>), their registry by label, and the two text formats in
  which they are reported. Whether histograms keep buckets is a compile-time option of the program and a
  flag here.
\<close>

section \<open>Labels\<close>

definition to_lower :: "char \<Rightarrow> char" where
  "to_lower c = (if CHR ''A'' \<le> c \<and> c \<le> CHR ''Z'' then char_of (of_char c + 32 :: nat) else c)"

definition replace_all :: "char \<Rightarrow> char \<Rightarrow> string \<Rightarrow> string" where
  "replace_all a b s = map (\<lambda>c. if c = a then b else c) s"

definition createPrometheusLabel :: "string \<Rightarrow> string" where
  "createPrometheusLabel label = map to_lower (replace_all CHR '' '' CHR ''_'' (replace_all CHR '':'' CHR ''_'' label))"

section \<open>Counters and gauges\<close>

record StatisticsCounter =
  ctr_label :: string
  ctr_prometheusLabel :: string
  ctr_count :: u64

definition StatisticsCounter_new :: "string \<Rightarrow> StatisticsCounter" where
  "StatisticsCounter_new label =
     \<lparr>ctr_label = label, ctr_prometheusLabel = createPrometheusLabel label, ctr_count = 0\<rparr>"

definition counter_add :: "u64 \<Rightarrow> StatisticsCounter \<Rightarrow> StatisticsCounter" where
  "counter_add v c = c\<lparr>ctr_count := ctr_count c + v\<rparr>"

definition newline :: string where "newline = [CHR 0x0A]"

definition counter_printForPrometheus :: "StatisticsCounter \<Rightarrow> string" where
  "counter_printForPrometheus c =
     ''# TYPE '' @ ctr_prometheusLabel c @ '' counter'' @ newline @
     ctr_prometheusLabel c @ '' '' @ show_nat (unat (ctr_count c)) @ newline"

definition counter_printForConsole :: "StatisticsCounter \<Rightarrow> string" where
  "counter_printForConsole c = ctr_label c @ '', '' @ show_nat (unat (ctr_count c)) @ newline"

text \<open>A gauge is a signed 64-bit number; the operands are unsigned.\<close>

record StatisticsGauge =
  gg_label :: string
  gg_prometheusLabel :: string
  gg_value :: u64

definition StatisticsGauge_new :: "string \<Rightarrow> StatisticsGauge" where
  "StatisticsGauge_new label = \<lparr>gg_label = label, gg_prometheusLabel = createPrometheusLabel label, gg_value = 0\<rparr>"

definition gauge_set :: "u64 \<Rightarrow> StatisticsGauge \<Rightarrow> StatisticsGauge" where
  "gauge_set v g = g\<lparr>gg_value := v\<rparr>"

definition gauge_add :: "u64 \<Rightarrow> StatisticsGauge \<Rightarrow> StatisticsGauge" where
  "gauge_add v g = g\<lparr>gg_value := gg_value g + v\<rparr>"

definition gauge_sub :: "u64 \<Rightarrow> StatisticsGauge \<Rightarrow> StatisticsGauge" where
  "gauge_sub v g = g\<lparr>gg_value := gg_value g - v\<rparr>"

definition show_signed :: "u64 \<Rightarrow> string" where
  "show_signed v = (if sint v < 0 then ''-'' @ show_nat (nat (- sint v)) else show_nat (nat (sint v)))"

definition gauge_printForPrometheus :: "StatisticsGauge \<Rightarrow> string" where
  "gauge_printForPrometheus g =
     ''# TYPE '' @ gg_prometheusLabel g @ '' gauge'' @ newline @
     gg_prometheusLabel g @ '' '' @ show_signed (gg_value g) @ newline"

definition gauge_printForConsole :: "StatisticsGauge \<Rightarrow> string" where
  "gauge_printForConsole g = gg_label g @ '', '' @ show_signed (gg_value g) @ newline"

section \<open>Histograms\<close>

record StatisticsHistogram =
  hg_label :: string
  hg_prometheusLabel :: string
  hg_sum :: u64
  hg_totalCount :: u64
  hg_buckets :: "u64 list"
  hg_count :: "u64 list"

definition StatisticsHistogram_new :: "bool \<Rightarrow> string \<Rightarrow> u64 list \<Rightarrow> StatisticsHistogram" where
  "StatisticsHistogram_new haveBuckets label buckets =
     (let b = (if haveBuckets then buckets else [])
      in \<lparr>hg_label = label, hg_prometheusLabel = createPrometheusLabel label, hg_sum = 0, hg_totalCount = 0,
          hg_buckets = b, hg_count = replicate (length b) 0\<rparr>)"

text \<open>Every bucket whose bound the value does not exceed counts it.\<close>

fun count_into :: "u64 \<Rightarrow> u64 list \<Rightarrow> u64 list \<Rightarrow> u64 list" where
  "count_into v (b # bs) (c # cs) = (if v > b then c else c + 1) # count_into v bs cs"
| "count_into v bs cs = cs"

definition histogram_add :: "u64 \<Rightarrow> StatisticsHistogram \<Rightarrow> StatisticsHistogram" where
  "histogram_add v h =
     h\<lparr>hg_sum := hg_sum h + v, hg_totalCount := hg_totalCount h + 1,
       hg_count := count_into v (hg_buckets h) (hg_count h)\<rparr>"

definition histogram_printForPrometheus :: "bool \<Rightarrow> StatisticsHistogram \<Rightarrow> string" where
  "histogram_printForPrometheus haveBuckets h =
     (let l = hg_prometheusLabel h in
      ''# TYPE '' @ l @ '' histogram'' @ newline @
      (if haveBuckets
       then concat (map (\<lambda>(b, c). l @ ''_bucket{le='' @ [CHR 0x22] @ show_nat (unat b) @ [CHR 0x22] @ ''} '' @
              show_nat (unat c) @ newline) (zip (hg_buckets h) (hg_count h))) @
            l @ ''_bucket{le='' @ [CHR 0x22] @ ''+Inf'' @ [CHR 0x22] @ ''} '' @ show_nat (unat (hg_totalCount h)) @ newline
       else []) @
      l @ ''_sum '' @ show_nat (unat (hg_sum h)) @ newline @
      l @ ''_count '' @ show_nat (unat (hg_totalCount h)) @ newline)"

definition histogram_printForConsole :: "bool \<Rightarrow> StatisticsHistogram \<Rightarrow> string" where
  "histogram_printForConsole haveBuckets h =
     hg_label h @ '', '' @ show_nat (unat (hg_totalCount h)) @ '', sum '' @ show_nat (unat (hg_sum h)) @
     (if haveBuckets
      then '', '' @ concat (map (\<lambda>(b, c). '' {le='' @ show_nat (unat b) @ ''} '' @ show_nat (unat c) @ '', '')
             (zip (hg_buckets h) (hg_count h))) @
           '' {le=+Inf} '' @ show_nat (unat (hg_totalCount h)) @ newline
      else newline)"

definition io_buckets :: "u64 list" where
  "io_buckets = map (\<lambda>i. 2 ^ (i + 6)) [0..<24]"

definition nanosecond_buckets :: "u64 list" where
  "nanosecond_buckets = [1, 10, 100, 1000, 10000, 100000, 1000000, 10000000, 100000000, 1000000000,
     10000000000, 60000000000 * 1, 60000000000 * 10, 60000000000 * 60]"

section \<open>The registry\<close>

text \<open>
  The singleton with its three maps. An object is created once per label and shared; it is known by its
  position in the list of objects of its kind.
\<close>

record Statistics =
  st_counters :: "(string, nat) std_map"
  st_gauges :: "(string, nat) std_map"
  st_histograms :: "(string, nat) std_map"
  st_counterObjects :: "StatisticsCounter list"
  st_gaugeObjects :: "StatisticsGauge list"
  st_histogramObjects :: "StatisticsHistogram list"

definition createCounter :: "string \<Rightarrow> Statistics \<Rightarrow> nat \<times> Statistics" where
  "createCounter label s =
     (case ConcurrentMap_get (st_counters s) label of
        Some c \<Rightarrow> (c, s)
      | None \<Rightarrow>
          (case ConcurrentMap_insertOrExists label (length (st_counterObjects s)) (st_counters s) of (c, m) \<Rightarrow>
             (c, s\<lparr>st_counters := m, st_counterObjects := st_counterObjects s @ [StatisticsCounter_new label]\<rparr>)))"

definition createGauge :: "string \<Rightarrow> Statistics \<Rightarrow> nat \<times> Statistics" where
  "createGauge label s =
     (case ConcurrentMap_get (st_gauges s) label of
        Some c \<Rightarrow> (c, s)
      | None \<Rightarrow>
          (case ConcurrentMap_insertOrExists label (length (st_gaugeObjects s)) (st_gauges s) of (c, m) \<Rightarrow>
             (c, s\<lparr>st_gauges := m, st_gaugeObjects := st_gaugeObjects s @ [StatisticsGauge_new label]\<rparr>)))"

definition createHistogram :: "bool \<Rightarrow> string \<Rightarrow> u64 list \<Rightarrow> Statistics \<Rightarrow> nat \<times> Statistics" where
  "createHistogram haveBuckets label buckets s =
     (case ConcurrentMap_get (st_histograms s) label of
        Some c \<Rightarrow> (c, s)
      | None \<Rightarrow>
          (case ConcurrentMap_insertOrExists label (length (st_histogramObjects s)) (st_histograms s) of (c, m) \<Rightarrow>
             (c, s\<lparr>st_histograms := m,
                st_histogramObjects := st_histogramObjects s @ [StatisticsHistogram_new haveBuckets label buckets]\<rparr>)))"

definition createIOHistogram :: "bool \<Rightarrow> string \<Rightarrow> Statistics \<Rightarrow> nat \<times> Statistics" where
  "createIOHistogram haveBuckets label s = createHistogram haveBuckets label io_buckets s"

definition createNanoSecondHistogram :: "bool \<Rightarrow> string \<Rightarrow> Statistics \<Rightarrow> nat \<times> Statistics" where
  "createNanoSecondHistogram haveBuckets label s = createHistogram haveBuckets label nanosecond_buckets s"

text \<open>Both reports go through the maps in the order of the labels.\<close>

definition report :: "('a \<Rightarrow> string) \<Rightarrow> (string, nat) std_map \<Rightarrow> 'a list \<Rightarrow> string" where
  "report print m objects = concat (map (\<lambda>(_, i). print (objects ! i)) m)"

definition printStatistics :: "bool \<Rightarrow> Statistics \<Rightarrow> string" where
  "printStatistics haveBuckets s =
     ''GEDS Statistics:'' @ newline @ ''Name, Value'' @ newline @
     report counter_printForConsole (st_counters s) (st_counterObjects s) @
     report gauge_printForConsole (st_gauges s) (st_gaugeObjects s) @
     report (histogram_printForConsole haveBuckets) (st_histograms s) (st_histogramObjects s) @ newline"

definition prometheusMetrics :: "bool \<Rightarrow> Statistics \<Rightarrow> string" where
  "prometheusMetrics haveBuckets s =
     report counter_printForPrometheus (st_counters s) (st_counterObjects s) @
     report gauge_printForPrometheus (st_gauges s) (st_gaugeObjects s) @
     report (histogram_printForPrometheus haveBuckets) (st_histograms s) (st_histogramObjects s)"

section \<open>Histograms count cumulatively\<close>

lemma count_into_length [simp]: "length bs = length cs \<Longrightarrow> length (count_into v bs cs) = length cs"
  by (induction v bs cs rule: count_into.induct) simp_all

lemma count_into_nth:
  "length bs = length cs \<Longrightarrow> i < length bs \<Longrightarrow>
     count_into v bs cs ! i = cs ! i + (if v \<le> bs ! i then 1 else 0)"
  by (induction v bs cs arbitrary: i rule: count_into.induct) (auto simp: nth_Cons not_less split: nat.splits)

text \<open>What a histogram shows after a sequence of values, in the format that Prometheus expects.\<close>

definition histogram_shows :: "u64 list \<Rightarrow> StatisticsHistogram \<Rightarrow> bool" where
  "histogram_shows vs h \<longleftrightarrow> hg_sum h = sum_list vs \<and> hg_totalCount h = of_nat (length vs) \<and>
     length (hg_count h) = length (hg_buckets h) \<and>
     (\<forall>i < length (hg_buckets h). hg_count h ! i = of_nat (length (filter (\<lambda>v. v \<le> hg_buckets h ! i) vs)))"

lemma histogram_add_shows: "histogram_shows vs h \<Longrightarrow> histogram_shows (vs @ [v]) (histogram_add v h)"
  by (auto simp: histogram_shows_def histogram_add_def count_into_nth)

lemma fold_histogram:
  "histogram_shows us h \<Longrightarrow> histogram_shows (us @ vs) (fold histogram_add vs h) \<and>
     hg_buckets (fold histogram_add vs h) = hg_buckets h"
proof (induction vs arbitrary: us h)
  case (Cons v vs)
  have "hg_buckets (histogram_add v h) = hg_buckets h" by (simp add: histogram_add_def)
  with Cons.IH [OF histogram_add_shows [OF Cons.prems]] show ?case by simp
qed simp

text \<open>
  A histogram is cumulative, as Prometheus requires: after any sequence of observations fewer than \<open>2 ^ 64\<close>,
  the sum is that of the values modulo \<open>2 ^ 64\<close>, the total is their number, every bucket holds the number of
  values up to its bound, and if the bounds ascend then the counts ascend towards the
  total.
\<close>

theorem histogram_cumulative:
  assumes "length vs < 2 ^ 64" "sorted buckets" "i \<le> j" "j < length buckets"
  shows "let h = fold histogram_add vs (StatisticsHistogram_new True label buckets) in
    hg_sum h = sum_list vs \<and> unat (hg_totalCount h) = length vs \<and>
    unat (hg_count h ! i) = length (filter (\<lambda>v. v \<le> buckets ! i) vs) \<and>
    hg_count h ! i \<le> hg_count h ! j \<and> hg_count h ! j \<le> hg_totalCount h"
proof -
  let ?h0 = "StatisticsHistogram_new True label buckets" and ?n = "\<lambda>i. length (filter (\<lambda>v. v \<le> buckets ! i) vs)"
  define h where "h = fold histogram_add vs ?h0"
  have "histogram_shows [] ?h0" by (simp add: histogram_shows_def StatisticsHistogram_new_def)
  from fold_histogram [OF this, of vs] have h: "histogram_shows vs h" "hg_buckets h = buckets"
    by (simp_all add: h_def StatisticsHistogram_new_def)
  have small: "unat (of_nat n :: u64) = n" if "n \<le> length vs" for n
    using that assms(1) by (simp add: unat_of_nat)
  have le: "?n k \<le> length vs" for k by (rule length_filter_le)
  have c: "hg_count h ! k = of_nat (?n k)" if "k < length buckets" for k
    using h that by (simp add: histogram_shows_def)
  have "buckets ! i \<le> buckets ! j" using assms(2-4) by (simp add: sorted_nth_mono)
  then have mono: "?n i \<le> ?n j" by (induction vs) auto
  have u: "unat (hg_count h ! i) = ?n i" "unat (hg_count h ! j) = ?n j" "unat (hg_totalCount h) = length vs"
    using c assms(3,4) small le h(1) by (simp_all add: histogram_shows_def)
  then have "hg_count h ! i \<le> hg_count h ! j" "hg_count h ! j \<le> hg_totalCount h"
    using mono le [of j] by (simp_all only: word_le_nat_alt)
  then show ?thesis using u h(1) by (simp add: histogram_shows_def Let_def flip: h_def)
qed

theorem histogram_cumulative_witness:
  "unat (hg_count (fold histogram_add [5, 70, 6] (StatisticsHistogram_new True ''io'' [10, 100])) ! 0) = 2"
  using histogram_cumulative [of "[5, 70, 6]" "[10, 100]" 0 1 "''io''"] by (simp add: Let_def)

end
