(* ===== verification/Http_Session.thy ===== *)
theory Http_Session
  imports Statistics
begin

text \<open>
  A connection of the web server, \<^verbatim>\<open>src/libgeds/HttpSession.cpp\<close>: the requests it answers, the replies, and the
  loop over the requests of a connection that is kept alive. Reading and writing messages is Boost.Beast: what it reads
  is an event, whether a write succeeds a flag. The body of a response is a buffer at the end of which
  \<open>boost::beast::ostream\<close> writes; sending a response does not consume it. Requests that the client sends before it has the
  previous reply, whose bytes \<open>_buffer.clear()\<close> may drop, are not modelled.
\<close>

section \<open>Messages\<close>

record http_request =
  rq_isGet :: bool
  rq_target :: string
  rq_keep_alive :: bool

record http_response =
  http_status :: nat
  http_type :: string
  http_keep_alive :: bool
  http_body :: string
  http_content_length :: nat

record HttpSession =
  hx_request :: http_request
  hx_response :: http_response
  hx_open :: bool

definition empty_request :: http_request where
  "empty_request = \<lparr>rq_isGet = False, rq_target = [], rq_keep_alive = True\<rparr>"

definition HttpSession_new :: HttpSession where
  "HttpSession_new =
     \<lparr>hx_request = empty_request,
      hx_response = \<lparr>http_status = 200, http_type = [], http_keep_alive = True, http_body = [], http_content_length = 0\<rparr>,
      hx_open = True\<rparr>"

definition HttpSession_close :: "HttpSession \<Rightarrow> HttpSession" where
  "HttpSession_close s = s\<lparr>hx_open := False\<rparr>"

definition awaitHttpRequest :: "HttpSession \<Rightarrow> HttpSession" where
  "awaitHttpRequest s = s\<lparr>hx_request := empty_request\<rparr>"

section \<open>Replies\<close>

text \<open>The first half of \<open>handleWrite\<close>: the message that is sent.\<close>

definition handleHttpWrite :: "HttpSession \<Rightarrow> HttpSession" where
  "handleHttpWrite s =
     s\<lparr>hx_response := (hx_response s)\<lparr>http_content_length := length (http_body (hx_response s))\<rparr>\<rparr>"

text \<open>What all replies have in common: result and fields are set, the text is written into the body.\<close>

definition prepareReply :: "nat \<Rightarrow> string \<Rightarrow> string \<Rightarrow> HttpSession \<Rightarrow> HttpSession" where
  "prepareReply status type' text' s =
     handleHttpWrite (s\<lparr>hx_response := (hx_response s)\<lparr>http_status := status, http_type := type',
       http_keep_alive := rq_keep_alive (hx_request s), http_body := http_body (hx_response s) @ text'\<rparr>\<rparr>)"

definition prepareError :: "nat \<Rightarrow> string \<Rightarrow> HttpSession \<Rightarrow> HttpSession" where
  "prepareError status message s = prepareReply status ''text/html'' message s"

definition welcome_page :: string where
  "welcome_page =
     ''<!DOCTYPE html><html><head><title>GEDS Service</title></head><body><pre>GEDS Service</pre></body></html>'' @ newline"

definition prepareHtmlReply :: "HttpSession \<Rightarrow> HttpSession" where
  "prepareHtmlReply s = prepareReply 200 ''text/html'' welcome_page s"

definition prepareMetricsReply :: "bool \<Rightarrow> Statistics \<Rightarrow> HttpSession \<Rightarrow> HttpSession" where
  "prepareMetricsReply haveBuckets st s = prepareReply 200 ''plain/text'' (prometheusMetrics haveBuckets st) s"

definition handleRequest :: "bool \<Rightarrow> Statistics \<Rightarrow> HttpSession \<Rightarrow> HttpSession" where
  "handleRequest haveBuckets st s =
     (let request = hx_request s in
      if \<not> rq_isGet request then prepareError 400 ''Invalid method.'' s
      else if rq_target request = [] \<or> hd (rq_target request) \<noteq> CHR ''/'' then prepareError 400 ''Invalid path.'' s
      else if rq_target request = ''/'' then prepareHtmlReply s
      else if rq_target request = ''/metrics'' then prepareMetricsReply haveBuckets st s
      else prepareError 404 ''Invalid path'' s)"

section \<open>The loop over requests\<close>

datatype http_read = ReadRequest http_request | EndOfStream | ReadFailed string

text \<open>
  The completion of the read, which ends the session unless there is a request, and of the write, which waits for
  another request if the client keeps the connection alive. A session that has no operation under way is destroyed,
  and its destructor closes the socket.
\<close>

definition HttpSession_on_read :: "bool \<Rightarrow> Statistics \<Rightarrow> http_read \<Rightarrow> HttpSession \<Rightarrow> HttpSession option" where
  "HttpSession_on_read haveBuckets st ev s =
     (case ev of
        EndOfStream \<Rightarrow> None
      | ReadFailed reason \<Rightarrow> None
      | ReadRequest request \<Rightarrow> Some (handleRequest haveBuckets st (s\<lparr>hx_request := request\<rparr>)))"

definition HttpSession_on_write :: "bool \<Rightarrow> HttpSession \<Rightarrow> HttpSession option" where
  "HttpSession_on_write ok s = (if ok \<and> rq_keep_alive (hx_request s) then Some (awaitHttpRequest s) else None)"

text \<open>A round is what arrives, the statistics at that moment and whether the reply can be written.\<close>

type_synonym http_round = "http_read \<times> Statistics \<times> bool"

fun session_run :: "bool \<Rightarrow> HttpSession \<Rightarrow> http_round list \<Rightarrow> http_response list \<times> HttpSession" where
  "session_run haveBuckets s [] = ([], s)"
| "session_run haveBuckets s ((ev, st, ok) # rounds) =
     (case HttpSession_on_read haveBuckets st ev s of
        None \<Rightarrow> ([], HttpSession_close s)
      | Some s1 \<Rightarrow>
          (case HttpSession_on_write ok s1 of
             None \<Rightarrow> ([hx_response s1], HttpSession_close s1)
           | Some s2 \<Rightarrow> apfst (Cons (hx_response s1)) (session_run haveBuckets s2 rounds)))"

definition HttpSession_start :: "bool \<Rightarrow> http_round list \<Rightarrow> http_response list \<times> HttpSession" where
  "HttpSession_start haveBuckets rounds = session_run haveBuckets (awaitHttpRequest HttpSession_new) rounds"

section \<open>What a session sends\<close>

text \<open>Status, type and text that a request should be answered with.\<close>

definition http_page :: "bool \<Rightarrow> http_request \<times> Statistics \<Rightarrow> nat \<times> string \<times> string" where
  "http_page haveBuckets = (\<lambda>(request, st).
     if \<not> rq_isGet request then (400, ''text/html'', ''Invalid method.'')
     else if \<not> (\<exists>rest. rq_target request = CHR ''/'' # rest) then (400, ''text/html'', ''Invalid path.'')
     else if rq_target request = ''/'' then (200, ''text/html'', welcome_page)
     else if rq_target request = ''/metrics'' then (200, ''plain/text'', prometheusMetrics haveBuckets st)
     else (404, ''text/html'', ''Invalid path''))"

text \<open>The requests that are answered: up to the first that is not kept alive, not readable or not answerable.\<close>

fun answered :: "http_round list \<Rightarrow> (http_request \<times> Statistics) list" where
  "answered [] = []"
| "answered ((ReadRequest request, st, ok) # rounds) =
     (request, st) # (if ok \<and> rq_keep_alive request then answered rounds else [])"
| "answered ((_, st, ok) # rounds) = []"

fun replies :: "bool \<Rightarrow> string \<Rightarrow> (http_request \<times> Statistics) list \<Rightarrow> http_response list" where
  "replies haveBuckets before [] = []"
| "replies haveBuckets before (r # rs) =
     (case http_page haveBuckets r of (status, type', text') \<Rightarrow>
        \<lparr>http_status = status, http_type = type', http_keep_alive = rq_keep_alive (fst r), http_body = before @ text',
         http_content_length = length (before @ text')\<rparr> # replies haveBuckets (before @ text') rs)"

lemma handleRequest_page:
  "hx_response (handleRequest haveBuckets st s) =
     (case http_page haveBuckets (hx_request s, st) of (status, type', text') \<Rightarrow>
        \<lparr>http_status = status, http_type = type', http_keep_alive = rq_keep_alive (hx_request s),
         http_body = http_body (hx_response s) @ text', http_content_length = length (http_body (hx_response s) @ text')\<rparr>)"
  "hx_request (handleRequest haveBuckets st s) = hx_request s"
  by (auto simp: handleRequest_def http_page_def Let_def prepareError_def prepareHtmlReply_def prepareMetricsReply_def
      prepareReply_def handleHttpWrite_def neq_Nil_conv)

lemma session_run_replies:
  "fst (session_run haveBuckets s rounds) = replies haveBuckets (http_body (hx_response s)) (answered rounds)"
proof (induction rounds arbitrary: s rule: answered.induct)
  case (2 request st ok rounds)
  then show ?case
    by (auto simp: HttpSession_on_read_def HttpSession_on_write_def awaitHttpRequest_def handleRequest_page
        split: prod.splits)
qed (simp_all add: HttpSession_on_read_def)

text \<open>The reply to request \<open>i\<close> of those that are answered.\<close>

definition reply_to :: "bool \<Rightarrow> string \<Rightarrow> (http_request \<times> Statistics) list \<Rightarrow> nat \<Rightarrow> http_response" where
  "reply_to haveBuckets before rs i =
     (let body = before @ concat (map (\<lambda>r. snd (snd (http_page haveBuckets r))) (take (Suc i) rs)) in
      \<lparr>http_status = fst (http_page haveBuckets (rs ! i)), http_type = fst (snd (http_page haveBuckets (rs ! i))),
       http_keep_alive = rq_keep_alive (fst (rs ! i)), http_body = body, http_content_length = length body\<rparr>)"

lemma replies_reply_to: "replies haveBuckets before rs = map (reply_to haveBuckets before rs) [0..<length rs]"
proof (induction rs arbitrary: before)
  case (Cons r rs)
  have "map (reply_to haveBuckets before (r # rs)) [0..<length (r # rs)] =
      reply_to haveBuckets before (r # rs) 0 # map (\<lambda>i. reply_to haveBuckets before (r # rs) (Suc i)) [0..<length rs]"
    by (simp add: upt_conv_Cons map_Suc_upt [symmetric] comp_def del: upt_Suc)
  moreover have "replies haveBuckets before (r # rs) =
      reply_to haveBuckets before (r # rs) 0 # map (\<lambda>i. reply_to haveBuckets before (r # rs) (Suc i)) [0..<length rs]"
    by (auto simp: Cons.IH reply_to_def Let_def split: prod.splits)
  ultimately show ?case by (simp only:)
qed simp

fun kept_alive :: "http_read \<Rightarrow> bool" where
  "kept_alive (ReadRequest request) = rq_keep_alive request"
| "kept_alive _ = False"

lemma session_run_open:
  "hx_open s \<Longrightarrow> hx_open (snd (session_run haveBuckets s rounds)) \<longleftrightarrow>
     list_all (\<lambda>(ev, st, ok). kept_alive ev \<and> ok) rounds"
proof (induction rounds arbitrary: s rule: answered.induct)
  case (2 request st ok rounds)
  let ?s1 = "handleRequest haveBuckets st (s\<lparr>hx_request := request\<rparr>)"
  have "hx_open ?s1 = hx_open s"
    by (simp add: handleRequest_def Let_def prepareError_def prepareHtmlReply_def prepareMetricsReply_def
        prepareReply_def handleHttpWrite_def)
  with 2 show ?case
    by (auto simp: HttpSession_on_read_def HttpSession_on_write_def awaitHttpRequest_def handleRequest_page
        HttpSession_close_def)
qed (simp_all add: HttpSession_on_read_def HttpSession_close_def)

text \<open>
  C35. A whole session of the web server. The requests that are answered are those up to the first that is not
  kept alive or whose reply cannot be written; the connection stays open exactly if every round so far was a
  request kept alive whose reply was written. The reply to each has the status and type that the
  request calls for and its length is announced correctly, but its body is only right for the first: the response object
  is reused and never emptied, so the body of a later reply consists of the texts of all
  requests so far.
\<close>

theorem http_session_replies:
  "fst (HttpSession_start haveBuckets rounds) =
     map (\<lambda>i. let rs = answered rounds; (status, type', text') = http_page haveBuckets (rs ! i);
                  body = concat (map (\<lambda>r. snd (snd (http_page haveBuckets r))) (take (Suc i) rs))
              in \<lparr>http_status = status, http_type = type', http_keep_alive = rq_keep_alive (fst (rs ! i)),
                  http_body = body, http_content_length = length body\<rparr>) [0..<length (answered rounds)] \<and>
   (hx_open (snd (HttpSession_start haveBuckets rounds)) \<longleftrightarrow> list_all (\<lambda>(ev, st, ok). kept_alive ev \<and> ok) rounds)"
proof
  have "fst (HttpSession_start haveBuckets rounds) = replies haveBuckets [] (answered rounds)"
    by (simp add: HttpSession_start_def session_run_replies awaitHttpRequest_def HttpSession_new_def)
  then show "fst (HttpSession_start haveBuckets rounds) =
     map (\<lambda>i. let rs = answered rounds; (status, type', text') = http_page haveBuckets (rs ! i);
                  body = concat (map (\<lambda>r. snd (snd (http_page haveBuckets r))) (take (Suc i) rs))
              in \<lparr>http_status = status, http_type = type', http_keep_alive = rq_keep_alive (fst (rs ! i)),
                  http_body = body, http_content_length = length body\<rparr>) [0..<length (answered rounds)]"
    by (simp add: replies_reply_to reply_to_def Let_def split_beta)
  show "hx_open (snd (HttpSession_start haveBuckets rounds)) \<longleftrightarrow> list_all (\<lambda>(ev, st, ok). kept_alive ev \<and> ok) rounds"
    unfolding HttpSession_start_def by (rule session_run_open) (simp add: awaitHttpRequest_def HttpSession_new_def)
qed

end
