(* ===== verification/Command_Line.thy ===== *)
theory Command_Line
  imports Metadata_Client
begin

text \<open>
  \<^verbatim>\<open>src/geds_cmd/main.cpp\<close>, the command line client of the metadata server: one operation per run, chosen by a flag. A
  flag has a value and was given on the command line or not. The result is the exit code and the
  lines written to the two output streams.
\<close>

section \<open>Flags\<close>

datatype Operation = Op_CreateBucket | Op_DeleteBucket | Op_Create | Op_Update | Op_Delete | Op_List

definition AbslParseFlag :: "string \<Rightarrow> Operation option" where
  "AbslParseFlag text' =
     (if text' = ''cb'' \<or> text' = ''CreateBucket'' then Some Op_CreateBucket
      else if text' = ''db'' \<or> text' = ''DeleteBucket'' then Some Op_DeleteBucket
      else if text' = ''c'' \<or> text' = ''Create'' then Some Op_Create
      else if text' = ''u'' \<or> text' = ''Update'' then Some Op_Update
      else if text' = ''d'' \<or> text' = ''Delete'' then Some Op_Delete
      else if text' = ''l'' \<or> text' = ''List'' then Some Op_List
      else None)"

fun AbslUnparseFlag :: "Operation \<Rightarrow> string" where
  "AbslUnparseFlag Op_CreateBucket = ''CreateBucket''"
| "AbslUnparseFlag Op_DeleteBucket = ''DeleteBucket''"
| "AbslUnparseFlag Op_Create = ''Create''"
| "AbslUnparseFlag Op_Update = ''Update''"
| "AbslUnparseFlag Op_Delete = ''Delete''"
| "AbslUnparseFlag Op_List = ''List''"

record 'a cmd_flag =
  fl_value :: 'a
  fl_given :: bool

record cmd_flags =
  cf_serverAddress :: string
  cf_serverPort :: string
  cf_operation :: "Operation cmd_flag"
  cf_bucket :: "string cmd_flag"
  cf_key :: "string cmd_flag"
  cf_location :: "string cmd_flag"
  cf_size :: u64
  cf_sealedOffset :: u64

record cmd_result =
  cr_code :: nat
  cr_out :: "string list"
  cr_err :: "string list"

section \<open>The program\<close>

text \<open>The first flag an operation needs and that was not given, as the message about it.\<close>

fun missing_flag :: "Operation \<Rightarrow> cmd_flags \<Rightarrow> string option" where
  "missing_flag operation f =
     (if \<not> fl_given (cf_bucket f) then Some ''No bucket is specified.''
      else if operation \<in> {Op_Create, Op_Update, Op_Delete, Op_List} \<and> \<not> fl_given (cf_key f)
      then Some ''No key is specified.''
      else if operation \<in> {Op_Create, Op_Update} \<and> \<not> fl_given (cf_location f)
      then Some ''No location is specified.''
      else None)"

text \<open>
  The location of a created or updated object is taken from the flag of the key. An update stores a fixed text as
  metadata.
\<close>

definition cmd_object :: "cmd_flags \<Rightarrow> string option \<Rightarrow> Object" where
  "cmd_object f metadata =
     mk_Object (fl_value (cf_bucket f)) (fl_value (cf_key f))
       \<lparr>info_location = fl_value (cf_key f), info_size = cf_size f, info_sealedOffset = cf_sealedOffset f,
        info_metadata = metadata\<rparr>"

definition print_object :: "Object \<Rightarrow> string" where
  "print_object obj =
     obj_bucket obj @ ''/'' @ obj_key obj @ '': '' @ info_location (obj_info obj) @ '' (size: '' @
     show_nat (unat (info_size (obj_info obj))) @ '', sealed offset: '' @
     show_nat (unat (info_sealedOffset (obj_info obj))) @ '')''"

text \<open>One operation: its status, and what it prints to both streams.\<close>

fun cmd_operation where
  "cmd_operation stub Op_CreateBucket f st =
     (case MetadataService_createBucket stub (fl_value (cf_bucket f)) st of (r, st') \<Rightarrow> ((r, [], []), st'))"
| "cmd_operation stub Op_DeleteBucket f st =
     (case MetadataService_deleteBucket stub (fl_value (cf_bucket f)) st of (r, st') \<Rightarrow> ((r, [], []), st'))"
| "cmd_operation stub Op_Create f st =
     (case MetadataService_createObject stub (cmd_object f None) st of (r, st') \<Rightarrow> ((r, [], []), st'))"
| "cmd_operation stub Op_Update f st =
     (case MetadataService_updateObject stub (cmd_object f (Some ''Hello world'')) st of (r, st') \<Rightarrow> ((r, [], []), st'))"
| "cmd_operation stub Op_Delete f st =
     (case MetadataService_deleteObject_id stub (mk_ObjectID (fl_value (cf_bucket f)) (fl_value (cf_key f))) st of
        (r, st') \<Rightarrow> ((r, [], []), st'))"
| "cmd_operation stub Op_List f st =
     (case MetadataService_listPrefix_id stub (mk_ObjectID (fl_value (cf_bucket f)) (fl_value (cf_key f))) st of
        (Inr objs, st') \<Rightarrow> ((OkStatus, map print_object objs, []), st')
      | (Inl r, st') \<Rightarrow> ((r, [], [''Unable to query metadata server: '' @ status_message r]), st'))"

definition cmd_main where
  "cmd_main stub channel uuid f s =
     (if \<not> fl_given (cf_operation f)
      then (\<lparr>cr_code = 1, cr_out = [], cr_err = [''No operation is specified.'']\<rparr>, s)
      else
        let name = AbslUnparseFlag (fl_value (cf_operation f)) in
        case AbslParseFlag name of
          None \<Rightarrow> (\<lparr>cr_code = 1, cr_out = [], cr_err = [''Unknown value.'']\<rparr>, s)
        | Some operation \<Rightarrow>
            let serverAddress = cf_serverAddress f @ '':'' @ cf_serverPort f;
                hello = ''Connecting to '' @ serverAddress
            in case MetadataService_connect channel (MetadataService_new uuid serverAddress) of
                 (result, c) \<Rightarrow>
                   if \<not> status_ok result
                   then (\<lparr>cr_code = 1, cr_out = [hello],
                          cr_err = [''Error connecting to '' @ serverAddress @ '': '' @ status_message result]\<rparr>, s)
                   else case missing_flag operation f of
                       Some message \<Rightarrow> (\<lparr>cr_code = 1, cr_out = [hello], cr_err = [message]\<rparr>, s)
                     | None \<Rightarrow>
                         (case cmd_operation stub operation f (c, s) of
                            ((operationResult, out, err), (c', s')) \<Rightarrow>
                              if \<not> status_ok operationResult
                              then (\<lparr>cr_code = 1, cr_out = hello # out,
                                     cr_err = err @ [name @ '': '' @ status_message operationResult]\<rparr>, s')
                              else (\<lparr>cr_code = 0, cr_out = hello # out @ [name @ '': Success''], cr_err = err\<rparr>, s')))"

section \<open>Results\<close>

lemma parse_unparse [simp]: "AbslParseFlag (AbslUnparseFlag operation) = Some operation"
  by (cases operation) (simp_all add: AbslParseFlag_def)

text \<open>The operation of the store that a command stands for. Both objects have the key as their location.\<close>

fun cmd_step :: "Operation \<Rightarrow> cmd_flags \<Rightarrow> kvs_op" where
  "cmd_step Op_CreateBucket f = CreateBucket (fl_value (cf_bucket f))"
| "cmd_step Op_DeleteBucket f = DeleteBucket (fl_value (cf_bucket f))"
| "cmd_step Op_Create f =
     CreateObject (mk_Object (fl_value (cf_bucket f)) (fl_value (cf_key f))
       \<lparr>info_location = fl_value (cf_key f), info_size = cf_size f, info_sealedOffset = cf_sealedOffset f,
        info_metadata = None\<rparr>) False"
| "cmd_step Op_Update f =
     UpdateObject (mk_Object (fl_value (cf_bucket f)) (fl_value (cf_key f))
       \<lparr>info_location = fl_value (cf_key f), info_size = cf_size f, info_sealedOffset = cf_sealedOffset f,
        info_metadata = Some ''Hello world''\<rparr>)"
| "cmd_step Op_Delete f = DeleteObject (fl_value (cf_bucket f)) (fl_value (cf_key f))"
| "cmd_step Op_List f = ListObjects (fl_value (cf_bucket f)) (fl_value (cf_key f)) CHR 0x00"

fun result_ok :: "kvs_result \<Rightarrow> bool" where
  "result_ok (RStatus st) = status_ok st"
| "result_ok (RListing (Inr _)) = True"
| "result_ok (RListing (Inl st)) = status_ok st"
| "result_ok _ = True"

fun result_lines :: "kvs_result \<Rightarrow> string list" where
  "result_lines (RListing (Inr (objs, _))) = map print_object objs"
| "result_lines _ = []"

lemma apfst_RStatusD: "apfst RStatus x = (r, y) \<Longrightarrow> \<exists>st. x = (st, y) \<and> r = RStatus st"
  by (cases x) simp

lemma cmd_operation_step:
  assumes "client_step stub (cmd_step operation f) (c, s) = (r, c', s')" "ms_connectionState c = Connected"
  obtains st err where "cmd_operation stub operation f (c, s) = ((st, result_lines r, err), (c', s'))"
    "status_ok st \<longleftrightarrow> result_ok r"
proof (cases "operation = Op_List")
  case True
  let ?call = "MetadataService_listPrefix_delim stub (fl_value (cf_bucket f)) (fl_value (cf_key f)) CHR 0x00 (c, s)"
  obtain a where a: "?call = (a, c', s')" "r = RListing a" using assms(1) True by (cases ?call) auto
  have "cmd_operation stub operation f (c, s) =
      ((case a of Inr x \<Rightarrow> OkStatus | Inl e \<Rightarrow> e, result_lines r,
        case a of Inr x \<Rightarrow> [] | Inl e \<Rightarrow> [''Unable to query metadata server: '' @ status_message e]), (c', s'))"
    using a True
    by (auto simp: MetadataService_listPrefix_id_def MetadataService_listPrefix_def mk_ObjectID_def split: sum.splits)
  then show thesis by (rule that) (auto simp: a(2) split: sum.splits)
next
  case False
  with assms that show thesis
    by (cases operation) (auto simp: MetadataService_deleteObject_id_def mk_ObjectID_def cmd_object_def dest!: apfst_RStatusD)
qed

text \<open>
  C32. A run of the command line client against the metadata server. With the operation and the flags it needs given,
  the run is exactly one step of the abstract store: it succeeds exactly if the step does, prints one line
  for every object listed, and the contents of the server afterwards are those of the step. For
  \<open>Create\<close> and \<open>Update\<close> the step stores the key as the location of the object; the flag for
  the location must be given but its value is never used. Without an operation, without a bucket, without a key for an
  operation on objects, or without a location for \<open>Create\<close> and \<open>Update\<close> the run says which flag it misses, fails and
  changes nothing.
\<close>

theorem cmd_main_step:
  assumes "server_inv s" "cmd_main (server_stub peer reg) ChannelReady uuid f s = (res, s')"
  shows "let operation = fl_value (cf_operation f); fails = (\<lambda>message. cr_code res = 1 \<and> cr_err res = [message] \<and> s' = s) in
      if \<not> fl_given (cf_operation f) then fails ''No operation is specified.''
      else if \<not> fl_given (cf_bucket f) then fails ''No bucket is specified.''
      else if operation \<notin> {Op_CreateBucket, Op_DeleteBucket} \<and> \<not> fl_given (cf_key f) then fails ''No key is specified.''
      else if operation \<in> {Op_Create, Op_Update} \<and> \<not> fl_given (cf_location f) then fails ''No location is specified.''
      else
        let step = spec_kvs_step (cmd_step operation f) (kvs_abs (srv_kvs s))
        in (cr_code res = 0 \<longleftrightarrow> result_ok (fst step)) \<and> kvs_abs (srv_kvs s') = snd step \<and> server_inv s' \<and>
           (cr_code res = 0 \<longrightarrow> cr_out res =
             [''Connecting to '' @ cf_serverAddress f @ '':'' @ cf_serverPort f] @ result_lines (fst step) @
             [AbslUnparseFlag operation @ '': Success''])"
proof (cases "fl_given (cf_operation f)")
  case False
  with assms(2) show ?thesis by (auto simp: cmd_main_def)
next
  case given: True
  let ?addr = "cf_serverAddress f @ '':'' @ cf_serverPort f" and ?op = "fl_value (cf_operation f)"
  define c where "c = (MetadataService_new uuid ?addr)\<lparr>ms_connectionState := Connected\<rparr>"
  have conn: "MetadataService_connect ChannelReady (MetadataService_new uuid ?addr) = (OkStatus, c)"
    by (simp add: c_def MetadataService_connect_def MetadataService_new_def)
  have coh: "coherent (\<lambda>s. kvs_abs (srv_kvs s)) (c, s)"
    using kvs_inv_new [of None]
    by (simp add: c_def coherent_def MetadataService_new_def submap_def entry_def kvs_abs_def MDSKVS_new_def)
  have safe: "cache_safe (cmd_step ?op f) (ms_mdsCache c)"
    by (cases ?op) (simp_all add: c_def MetadataService_new_def MDSKVS_new_def MDSKVS_lookup_def MDSKVS_getBucket_def)
  obtain r c2 s2 where st: "client_step (server_stub peer reg) (cmd_step ?op f) (c, s) = (r, c2, s2)"
    by (metis prod.exhaust)
  have "srv.transparent peer reg (cmd_step ?op f) (c, s)"
    using coh safe assms(1) by (intro srv.step_transparent) simp_all
  then have spec: "spec_kvs_step (cmd_step ?op f) (kvs_abs (srv_kvs s)) = (r, kvs_abs (srv_kvs s2))" "server_inv s2"
    by (simp_all add: srv.transparent_def st del: client_step.simps spec_kvs_step.simps)
  have "ms_connectionState c = Connected" by (simp add: c_def)
  with st obtain st' err where op: "cmd_operation (server_stub peer reg) ?op f (c, s) = ((st', result_lines r, err), (c2, s2))"
    "status_ok st' \<longleftrightarrow> result_ok r"
    by (rule cmd_operation_step)
  have missing: "missing_flag ?op f =
      (if \<not> fl_given (cf_bucket f) then Some ''No bucket is specified.''
       else if ?op \<notin> {Op_CreateBucket, Op_DeleteBucket} \<and> \<not> fl_given (cf_key f) then Some ''No key is specified.''
       else if ?op \<in> {Op_Create, Op_Update} \<and> \<not> fl_given (cf_location f) then Some ''No location is specified.'' else None)"
    by (cases ?op) simp_all
  show ?thesis
  proof (cases "missing_flag ?op f")
    case None
    then have flags: "fl_given (cf_bucket f)" "\<not> (?op \<notin> {Op_CreateBucket, Op_DeleteBucket} \<and> \<not> fl_given (cf_key f))"
        "\<not> (?op \<in> {Op_Create, Op_Update} \<and> \<not> fl_given (cf_location f))"
      unfolding missing by (auto split: if_splits)
    have "(cr_code res = 0 \<longleftrightarrow> result_ok r) \<and> s' = s2 \<and>
        (cr_code res = 0 \<longrightarrow> cr_out res = [''Connecting to '' @ ?addr] @ result_lines r @ [AbslUnparseFlag ?op @ '': Success''])"
      using given assms(2) conn op None
      by (auto simp: cmd_main_def Let_def simp del: missing_flag.simps cmd_operation.simps split: if_splits)
    then show ?thesis unfolding Let_def spec(1) using given flags spec(2) by (simp only: if_False if_True not_True_eq_False fst_conv snd_conv) simp
  next
    case (Some message)
    then have "cr_code res = 1 \<and> cr_err res = [message] \<and> s' = s"
      using given assms(2) conn by (auto simp: cmd_main_def Let_def simp del: missing_flag.simps)
    moreover note given
    ultimately show ?thesis using Some unfolding Let_def missing
      by (cases "fl_given (cf_bucket f)"; cases "?op \<notin> {Op_CreateBucket, Op_DeleteBucket} \<and> \<not> fl_given (cf_key f)";
          cases "?op \<in> {Op_Create, Op_Update} \<and> \<not> fl_given (cf_location f)")
        (simp_all only: if_False if_True not_True_eq_False not_False_eq_True option.inject option.distinct simp_thms)
  qed
qed

definition sample_flags :: cmd_flags where
  "sample_flags = \<lparr>cf_serverAddress = ''localhost'', cf_serverPort = ''4381'', cf_operation = \<lparr>fl_value = Op_CreateBucket, fl_given = True\<rparr>,
     cf_bucket = \<lparr>fl_value = ''bkt'', fl_given = True\<rparr>, cf_key = \<lparr>fl_value = ''defaultKey'', fl_given = False\<rparr>,
     cf_location = \<lparr>fl_value = ''location'', fl_given = False\<rparr>, cf_size = 0, cf_sealedOffset = 0\<rparr>"

theorem cmd_main_step_witness:
  "\<exists>res s'. cmd_main (server_stub ''p'' unimplemented) ChannelReady ''u'' sample_flags (MetadataServiceImpl_new None) = (res, s') \<and>
     cr_code res = 0 \<and> kvs_abs (srv_kvs s') ''bkt'' = Some Map.empty"
proof -
  obtain res s' where r: "cmd_main (server_stub ''p'' unimplemented) ChannelReady ''u'' sample_flags
      (MetadataServiceImpl_new None) = (res, s')"
    by fastforce
  have f: "fl_given (cf_operation sample_flags)" "fl_given (cf_bucket sample_flags)" "fl_value (cf_operation sample_flags) = Op_CreateBucket"
    "cmd_step Op_CreateBucket sample_flags = CreateBucket ''bkt''"
    by (simp_all add: sample_flags_def)
  have "kvs_abs (srv_kvs (MetadataServiceImpl_new None)) = Map.empty"
    by (simp add: MetadataServiceImpl_new_def MDSKVS_new_def kvs_abs_def fun_eq_iff)
  with cmd_main_step [OF server_inv_new r] f show ?thesis
    by (intro exI [of _ res] exI [of _ s']) (simp add: r Let_def)
qed

text \<open>Whatever location is given, the run is the same.\<close>

theorem cmd_location_ignored:
  "cmd_main stub channel uuid (f\<lparr>cf_location := (cf_location f)\<lparr>fl_value := location\<rparr>\<rparr>) s = cmd_main stub channel uuid f s"
proof -
  let ?f = "f\<lparr>cf_location := (cf_location f)\<lparr>fl_value := location\<rparr>\<rparr>"
  have "cmd_operation stub operation ?f st = cmd_operation stub operation f st" for operation st
    by (cases operation) (simp_all add: cmd_object_def)
  moreover have "missing_flag operation ?f = missing_flag operation f" for operation by simp
  ultimately show ?thesis
    by (simp add: cmd_main_def Let_def cong: option.case_cong prod.case_cong if_cong
        del: cmd_operation.simps missing_flag.simps)
qed

end
