(* ===== verification/Typed_IO.thy ===== *)
theory Typed_IO
  imports Relocatable_Handle
begin

text \<open>
  The public face of an open file, \<^verbatim>\<open>src/libgeds/GEDSFile.{h,cpp}\<close>: the methods that pass on to the handle, and
  the templates that read and write arrays and vectors of a trivially copyable type. An element
  has \<open>sizeT\<close> bytes, a vector is the list of its bytes. All index arithmetic is on 64 bits and wraps.
\<close>

section \<open>Methods that pass on\<close>

definition GEDSFile_size :: "('h, 'w) handle_methods \<Rightarrow> 'h \<Rightarrow> 'w \<Rightarrow> size_t" where
  "GEDSFile_size v fileHandle w = (case v_size v fileHandle w of Inl _ \<Rightarrow> 0 | Inr n \<Rightarrow> n)"

definition GEDSFile_isWriteable where
  "GEDSFile_isWriteable v fileHandle w = v_isWriteable v fileHandle w"

definition GEDSFile_metadata where
  "GEDSFile_metadata v fileHandle w = v_metadata v fileHandle w"

definition GEDSFile_setMetadata where
  "GEDSFile_setMetadata v fileHandle metadata seal w = v_setMetadata v fileHandle metadata seal w"

definition GEDSFile_readBytes where
  "GEDSFile_readBytes v fileHandle position length' w = v_readBytes v fileHandle position length' w"

definition GEDSFile_writeBytes where
  "GEDSFile_writeBytes v fileHandle bytes position w = v_writeBytes v fileHandle bytes position w"

definition GEDSFile_rawFd where
  "GEDSFile_rawFd v fileHandle w = v_rawFd v fileHandle w"

definition GEDSFile_seal where
  "GEDSFile_seal v fileHandle w = v_seal v fileHandle w"

definition GEDSFile_truncate where
  "GEDSFile_truncate v fileHandle size' w = v_truncate v fileHandle size' w"

text \<open>Two files are equal when they name the same object.\<close>

definition GEDSFile_equal :: "'a FileHandle_scheme \<Rightarrow> 'b FileHandle_scheme \<Rightarrow> bool" where
  "GEDSFile_equal a b \<longleftrightarrow> fh_bucket a = fh_bucket b \<and> fh_key a = fh_key b"

section \<open>Arrays\<close>

definition typed_read where
  "typed_read sizeT rd position length' w =
     (let lengthBytes = wrap64 (length' * sizeT); positionBytes = wrap64 (position * sizeT)
      in case rd positionBytes lengthBytes w of
           (Inl s, w') \<Rightarrow> (Inl s, w')
         | (Inr (n, bytes), w') \<Rightarrow> (Inr (n div sizeT, bytes), w'))"

text \<open>The array \<open>buffer\<close> is given by all bytes from the pointer on; \<^const>\<open>None\<close> is an access behind them.\<close>

definition typed_write where
  "typed_write sizeT wr buffer position length' w =
     (let positionBytes = wrap64 (position * sizeT); lengthBytes = wrap64 (length' * sizeT)
      in if lengthBytes > length buffer then None else Some (wr (take lengthBytes buffer) positionBytes w))"

section \<open>Vectors\<close>

definition vec_size :: "nat \<Rightarrow> byte list \<Rightarrow> size_t" where
  "vec_size sizeT buffer = length buffer div sizeT"

definition vec_resize :: "nat \<Rightarrow> size_t \<Rightarrow> byte list \<Rightarrow> byte list" where
  "vec_resize sizeT n buffer = file_truncate (n * sizeT) buffer"

text \<open>
  Reading into a vector at element \<open>offset\<close>: the vector grows to hold the requested range, and shrinks
  to the range that was read only if that ends behind its original size.
\<close>

definition typed_read_vector where
  "typed_read_vector sizeT rd buffer offset position length' w =
     (let requiredLength = wrap64 (offset + length');
          prevBufferSize = vec_size sizeT buffer;
          buffer1 = (if prevBufferSize < requiredLength then vec_resize sizeT requiredLength buffer else buffer)
      in case typed_read sizeT rd position length' w of
           (Inl s, w') \<Rightarrow> Some (Inl s, buffer1, w')
         | (Inr (readLength, bytes), w') \<Rightarrow>
             if offset * sizeT + length bytes > length buffer1 then None
             else
               let buffer2 = file_write (offset * sizeT) bytes buffer1;
                   total = wrap64 (offset + readLength)
               in Some (Inr readLength,
                    if prevBufferSize < total then vec_resize sizeT total buffer2 else buffer2, w'))"

definition typed_write_vector where
  "typed_write_vector sizeT wr buffer offset position length' w =
     (if offset > vec_size sizeT buffer
      then Some (FailedPreconditionError ''Offset is bigger than buffer.'', w)
      else if wrap64 (offset + length') > vec_size sizeT buffer
      then Some (FailedPreconditionError ''Invalid length!'', w)
      else typed_write sizeT wr (drop (offset * sizeT) buffer) position length' w)"

text \<open>The overloads without an offset.\<close>

definition typed_read_vector_start where
  "typed_read_vector_start sizeT rd buffer position length' w = typed_read_vector sizeT rd buffer 0 position length' w"

definition typed_write_vector_start where
  "typed_write_vector_start sizeT wr buffer position length' w = typed_write_vector sizeT wr buffer 0 position length' w"

text \<open>Metadata from an array or a vector: the string of its bytes.\<close>

definition typed_setMetadata where
  "typed_setMetadata sizeT v fileHandle buffer length' seal w =
     (let l = wrap64 (length' * sizeT)
      in if l > length buffer then None
         else Some (GEDSFile_setMetadata v fileHandle (Some (map (\<lambda>b. char_of (unat b)) (take l buffer))) seal w))"

definition typed_setMetadata_vector where
  "typed_setMetadata_vector sizeT v fileHandle buffer seal w =
     typed_setMetadata sizeT v fileHandle buffer (vec_size sizeT buffer) seal w"

section \<open>Bounds\<close>

lemma typed_setMetadata_vector_exact:
  fixes buffer :: "byte list"
  assumes "0 < sizeT" "sizeT dvd length buffer" "length buffer < 2 ^ 64"
  shows "typed_setMetadata_vector sizeT v fileHandle buffer seal w =
    Some (GEDSFile_setMetadata v fileHandle (Some (map (\<lambda>b. char_of (unat b)) buffer)) seal w)"
  using assms by (simp add: typed_setMetadata_vector_def typed_setMetadata_def vec_size_def Let_def)

lemma vec_bytes: "n * sizeT \<le> length buffer \<longleftrightarrow> n \<le> vec_size sizeT buffer" if "0 < sizeT"
  using that by (simp add: vec_size_def less_eq_div_iff_mult_less_eq)

text \<open>
  The range check of a vector write. Without overflow of \<open>offset + length\<close> and of the byte count the call is
  safe: it is refused exactly if the range does not lie in the vector, and otherwise hands exactly the
  elements of the range to the file. But the sum in the check wraps: with \<open>offset + length\<close> between \<open>2 ^ 64\<close>
  and \<open>2 ^ 64\<close> plus the size, the check passes for single bytes and the call reads behind
  the end of the vector.
\<close>

theorem typed_write_vector_bounds:
  assumes "0 < sizeT" "length buffer < 2 ^ 63" "length' < 2 ^ 64" "offset \<le> vec_size sizeT buffer"
  shows "(offset + length' < 2 ^ 64 \<longrightarrow>
      typed_write_vector sizeT wr buffer offset position length' w =
       (if offset + length' \<le> vec_size sizeT buffer
        then Some (wr (take (length' * sizeT) (drop (offset * sizeT) buffer)) (wrap64 (position * sizeT)) w)
        else Some (FailedPreconditionError ''Invalid length!'', w))) \<and>
    (sizeT = 1 \<and> 2 ^ 64 \<le> offset + length' \<longrightarrow>
      typed_write_vector sizeT wr buffer offset position length' w = None)"
proof (intro conjI impI)
  assume small: "offset + length' < 2 ^ 64"
  show "typed_write_vector sizeT wr buffer offset position length' w =
       (if offset + length' \<le> vec_size sizeT buffer
        then Some (wr (take (length' * sizeT) (drop (offset * sizeT) buffer)) (wrap64 (position * sizeT)) w)
        else Some (FailedPreconditionError ''Invalid length!'', w))"
  proof (cases "offset + length' \<le> vec_size sizeT buffer")
    case True
    then have "offset * sizeT + length' * sizeT \<le> length buffer"
      using vec_bytes [OF assms(1), of "offset + length'" buffer] by (simp add: add_mult_distrib)
    moreover from this have "wrap64 (length' * sizeT) = length' * sizeT"
      using assms(2) by (intro wrap64_id) simp
    ultimately show ?thesis using small True assms(4)
      by (simp add: typed_write_vector_def typed_write_def Let_def)
  qed (use small assms(4) in \<open>simp add: typed_write_vector_def\<close>)
next
  assume wrap: "sizeT = 1 \<and> 2 ^ 64 \<le> offset + length'"
  have "offset \<le> length buffer" using assms(4) wrap by (simp add: vec_size_def)
  moreover have "18446744073709551616 \<le> offset + length'" "length buffer < 9223372036854775808"
    "length' < 18446744073709551616" using wrap assms(2,3) by simp_all
  ultimately have "wrap64 (offset + length') \<le> length buffer" "length buffer - offset < length'"
    by (auto simp: wrap64_def mod_if)
  then show "typed_write_vector sizeT wr buffer offset position length' w = None"
    using wrap assms(3,4) by (simp add: typed_write_vector_def typed_write_def vec_size_def Let_def)
qed

theorem typed_write_vector_bounds_witness:
  "typed_write_vector 1 (\<lambda>bs p (w :: unit). (OkStatus, w)) [5, 6] 1 0 (2 ^ 64 - 1) () = None"
  using typed_write_vector_bounds [of 1 "[5, 6]" "2 ^ 64 - 1" 1] by (simp add: vec_size_def)

section \<open>Round trip\<close>

context file_backend
begin

lemma typed_write_then_read:
  assumes "inv f" "0 < sizeT" "offset + n \<le> vec_size sizeT buffer" "length buffer < 2 ^ 62"
    and "position * sizeT + length buffer \<le> INT64_MAX - 4096"
  obtains f' where "typed_write_vector sizeT (\<lambda>bs p f. writer f bs p) buffer offset position n f = Some (OkStatus, f')"
    "fst (typed_read sizeT (\<lambda>p n f. reader f p n) position n f') =
       Inr (n, take (n * sizeT) (drop (offset * sizeT) buffer))"
proof -
  let ?bs = "take (n * sizeT) (drop (offset * sizeT) buffer)" and ?p = "position * sizeT"
  have range': "offset * sizeT + n * sizeT \<le> length buffer"
    using vec_bytes [OF assms(2), of "offset + n" buffer] assms(3) by (simp add: add_mult_distrib)
  then have len: "length ?bs = n * sizeT" by simp
  have p: "?p + length ?bs \<le> INT64_MAX - 4096" using assms(5) len range' by linarith
  have w: "wrap64 ?p = ?p" "wrap64 (n * sizeT) = n * sizeT" "wrap64 (offset + n) = offset + n"
  proof -
    have "offset + n \<le> length buffer" using assms(3) by (simp add: vec_size_def le_trans)
    with assms(4,5) len range' show "wrap64 ?p = ?p" "wrap64 (n * sizeT) = n * sizeT" "wrap64 (offset + n) = offset + n"
      by (simp_all add: INT64_MAX_def)
  qed
  obtain st f' where f': "writer f ?bs ?p = (st, f')" by fastforce
  have "st = OkStatus" using write_law [OF assms(1) p] f' by simp
  moreover have "n * sizeT \<le> length buffer - offset * sizeT" using range' by linarith
  ultimately have "typed_write_vector sizeT (\<lambda>bs p f. writer f bs p) buffer offset position n f = Some (OkStatus, f')"
    using assms(3) w f' by (simp add: typed_write_vector_def typed_write_def Let_def)
  moreover have "fst (reader f' ?p (n * sizeT)) = Inr (n * sizeT, ?bs)"
    using read_after_write [OF assms(1) p] f' len by simp
  then have "fst (typed_read sizeT (\<lambda>p n f. reader f p n) position n f') = Inr (n, ?bs)"
    using w assms(2) by (cases "reader f' ?p (n * sizeT)") (simp add: typed_read_def Let_def)
  ultimately show thesis by (rule that)
qed

end

text \<open>
  Elements written from a vector come back: writing a range of a vector to a local file at an element
  position succeeds, and reading as many elements from that position returns their number and the
  same bytes, for elements of any size and whatever calls of the system are interrupted or
  transfer only a part.
\<close>

theorem typed_roundtrip:
  assumes "lf_inv f" "io_ok script" "0 < sizeT" "offset + n \<le> vec_size sizeT buffer" "length buffer < 2 ^ 62"
    and "position * sizeT + length buffer \<le> INT64_MAX - 4096"
  shows "\<exists>f'. typed_write_vector sizeT (\<lambda>bs p f. LocalFile_writeBytes script f bs p) buffer offset position n f =
      Some (OkStatus, f') \<and>
    fst (typed_read sizeT (\<lambda>p n f. LocalFile_reader script f p n) position n f') =
      Inr (n, take (n * sizeT) (drop (offset * sizeT) buffer))"
  using lfile.typed_write_then_read [OF assms(1,3-6), of script] good_script_id [OF assms(2)] by metis

theorem typed_roundtrip_witness:
  "\<exists>f'. typed_write_vector 2 (\<lambda>bs p f. LocalFile_writeBytes [Interrupted, Moved 1] f bs p) [1, 2, 3, 4, 5, 6] 1 7 2
       empty_file = Some (OkStatus, f') \<and>
     fst (typed_read 2 (\<lambda>p n f. LocalFile_reader [Interrupted, Moved 1] f p n) 7 2 f') = Inr (2, [3, 4, 5, 6])"
proof -
  have "lf_inv empty_file" by (simp add: lf_inv_def empty_file_def)
  from typed_roundtrip [OF this, of "[Interrupted, Moved 1]" 2 1 2 "[1, 2, 3, 4, 5, 6]" 7] show ?thesis
    by (simp add: io_ok_def vec_size_def INT64_MAX_def)
qed

end
