(* ===== verification/Java_File.thy ===== *)
theory Java_File
  imports Typed_IO
begin

text \<open>
  The Java view of an open file: the native methods of \<^verbatim>\<open>src/java/com_ibm_geds_GEDSFile.cpp\<close> and the class
  \<^verbatim>\<open>com/ibm/geds/GEDSFile.java\<close> that calls them. The native side works on raw pointers: a \<open>GEDSFile\<close> object is an
  address, a Java array or a direct buffer is a block of bytes. A call returns, throws a Java exception, or does
  something C++ leaves undefined: it uses a null or dangling pointer or accesses a block outside its bounds.
  The checks that prevent this are on the Java side. Histograms and timers are left out.
\<close>

section \<open>The Java native interface\<close>

datatype 'a jni = JReturn 'a | JThrow string string | JUndefined

type_synonym jint = "32 word"
type_synonym jlong = "64 word"

text \<open>What a C function sees of a string: the characters before the first null.\<close>

definition c_str :: "string \<Rightarrow> string" where
  "c_str s = takeWhile (\<lambda>c. c \<noteq> CHR 0x00) s"

definition throwJavaException :: "string \<Rightarrow> string \<Rightarrow> 'a jni" where
  "throwJavaException className message = JThrow className (c_str message)"

definition throwRuntimeException :: "string \<Rightarrow> 'a jni" where
  "throwRuntimeException message = throwJavaException ''java/lang/RuntimeException'' message"

definition throwNullPointerException :: "string \<Rightarrow> 'a jni" where
  "throwNullPointerException message = throwJavaException ''java/lang/NullPointerException'' message"

definition throwIOException :: "string \<Rightarrow> 'a jni" where
  "throwIOException message = throwJavaException ''java/io/IOException'' message"

definition throwEOFException :: "string \<Rightarrow> 'a jni" where
  "throwEOFException message = throwJavaException ''java/io/EOFException'' message"

definition throwFileNotFoundException :: "string \<Rightarrow> 'a jni" where
  "throwFileNotFoundException message = throwJavaException ''java/io/FileNotFoundException'' message"

lemmas throw_defs = throwJavaException_def throwRuntimeException_def throwNullPointerException_def
  throwIOException_def throwEOFException_def throwFileNotFoundException_def

text \<open>A \<open>jint\<close> passed as \<open>size_t\<close> is sign extended, a \<open>jlong\<close> keeps its bits.\<close>

definition jint_size :: "jint \<Rightarrow> size_t" where
  "jint_size n = unat (scast n :: 64 word)"

text \<open>
  The state: the \<open>GEDSFile\<close> objects on the C++ heap with the handle each refers to, the Java arrays, the
  memory of direct buffers by their address, the Java \<open>GEDSFile\<close> objects with their field \<open>nativePtr\<close>, and the
  state of the handles.
\<close>

record ('h, 'w) jvm =
  j_files :: "jlong \<rightharpoonup> 'h"
  j_arrays :: "nat \<rightharpoonup> byte list"
  j_memory :: "jlong \<rightharpoonup> byte list"
  j_objects :: "nat \<rightharpoonup> jlong"
  j_world :: 'w

text \<open>The bytes from \<open>buffer[offset]\<close> on, if that is an address in the block or just behind it.\<close>

definition block_from :: "byte list \<Rightarrow> jint \<Rightarrow> byte list option" where
  "block_from block offset =
     (if 0 \<le> sint offset \<and> sint offset \<le> int (length block) then Some (drop (nat (sint offset)) block) else None)"

definition block_store :: "byte list \<Rightarrow> jint \<Rightarrow> byte list \<Rightarrow> byte list option" where
  "block_store block offset bytes =
     (if bytes = [] then Some block
      else if 0 \<le> sint offset \<and> sint offset + int (length bytes) \<le> int (length block)
      then Some (file_write (nat (sint offset)) bytes block) else None)"

abbreviation null_file :: string where
  "null_file \<equiv> ''The pointer representation is NULL!''"

definition with_file where
  "with_file nativePtr s body =
     (if nativePtr = (0 :: jlong) then (throwNullPointerException null_file, s)
      else case j_files s nativePtr of None \<Rightarrow> (JUndefined, s) | Some file \<Rightarrow> body file)"

definition status_result :: "Status \<Rightarrow> unit jni" where
  "status_result status = (if status_ok status then JReturn () else throwIOException (status_message status))"

section \<open>Native methods\<close>

definition closeNative where
  "closeNative close nativePtr s =
     (if nativePtr = (0 :: jlong) then (JReturn (), s)
      else case j_files s nativePtr of
          None \<Rightarrow> (JUndefined, s)
        | Some file \<Rightarrow>
            (JReturn (), s\<lparr>j_files := (j_files s)(nativePtr := None), j_world := close file (j_world s)\<rparr>))"

text \<open>Both readers of the metadata look into the optional without testing whether it holds a value.\<close>

definition metadataNative where
  "metadataNative m nativePtr s = with_file nativePtr s (\<lambda>file.
     case GEDSFile_metadata m file (j_world s) of
       None \<Rightarrow> (JUndefined, s)
     | Some metadata \<Rightarrow> (JReturn (if metadata = [] then None else Some (c_str metadata)), s))"

definition string_bytes :: "string \<Rightarrow> byte list" where
  "string_bytes s = map of_char s"

definition bytes_string :: "byte list \<Rightarrow> string" where
  "bytes_string bs = map (\<lambda>b. char_of (unat b)) bs"

text \<open>\<open>critical\<close>: whether the virtual machine grants access to the array.\<close>

definition metadataAsByteArrayNative where
  "metadataAsByteArrayNative m critical nativePtr s = with_file nativePtr s (\<lambda>file.
     case GEDSFile_metadata m file (j_world s) of
       None \<Rightarrow> (JUndefined, s)
     | Some metadata \<Rightarrow>
         if metadata = [] then (JReturn None, s)
         else if length metadata \<ge> 2 ^ 31 then (JUndefined, s)
         else if \<not> critical then (throwRuntimeException ''Unable to obtain primitive array.'', s)
         else (JReturn (Some (string_bytes metadata)), s))"

definition set_metadata_result where
  "set_metadata_result m file metadata seal s =
     (case GEDSFile_setMetadata m file metadata seal (j_world s) of
        (status, w) \<Rightarrow> (status_result status, s\<lparr>j_world := w\<rparr>))"

definition setMetadataNative_string where
  "setMetadataNative_string m nativePtr jmetadata seal s = with_file nativePtr s (\<lambda>file.
     case jmetadata of
       None \<Rightarrow> set_metadata_result m file None seal s
     | Some metadata \<Rightarrow> set_metadata_result m file (Some (c_str metadata)) seal s)"

definition setMetadataNative_buffer where
  "setMetadataNative_buffer m nativePtr buffer offset length' seal s = with_file nativePtr s (\<lambda>file.
     if buffer = (0 :: jlong) then set_metadata_result m file None seal s
     else case Option.bind (j_memory s buffer) (\<lambda>block. block_from block offset) of
         None \<Rightarrow> (JUndefined, s)
       | Some bytes \<Rightarrow>
           if jint_size length' > length bytes then (JUndefined, s)
           else set_metadata_result m file (Some (bytes_string (take (jint_size length') bytes))) seal s)"

definition setMetadataNative_array where
  "setMetadataNative_array m critical nativePtr jBuffer offset length' seal s = with_file nativePtr s (\<lambda>file.
     case jBuffer of
       None \<Rightarrow> set_metadata_result m file None seal s
     | Some array \<Rightarrow>
         if \<not> critical then (throwRuntimeException ''Unable to obtain primitive array.'', s)
         else case Option.bind (j_arrays s array) (\<lambda>block. block_from block offset) of
             None \<Rightarrow> (JUndefined, s)
           | Some bytes \<Rightarrow>
               if jint_size length' > length bytes then (JUndefined, s)
               else set_metadata_result m file (Some (bytes_string (take (jint_size length') bytes))) seal s)"

text \<open>\<open>name\<close> is the bucket and the key of a file, joined by a slash.\<close>

definition sizeNative where
  "sizeNative m name nativePtr s = with_file nativePtr s (\<lambda>file.
     let size' = GEDSFile_size m file (j_world s)
     in if size' > INT64_MAX
        then (throwRuntimeException (''Unable to represent the file size for '' @ name file @
                '' as a long. File size: '' @ show_nat size'), s)
        else (JReturn (of_nat size' :: jlong), s))"

text \<open>The result of a read: no bytes where some were asked for is the end of the file.\<close>

definition read_result :: "nat \<Rightarrow> jint \<Rightarrow> jint" where
  "read_result n length' = (if n = 0 \<and> 0 < sint length' then - 1 else of_nat n)"

text \<open>
  A read that fails may have put bytes into the buffer before. What it left there, from the start of the range
  on, is an argument of the model; an array is copied back, or was never copied, before the exception is thrown.
\<close>

type_synonym ('h, 'w) left_behind = "'h \<Rightarrow> size_t \<Rightarrow> size_t \<Rightarrow> 'w \<Rightarrow> byte list"

definition read_block ::
  "('h, 'w) handle_methods \<Rightarrow> ('h, 'w) left_behind \<Rightarrow> 'h \<Rightarrow> jlong \<Rightarrow> byte list \<Rightarrow> jint \<Rightarrow> jint \<Rightarrow> 'w \<Rightarrow> (jint jni \<times> byte list) option \<times> 'w" where
  "read_block m part file position block offset length' w =
     (case typed_read 1 (GEDSFile_readBytes m file) (unat position) (jint_size length') w of
        (Inl status, w1) \<Rightarrow>
          (map_option (Pair (throwIOException (status_message status)))
             (block_store block offset (part file (unat position) (jint_size length') w)), w1)
      | (Inr (n, bytes), w1) \<Rightarrow> (map_option (Pair (JReturn (read_result n length'))) (block_store block offset bytes), w1))"

definition readNative_array where
  "readNative_array m part critical nativePtr position jBuffer offset length' s = with_file nativePtr s (\<lambda>file.
     case Option.bind jBuffer (j_arrays s) of
       None \<Rightarrow> (JUndefined, s)
     | Some block \<Rightarrow>
         if \<not> critical then (throwRuntimeException ''Unable to obtain primitive array.'', s)
         else case read_block m part file position block offset length' (j_world s) of
             (None, w) \<Rightarrow> (JUndefined, s\<lparr>j_world := w\<rparr>)
           | (Some (r, block'), w) \<Rightarrow> (r, s\<lparr>j_arrays := (j_arrays s)(the jBuffer \<mapsto> block'), j_world := w\<rparr>))"

definition readNative_buffer where
  "readNative_buffer m part nativePtr position buffer offset length' s = with_file nativePtr s (\<lambda>file.
     if buffer = (0 :: jlong) then (throwNullPointerException ''The buffer is NULL!'', s)
     else case j_memory s buffer of
         None \<Rightarrow> (JUndefined, s)
       | Some block \<Rightarrow>
           (case read_block m part file position block offset length' (j_world s) of
              (None, w) \<Rightarrow> (JUndefined, s\<lparr>j_world := w\<rparr>)
            | (Some (r, block'), w) \<Rightarrow> (r, s\<lparr>j_memory := (j_memory s)(buffer \<mapsto> block'), j_world := w\<rparr>)))"

definition write_block where
  "write_block m file position block offset length' s =
     (case block_from block offset of
        None \<Rightarrow> (JUndefined, s)
      | Some bytes \<Rightarrow>
          (case typed_write 1 (GEDSFile_writeBytes m file) bytes (unat (position :: jlong)) (jint_size length') (j_world s) of
             None \<Rightarrow> (JUndefined, s)
           | Some (status, w) \<Rightarrow> (status_result status, s\<lparr>j_world := w\<rparr>)))"

definition writeNative_array where
  "writeNative_array m critical nativePtr position jBuffer offset length' s = with_file nativePtr s (\<lambda>file.
     case Option.bind jBuffer (j_arrays s) of
       None \<Rightarrow> (JUndefined, s)
     | Some block \<Rightarrow>
         if \<not> critical then (throwRuntimeException ''Unable to obtain primitive array.'', s)
         else write_block m file position block offset length' s)"

definition writeNative_buffer where
  "writeNative_buffer m nativePtr position buffer offset length' s = with_file nativePtr s (\<lambda>file.
     if buffer = (0 :: jlong) then (throwNullPointerException ''The buffer is NULL!'', s)
     else case j_memory s buffer of
         None \<Rightarrow> (JUndefined, s)
       | Some block \<Rightarrow> write_block m file position block offset length' s)"

definition sealNative where
  "sealNative m nativePtr s = with_file nativePtr s (\<lambda>file.
     case GEDSFile_seal m file (j_world s) of (status, w) \<Rightarrow> (status_result status, s\<lparr>j_world := w\<rparr>))"

definition truncateNative where
  "truncateNative m nativePtr targetSize s = with_file nativePtr s (\<lambda>file.
     case GEDSFile_truncate m file (unat (targetSize :: jlong)) (j_world s) of
       (status, w) \<Rightarrow> (status_result status, s\<lparr>j_world := w\<rparr>))"

definition isWritableNative where
  "isWritableNative m nativePtr s = with_file nativePtr s (\<lambda>file.
     (JReturn (GEDSFile_isWriteable m file (j_world s)), s))"

section \<open>The class GEDSFile\<close>

definition checkClosed where
  "checkClosed ob s body =
     (case j_objects s ob of
        None \<Rightarrow> (JThrow ''java/lang/NullPointerException'' '''', s)
      | Some nativePtr \<Rightarrow>
          if nativePtr = 0 then (JThrow ''java/io/IOException'' ''The file is already closed!'', s)
          else body nativePtr)"

text \<open>\<open>close\<close> holds the monitor of the object for both its steps.\<close>

definition java_close where
  "java_close close ob s =
     (case j_objects s ob of
        None \<Rightarrow> (JThrow ''java/lang/NullPointerException'' '''', s)
      | Some nativePtr \<Rightarrow>
          if nativePtr = 0 then (JReturn (), s)
          else case closeNative close nativePtr s of
              (JReturn _, s1) \<Rightarrow> (JReturn (), s1\<lparr>j_objects := (j_objects s1)(ob \<mapsto> 0)\<rparr>)
            | (r, s1) \<Rightarrow> (r, s1))"

abbreviation illegal_argument :: "string \<Rightarrow> 'a jni" where
  "illegal_argument message \<equiv> JThrow ''java/lang/IllegalArgumentException'' message"

definition checkPosition :: "jlong \<Rightarrow> 'a jni option" where
  "checkPosition position = (if sint position < 0 then Some (illegal_argument ''Invalid position!'') else None)"

definition checkBuffer :: "byte list option \<Rightarrow> jint \<Rightarrow> jint \<Rightarrow> 'a jni option" where
  "checkBuffer buffer offset length' =
     (if sint length' < 0 then Some (illegal_argument ''Invalid length!'')
      else if sint offset < 0 then Some (illegal_argument ''Invalid offset!'')
      else case buffer of
          None \<Rightarrow> Some (JThrow ''java/lang/NullPointerException'' '''')
        | Some block \<Rightarrow>
            if int (length block) < sint offset + sint length'
            then Some (illegal_argument ''The buffer is too small!'') else None)"

definition java_read where
  "java_read m part critical ob position buffer offset length' s = checkClosed ob s (\<lambda>nativePtr.
     case checkPosition position of Some e \<Rightarrow> (e, s) | None \<Rightarrow>
     case checkBuffer (Option.bind buffer (j_arrays s)) offset length' of Some e \<Rightarrow> (e, s) | None \<Rightarrow>
     readNative_array m part critical nativePtr position buffer offset length' s)"

definition java_write where
  "java_write m critical ob position buffer offset length' s = checkClosed ob s (\<lambda>nativePtr.
     case checkPosition position of Some e \<Rightarrow> (e, s) | None \<Rightarrow>
     case checkBuffer (Option.bind buffer (j_arrays s)) offset length' of Some e \<Rightarrow> (e, s) | None \<Rightarrow>
     writeNative_array m critical nativePtr position buffer offset length' s)"

text \<open>
  A \<open>ByteBuffer\<close> has memory of its own (\<open>bb_direct\<close>) or is a window of an array that starts at
  \<open>bb_arrayOffset\<close>. The class takes the position in a window as an index of the array. A call with a
  buffer returns the buffer with its new position.
\<close>

record ByteBuffer =
  bb_direct :: "jlong option"
  bb_array :: nat
  bb_arrayOffset :: nat
  bb_position :: jint
  bb_limit :: jint

definition java_read_buffer where
  "java_read_buffer m part critical ob position bb s = checkClosed ob s (\<lambda>nativePtr.
     let offset = bb_position bb; length' = bb_limit bb - bb_position bb
     in if length' = 0 then (JReturn (0, bb), s)
        else case (case bb_direct bb of
                     Some addr \<Rightarrow> readNative_buffer m part nativePtr position addr offset length' s
                   | None \<Rightarrow> java_read m part critical ob position (Some (bb_array bb)) offset length' s) of
            (r, s1) \<Rightarrow> (map_jni (\<lambda>numBytes. (numBytes,
              if 0 < sint numBytes then bb\<lparr>bb_position := offset + numBytes\<rparr> else bb)) r, s1))"

definition java_write_buffer where
  "java_write_buffer m critical ob position bb s = checkClosed ob s (\<lambda>nativePtr.
     let offset = bb_position bb; length' = bb_limit bb - bb_position bb
     in if length' = 0 then (JReturn (0, bb), s)
        else case (case bb_direct bb of
                     Some addr \<Rightarrow> writeNative_buffer m nativePtr position addr offset length' s
                   | None \<Rightarrow> java_write m critical ob position (Some (bb_array bb)) offset length' s) of
            (r, s1) \<Rightarrow> (map_jni (\<lambda>_. (length', bb\<lparr>bb_position := offset + length'\<rparr>)) r, s1))"

definition java_metadata where
  "java_metadata m ob s = checkClosed ob s (\<lambda>nativePtr. metadataNative m nativePtr s)"

definition java_metadataAsByteArray where
  "java_metadataAsByteArray m critical ob s =
     checkClosed ob s (\<lambda>nativePtr. metadataAsByteArrayNative m critical nativePtr s)"

definition java_setMetadata_string where
  "java_setMetadata_string m ob metadata seal s =
     checkClosed ob s (\<lambda>nativePtr. setMetadataNative_string m nativePtr metadata seal s)"

definition java_setMetadata_array where
  "java_setMetadata_array m critical ob buffer offset length' seal s = checkClosed ob s (\<lambda>nativePtr.
     case buffer of
       None \<Rightarrow> setMetadataNative_array m critical nativePtr None 0 0 seal s
     | Some array \<Rightarrow>
         case checkBuffer (j_arrays s array) offset length' of Some e \<Rightarrow> (e, s) | None \<Rightarrow>
         setMetadataNative_array m critical nativePtr buffer offset length' seal s)"

definition java_setMetadata_buffer where
  "java_setMetadata_buffer m critical ob buffer seal s = checkClosed ob s (\<lambda>nativePtr.
     case buffer of
       None \<Rightarrow> setMetadataNative_buffer m nativePtr 0 0 0 seal s
     | Some bb \<Rightarrow>
         let offset = bb_position bb; length' = bb_limit bb - bb_position bb
         in case bb_direct bb of
              Some addr \<Rightarrow> setMetadataNative_buffer m nativePtr addr offset length' seal s
            | None \<Rightarrow> java_setMetadata_array m critical ob (Some (bb_array bb)) offset length' seal s)"

definition java_size where
  "java_size m name ob s = checkClosed ob s (\<lambda>nativePtr. sizeNative m name nativePtr s)"

definition java_seal where
  "java_seal m ob s = checkClosed ob s (\<lambda>nativePtr. sealNative m nativePtr s)"

definition java_truncate where
  "java_truncate m ob targetSize s = checkClosed ob s (\<lambda>nativePtr.
     if sint targetSize < 0 then (illegal_argument ''Invalid target size!'', s)
     else truncateNative m nativePtr targetSize s)"

definition java_isWriteable where
  "java_isWriteable m ob s = checkClosed ob s (\<lambda>nativePtr. isWritableNative m nativePtr s)"

section \<open>Reads and writes of arrays\<close>

lemma jint_size_nonneg [simp]: "0 \<le> sint n \<Longrightarrow> jint_size n = nat (sint n)"
proof -
  assume "0 \<le> sint n"
  moreover have "sint n < 2 ^ 31" using sint_lt [of n] by simp
  ultimately have "uint (word_of_int (sint n) :: 64 word) = sint n"
    by (subst uint_word_of_int) simp
  then show ?thesis unfolding jint_size_def scast_eq unat_eq_nat_uint by (rule arg_cong)
qed

lemma unat_jlong_nonneg: "0 \<le> sint p \<Longrightarrow> unat (p :: jlong) = nat (sint p)"
proof -
  assume "0 \<le> sint p"
  moreover have "sint p < 2 ^ 63" using sint_lt [of p] by simp
  ultimately have "uint p = sint p" by (subst uint_sint) (simp add: take_bit_int_eq_self)
  then show ?thesis by (simp add: unat_eq_nat_uint)
qed

lemma block_store_inside:
  assumes "0 \<le> sint offset" "sint offset + int n \<le> int (length block)" "length bytes \<le> n"
  shows "block_store block offset bytes = Some (take (nat (sint offset)) block @ bytes @
      drop (nat (sint offset) + length bytes) block)"
  using assms by (auto simp: block_store_def file_write_def)

lemma wrap64_jint [simp]: "wrap64 (jint_size n) = jint_size n"
  unfolding jint_size_def using unsigned_less [of "scast n :: 64 word", where 'a = nat] by (intro wrap64_id) simp

lemma wrap64_jlong [simp]: "wrap64 (unat (p :: jlong)) = unat p"
  using unsigned_less [of p, where 'a = nat] by (intro wrap64_id) simp

lemma typed_read_byte:
  "typed_read 1 rd (unat (p :: jlong)) (jint_size n) w = rd (unat p) (jint_size n) w"
  by (auto simp: typed_read_def split: prod.splits sum.splits)

lemma file_read_length:
  "p + k \<le> max p (length src) \<Longrightarrow> length (file_read p k src) = k"
  by (auto simp: file_read_def)

text \<open>
  Reading into a Java array, over any handle. With arguments that fit, the call does what the handle does: the bytes go into the
  array from the offset on and all others stay; no bytes where some were asked for are reported as -1. An error
  is thrown as an exception, with what the handle left in the array.
\<close>

lemma java_read_stores:
  assumes "j_objects s ob = Some p" "p \<noteq> 0" "j_files s p = Some file" "j_arrays s a = Some block"
    and "0 \<le> sint position" "0 \<le> sint len" "0 \<le> sint offset" "sint offset + sint len \<le> int (length block)"
    and "GEDSFile_readBytes m file (nat (sint position)) (nat (sint len)) (j_world s) = (r, w')"
    and "bytes = (case r of Inl _ \<Rightarrow> part file (nat (sint position)) (nat (sint len)) (j_world s) | Inr (_, bs) \<Rightarrow> bs)"
    and "length bytes \<le> nat (sint len)"
  shows "java_read m part True ob position (Some a) offset len s =
    (case r of Inl status \<Rightarrow> JThrow ''java/io/IOException'' (c_str (status_message status))
       | Inr (k, _) \<Rightarrow> JReturn (if k = 0 \<and> 0 < sint len then - 1 else of_nat k),
     s\<lparr>j_arrays := (j_arrays s)(a \<mapsto> take (nat (sint offset)) block @ bytes @ drop (nat (sint offset) + length bytes) block),
       j_world := w'\<rparr>)"
proof -
  have args: "unat position = nat (sint position)" "jint_size len = nat (sint len)"
    using assms(5,6) by (simp_all add: unat_jlong_nonneg)
  have "typed_read 1 (GEDSFile_readBytes m file) (unat position) (jint_size len) (j_world s) = (r, w')"
    unfolding typed_read_byte using assms(9) args by simp
  moreover have "block_store block offset bytes =
      Some (take (nat (sint offset)) block @ bytes @ drop (nat (sint offset) + length bytes) block)"
    using block_store_inside [of offset "nat (sint len)" block bytes] assms(6-8,11) by simp
  ultimately have "read_block m part file position block offset len (j_world s) =
      (Some (case r of Inl status \<Rightarrow> JThrow ''java/io/IOException'' (c_str (status_message status))
         | Inr (k, _) \<Rightarrow> JReturn (if k = 0 \<and> 0 < sint len then - 1 else of_nat k),
       take (nat (sint offset)) block @ bytes @ drop (nat (sint offset) + length bytes) block), w')"
    using assms(10) args by (auto simp: read_block_def read_result_def throw_defs split: sum.splits)
  then show ?thesis using assms(1-8)
    by (simp add: java_read_def checkClosed_def checkPosition_def checkBuffer_def readNative_array_def with_file_def)
qed

text \<open>The arguments that the class refuses.\<close>

lemma java_read_refuses:
  assumes "j_objects s ob = Some p" "p \<noteq> 0" "j_arrays s a = Some block"
    and "sint position < 0 \<or> sint len < 0 \<or> sint offset < 0 \<or> int (length block) < sint offset + sint len"
  shows "\<exists>e. java_read m part c ob position (Some a) offset len s = (JThrow ''java/lang/IllegalArgumentException'' e, s)"
  using assms by (auto simp: java_read_def checkClosed_def checkPosition_def checkBuffer_def)

section \<open>Memory safety of sequential use\<close>

text \<open>
  Every open Java object owns a live native object of its own. A read of a handle, also one that fails, never puts more into the
  buffer than was asked for.
\<close>

definition java_wf :: "('h, 'w) jvm \<Rightarrow> bool" where
  "java_wf s \<longleftrightarrow> (\<forall>ob p. j_objects s ob = Some p \<longrightarrow> p \<noteq> 0 \<longrightarrow> p \<in> dom (j_files s)) \<and>
     (\<forall>ob ob' p. j_objects s ob = Some p \<longrightarrow> j_objects s ob' = Some p \<longrightarrow> p \<noteq> 0 \<longrightarrow> ob = ob')"

definition bounded_reads :: "('h, 'w) handle_methods \<Rightarrow> ('h, 'w) left_behind \<Rightarrow> bool" where
  "bounded_reads m part \<longleftrightarrow> (\<forall>h p n w. p < 2 ^ 64 \<longrightarrow> n < 2 ^ 31 \<longrightarrow> length (part h p n w) \<le> n \<and>
     (\<forall>k bs w'. v_readBytes m h p n w = (Inr (k, bs), w') \<longrightarrow> length bs \<le> n))"

datatype java_op =
    Close nat
  | Read bool nat jlong "nat option" jint jint
  | Write bool nat jlong "nat option" jint jint
  | ReadBuffer bool nat jlong ByteBuffer
  | WriteBuffer bool nat jlong ByteBuffer
  | SetMetadata nat "string option" bool
  | SetMetadataArray bool nat "nat option" jint jint bool
  | SetMetadataBuffer bool nat "ByteBuffer option" bool
  | FileSize nat
  | Seal nat
  | Truncate nat jlong
  | IsWriteable nat

definition is_defined :: "'a jni \<times> 's \<Rightarrow> bool \<times> 's" where
  "is_defined = (\<lambda>(r, s). (case r of JUndefined \<Rightarrow> False | _ \<Rightarrow> True, s))"

fun java_exec where
  "java_exec m part close name (Close ob) s = is_defined (java_close close ob s)"
| "java_exec m part close name (Read critical ob position buffer offset len) s =
     is_defined (java_read m part critical ob position buffer offset len s)"
| "java_exec m part close name (Write critical ob position buffer offset len) s =
     is_defined (java_write m critical ob position buffer offset len s)"
| "java_exec m part close name (ReadBuffer critical ob position bb) s =
     is_defined (java_read_buffer m part critical ob position bb s)"
| "java_exec m part close name (WriteBuffer critical ob position bb) s =
     is_defined (java_write_buffer m critical ob position bb s)"
| "java_exec m part close name (SetMetadata ob metadata seal) s = is_defined (java_setMetadata_string m ob metadata seal s)"
| "java_exec m part close name (SetMetadataArray critical ob buffer offset len seal) s =
     is_defined (java_setMetadata_array m critical ob buffer offset len seal s)"
| "java_exec m part close name (SetMetadataBuffer critical ob buffer seal) s =
     is_defined (java_setMetadata_buffer m critical ob buffer seal s)"
| "java_exec m part close name (FileSize ob) s = is_defined (java_size m name ob s)"
| "java_exec m part close name (Seal ob) s = is_defined (java_seal m ob s)"
| "java_exec m part close name (Truncate ob targetSize) s = is_defined (java_truncate m ob targetSize s)"
| "java_exec m part close name (IsWriteable ob) s = is_defined (java_isWriteable m ob s)"

text \<open>What Java guarantees of its buffers.\<close>

definition buffer_ok :: "ByteBuffer \<Rightarrow> ('h, 'w) jvm \<Rightarrow> bool" where
  "buffer_ok bb s \<longleftrightarrow> 0 \<le> sint (bb_position bb) \<and> sint (bb_position bb) \<le> sint (bb_limit bb) \<and>
     (case bb_direct bb of
        None \<Rightarrow> True
      | Some addr \<Rightarrow> addr \<noteq> 0 \<and> (\<exists>block. j_memory s addr = Some block \<and> sint (bb_limit bb) \<le> int (length block)))"

fun op_buffers :: "java_op \<Rightarrow> ByteBuffer list" where
  "op_buffers (ReadBuffer critical ob position bb) = [bb]"
| "op_buffers (WriteBuffer critical ob position bb) = [bb]"
| "op_buffers (SetMetadataBuffer critical ob (Some bb) seal) = [bb]"
| "op_buffers _ = []"

text \<open>
  A run of a Java program that opens files (a new object, whose native object \<open>operator new\<close> returned) and calls their
  methods one after the other.
\<close>

inductive java_reach :: "('h, 'w) handle_methods \<Rightarrow> ('h, 'w) left_behind \<Rightarrow> ('h \<Rightarrow> 'w \<Rightarrow> 'w) \<Rightarrow> ('h \<Rightarrow> string) \<Rightarrow> ('h, 'w) jvm \<Rightarrow> bool"
  for m part close name where
  Start: "j_files s = Map.empty \<Longrightarrow> j_objects s = Map.empty \<Longrightarrow> java_reach m part close name s"
| New: "java_reach m part close name s \<Longrightarrow> p \<noteq> 0 \<Longrightarrow> p \<notin> dom (j_files s) \<Longrightarrow> ob \<notin> dom (j_objects s) \<Longrightarrow>
    java_reach m part close name (s\<lparr>j_files := (j_files s)(p \<mapsto> h), j_objects := (j_objects s)(ob \<mapsto> p), j_world := w\<rparr>)"
| Call: "java_reach m part close name s \<Longrightarrow> java_exec m part close name call s = (d, s') \<Longrightarrow> java_reach m part close name s'"

definition same_files :: "('h, 'w) jvm \<Rightarrow> ('h, 'w) jvm \<Rightarrow> bool" where
  "same_files s s' \<longleftrightarrow> j_files s' = j_files s \<and> j_objects s' = j_objects s"

lemma is_defined_simps [simp]:
  "is_defined (JUndefined, s) = (False, s)" "is_defined (JReturn x, s) = (True, s)" "is_defined (JThrow e t, s) = (True, s)"
  "is_defined (status_result st, s) = (True, s)" "snd (is_defined r) = snd r"
  "fst (is_defined (map_jni f r', s)) = fst (is_defined (r', s))"
  by (simp_all add: is_defined_def status_result_def throw_defs split: prod.splits jni.splits)

lemma same_files_simps [simp]:
  "same_files s s" "same_files s (s\<lparr>j_world := w\<rparr>)" "same_files s (s\<lparr>j_arrays := a, j_world := w\<rparr>)"
  "same_files s (s\<lparr>j_memory := y, j_world := w\<rparr>)"
  by (simp_all add: same_files_def)

lemma same_files_checkClosed:
  "(\<And>p. same_files s (snd (body p))) \<Longrightarrow> same_files s (snd (checkClosed ob s body))"
  by (simp add: checkClosed_def split: option.splits)

lemma same_files_with_file:
  "(\<And>file. same_files s (snd (body file))) \<Longrightarrow> same_files s (snd (with_file p s body))"
  by (simp add: with_file_def split: option.splits)

lemma same_files_set_metadata [simp]: "same_files s (snd (set_metadata_result m file md seal s))"
  by (simp add: set_metadata_result_def split: prod.splits)

lemma same_files_write_block [simp]: "same_files s (snd (write_block m file position block offset len s))"
  by (simp add: write_block_def split: option.splits prod.splits)

lemmas same_files_intros = same_files_checkClosed same_files_with_file

lemma same_files_read_array [simp]: "same_files s (snd (readNative_array m part c p position buffer offset len s))"
  unfolding readNative_array_def
  by (rule same_files_with_file) (simp split: option.splits prod.splits sum.splits)

lemma same_files_read_buffer [simp]: "same_files s (snd (readNative_buffer m part p position addr offset len s))"
  unfolding readNative_buffer_def
  by (rule same_files_with_file) (simp split: option.splits prod.splits sum.splits)

lemma same_files_write_array [simp]: "same_files s (snd (writeNative_array m c p position buffer offset len s))"
  unfolding writeNative_array_def by (rule same_files_with_file) (simp split: option.splits)

lemma same_files_write_buffer [simp]: "same_files s (snd (writeNative_buffer m p position addr offset len s))"
  unfolding writeNative_buffer_def by (rule same_files_with_file) (simp split: option.splits)

lemma same_files_java_read [simp]: "same_files s (snd (java_read m part c ob position buffer offset len s))"
  unfolding java_read_def by (rule same_files_checkClosed) (simp split: option.splits)

lemma same_files_java_write [simp]: "same_files s (snd (java_write m c ob position buffer offset len s))"
  unfolding java_write_def by (rule same_files_checkClosed) (simp split: option.splits)

lemma same_files_java_setMetadata_array [simp]:
  "same_files s (snd (java_setMetadata_array m c ob buffer offset len seal s))"
  unfolding java_setMetadata_array_def setMetadataNative_array_def
  by (rule same_files_checkClosed) (simp split: option.splits add: same_files_with_file)

lemma same_files_exec:
  assumes "\<forall>ob. call \<noteq> Close ob"
  shows "same_files s (snd (java_exec m part close name call s))"
  using assms
proof (cases call)
  case (ReadBuffer c ob position bb)
  have "same_files s (snd (java_read_buffer m part c ob position bb s))"
    unfolding java_read_buffer_def
    by (rule same_files_checkClosed) (simp add: Let_def split: option.splits prod.splits, metis same_files_java_read same_files_read_buffer snd_conv)
  then show ?thesis by (simp add: ReadBuffer)
next
  case (WriteBuffer c ob position bb)
  have "same_files s (snd (java_write_buffer m c ob position bb s))"
    unfolding java_write_buffer_def
    by (rule same_files_checkClosed) (simp add: Let_def split: option.splits prod.splits, metis same_files_java_write same_files_write_buffer snd_conv)
  then show ?thesis by (simp add: WriteBuffer)
next
  case (SetMetadataBuffer c ob buffer seal)
  have "same_files s (snd (java_setMetadata_buffer m c ob buffer seal s))"
    unfolding java_setMetadata_buffer_def setMetadataNative_buffer_def
    by (rule same_files_checkClosed) (simp add: Let_def same_files_with_file split: option.splits)
  then show ?thesis by (simp add: SetMetadataBuffer)
qed (simp_all add: java_setMetadata_string_def setMetadataNative_string_def java_size_def sizeNative_def java_seal_def
    sealNative_def java_truncate_def truncateNative_def java_isWriteable_def isWritableNative_def Let_def
    same_files_intros split: option.splits prod.splits)

lemma defined_checkClosed:
  assumes "java_wf s" and "\<And>p file. p \<noteq> 0 \<Longrightarrow> j_files s p = Some file \<Longrightarrow> fst (is_defined (body p))"
  shows "fst (is_defined (checkClosed ob s body))"
  using assms by (force simp: checkClosed_def java_wf_def split: option.splits)

lemma with_file_live: "p \<noteq> 0 \<Longrightarrow> j_files s p = Some file \<Longrightarrow> with_file p s body = body file"
  by (simp add: with_file_def)

text \<open>A range that lies in a block.\<close>

definition in_block :: "jint \<Rightarrow> jint \<Rightarrow> byte list \<Rightarrow> bool" where
  "in_block offset len block \<longleftrightarrow> 0 \<le> sint offset \<and> 0 \<le> sint len \<and> sint offset + sint len \<le> int (length block)"

lemma in_block_from:
  assumes "in_block offset len block"
  shows "\<exists>bytes. block_from block offset = Some bytes \<and> jint_size len \<le> length bytes"
proof -
  have "jint_size len = nat (sint len)" using assms by (simp add: in_block_def)
  with assms show ?thesis by (auto simp: in_block_def block_from_def)
qed

lemma in_block_store:
  assumes "in_block offset len block" "length bytes \<le> jint_size len"
  shows "\<exists>block'. block_store block offset bytes = Some block'"
proof -
  have "jint_size len = nat (sint len)" using assms by (simp add: in_block_def)
  with assms block_store_inside [of offset "nat (sint len)" block bytes] show ?thesis by (auto simp: in_block_def)
qed

lemma checkBuffer_None:
  "checkBuffer buffer offset len = None \<longleftrightarrow> (\<exists>block. buffer = Some block \<and> in_block offset len block)"
  by (auto simp: checkBuffer_def in_block_def not_less split: option.splits)

lemma checkBuffer_Some: "checkBuffer buffer offset len = Some e \<Longrightarrow> \<exists>x y. e = JThrow x y"
  by (auto simp: checkBuffer_def split: option.splits if_splits)

lemma checkPosition_Some: "checkPosition position = Some e \<Longrightarrow> \<exists>x y. e = JThrow x y"
  by (auto simp: checkPosition_def split: if_splits)

lemma read_block_bounded:
  assumes "bounded_reads m part" "in_block offset len block"
  obtains r block' w' where "read_block m part file position block offset len w = (Some (r, block'), w')"
    "fst (is_defined (r, ()))"
proof -
  have args: "unat position < 2 ^ 64" "jint_size len < 2 ^ 31"
    using unsigned_less [of position, where 'a = nat] sint_lt [of len] assms(2) by (simp_all add: in_block_def nat_less_iff)
  obtain r w' where rd: "GEDSFile_readBytes m file (unat position) (jint_size len) w = (r, w')" by fastforce
  then have "length bs \<le> jint_size len" if "r = Inr (k, bs)" for k bs
    using assms(1) args that unfolding bounded_reads_def GEDSFile_readBytes_def by blast
  moreover have "length (part file (unat position) (jint_size len) w) \<le> jint_size len"
    using assms(1) args unfolding bounded_reads_def by blast
  ultimately obtain block' where "block_store block offset
      (case r of Inl _ \<Rightarrow> part file (unat position) (jint_size len) w | Inr (_, bs) \<Rightarrow> bs) = Some block'"
    using in_block_store [OF assms(2), of "case r of Inl _ \<Rightarrow> part file (unat position) (jint_size len) w | Inr (_, bs) \<Rightarrow> bs"]
    by (cases r) auto
  moreover have "typed_read 1 (GEDSFile_readBytes m file) (unat position) (jint_size len) w = (r, w')"
    unfolding typed_read_byte by (rule rd)
  ultimately show ?thesis using that by (cases r) (auto simp: read_block_def throw_defs split: prod.splits)
qed

lemma defined_read_array:
  assumes "bounded_reads m part" "p \<noteq> 0" "j_files s p = Some file" "Option.bind buffer (j_arrays s) = Some block"
    and "in_block offset len block"
  shows "fst (is_defined (readNative_array m part c p position buffer offset len s))"
proof -
  obtain r block' w' where "read_block m part file position block offset len (j_world s) = (Some (r, block'), w')"
      "fst (is_defined (r, ()))"
    by (rule read_block_bounded [OF assms(1,5)])
  with assms(2-4) show ?thesis by (auto simp: readNative_array_def with_file_live throw_defs is_defined_def)
qed

lemma defined_read_buffer:
  assumes "bounded_reads m part" "p \<noteq> 0" "j_files s p = Some file" "j_memory s addr = Some block"
    and "in_block offset len block"
  shows "fst (is_defined (readNative_buffer m part p position addr offset len s))"
proof -
  obtain r block' w' where "read_block m part file position block offset len (j_world s) = (Some (r, block'), w')"
      "fst (is_defined (r, ()))"
    by (rule read_block_bounded [OF assms(1,5)])
  with assms(2-4) show ?thesis by (auto simp: readNative_buffer_def with_file_live throw_defs is_defined_def)
qed

lemma defined_write_block:
  assumes "in_block offset len block"
  shows "fst (is_defined (write_block m file position block offset len s))"
  using in_block_from [OF assms]
  by (auto simp: write_block_def typed_write_def Let_def split: prod.splits)

lemma defined_set_metadata [simp]: "fst (is_defined (set_metadata_result m file md seal s))"
  by (simp add: set_metadata_result_def split: prod.splits)

lemma defined_set_metadata_array:
  assumes "p \<noteq> 0" "j_files s p = Some file" "j_arrays s a = Some block" "in_block offset len block"
  shows "fst (is_defined (setMetadataNative_array m c p (Some a) offset len seal s))"
  using in_block_from [OF assms(4)] assms(1-3)
  by (auto simp: setMetadataNative_array_def with_file_live throw_defs)

lemma defined_set_metadata_buffer:
  assumes "p \<noteq> 0" "j_files s p = Some file" "j_memory s addr = Some block" "in_block offset len block"
  shows "fst (is_defined (setMetadataNative_buffer m p addr offset len seal s))"
  using in_block_from [OF assms(4)] assms(1-3)
  by (auto simp: setMetadataNative_buffer_def with_file_live throw_defs)

lemma defined_java_read:
  assumes "java_wf s" "bounded_reads m part"
  shows "fst (is_defined (java_read m part c ob position buffer offset len s))"
  unfolding java_read_def using assms
  by (intro defined_checkClosed)
    (auto simp: defined_read_array checkBuffer_None split: option.splits dest: checkPosition_Some checkBuffer_Some)

lemma defined_java_write:
  assumes "java_wf s"
  shows "fst (is_defined (java_write m c ob position buffer offset len s))"
  unfolding java_write_def writeNative_array_def using assms
  by (intro defined_checkClosed)
    (auto simp: with_file_live defined_write_block checkBuffer_None throw_defs split: option.splits
      dest: checkPosition_Some checkBuffer_Some)

lemma defined_java_setMetadata_array:
  assumes "java_wf s"
  shows "fst (is_defined (java_setMetadata_array m c ob buffer offset len seal s))"
proof -
  have "fst (is_defined (setMetadataNative_array m c p None 0 0 seal s))" if "p \<noteq> 0" "j_files s p = Some fh" for p fh
    using that by (simp add: setMetadataNative_array_def with_file_live)
  then show ?thesis unfolding java_setMetadata_array_def using assms
    by (intro defined_checkClosed)
      (auto simp: defined_set_metadata_array checkBuffer_None split: option.splits dest: checkBuffer_Some)
qed

lemma sint_remaining:
  assumes "0 \<le> sint a" "sint a \<le> sint (b :: jint)"
  shows "sint (b - a) = sint b - sint a"
proof -
  have "sint b < 2 ^ 31" using sint_lt [of b] by simp
  then show ?thesis
    using assms unfolding sint_word_diff by (intro signed_take_bit_int_eq_self) simp_all
qed

lemma buffer_ok_in_block:
  assumes "buffer_ok bb s" "bb_direct bb = Some addr"
  obtains block where "addr \<noteq> 0" "j_memory s addr = Some block" "in_block (bb_position bb) (bb_limit bb - bb_position bb) block"
  using assms sint_remaining [of "bb_position bb" "bb_limit bb"] by (auto simp: buffer_ok_def in_block_def)

lemma defined_map: "fst (is_defined r) \<Longrightarrow> fst (is_defined (case r of (x, s') \<Rightarrow> (map_jni f x, s')))"
  by (cases r) simp

lemma defined_java_read_buffer:
  assumes "java_wf s" "bounded_reads m part" "buffer_ok bb s"
  shows "fst (is_defined (java_read_buffer m part c ob position bb s))"
proof -
  have "fst (is_defined (case bb_direct bb of
      Some addr \<Rightarrow> readNative_buffer m part p position addr (bb_position bb) (bb_limit bb - bb_position bb) s
    | None \<Rightarrow> java_read m part c ob position (Some (bb_array bb)) (bb_position bb) (bb_limit bb - bb_position bb) s))"
    if "p \<noteq> 0" "j_files s p = Some fh" for p fh
  proof (cases "bb_direct bb")
    case None
    then show ?thesis by (simp add: defined_java_read [OF assms(1,2)])
  next
    case (Some addr)
    then obtain block where "j_memory s addr = Some block" "in_block (bb_position bb) (bb_limit bb - bb_position bb) block"
      by (rule buffer_ok_in_block [OF assms(3)])
    from defined_read_buffer [OF assms(2) that this] Some show ?thesis by simp
  qed
  then show ?thesis unfolding java_read_buffer_def using assms(1)
    by (intro defined_checkClosed) (simp_all add: Let_def defined_map)
qed

lemma defined_java_write_buffer:
  assumes "java_wf s" "buffer_ok bb s"
  shows "fst (is_defined (java_write_buffer m c ob position bb s))"
proof -
  have "fst (is_defined (case bb_direct bb of
      Some addr \<Rightarrow> writeNative_buffer m p position addr (bb_position bb) (bb_limit bb - bb_position bb) s
    | None \<Rightarrow> java_write m c ob position (Some (bb_array bb)) (bb_position bb) (bb_limit bb - bb_position bb) s))"
    if "p \<noteq> 0" "j_files s p = Some fh" for p fh
  proof (cases "bb_direct bb")
    case None
    then show ?thesis by (simp add: defined_java_write [OF assms(1)])
  next
    case (Some addr)
    then obtain block where "addr \<noteq> 0" "j_memory s addr = Some block"
      "in_block (bb_position bb) (bb_limit bb - bb_position bb) block"
      by (rule buffer_ok_in_block [OF assms(2)])
    with Some that show ?thesis by (simp add: writeNative_buffer_def with_file_live defined_write_block)
  qed
  then show ?thesis unfolding java_write_buffer_def using assms(1)
    by (intro defined_checkClosed) (simp_all add: Let_def defined_map)
qed

lemma defined_java_setMetadata_buffer:
  assumes "java_wf s" "\<And>bb. buffer = Some bb \<Longrightarrow> buffer_ok bb s"
  shows "fst (is_defined (java_setMetadata_buffer m c ob buffer seal s))"
  unfolding java_setMetadata_buffer_def
proof (rule defined_checkClosed [OF assms(1)])
  fix p fh assume p: "p \<noteq> 0" "j_files s p = Some fh"
  show "fst (is_defined (case buffer of None \<Rightarrow> setMetadataNative_buffer m p 0 0 0 seal s
      | Some bb \<Rightarrow> let offset = bb_position bb; length' = bb_limit bb - bb_position bb
        in case bb_direct bb of Some addr \<Rightarrow> setMetadataNative_buffer m p addr offset length' seal s
          | None \<Rightarrow> java_setMetadata_array m c ob (Some (bb_array bb)) offset length' seal s))"
  proof (cases buffer)
    case None
    with p show ?thesis by (simp add: setMetadataNative_buffer_def with_file_live)
  next
    case (Some bb)
    with p assms(2) [OF Some] show ?thesis
      by (auto simp: Let_def defined_java_setMetadata_array [OF assms(1)] split: option.splits
          elim!: buffer_ok_in_block intro: defined_set_metadata_buffer)
  qed
qed

lemma defined_java_close: "java_wf s \<Longrightarrow> fst (is_defined (java_close close ob s))"
  by (force simp: java_close_def closeNative_def java_wf_def split: option.splits)

text \<open>Calls keep the objects apart.\<close>

lemma java_wf_close:
  assumes "java_wf s"
  shows "java_wf (snd (java_close close ob s))"
proof (cases "\<exists>p fh. j_objects s ob = Some p \<and> p \<noteq> 0 \<and> j_files s p = Some fh")
  case True
  then obtain p fh where p: "j_objects s ob = Some p" "p \<noteq> 0" "j_files s p = Some fh" by blast
  then have "p' \<noteq> p" if "j_objects s ob' = Some p'" "ob' \<noteq> ob" for ob' p'
    using assms that by (auto simp: java_wf_def)
  with p assms show ?thesis by (auto simp: java_close_def closeNative_def java_wf_def split: if_splits)
next
  case False
  with assms show ?thesis by (force simp: java_close_def closeNative_def java_wf_def split: option.splits)
qed

lemma java_wf_exec: "java_wf s \<Longrightarrow> java_wf (snd (java_exec m part close name call s))"
proof (cases "\<exists>ob. call = Close ob")
  case False
  then have "same_files s (snd (java_exec m part close name call s))" by (intro same_files_exec) simp
  then show "java_wf s \<Longrightarrow> ?thesis" by (simp add: java_wf_def same_files_def)
qed (auto simp: java_wf_close)

lemma java_reach_wf: "java_reach m part close name s \<Longrightarrow> java_wf s"
proof (induction rule: java_reach.induct)
  case (New s p ob h w)
  then have "j_objects s ob' \<noteq> Some p" for ob' by (force simp: java_wf_def)
  with New show ?case by (auto simp: java_wf_def)
next
  case (Call s call d s')
  then show ?case using java_wf_exec [of s m part close name call] by simp
qed (simp add: java_wf_def)

text \<open>
  Memory safety of the Java files, over handles whose reads are bounded: every open object
  owns a live native object that no other object has, and every further call returns or throws.
\<close>

lemma java_calls_bounded:
  assumes "java_reach m part close name s" and "bounded_reads m part" and "\<forall>bb\<in>set (op_buffers call). buffer_ok bb s"
  shows "java_wf s \<and> fst (java_exec m part close name call s)"
proof
  show wf: "java_wf s" using assms(1) by (rule java_reach_wf)
  show "fst (java_exec m part close name call s)"
  proof (cases call)
    case (SetMetadataBuffer c ob buffer seal)
    then show ?thesis using assms(3) by (cases buffer) (auto intro: defined_java_setMetadata_buffer [OF wf])
  qed (use assms(2,3) wf in \<open>simp_all add: defined_java_close defined_java_read defined_java_write defined_java_read_buffer
      defined_java_write_buffer defined_java_setMetadata_array\<close>,
    (simp add: java_setMetadata_string_def setMetadataNative_string_def java_size_def sizeNative_def java_seal_def
      sealNative_def java_truncate_def truncateNative_def java_isWriteable_def isWritableNative_def Let_def throw_defs
      with_file_live defined_checkClosed [OF wf] split: option.splits prod.splits)+)
qed

section \<open>Where the binding fails\<close>

text \<open>
  The readers of metadata use the optional of a file that has no metadata, which is every file until
  \<open>setMetadata\<close> is called.
\<close>

theorem java_metadata_undefined:
  assumes "j_objects s ob = Some p" "p \<noteq> 0" "j_files s p = Some fh" "v_metadata m fh (j_world s) = None"
  shows "fst (java_metadata m ob s) = JUndefined" "fst (java_metadataAsByteArray m critical ob s) = JUndefined"
  using assms by (simp_all add: java_metadata_def java_metadataAsByteArray_def checkClosed_def metadataNative_def
      metadataAsByteArrayNative_def with_file_def GEDSFile_metadata_def)

text \<open>
  A buffer that is a window into an array is filled at the start of the array: for the slice \<open>bb\<close> the bytes
  belong at \<open>bb_arrayOffset bb + bb_position bb\<close>, but the call is the one for the same array and position without the
  window.
\<close>

theorem java_read_ignores_window:
  assumes "bb_direct bb = None"
  shows "java_read_buffer m part critical ob position bb s =
    (case java_read_buffer m part critical ob position (bb\<lparr>bb_arrayOffset := 0\<rparr>) s of
       (r, s') \<Rightarrow> (map_jni (apsnd (\<lambda>b. b\<lparr>bb_arrayOffset := bb_arrayOffset bb\<rparr>)) r, s'))"
  using assms
  by (auto simp: java_read_buffer_def checkClosed_def Let_def jni.map_comp split: option.splits prod.splits intro!: jni.map_cong)

text \<open>
  A native method runs outside of the monitor of its object. In steps: a thread passes \<open>checkClosed\<close> and reads
  the pointer, then the native code uses it; \<open>close\<close> may come between the two.
\<close>

datatype race_phase = Passed jlong | Finished "bool"

inductive race_step :: "('h \<Rightarrow> 'w \<Rightarrow> 'w) \<Rightarrow> nat \<Rightarrow> ('h, 'w) jvm \<times> race_phase option \<Rightarrow> ('h, 'w) jvm \<times> race_phase option \<Rightarrow> bool"
  for close ob where
  Check: "j_objects s ob = Some p \<Longrightarrow> p \<noteq> 0 \<Longrightarrow> race_step close ob (s, None) (s, Some (Passed p))"
| Native: "race_step close ob (s, Some (Passed p))
    (s, Some (Finished (fst (is_defined (with_file p s (\<lambda>_. (JReturn (), s)))))))"
| Other: "race_step close ob (s, phase) (snd (java_close close ob s), phase)"

theorem java_close_race:
  assumes "j_objects s ob = Some p" "p \<noteq> 0" "j_files s p = Some fh"
  shows "\<exists>s'. (race_step close ob)\<^sup>*\<^sup>* (s, None) (s', Some (Finished False))"
proof -
  let ?s' = "snd (java_close close ob s)"
  have "race_step close ob (s, None) (s, Some (Passed p))" using assms(1,2) by (rule race_step.Check)
  moreover have "race_step close ob (s, Some (Passed p)) (?s', Some (Passed p))" by (rule race_step.Other)
  moreover have "fst (is_defined (with_file p ?s' (\<lambda>_. (JReturn (), ?s')))) = False"
    using assms by (simp add: java_close_def closeNative_def with_file_def)
  then have "race_step close ob (?s', Some (Passed p)) (?s', Some (Finished False))"
    using race_step.Native [of close ob ?s' p] by simp
  ultimately show ?thesis by (meson converse_rtranclp_into_rtranclp rtranclp.rtrancl_refl)
qed

end
