(* ===== verification/Service_Operation.thy ===== *)
theory Service_Operation
  imports Handle_Heap "HOL-Library.Multiset"
begin

text \<open>
  How a node is operated: what starting and stopping it does on every branch, and which files the storage
  monitor chooses to relocate when the local storage is used beyond the spilling threshold.
\<close>

section \<open>Life cycle\<close>

lemma sync_keeps [simp]:
  "g_state (snd (GEDS_syncObjectStoreConfigs sv g)) = g_state g"
  "g_hostURI (snd (GEDS_syncObjectStoreConfigs sv g)) = g_hostURI g"
  "g_hostname (snd (GEDS_syncObjectStoreConfigs sv g)) = g_hostname g"
  by (auto simp: GEDS_syncObjectStoreConfigs_def on_metadata_def split: sum.splits prod.splits)

text \<open>
  The part of a start that may fail, step by step, and what it leaves behind: the outcome is a status, or the
  host name under which the node announces itself.
\<close>

lemma start_connects:
  assumes "g_state g = Stopped" "ms_connectionState (g_metadataService g) = Disconnected" "se_channel ev = ChannelReady"
    and "status_ok (se_server ev)" "GEDS_start sv ev g = (st, g')"
  defines "g2 \<equiv> g\<lparr>g_state := ServiceUnknown,
      g_metadataService := (g_metadataService g)\<lparr>ms_connectionState := Connected\<rparr>\<rparr>"
  shows "if g_hostname g \<noteq> []
    then st = OkStatus \<and> g_state g' = Running \<and> g_hostname g' = g_hostname g \<and>
      g_hostURI g' = computeHostUri (g_hostname g) (se_port ev)
    else case on_metadata (MetadataService_getConnectionInformation (sv_stub sv)) g2 of
      (Inl s, g3) \<Rightarrow> st = UnknownError (''Unable to obtain connection IP! Reason: '' @ status_message s) \<and> g' = g3
    | (Inr ip, g3) \<Rightarrow> st = OkStatus \<and> g_state g' = Running \<and> g_hostname g' = ip \<and>
        g_hostURI g' = computeHostUri ip (se_port ev)"
  using assms(1-5)
  by (auto simp: GEDS_start_def MetadataService_connect_def g2_def Let_def split: sum.splits prod.splits)

lemma start_failed:
  assumes "g_state h = ServiceUnknown"
  shows "GEDS_start sv ev h = (not_running h, h) \<and> GEDS_stop sv stop h = Some (Returns (not_running h, h))"
  using assms by (simp add: GEDS_start_def GEDS_stop_def)

lemma connection_information:
  assumes "ms_connectionState (g_metadataService g) = Connected"
  shows "on_metadata (MetadataService_getConnectionInformation stub) g =
    (case stub_GetConnectionInformation stub () (g_server g) of (answer, s) \<Rightarrow>
       ((case answer of
           Inl e \<Rightarrow> Inl (UnavailableError (''Unable to execute GetConnectionInformation: '' @ grpc_message e))
         | Inr response \<Rightarrow> (case ci_error response of Some e \<Rightarrow> Inl (convertStatus_from e)
             | None \<Rightarrow> Inr (ci_remoteaddress response))), g\<lparr>g_server := s\<rparr>))"
  using assms
  by (cases g) (auto simp: on_metadata_def MetadataService_getConnectionInformation_def split: sum.splits prod.splits option.splits)

text \<open>
  C34. Starting a node, on every branch, with its result. A node that is not stopped refuses with the name of its
  state and does not change. Otherwise the start fails if the metadata client is not disconnected, if
  the channel to the metadata server times out or cannot be opened, if the server of the node does not start,
  or if no host name is configured and the metadata server does not answer or answers with an
  error; the status tells which. Otherwise it succeeds: the node runs and announces itself as
  \<open>geds://host:port\<close>, where the host is the configured name or, without one, the address the metadata server
  reported, and the port that of its server. Any failure leaves the node in the unknown state, in which it
  can neither be started again nor stopped.
\<close>

theorem GEDS_start_outcomes:
  assumes "GEDS_start sv ev g = (st, g')"
  shows "if g_state g \<noteq> Stopped
    then st = FailedPreconditionError (''The service is '' @ ServiceState_to_string (g_state g) @ ''.'') \<and> g' = g
    else
      (let mds = ms_serverAddress (g_metadataService g);
           running = (\<lambda>host. st = OkStatus \<and> g_state g' = Running \<and> g_hostname g' = host \<and>
             g_hostURI g' = ''geds://'' @ host @ '':'' @ show_nat (unat (se_port ev)));
           noAddress = (\<lambda>reason. st = UnknownError (''Unable to obtain connection IP! Reason: '' @ reason))
       in if ms_connectionState (g_metadataService g) \<noteq> Disconnected
          then st = UnknownError ''Cannot reinitialize service.''
          else case se_channel ev of
            ChannelTimeout \<Rightarrow> st = UnavailableError (''Could not connect to '' @ mds @ ''.'')
          | ChannelException what \<Rightarrow>
              st = UnavailableError (''Could not open channel with '' @ mds @ ''. Reason'' @ what)
          | ChannelReady \<Rightarrow>
              if \<not> status_ok (se_server ev) then st = se_server ev
              else if g_hostname g \<noteq> [] then running (g_hostname g)
              else case fst (stub_GetConnectionInformation (sv_stub sv) () (g_server g)) of
                Inl e \<Rightarrow> noAddress (''Unable to execute GetConnectionInformation: '' @ grpc_message e)
              | Inr response \<Rightarrow> (case ci_error response of
                    Some e \<Rightarrow> noAddress (status_message (convertStatus_from e))
                  | None \<Rightarrow> running (ci_remoteaddress response))) \<and>
      (\<not> status_ok st \<longrightarrow> g_state g' = ServiceUnknown \<and>
         (\<forall>(ev' :: start_events) stop. GEDS_start sv ev' g' = (not_running g', g') \<and>
            GEDS_stop sv stop g' = Some (Returns (not_running g', g'))))"
proof (cases "g_state g = Stopped")
  case False
  with assms show ?thesis by (auto simp: GEDS_start_def not_running_def)
next
  case stopped: True
  have dead: "g_state g' = ServiceUnknown \<Longrightarrow> \<forall>(ev' :: start_events) stop. GEDS_start sv ev' g' = (not_running g', g') \<and>
      GEDS_stop sv stop g' = Some (Returns (not_running g', g'))"
    by (simp add: start_failed)
  show ?thesis
  proof (cases "ms_connectionState (g_metadataService g) = Disconnected \<and> se_channel ev = ChannelReady \<and>
      status_ok (se_server ev)")
    case False
    then have "g_state g' = ServiceUnknown \<and> \<not> status_ok st"
      using assms stopped
      by (auto simp: GEDS_start_def MetadataService_connect_def Let_def split: if_splits channel_result.splits)
    with dead have "g_state g' = ServiceUnknown \<and> (\<forall>(ev' :: start_events) stop. GEDS_start sv ev' g' = (not_running g', g') \<and>
      GEDS_stop sv stop g' = Some (Returns (not_running g', g')))" by blast
    then show ?thesis
      using assms stopped False
      by (auto simp: GEDS_start_def MetadataService_connect_def Let_def split: if_splits channel_result.splits)
  next
    case ready: True
    let ?g2 = "g\<lparr>g_state := ServiceUnknown,
      g_metadataService := (g_metadataService g)\<lparr>ms_connectionState := Connected\<rparr>\<rparr>"
    note start = start_connects [OF stopped _ _ _ assms]
    obtain answer s where a: "stub_GetConnectionInformation (sv_stub sv) () (g_server g) = (answer, s)" by fastforce
    have i: "on_metadata (MetadataService_getConnectionInformation (sv_stub sv)) ?g2 =
       ((case answer of
           Inl e \<Rightarrow> Inl (UnavailableError (''Unable to execute GetConnectionInformation: '' @ grpc_message e))
         | Inr response \<Rightarrow> (case ci_error response of Some e \<Rightarrow> Inl (convertStatus_from e)
             | None \<Rightarrow> Inr (ci_remoteaddress response))), ?g2\<lparr>g_server := s\<rparr>)"
      using connection_information [of ?g2 "sv_stub sv"] a by simp
    have "g_state g' = ServiceUnknown" if "\<not> status_ok st"
      using start ready i that by (auto split: if_splits sum.splits option.splits)
    with start ready i a stopped dead show ?thesis
      by (auto simp: Let_def computeHostUri_def split: if_splits sum.splits option.splits)
  qed
qed

text \<open>An idle node whose connection to the metadata server times out, and one that is told its address.\<close>

theorem GEDS_start_outcomes_witness:
  "\<exists>g' g''. GEDS_start (heap_service sample_host) (all_well\<lparr>se_channel := ChannelTimeout\<rparr>) idle_node =
      (UnavailableError ''Could not connect to mds:1.'', g') \<and>
    GEDS_start (heap_service sample_host) all_well g' = (not_running g', g') \<and>
    GEDS_start (heap_service sample_host) all_well idle_node = (OkStatus, g'') \<and>
    g_hostURI g'' = ''geds://10.0.0.1:7''"
proof -
  let ?r = "GEDS_start (heap_service sample_host) (all_well\<lparr>se_channel := ChannelTimeout\<rparr>) idle_node"
  let ?r2 = "GEDS_start (heap_service sample_host) all_well idle_node"
  have r: "fst ?r = UnavailableError ''Could not connect to mds:1.''" "g_state idle_node = Stopped" "fst ?r2 = OkStatus"
    by code_simp+
  have env: "ms_connectionState (g_metadataService idle_node) = Disconnected" "g_hostname idle_node = []"
    "map_sum (\<lambda>_. ()) (\<lambda>c. (ci_error c, ci_remoteaddress c)) (fst (stub_GetConnectionInformation
      (sv_stub (heap_service sample_host)) () (g_server idle_node))) = Inr (None, ''10.0.0.1'')"
    "ServiceState_to_string Stopped = ''Stopped''"
    by code_simp+
  then obtain resp where resp: "fst (stub_GetConnectionInformation (sv_stub (heap_service sample_host)) ()
      (g_server idle_node)) = Inr resp" "ci_error resp = None" "ci_remoteaddress resp = ''10.0.0.1''"
    by (cases "fst (stub_GetConnectionInformation (sv_stub (heap_service sample_host)) () (g_server idle_node))") auto
  obtain g' where g': "?r = (UnavailableError ''Could not connect to mds:1.'', g')" using r(1) by (metis prod.collapse)
  obtain g'' where g'': "?r2 = (OkStatus, g'')" using r(3) by (metis prod.collapse)
  have "show_nat (unat (7 :: u16)) = ''7''" by code_simp
  then have "g_hostURI g'' = ''geds://10.0.0.1:7''"
    using GEDS_start_outcomes [OF g''] r(2) env(1,2) resp by (simp add: all_well_def del: heap_service_simps)
  moreover have "GEDS_start (heap_service sample_host) all_well g' = (not_running g', g')"
    using GEDS_start_outcomes [OF g'] r(2) by simp
  ultimately show ?thesis using g' g'' by blast
qed

text \<open>What a successful start does to the web server, and what it keeps.\<close>

lemma sync_keeps_more [simp]:
  "g_httpServer (snd (GEDS_syncObjectStoreConfigs sv g)) = g_httpServer g"
  "g_config (snd (GEDS_syncObjectStoreConfigs sv g)) = g_config g"
  by (auto simp: GEDS_syncObjectStoreConfigs_def on_metadata_def split: sum.splits prod.splits)

lemma on_metadata_keeps:
  assumes "on_metadata call g = (r, g')"
  shows "g_httpServer g' = g_httpServer g \<and> g_config g' = g_config g \<and> g_state g' = g_state g"
  using assms by (auto simp: on_metadata_def split: prod.splits)

lemma GEDS_start_keeps:
  assumes "GEDS_start sv ev g = (st, g')" "status_ok st" "g_state g = Stopped"
  shows "g_httpServer g' = snd (HttpServer_start (se_http ev) (g_httpServer g))" "g_config g' = g_config g"
    "g_state g' = Running"
  using assms
  by (auto simp: GEDS_start_def Let_def split: prod.splits if_splits sum.splits dest!: on_metadata_keeps)

text \<open>
  Stopping a node that was started. If its web server could bind the port, the first stop succeeds with the
  status of the server, empties the tables and leaves the node stopped. If it could not, because
  another node of the host has the port, starting succeeds all the same, but stopping uses a null pointer. And a node
  that is started a second time after a stop cannot be stopped again: joining the thread of the web
  server throws.
\<close>

theorem GEDS_stop_outcomes:
  assumes "GEDS_start sv ev g = (st, g')" "status_ok st" "g_state g = Stopped"
    and "\<not> gc_force_relocation_when_stopping (g_config g)"
  shows "(hs_acceptor (g_httpServer g) = None \<and> se_http ev = None \<longrightarrow>
      (\<exists>g2. GEDS_stop sv stop g' = Some (Returns (stop, g2)) \<and> g_state g2 = Stopped \<and> g_fileHandles g2 = [] \<and>
        g_fileTransfers g2 = [] \<and> (\<forall>ev' st' g3 stop'. GEDS_start sv ev' g2 = (st', g3) \<and> status_ok st' \<longrightarrow>
          GEDS_stop sv stop' g3 = Some (Raises ''std::system_error'')))) \<and>
    (hs_acceptor (g_httpServer g) = None \<and> se_http ev \<noteq> None \<longrightarrow>
      GEDS_stop sv stop g' = Some (Raises ''null pointer''))"
proof (intro conjI impI)
  note start = GEDS_start_keeps [OF assms(1-3)]
  assume "hs_acceptor (g_httpServer g) = None \<and> se_http ev \<noteq> None"
  then show "GEDS_stop sv stop g' = Some (Raises ''null pointer'')"
    using start assms(4) by (auto simp: GEDS_stop_def HttpServer_stop_def HttpServer_start_def split: prod.splits)
next
  note start = GEDS_start_keeps [OF assms(1-3)]
  assume h: "hs_acceptor (g_httpServer g) = None \<and> se_http ev = None"
  obtain r c where c: "MetadataService_disconnect (g_metadataService g') = (r, c)" by fastforce
  let ?http = "(g_httpServer g')\<lparr>hs_ioStopped := True, hs_acceptor := Some False, hs_joinable := False\<rparr>"
  let ?g2 = "g'\<lparr>g_metadataService := c, g_httpServer := ?http, g_fileHandles := [], g_fileTransfers := [], g_state := Stopped\<rparr>"
  have "HttpServer_stop (g_httpServer g') = Returns ?http"
    using h start(1) by (simp add: HttpServer_stop_def HttpServer_start_def)
  then have "GEDS_stop sv stop g' = Some (Returns (stop, ?g2))"
    using start assms(4) c by (simp add: GEDS_stop_def ConcurrentMap_clear_def)
  moreover have "GEDS_stop sv stop' g3 = Some (Raises ''std::system_error'')"
    if "GEDS_start sv ev' ?g2 = (st', g3)" "status_ok st'" for ev' st' g3 stop'
    using GEDS_start_keeps [OF that] start(2) assms(4)
    by (auto simp: GEDS_stop_def HttpServer_stop_def HttpServer_start_def split: prod.splits)
  ultimately show "\<exists>g2. GEDS_stop sv stop g' = Some (Returns (stop, g2)) \<and> g_state g2 = Stopped \<and> g_fileHandles g2 = [] \<and>
        g_fileTransfers g2 = [] \<and> (\<forall>ev' st' g3 stop'. GEDS_start sv ev' g2 = (st', g3) \<and> status_ok st' \<longrightarrow>
          GEDS_stop sv stop' g3 = Some (Raises ''std::system_error''))"
    by (intro exI [of _ ?g2] conjI allI impI) auto
qed

theorem GEDS_stop_outcomes_witness:
  "status_ok (fst (GEDS_start (heap_service sample_host) (all_well\<lparr>se_http := Some ''bind''\<rparr>) idle_node)) \<and>
   GEDS_stop (heap_service sample_host) OkStatus
     (snd (GEDS_start (heap_service sample_host) (all_well\<lparr>se_http := Some ''bind''\<rparr>) idle_node)) =
   Some (Raises ''null pointer'')"
proof -
  let ?r = "GEDS_start (heap_service sample_host) (all_well\<lparr>se_http := Some ''bind''\<rparr>) idle_node"
  have r: "status_ok (fst ?r)" "g_state idle_node = Stopped" "\<not> gc_force_relocation_when_stopping (g_config idle_node)"
    "hs_acceptor (g_httpServer idle_node) = None"
    by code_simp+
  from GEDS_stop_outcomes [OF prod.collapse [symmetric] r(1-3)] r(1,4) show ?thesis by simp
qed

section \<open>The storage monitor\<close>

lemma sum_sizes_exact:
  assumes "sum_list (map sz hs) < 2 ^ 64"
  shows "sum_sizes sz hs = sum_list (map sz hs)"
proof -
  have "foldl (\<lambda>n h. wrap64 (n + sz h)) a hs = a + sum_list (map sz hs)" if "a + sum_list (map sz hs) < 2 ^ 64" for a
    using that by (induction hs arbitrary: a) (simp_all add: add.assoc)
  from this [of 0] assms show ?thesis by (simp add: sum_sizes_def)
qed

lemma select_tasks_shortest:
  assumes "acc + sum_list (map sz hs) < 2 ^ 64"
  shows "\<exists>n \<le> length hs. select_tasks sz excess acc hs = take n hs \<and>
    (n < length hs \<longrightarrow> excess < acc + sum_list (map sz (take n hs))) \<and>
    (\<forall>m < n. acc + sum_list (map sz (take m hs)) \<le> excess)"
  using assms
proof (induction hs arbitrary: acc)
  case Nil
  then show ?case by simp
next
  case (Cons h hs)
  show ?case
  proof (cases "excess < acc")
    case True
    then show ?thesis by (intro exI [of _ 0]) simp
  next
    case False
    have "acc + sz h < 2 ^ 64" using Cons.prems by simp
    then have w: "wrap64 (acc + sz h) = acc + sz h" by (rule wrap64_id)
    obtain n where n: "n \<le> length hs" "select_tasks sz excess (acc + sz h) hs = take n hs"
      "n < length hs \<longrightarrow> excess < acc + sz h + sum_list (map sz (take n hs))"
      "\<forall>m < n. acc + sz h + sum_list (map sz (take m hs)) \<le> excess"
      using Cons.IH [of "acc + sz h"] Cons.prems by (auto simp: add.assoc)
    have "acc + sum_list (map sz (take m (h # hs))) \<le> excess" if "m < Suc n" for m
      using that False n(4) by (cases m) (auto simp: add.assoc)
    then show ?thesis using False w n by (intro exI [of _ "Suc n"]) (simp add: add.assoc)
  qed
qed

text \<open>
  C36. What the storage monitor relocates. The candidates are the registered handles that are relocatable, valid
  and not open, ordered by the time of their release. The threshold is the configured fraction of the available
  storage, computed in \<open>double\<close>. As long as the used storage, the sum of all local sizes,
  does not exceed the threshold, nothing is chosen. Otherwise the choice is the shortest run of
  candidates, from the one released longest ago, whose sizes together exceed the excess, or all of
  them if they do not suffice; no shorter run would exceed it. The sizes are assumed to add up without
  overflow.
\<close>

theorem monitor_spills_least_recent:
  fixes sv g
  defines "sz \<equiv> \<lambda>fh. v_localStorageSize (sv_handle sv) fh g"
  defines "used \<equiv> sum_list (map sz (map snd (g_fileHandles g)))"
  defines "target \<equiv> nat \<lfloor>double_round (gc_storage_spilling_fraction (g_config g) *
    double_round (of_nat (gc_available_local_storage (g_config g))))\<rfloor>"
  assumes "used < 2 ^ 64"
  shows "if used \<le> target then monitor_tasks sv g = []
    else \<exists>cands n. mset cands = mset (filter (\<lambda>fh. sv_isRelocatable sv fh g \<and> sv_isValid sv fh g \<and>
        sv_openCount sv fh g = 0) (map snd (g_fileHandles g))) \<and> sorted (map (\<lambda>fh. sv_lastReleased sv fh g) cands) \<and>
      n \<le> length cands \<and> monitor_tasks sv g = take n cands \<and>
      (n < length cands \<longrightarrow> used - target < sum_list (map sz (take n cands))) \<and>
      (\<forall>m < n. sum_list (map sz (take m cands)) \<le> used - target)"
proof -
  let ?all = "map snd (g_fileHandles g)"
  define cands where "cands = sort_key (\<lambda>fh. sv_lastReleased sv fh g) (spill_candidates sv g)"
  have u: "sum_sizes sz ?all = used" using sum_sizes_exact [of sz ?all] assms(4) by (simp add: used_def)
  have "sum_list (map sz cands) = sum_list (map sz (spill_candidates sv g))"
    by (simp add: cands_def flip: sum_mset_sum_list)
  also have "\<dots> \<le> used"
    unfolding used_def spill_candidates_def by (rule sum_list_filter_le_nat)
  finally have "0 + sum_list (map sz cands) < 2 ^ 64" using assms(4) by linarith
  from select_tasks_shortest [OF this, of "used - target"] obtain n where
    "n \<le> length cands" "select_tasks sz (used - target) 0 cands = take n cands"
    "n < length cands \<longrightarrow> used - target < sum_list (map sz (take n cands))"
    "\<forall>m < n. sum_list (map sz (take m cands)) \<le> used - target" by auto
  moreover have "monitor_tasks sv g = (if target < used then select_tasks sz (used - target) 0 cands else [])"
    using u by (simp add: monitor_tasks_def targetStorage_def Let_def sz_def target_def cands_def)
  moreover have "spill_candidates sv g = filter (\<lambda>fh. sv_isRelocatable sv fh g \<and> sv_isValid sv fh g \<and>
        sv_openCount sv fh g = 0) (map snd (g_fileHandles g))"
    unfolding spill_candidates_def by (rule filter_cong [OF refl]) auto
  moreover have "mset cands = mset (spill_candidates sv g)" "sorted (map (\<lambda>fh. sv_lastReleased sv fh g) cands)"
    by (simp_all add: cands_def)
  ultimately show ?thesis by auto
qed


text \<open>A node with one closed file of eight bytes and a threshold of five.\<close>

definition full_node :: "(MetadataServiceImpl, memory_s3) node" where
  "full_node = snd (v_writeBytes (heap_methods sample_host) 0 [1, 2, 3, 4, 5, 6, 7, 8] 0
     (snd (GEDS_createAsFileHandle (heap_service sample_host) ''abc'' ''x'' False sample_node)))"

theorem monitor_spills_least_recent_witness:
  "monitor_tasks (heap_service sample_host) full_node = [0]"
proof -
  let ?sv = "heap_service sample_host"
  have code: "map snd (g_fileHandles full_node) = [0]"
    "v_localStorageSize (sv_handle ?sv) 0 full_node = 8"
    "filter (\<lambda>fh. sv_isRelocatable ?sv fh full_node \<and> sv_isValid ?sv fh full_node \<and>
       sv_openCount ?sv fh full_node = 0) (map snd (g_fileHandles full_node)) = [0]"
    "g_config full_node = sample_options"
    by code_simp+
  have "double_round 10 = 10" "double_round 5 = 5"
    using double_round_exact [of 10] double_round_exact [of 5] by simp_all
  then have "nat \<lfloor>double_round (gc_storage_spilling_fraction (g_config full_node) *
      double_round (of_nat (gc_available_local_storage (g_config full_node))))\<rfloor> = 5"
    by (simp add: code(4) sample_options_def)
  with monitor_spills_least_recent [of ?sv full_node]
  obtain cands n where *: "mset cands = mset [0 :: nat]" "n \<le> length cands"
    "monitor_tasks ?sv full_node = take n cands"
    "n < length cands \<longrightarrow> 3 < sum_list (map (\<lambda>fh. v_localStorageSize (sv_handle ?sv) fh full_node) (take n cands))"
    unfolding code(3) by (auto simp: code(1,2) simp del: heap_service_simps)
  then have "cands = [0]" using mset_single_iff_right [of 0 cands] by auto
  with * show ?thesis by (cases n) (simp_all del: heap_service_simps)
qed

end
