(* ===== verification/File_System.thy ===== *)
theory File_System
  imports Service_Operation
begin

text \<open>
  \<^verbatim>\<open>src/libgeds/Filesystem.cpp\<close> and its users: the destructors of the two file classes, which delete the file they
  own, and \<open>GEDS::factory\<close>, which gives a node a directory of its own. The operating system is a table of
  directory entries and a list of open descriptors. A call may in addition report an error for a
  reason outside of this table (permissions, quotas): its argument \<open>fault\<close>. The names that \<open>mkdtemp\<close> and
  \<open>mkstemp\<close> try are an argument too, since they are random.
\<close>

section \<open>System calls\<close>

datatype errno = EEXIST | ENOENT | EISDIR | EINVAL | Errno string

fun strerror :: "errno \<Rightarrow> string" where
  "strerror EEXIST = ''File exists''"
| "strerror ENOENT = ''No such file or directory''"
| "strerror EISDIR = ''Is a directory''"
| "strerror EINVAL = ''Invalid argument''"
| "strerror (Errno reason) = reason"

datatype dir_entry = Directory | Regular

record os =
  os_entries :: "string \<rightharpoonup> dir_entry"
  os_fds :: "int list"

text \<open>\<open>open\<close> returns the lowest descriptor that is free.\<close>

definition lowest_fd :: "int list \<Rightarrow> int" where
  "lowest_fd fds = hd (filter (\<lambda>n. n \<notin> set fds) (map int [0..<Suc (length fds)]))"

definition sys_create :: "string \<Rightarrow> os \<Rightarrow> int \<times> os" where
  "sys_create path s =
     (let fd = lowest_fd (os_fds s)
      in (fd, s\<lparr>os_entries := (os_entries s)(path \<mapsto> Regular), os_fds := fd # os_fds s\<rparr>))"

text \<open>\<open>open\<close> with \<open>O_CREAT | O_EXCL\<close>.\<close>

definition sys_open_excl :: "errno option \<Rightarrow> string \<Rightarrow> os \<Rightarrow> (errno + int) \<times> os" where
  "sys_open_excl fault path s =
     (case fault of
        Some e \<Rightarrow> (Inl e, s)
      | None \<Rightarrow>
          if os_entries s path \<noteq> None then (Inl EEXIST, s)
          else case sys_create path s of (fd, s1) \<Rightarrow> (Inr fd, s1))"

text \<open>Closing a descriptor that is not open has no effect (\<open>EBADF\<close>).\<close>

definition sys_close :: "int \<Rightarrow> os \<Rightarrow> os" where
  "sys_close fd s = s\<lparr>os_fds := remove1 fd (os_fds s)\<rparr>"

definition sys_unlink :: "errno option \<Rightarrow> string \<Rightarrow> os \<Rightarrow> errno option \<times> os" where
  "sys_unlink fault path s =
     (case fault of
        Some e \<Rightarrow> (Some e, s)
      | None \<Rightarrow>
          (case os_entries s path of
             None \<Rightarrow> (Some ENOENT, s)
           | Some Directory \<Rightarrow> (Some EISDIR, s)
           | Some Regular \<Rightarrow> (None, s\<lparr>os_entries := (os_entries s)(path := None)\<rparr>)))"

text \<open>
  \<open>mkdtemp\<close> and \<open>mkstemp\<close> replace the last six characters of the buffer by one candidate after the other until
  a name is free. The result is an error, if any, and what the buffer holds then.
\<close>

fun try_names :: "errno option \<Rightarrow> string \<Rightarrow> string list \<Rightarrow> string \<Rightarrow> os \<Rightarrow> errno option \<times> string" where
  "try_names fault stem [] buffer s = (Some EEXIST, buffer)"
| "try_names fault stem (c # cs) buffer s =
     (case fault of
        Some e \<Rightarrow> (Some e, stem @ c)
      | None \<Rightarrow>
          if os_entries s (stem @ c) = None then (None, stem @ c)
          else try_names fault stem cs (stem @ c) s)"

definition temp_name :: "errno option \<Rightarrow> string list \<Rightarrow> string \<Rightarrow> os \<Rightarrow> errno option \<times> string" where
  "temp_name fault candidates template s =
     (if suffix ''XXXXXX'' template
      then try_names fault (take (length template - 6) template) candidates template s
      else (Some EINVAL, template))"

definition sys_mkdtemp :: "errno option \<Rightarrow> string list \<Rightarrow> string \<Rightarrow> os \<Rightarrow> (errno option \<times> string) \<times> os" where
  "sys_mkdtemp fault candidates template s =
     (case temp_name fault candidates template s of
        (Some e, buffer) \<Rightarrow> ((Some e, buffer), s)
      | (None, buffer) \<Rightarrow> ((None, buffer), s\<lparr>os_entries := (os_entries s)(buffer \<mapsto> Directory)\<rparr>))"

definition sys_mkstemp :: "errno option \<Rightarrow> string list \<Rightarrow> string \<Rightarrow> os \<Rightarrow> ((errno + int) \<times> string) \<times> os" where
  "sys_mkstemp fault candidates template s =
     (case temp_name fault candidates template s of
        (Some e, buffer) \<Rightarrow> ((Inl e, buffer), s)
      | (None, buffer) \<Rightarrow> (case sys_create buffer s of (fd, s1) \<Rightarrow> ((Inr fd, buffer), s1)))"

section \<open>Operations of Filesystem.cpp\<close>

text \<open>
  \<open>createFile\<close> does not treat \<open>EEXIST\<close> as an error: it returns the result \<open>-1\<close> of \<open>open\<close> as the descriptor.
\<close>

definition createFile :: "errno option \<Rightarrow> string \<Rightarrow> os \<Rightarrow> int StatusOr \<times> os" where
  "createFile fault path s =
     (case sys_open_excl fault path s of
        (Inl e, s1) \<Rightarrow>
          if e \<noteq> EEXIST
          then (Inl (UnknownError (''Unable to create file '' @ path @ '': '' @ strerror e)), s1)
          else (Inr (- 1), s1)
      | (Inr fd, s1) \<Rightarrow> (Inr fd, s1))"

definition touchFile :: "errno option \<Rightarrow> string \<Rightarrow> os \<Rightarrow> Status \<times> os" where
  "touchFile fault path s =
     (case createFile fault path s of
        (Inl st, s1) \<Rightarrow> (st, s1)
      | (Inr fd, s1) \<Rightarrow> (OkStatus, sys_close fd s1))"

definition removeFile :: "errno option \<Rightarrow> string \<Rightarrow> os \<Rightarrow> Status \<times> os" where
  "removeFile fault path s =
     (case sys_unlink fault path s of
        (None, s1) \<Rightarrow> (OkStatus, s1)
      | (Some e, s1) \<Rightarrow>
          if e \<noteq> ENOENT
          then (UnknownError (''Unable to delete file '' @ path @ '': '' @ strerror e), s1)
          else (OkStatus, s1))"

text \<open>
  \<open>std::filesystem::is_directory\<close> throws when the status cannot be read (\<open>statError\<close>); \<open>create_directory\<close>
  reports its error in \<open>errorCode\<close>, none if the directory exists.
\<close>

definition create_directory :: "errno option \<Rightarrow> string \<Rightarrow> os \<Rightarrow> (bool \<times> errno option) \<times> os" where
  "create_directory fault path s =
     (case fault of
        Some e \<Rightarrow> ((False, Some e), s)
      | None \<Rightarrow>
          (case os_entries s path of
             None \<Rightarrow> ((True, None), s\<lparr>os_entries := (os_entries s)(path \<mapsto> Directory)\<rparr>)
           | Some Directory \<Rightarrow> ((False, None), s)
           | Some Regular \<Rightarrow> ((False, Some EEXIST), s)))"

definition fs_mkdir :: "string option \<Rightarrow> errno option \<Rightarrow> string \<Rightarrow> os \<Rightarrow> Status outcome \<times> os" where
  "fs_mkdir statError fault path s =
     (case statError of
        Some what \<Rightarrow> (Raises what, s)
      | None \<Rightarrow>
          if os_entries s path \<noteq> Some Directory
          then (case create_directory fault path s of
                  ((success, errorCode), s1) \<Rightarrow>
                    (case (success, errorCode) of
                       (False, Some e) \<Rightarrow>
                         (Returns (UnknownError (''Unable to create directory '' @ path @
                            CHR 0x27 # '' Reason: '' @ strerror e)), s1)
                     | _ \<Rightarrow> (Returns OkStatus, s1)))
          else (Returns OkStatus, s))"

definition mktempdir :: "errno option \<Rightarrow> string list \<Rightarrow> string \<Rightarrow> os \<Rightarrow> string outcome \<times> os" where
  "mktempdir fault candidates name s =
     (let template = (if suffix ''XXXXXX'' name then name else name @ ''XXXXXX'')
      in case sys_mkdtemp fault candidates template s of
           ((Some e, path), s1) \<Rightarrow>
             (Raises (''mkdtemp returned an error while trying to create a tempdir with pattern '' @
                path @ '': '' @ strerror e), s1)
         | ((None, path), s1) \<Rightarrow> (Returns path, s1))"

definition tempFile_folder :: "errno option \<Rightarrow> string list \<Rightarrow> string \<Rightarrow> string \<Rightarrow> os \<Rightarrow> string outcome \<times> os" where
  "tempFile_folder fault candidates folder stem s =
     (let path = folder @ ''/'' @ stem @ ''XXXXXX'';
          tmp = path @ ''XXXXXX''
      in case sys_mkstemp fault candidates tmp s of
           ((Inl e, buffer), s1) \<Rightarrow>
             (Raises (''mkstemp returned an invalid file descriptor for '' @ stem @ '': '' @ strerror e), s1)
         | ((Inr fd, buffer), s1) \<Rightarrow> (Returns buffer, sys_close fd s1))"

text \<open>\<open>std::filesystem::temp_directory_path\<close> returns the directory of temporary files or throws.\<close>

definition tempFile :: "string outcome \<Rightarrow> errno option \<Rightarrow> string list \<Rightarrow> string \<Rightarrow> os \<Rightarrow> string outcome \<times> os" where
  "tempFile temp_directory_path fault candidates stem s =
     (case temp_directory_path of
        Raises what \<Rightarrow> (Raises what, s)
      | Returns folder \<Rightarrow> tempFile_folder fault candidates folder stem s)"

definition tempFile_default :: "string outcome \<Rightarrow> errno option \<Rightarrow> string list \<Rightarrow> os \<Rightarrow> string outcome \<times> os" where
  "tempFile_default temp_directory_path fault candidates s =
     tempFile temp_directory_path fault candidates ''GEDS_tempfile'' s"

section \<open>Users\<close>

definition LocalFile_destroy :: "errno option \<Rightarrow> LocalFile \<Rightarrow> os \<Rightarrow> LocalFile \<times> os" where
  "LocalFile_destroy fault f s =
     (if 0 \<le> lf_fd f
      then (f\<lparr>lf_fd := - 1\<rparr>, snd (removeFile fault (lf_path f) (sys_close (lf_fd f) s)))
      else (f, s))"

definition MMAPFile_destroy :: "errno option \<Rightarrow> MMAPFile \<Rightarrow> os \<Rightarrow> MMAPFile \<times> os" where
  "MMAPFile_destroy fault f0 s =
     (let f = MMAPFile_release f0
      in if 0 \<le> mf_fd f
         then (f\<lparr>mf_fd := - 1\<rparr>, snd (removeFile fault (mf_path f) (sys_close (mf_fd f) s)))
         else (f, s))"

definition computeLocalStoragePath :: "errno option \<Rightarrow> string list \<Rightarrow> string \<Rightarrow> os \<Rightarrow> string outcome \<times> os" where
  "computeLocalStoragePath fault candidates path s =
     (if suffix ''XXXXXX'' path then mktempdir fault candidates path s else (Returns path, s))"

definition GEDS_factory where
  "GEDS_factory fault candidates config uuid mkdirError server s3 heap s =
     (case computeLocalStoragePath fault candidates (gc_localStoragePath config) s of
        (Raises what, s1) \<Rightarrow> (Raises what, s1)
      | (Returns path, s1) \<Rightarrow>
          (GEDS_new (config\<lparr>gc_localStoragePath := path\<rparr>) uuid mkdirError server s3 heap, s1))"

text \<open>The destructor stops a service that is still running; \<^const>\<open>None\<close> is a stop that never returns.\<close>

definition GEDS_destroy where
  "GEDS_destroy sv serverStop g =
     (if g_state g = Running then map_option (map_outcome snd) (GEDS_stop sv serverStop g) else Some (Returns g))"

section \<open>Descriptors\<close>

lemma lowest_fd_free:
  "lowest_fd fds \<notin> set fds" "0 \<le> lowest_fd fds"
proof -
  have "\<not> set (map int [0..<Suc (length fds)]) \<subseteq> set fds"
  proof
    assume "set (map int [0..<Suc (length fds)]) \<subseteq> set fds"
    then have "card (set (map int [0..<Suc (length fds)])) \<le> length fds"
      by (meson card_length card_mono finite_set le_trans)
    then show False by (simp add: card_image del: upt_Suc)
  qed
  then have "filter (\<lambda>n. n \<notin> set fds) (map int [0..<Suc (length fds)]) \<noteq> []"
    by (auto simp: filter_empty_conv simp del: upt_Suc)
  then have "lowest_fd fds \<in> set (filter (\<lambda>n. n \<notin> set fds) (map int [0..<Suc (length fds)]))"
    unfolding lowest_fd_def by (rule hd_in_set)
  then show "lowest_fd fds \<notin> set fds" "0 \<le> lowest_fd fds"
    by (auto simp del: upt_Suc)
qed

lemma sys_close_create:
  "sys_create path s = (fd, s1) \<Longrightarrow> sys_close fd s1 = s\<lparr>os_entries := (os_entries s)(path \<mapsto> Regular)\<rparr>"
  by (auto simp: sys_create_def sys_close_def Let_def)

section \<open>Creating and removing files\<close>

text \<open>
  Touching a file leaves no descriptor open. It succeeds on an existing path of any kind, since \<open>-1\<close> is never an
  open descriptor.
\<close>

theorem touchFile_effect:
  assumes "\<forall>fd\<in>set (os_fds s). 0 \<le> fd"
  shows "touchFile None path s = (OkStatus, case os_entries s path of
      Some _ \<Rightarrow> s | None \<Rightarrow> s\<lparr>os_entries := (os_entries s)(path \<mapsto> Regular)\<rparr>)"
    and "touchFile (Some e) path s =
      (if e = EEXIST then OkStatus else UnknownError (''Unable to create file '' @ path @ '': '' @ strerror e), s)"
proof -
  have close: "sys_close (- 1) s = s"
  proof -
    have "- 1 \<notin> set (os_fds s)" using assms by force
    then show ?thesis by (simp add: sys_close_def remove1_idem)
  qed
  show "touchFile None path s = (OkStatus, case os_entries s path of
      Some _ \<Rightarrow> s | None \<Rightarrow> s\<lparr>os_entries := (os_entries s)(path \<mapsto> Regular)\<rparr>)"
    using close
    by (auto simp: touchFile_def createFile_def sys_open_excl_def sys_close_create
        split: option.splits prod.splits)
  show "touchFile (Some e) path s =
      (if e = EEXIST then OkStatus else UnknownError (''Unable to create file '' @ path @ '': '' @ strerror e), s)"
    using close by (simp add: touchFile_def createFile_def sys_open_excl_def)
qed

text \<open>\<open>createFile\<close> on a path that exists succeeds with a descriptor that is none.\<close>

theorem createFile_existing:
  "os_entries s path \<noteq> None \<Longrightarrow> createFile None path s = (Inr (- 1), s)"
  by (simp add: createFile_def sys_open_excl_def)

text \<open>Removal succeeds exactly if no directory is in the way, and then the path is free.\<close>

theorem removeFile_effect:
  "fst (removeFile None path s) = OkStatus \<longleftrightarrow> os_entries s path \<noteq> Some Directory"
  "snd (removeFile None path s) =
     (if os_entries s path = Some Directory then s else s\<lparr>os_entries := (os_entries s)(path := None)\<rparr>)"
  by (auto simp: removeFile_def sys_unlink_def OkStatus_def fun_upd_idem
      split: option.splits dir_entry.splits)

section \<open>Temporary names\<close>

lemma try_names_None:
  "try_names None stem cs buffer s = (None, p) \<Longrightarrow>
     os_entries s p = None \<and> (\<exists>c\<in>set cs. p = stem @ c)"
  by (induction cs arbitrary: buffer) (auto split: if_splits)

lemma try_names_fault: "try_names (Some e) stem cs buffer s \<noteq> (None, p)"
  by (cases cs) auto

lemma try_names_ends:
  "c \<in> set cs \<Longrightarrow> os_entries s (stem @ c) = None \<Longrightarrow> \<exists>p. try_names None stem cs buffer s = (None, p)"
  by (induction cs arbitrary: buffer) auto

lemma suffix_stem: "suffix x t \<Longrightarrow> t = take (length t - length x) t @ x"
  by (auto simp: suffix_def)

lemma temp_name_fresh:
  assumes "temp_name fault candidates t s = (None, p)"
  shows "os_entries s p = None" "\<exists>c\<in>set candidates. p = take (length t - 6) t @ c"
proof -
  have n: "try_names fault (take (length t - 6) t) candidates t s = (None, p)"
    using assms by (simp add: temp_name_def split: if_splits)
  then have "fault = None" by (cases fault) (simp_all add: try_names_fault)
  with n try_names_None show "os_entries s p = None" "\<exists>c\<in>set candidates. p = take (length t - 6) t @ c"
    by blast+
qed

text \<open>
  A directory made by \<open>mktempdir\<close> did not exist before, and its name is the pattern with the six placeholders replaced; a
  free candidate is found if there is one.
\<close>

lemma mktempdir_fresh:
  assumes "mktempdir fault candidates name s = (Returns p, s')"
  shows "os_entries s p = None" "s' = s\<lparr>os_entries := (os_entries s)(p \<mapsto> Directory)\<rparr>"
    "\<exists>c\<in>set candidates. p = (if suffix ''XXXXXX'' name then take (length name - 6) name else name) @ c"
proof -
  let ?t = "if suffix ''XXXXXX'' name then name else name @ ''XXXXXX''"
  have n: "temp_name fault candidates ?t s = (None, p)"
    and s: "s' = s\<lparr>os_entries := (os_entries s)(p \<mapsto> Directory)\<rparr>"
    using assms by (auto simp: mktempdir_def sys_mkdtemp_def Let_def split: prod.splits option.splits if_splits)
  show "os_entries s p = None" by (rule temp_name_fresh [OF n])
  show "s' = s\<lparr>os_entries := (os_entries s)(p \<mapsto> Directory)\<rparr>" by (rule s)
  show "\<exists>c\<in>set candidates. p = (if suffix ''XXXXXX'' name then take (length name - 6) name else name) @ c"
    using temp_name_fresh(2) [OF n] by (auto split: if_splits)
qed

theorem mktempdir_succeeds:
  assumes "c \<in> set candidates" and "suffix ''XXXXXX'' name"
    and "os_entries s (take (length name - 6) name @ c) = None"
  shows "\<exists>p s'. mktempdir None candidates name s = (Returns p, s')"
  using try_names_ends [OF assms(1,3), of name] assms(2)
  by (auto simp: mktempdir_def sys_mkdtemp_def temp_name_def)

text \<open>
  A temporary file is new, empty of other effects and closed. Since the placeholders are appended twice, six of them
  stay in its name.
\<close>

theorem tempFile_fresh:
  assumes "tempFile_folder fault candidates folder stem s = (Returns p, s')"
  shows "os_entries s p = None" "s' = s\<lparr>os_entries := (os_entries s)(p \<mapsto> Regular)\<rparr>"
    "\<exists>c\<in>set candidates. p = folder @ ''/'' @ stem @ ''XXXXXX'' @ c"
proof -
  let ?t = "folder @ ''/'' @ stem @ ''XXXXXX'' @ ''XXXXXX''"
  have n: "temp_name fault candidates ?t s = (None, p)"
    and s: "s' = s\<lparr>os_entries := (os_entries s)(p \<mapsto> Regular)\<rparr>"
    using assms by (auto simp: tempFile_folder_def sys_mkstemp_def sys_close_create Let_def split: prod.splits option.splits)
  show "os_entries s p = None" by (rule temp_name_fresh [OF n])
  show "s' = s\<lparr>os_entries := (os_entries s)(p \<mapsto> Regular)\<rparr>" by (rule s)
  have "take (length (a @ x) - length x) (a @ x) = a" for a x :: string by simp
  from this [of "folder @ ''/'' @ stem @ ''XXXXXX''" "''XXXXXX''"]
  have "take (length ?t - 6) ?t = folder @ ''/'' @ stem @ ''XXXXXX''" by simp
  with temp_name_fresh(2) [OF n] show "\<exists>c\<in>set candidates. p = folder @ ''/'' @ stem @ ''XXXXXX'' @ c"
    by auto
qed

section \<open>Files and nodes\<close>

text \<open>A file object that ends closes its descriptor and deletes its file, once.\<close>

theorem LocalFile_destroy_effect:
  assumes "0 \<le> lf_fd f" and "os_entries s (lf_path f) = Some Regular"
  shows "LocalFile_destroy None f s = (f\<lparr>lf_fd := - 1\<rparr>,
      \<lparr>os_entries = (os_entries s)(lf_path f := None), os_fds = remove1 (lf_fd f) (os_fds s)\<rparr>)"
    and "LocalFile_destroy fault (fst (LocalFile_destroy None f s)) s2 = (f\<lparr>lf_fd := - 1\<rparr>, s2)"
  using assms by (simp_all add: LocalFile_destroy_def removeFile_effect sys_close_def)

lemma GEDS_factory_prefix:
  assumes "GEDS_factory fault candidates config uuid mkdirError server s3 heap s = (Returns g, s')"
    and "suffix ''XXXXXX'' (gc_localStoragePath config)"
  shows "mktempdir fault candidates (gc_localStoragePath config) s = (Returns (g_pathPrefix g), s')"
  using assms
  by (auto simp: GEDS_factory_def computeLocalStoragePath_def GEDS_new_def split: prod.splits outcome.splits option.splits)

lemma GEDS_getLocalPath_prefix: "\<exists>r. fst (GEDS_getLocalPath bucket key g) = g_pathPrefix g @ r"
  by (auto simp: GEDS_getLocalPath_def getLocalPath_def split: option.splits prod.splits)

text \<open>
  C39. Nodes on one host that are made from the same storage pattern (the default \<open>/tmp/GEDS_XXXXXX\<close>) get directories
  of their own: the directory did not exist before and does afterwards, and as long as the first one is
  there, no object of one node is ever kept in a file of the other, whatever the two have stored so far.
\<close>

theorem factory_separate_storage:
  assumes "suffix ''XXXXXX'' (gc_localStoragePath config)"
    and "gc_localStoragePath config' = gc_localStoragePath config"
    and "\<forall>c\<in>set candidates \<union> set candidates'. length c = 6"
    and "GEDS_factory fault candidates config uuid mkdirError server x heap s = (Returns g, s1)"
    and "os_entries s2 (g_pathPrefix g) = Some Directory"
    and "GEDS_factory fault' candidates' config' uuid' mkdirError' server' x' heap' s2 = (Returns g', s3)"
  shows "os_entries s (g_pathPrefix g) = None \<and> os_entries s1 (g_pathPrefix g) = Some Directory \<and>
    (\<forall>fn fn' b k b' k'. fst (GEDS_getLocalPath b k (g\<lparr>g_fileNames := fn\<rparr>)) \<noteq>
       fst (GEDS_getLocalPath b' k' (g'\<lparr>g_fileNames := fn'\<rparr>)))"
proof -
  note m = mktempdir_fresh [OF GEDS_factory_prefix [OF assms(4,1)]]
  have "suffix ''XXXXXX'' (gc_localStoragePath config')" using assms(1,2) by simp
  note m' = mktempdir_fresh [OF GEDS_factory_prefix [OF assms(6) this]]
  have "length (g_pathPrefix g) = length (g_pathPrefix g')" using m(3) m'(3) assms(1-3) by auto
  moreover have "g_pathPrefix g \<noteq> g_pathPrefix g'" using m'(1) assms(5) by auto
  ultimately have "fst (GEDS_getLocalPath b k (g\<lparr>g_fileNames := fn\<rparr>)) \<noteq>
      fst (GEDS_getLocalPath b' k' (g'\<lparr>g_fileNames := fn'\<rparr>))" for fn fn' b k b' k'
    using GEDS_getLocalPath_prefix [of b k "g\<lparr>g_fileNames := fn\<rparr>"]
      GEDS_getLocalPath_prefix [of b' k' "g'\<lparr>g_fileNames := fn'\<rparr>"] by auto
  with m(1,2) show ?thesis by simp
qed

theorem factory_separate_storage_witness:
  "\<exists>(g :: (unit, unit, unit) GEDS) (g' :: (unit, unit, unit) GEDS). g_pathPrefix g = ''/tmp/GEDS_aaaaaa'' \<and>
    g_pathPrefix g' = ''/tmp/GEDS_bbbbbb'' \<and>
    fst (GEDS_getLocalPath ''bucket'' ''key'' g) \<noteq> fst (GEDS_getLocalPath ''bucket'' ''key'' g')"
proof -
  let ?c = "GEDSConfig_new 4 ''localhost:4381''"
  let ?names = "[''aaaaaa'', ''bbbbbb'']"
  let ?x = "\<lparr>s3_remote = (), s3_totalRequestsSent = 0, s3_numBytesRead = 0\<rparr>"
  define s where "s = \<lparr>os_entries = (\<lambda>_. None), os_fds = [0, 1, 2]\<rparr>"
  define s1 where "s1 = s\<lparr>os_entries := (os_entries s)(''/tmp/GEDS_aaaaaa'' \<mapsto> Directory)\<rparr>"
  have path: "gc_localStoragePath ?c = ''/tmp/GEDS_XXXXXX''" by (simp add: GEDSConfig_new_def Let_def)
  have t: "suffix ''XXXXXX'' ''/tmp/GEDS_XXXXXX''" by (simp add: suffix_def)
  have m: "mktempdir None ?names ''/tmp/GEDS_XXXXXX'' s = (Returns ''/tmp/GEDS_aaaaaa'', s1)"
    "mktempdir None ?names ''/tmp/GEDS_XXXXXX'' s1 =
      (Returns ''/tmp/GEDS_bbbbbb'', s1\<lparr>os_entries := (os_entries s1)(''/tmp/GEDS_bbbbbb'' \<mapsto> Directory)\<rparr>)"
    using t by (simp_all add: mktempdir_def sys_mkdtemp_def temp_name_def s_def s1_def)
  obtain g :: "(unit, unit, unit) GEDS" and g' :: "(unit, unit, unit) GEDS" and s2
    where g: "GEDS_factory None ?names ?c ''u'' None () ?x () s = (Returns g, s1)" "g_pathPrefix g = ''/tmp/GEDS_aaaaaa''"
    and g': "GEDS_factory None ?names ?c ''v'' None () ?x () s1 = (Returns g', s2)" "g_pathPrefix g' = ''/tmp/GEDS_bbbbbb''"
    using t by (simp add: GEDS_factory_def computeLocalStoragePath_def path m GEDS_new_def)
  have "os_entries s1 (g_pathPrefix g) = Some Directory" by (simp add: g(2) s1_def)
  moreover have "suffix ''XXXXXX'' (gc_localStoragePath ?c)" using t by (simp only: path)
  ultimately have "\<forall>fn fn' b k b' k'. fst (GEDS_getLocalPath b k (g\<lparr>g_fileNames := fn\<rparr>)) \<noteq>
      fst (GEDS_getLocalPath b' k' (g'\<lparr>g_fileNames := fn'\<rparr>))"
    using factory_separate_storage [OF _ _ _ g(1) _ g'(1)] by (simp add: path)
  then have "fst (GEDS_getLocalPath ''bucket'' ''key'' (g\<lparr>g_fileNames := g_fileNames g\<rparr>)) \<noteq>
      fst (GEDS_getLocalPath ''bucket'' ''key'' (g'\<lparr>g_fileNames := g_fileNames g'\<rparr>))" by blast
  then show ?thesis using g(2) g'(2) by (intro exI [of _ g] exI [of _ g']) simp
qed

end
