(* ===== verification/Java_Service.thy ===== *)
theory Java_Service
  imports Java_File File_System Node_Metadata
begin

text \<open>
  The Java view of the service and its configuration: \<^verbatim>\<open>src/java/com_ibm_geds_GEDS.cpp\<close> and
  \<^verbatim>\<open>com_ibm_geds_GEDSConfig.cpp\<close> with the classes \<^verbatim>\<open>GEDS.java\<close> and \<^verbatim>\<open>GEDSConfig.java\<close>. The virtual machine runs one
  service, whose container has an address; the files it opens are the native objects of \<open>Java_File\<close> over
  the state of the service. A Java string is its bytes in modified UTF-8, which have no null character, or the null
  reference. A method that does not return is \<^const>\<open>None\<close>; a C++ exception that reaches Java ends the process
  and is an undefined outcome. The address of a new object is an argument. A temporary \<open>GEDSFile\<close> that is
  copied and destroyed inside a call changes no count and is left out.
\<close>

section \<open>State\<close>

record ('s, 'x, 'h) java_state =
  js_vm :: "(nat, ('s, 'x, 'h) GEDS) jvm"
  js_container :: "jlong option"
  js_configs :: "jlong \<rightharpoonup> GEDSConfig"
  js_os :: os

definition set_geds :: "('s, 'x, 'h) GEDS \<Rightarrow> ('s, 'x, 'h) java_state \<Rightarrow> ('s, 'x, 'h) java_state" where
  "set_geds g s = s\<lparr>js_vm := (js_vm s)\<lparr>j_world := g\<rparr>\<rparr>"

definition add_file :: "jlong \<Rightarrow> nat \<Rightarrow> ('s, 'x, 'h) java_state \<Rightarrow> ('s, 'x, 'h) java_state" where
  "add_file addr fh s = s\<lparr>js_vm := (js_vm s)\<lparr>j_files := (j_files (js_vm s))(addr \<mapsto> fh)\<rparr>\<rparr>"

definition with_geds where
  "with_geds nativePtr s body =
     (if nativePtr = (0 :: jlong) then Some (throwNullPointerException ''Invalid nativePtr.'', s)
      else if js_container s \<noteq> Some nativePtr then Some (JUndefined, s)
      else body (j_world (js_vm s)))"

definition with_strings where
  "with_strings a b s body =
     (case (a, b) of (Some x, Some y) \<Rightarrow> body x y | _ \<Rightarrow> Some (JUndefined, s))"

text \<open>The result of an operation that distinguishes objects that are not found.\<close>

definition bool_result :: "Status \<Rightarrow> bool jni" where
  "bool_result status =
     (if status_ok status then JReturn True
      else if status_code status = kNotFound then throwFileNotFoundException (status_message status)
      else throwIOException (status_message status))"

section \<open>Native methods of GEDSConfig\<close>

definition initGEDSConfig where
  "initGEDSConfig cores addr addressJava s =
     (case addressJava of
        None \<Rightarrow> (JUndefined, s)
      | Some address \<Rightarrow>
          (JReturn (addr :: jlong), s\<lparr>js_configs := (js_configs s)(addr \<mapsto> GEDSConfig_new cores address)\<rparr>))"

text \<open>A value that is refused is only logged.\<close>

definition with_config where
  "with_config nativePtr s body =
     (if nativePtr = (0 :: jlong) then (throwNullPointerException ''Invalid nativePtr.'', s)
      else case js_configs s nativePtr of None \<Rightarrow> (JUndefined, s) | Some config \<Rightarrow> body config)"

definition nativeSetString where
  "nativeSetString nativePtr jkey jvalue s = with_config nativePtr s (\<lambda>config.
     case (jkey, jvalue) of
       (Some key, Some value) \<Rightarrow>
         (JReturn (), s\<lparr>js_configs := (js_configs s)(nativePtr \<mapsto> snd (set_string key value config))\<rparr>)
     | _ \<Rightarrow> (JUndefined, s))"

definition nativeSetInt where
  "nativeSetInt nativePtr jKey value s = with_config nativePtr s (\<lambda>config.
     case jKey of
       Some key \<Rightarrow> (JReturn (), s\<lparr>js_configs := (js_configs s)(nativePtr \<mapsto> snd (set_signed key (sint (value :: jint)) config))\<rparr>)
     | None \<Rightarrow> (JUndefined, s))"

definition nativeSetLong where
  "nativeSetLong nativePtr jKey value s = with_config nativePtr s (\<lambda>config.
     case jKey of
       Some key \<Rightarrow> (JReturn (), s\<lparr>js_configs := (js_configs s)(nativePtr \<mapsto> snd (set_signed key (sint (value :: jlong)) config))\<rparr>)
     | None \<Rightarrow> (JUndefined, s))"

definition nativeGetString where
  "nativeGetString nativePtr jKey s = with_config nativePtr s (\<lambda>config.
     case jKey of
       None \<Rightarrow> (JUndefined, s)
     | Some key \<Rightarrow>
         (case getString key config of
            Inl status \<Rightarrow> (throwIOException (status_message status), s)
          | Inr value \<Rightarrow> (JReturn (c_str value), s)))"

text \<open>The signed number is cut to 32 bits.\<close>

definition nativeGetInt where
  "nativeGetInt nativePtr jKey s = with_config nativePtr s (\<lambda>config.
     case jKey of
       None \<Rightarrow> (JUndefined, s)
     | Some key \<Rightarrow>
         (case getSignedInt key config of
            Inl status \<Rightarrow> (throwIOException (status_message status), s)
          | Inr value \<Rightarrow> (JReturn (word_of_int value :: jint), s)))"

definition nativeGetLong where
  "nativeGetLong nativePtr jKey s = with_config nativePtr s (\<lambda>config.
     case jKey of
       None \<Rightarrow> (JUndefined, s)
     | Some key \<Rightarrow>
         (case getSignedInt key config of
            Inl status \<Rightarrow> (throwIOException (status_message status), s)
          | Inr value \<Rightarrow> (JReturn (word_of_int value :: jlong), s)))"

section \<open>Native methods of GEDS\<close>

text \<open>
  \<open>env\<close> collects what the environment decides when a service is made: the error and the names tried by \<open>mkdtemp\<close>, the
  random identifier, the error of \<open>create_directories\<close>, the metadata server, S3, the handles, and the events of the start.
\<close>

record ('s, 'x, 'h) boot =
  bo_fault :: "errno option"
  bo_candidates :: "string list"
  bo_uuid :: string
  bo_mkdirError :: "string option"
  bo_server :: 's
  bo_s3 :: "'x s3_state"
  bo_heap :: 'h
  bo_events :: start_events

definition initGEDS where
  "initGEDS sv bo addr nativePtrConfig s =
     (if nativePtrConfig = (0 :: jlong) then (throwNullPointerException ''Invalid nativePtr.'', s)
      else case js_configs s nativePtrConfig of
          None \<Rightarrow> (JUndefined, s)
        | Some config \<Rightarrow>
            (case GEDS_factory (bo_fault bo) (bo_candidates bo) config (bo_uuid bo) (bo_mkdirError bo) (bo_server bo)
                    (bo_s3 bo) (bo_heap bo) (js_os s) of
               (Raises what, os') \<Rightarrow> (JUndefined, s\<lparr>js_os := os'\<rparr>)
             | (Returns geds, os') \<Rightarrow>
                 (case GEDS_start sv (bo_events bo) geds of
                    (status, g) \<Rightarrow>
                      if \<not> status_ok status then (throwRuntimeException (status_message status), s\<lparr>js_os := os'\<rparr>)
                      else (JReturn (addr :: jlong), set_geds g (s\<lparr>js_os := os', js_container := Some addr\<rparr>)))))"

definition nativeStopGEDS where
  "nativeStopGEDS sv serverStop nativePtr s = with_geds nativePtr s (\<lambda>geds.
     case GEDS_stop sv serverStop geds of
       None \<Rightarrow> None
     | Some (Raises what) \<Rightarrow> Some (JUndefined, s)
     | Some (Returns (status, g)) \<Rightarrow> Some (JReturn (), set_geds g s))"

definition getDefaultGEDSPort :: jint where
  "getDefaultGEDSPort = ucast GEDS_Config.defaultGEDSPort"

definition getDefaultMetdataServerPort :: jint where
  "getDefaultMetdataServerPort = 4381"

definition nativeCreate where
  "nativeCreate sv addr nativePtr jBucket jKey overwrite s = with_geds nativePtr s (\<lambda>geds.
     with_strings jBucket jKey s (\<lambda>bucket key.
       case GEDS_create sv bucket key overwrite geds of
         (Inr file, g) \<Rightarrow> Some (JReturn (addr :: jlong), add_file addr file (set_geds g s))
       | (Inl status, g) \<Rightarrow> Some (throwIOException (status_message status), set_geds g s)))"

definition four_strings where
  "four_strings a b c d s body =
     with_strings a b s (\<lambda>x y. with_strings c d s (\<lambda>z w. body x y z w))"

definition prefix_result where
  "prefix_result r s = map_option (\<lambda>(status, g). (bool_result status, set_geds g s)) r"

definition nativeRename where
  "nativeRename sv nativePtr jSrcBucket jSrcKey jDestBucket jDestKey s = with_geds nativePtr s (\<lambda>geds.
     four_strings jSrcBucket jSrcKey jDestBucket jDestKey s (\<lambda>srcBucket srcKey destBucket destKey.
       prefix_result (GEDS_rename sv srcBucket srcKey destBucket destKey geds) s))"

definition nativeRenamePrefix where
  "nativeRenamePrefix sv nativePtr jSrcBucket jSrcKey jDestBucket jDestKey s = with_geds nativePtr s (\<lambda>geds.
     four_strings jSrcBucket jSrcKey jDestBucket jDestKey s (\<lambda>srcBucket srcKey destBucket destKey.
       prefix_result (GEDS_renamePrefix sv srcBucket srcKey destBucket destKey geds) s))"

definition nativeCopy where
  "nativeCopy sv nativePtr jSrcBucket jSrcKey jDestBucket jDestKey s = with_geds nativePtr s (\<lambda>geds.
     four_strings jSrcBucket jSrcKey jDestBucket jDestKey s (\<lambda>srcBucket srcKey destBucket destKey.
       prefix_result (GEDS_copy sv srcBucket srcKey destBucket destKey geds) s))"

definition nativeCopyPrefix where
  "nativeCopyPrefix sv nativePtr jSrcBucket jSrcKey jDestBucket jDestKey s = with_geds nativePtr s (\<lambda>geds.
     four_strings jSrcBucket jSrcKey jDestBucket jDestKey s (\<lambda>srcBucket srcKey destBucket destKey.
       prefix_result (GEDS_copyPrefix sv srcBucket srcKey destBucket destKey geds) s))"

definition nativeOpen where
  "nativeOpen sv addr nativePtr jBucket jKey s = with_geds nativePtr s (\<lambda>geds.
     with_strings jBucket jKey s (\<lambda>bucket key.
       case GEDS_open sv bucket key True geds of
         (Inr file, g) \<Rightarrow> Some (JReturn (addr :: jlong), add_file addr file (set_geds g s))
       | (Inl status, g) \<Rightarrow>
           Some (if status_code status = kNotFound then throwFileNotFoundException (status_message status)
                 else throwIOException (status_message status), set_geds g s)))"

definition nativeCreateBucket where
  "nativeCreateBucket sv nativePtr jBucket s = with_geds nativePtr s (\<lambda>geds.
     case jBucket of
       None \<Rightarrow> Some (JUndefined, s)
     | Some bucket \<Rightarrow>
         (case GEDS_createBucket sv bucket geds of
            (createStatus, g) \<Rightarrow>
              Some (if status_ok createStatus \<or> status_code createStatus = kAlreadyExists then JReturn True
                    else throwIOException (status_message createStatus), set_geds g s)))"

definition nativeMkdirs where
  "nativeMkdirs sv nativePtr jBucket jKey s = with_geds nativePtr s (\<lambda>geds.
     with_strings jBucket jKey s (\<lambda>bucket key.
       case GEDS_mkdirs sv bucket key CHR ''/'' geds of
         (Raises what, g) \<Rightarrow> Some (JUndefined, set_geds g s)
       | (Returns status, g) \<Rightarrow>
           Some (if status_ok status then JReturn True else throwIOException (status_message status), set_geds g s)))"

definition nativeDelete where
  "nativeDelete sv nativePtr jBucket jKey s = with_geds nativePtr s (\<lambda>geds.
     with_strings jBucket jKey s (\<lambda>bucket key.
       case GEDS_deleteObject sv bucket key geds of (status, g) \<Rightarrow> Some (bool_result status, set_geds g s)))"

definition nativeDeletePrefix where
  "nativeDeletePrefix fuel sv nativePtr jBucket jKey s = with_geds nativePtr s (\<lambda>geds.
     with_strings jBucket jKey s (\<lambda>bucket key.
       map_option (\<lambda>(status, g).
         (if status_ok status then JReturn True else throwIOException (status_message status), set_geds g s))
         (GEDS_deleteObjectPrefix fuel sv bucket key geds)))"

text \<open>A \<open>jchar\<close> has 16 bits, the delimiter of the service 8.\<close>

definition jchar_char :: "16 word \<Rightarrow> char" where
  "jchar_char c = char_of (unat c mod 256)"

definition java_FileStatus :: "GEDSFileStatus \<Rightarrow> string \<times> jlong \<times> bool" where
  "java_FileStatus st = (c_str (fs_key st), fs_size st, fs_isDirectory st)"

definition nativeList where
  "nativeList sv nativePtr jBucket jKey delimiter s = with_geds nativePtr s (\<lambda>geds.
     with_strings jBucket jKey s (\<lambda>bucket key.
       case GEDS_list_delim sv bucket key (jchar_char delimiter) geds of
         (Inl status, g) \<Rightarrow> Some (throwIOException (status_message status), set_geds g s)
       | (Inr resultVec, g) \<Rightarrow>
           Some (if length resultVec \<ge> 2 ^ 31 then JUndefined else JReturn (map java_FileStatus resultVec), set_geds g s)))"

definition nativeStatus where
  "nativeStatus sv nativePtr jBucket jKey delimiter s = with_geds nativePtr s (\<lambda>geds.
     with_strings jBucket jKey s (\<lambda>bucket key.
       case GEDS_status_delim sv bucket key (jchar_char delimiter) geds of
         (Inl status, g) \<Rightarrow>
           Some (if status_code status = kNotFound then throwFileNotFoundException (status_message status)
                 else throwIOException (status_message status), set_geds g s)
       | (Inr st, g) \<Rightarrow> Some (JReturn (java_FileStatus st), set_geds g s)))"

definition nativeRegisterObjectStoreConfig where
  "nativeRegisterObjectStoreConfig sv nativePtr jBucket jEndpointUrl jAccessKey jSecretKey s = with_geds nativePtr s (\<lambda>geds.
     four_strings jBucket jEndpointUrl jAccessKey jSecretKey s (\<lambda>bucket endpointUrl accessKey secretKey.
       case GEDS_registerObjectStoreConfig sv bucket endpointUrl accessKey secretKey geds of
         (status, g) \<Rightarrow>
           Some (if status_ok status then JReturn () else throwRuntimeException (status_message status), set_geds g s)))"

definition nativeSyncObjectStoreConfigs where
  "nativeSyncObjectStoreConfigs sv nativePtr s = with_geds nativePtr s (\<lambda>geds.
     case GEDS_syncObjectStoreConfigs sv geds of
       (status, g) \<Rightarrow>
         Some (if status_ok status then JReturn () else throwRuntimeException (status_message status), set_geds g s))"

definition SubscriptionEvent_new :: "string \<Rightarrow> string \<Rightarrow> SubscriptionType \<Rightarrow> SubscriptionEvent" where
  "SubscriptionEvent_new bucket key type' =
     \<lparr>ev_subscriber_id = '''', ev_bucket = bucket, ev_key = key, ev_subscriptionType = type'\<rparr>"

text \<open>The number of a subscription type is given as the enumerator; numbers that are none are not modelled.\<close>

definition nativeSubscribe where
  "nativeSubscribe sv nativePtr jBucket jKey type' s = with_geds nativePtr s (\<lambda>geds.
     with_strings jBucket jKey s (\<lambda>bucket key.
       case GEDS_subscribe sv (SubscriptionEvent_new bucket key type') geds of
         (status, g) \<Rightarrow>
           Some (if status_ok status then JReturn True else throwIOException (status_message status), set_geds g s)))"

definition nativeUnsubscribe where
  "nativeUnsubscribe sv nativePtr jBucket jKey type' s = with_geds nativePtr s (\<lambda>geds.
     with_strings jBucket jKey s (\<lambda>bucket key.
       case GEDS_unsubscribe sv (SubscriptionEvent_new bucket key type') geds of
         (status, g) \<Rightarrow>
           Some (if status_ok status then JReturn True else throwIOException (status_message status), set_geds g s)))"

definition nativeRelocate where
  "nativeRelocate sv nativePtr force s = with_geds nativePtr s (\<lambda>geds.
     map_option (\<lambda>g. (JReturn (), set_geds g s)) (GEDS_relocate sv force geds))"

section \<open>The classes\<close>

text \<open>
  The methods of \<^verbatim>\<open>GEDS.java\<close> that do more than call their native method. \<open>create\<close> and \<open>open\<close> make a new
  \<open>GEDSFile\<close> object \<open>ob\<close>; an undefined or throwing native call leaves the method the same way.
\<close>

definition checkGEDS where
  "checkGEDS nativePtr s body =
     (if nativePtr = (0 :: jlong)
      then Some (JThrow ''java/lang/NullPointerException'' ''GEDS is not properly initialized!'', s) else body)"

definition new_GEDSFile where
  "new_GEDSFile ob message r =
     map_option (\<lambda>(res, s). case res of
        JReturn ptr \<Rightarrow>
          if ptr = 0 then (JThrow ''java/lang/RuntimeException'' message, s)
          else (JReturn ob, s\<lparr>js_vm := (js_vm s)\<lparr>j_objects := (j_objects (js_vm s))(ob \<mapsto> ptr)\<rparr>\<rparr>)
      | JThrow e t \<Rightarrow> (JThrow e t, s)
      | JUndefined \<Rightarrow> (JUndefined, s)) r"

definition java_string :: "string option \<Rightarrow> string" where
  "java_string x = (case x of None \<Rightarrow> ''null'' | Some t \<Rightarrow> t)"

definition java_create where
  "java_create sv addr ob nativePtr bucket key overwrite s = checkGEDS nativePtr s
     (new_GEDSFile ob (''Unable to create file at '' @ java_string bucket @ ''/'' @ java_string key)
       (nativeCreate sv addr nativePtr bucket key overwrite s))"

definition java_open where
  "java_open sv addr ob nativePtr bucket key s =
     (if nativePtr = (0 :: jlong) then Some (JThrow ''java/lang/RuntimeException'' ''GEDS is not initialized!'', s)
      else new_GEDSFile ob (''Unable to open file '' @ java_string bucket @ ''/'' @ java_string key)
        (nativeOpen sv addr nativePtr bucket key s))"

text \<open>The overload of \<open>copyPrefix\<close> within one bucket calls \<open>copy\<close>.\<close>

definition java_copyPrefix where
  "java_copyPrefix sv nativePtr bucket srcPrefix destPrefix s =
     checkGEDS nativePtr s (nativeCopy sv nativePtr bucket srcPrefix bucket destPrefix s)"

text \<open>
  The deprecated constructor fills a configuration before it starts the service: the settings of port and block size,
  in the order of the code. An empty string literal compared by \<open>!=\<close> is the default argument.
\<close>

definition java_configure where
  "java_configure config_ptr pathPrefix hostname port blockSize s =
     (if sint (port :: jint) < 0 \<or> sint port > 65535 then (illegal_argument ''Invalid port.'', s)
      else if sint (blockSize :: jlong) < 0 then (illegal_argument ''Invalid block size'', s)
      else
        let s1 = (if port \<noteq> 0 then snd (nativeSetInt config_ptr (Some ''port'') port s) else s);
            s2 = (if hostname \<noteq> [] then snd (nativeSetString config_ptr (Some ''hostname'') (Some hostname) s1) else s1);
            s3 = (if pathPrefix \<noteq> [] then snd (nativeSetString config_ptr (Some ''local_storage_path'') (Some pathPrefix) s2) else s2);
            s4 = (if blockSize \<noteq> 0 then snd (nativeSetLong config_ptr (Some ''cache_block_size'') blockSize s3) else s3)
        in (JReturn (), s4))"

section \<open>Results\<close>

text \<open>The configuration at \<open>p\<close> has this port.\<close>

definition has_port :: "jlong \<Rightarrow> u16 \<Rightarrow> ('s, 'x, 'h) java_state \<Rightarrow> bool" where
  "has_port p port s \<longleftrightarrow> (\<exists>config. js_configs s p = Some config \<and> gc_port config = port)"

lemma has_port_string: "p \<noteq> 0 \<Longrightarrow> has_port p n s \<Longrightarrow> has_port p n (snd (nativeSetString p (Some k) (Some v) s))"
  by (auto simp: has_port_def nativeSetString_def with_config_def set_string_def)

lemma has_port_blockSize: "p \<noteq> 0 \<Longrightarrow> has_port p n s \<Longrightarrow> has_port p n (snd (nativeSetLong p (Some ''cache_block_size'') v s))"
  by (auto simp: has_port_def nativeSetLong_def with_config_def set_signed_def set_unsigned_def)

lemma has_port_large:
  "p \<noteq> 0 \<Longrightarrow> 32767 < sint port \<Longrightarrow> has_port p n s \<Longrightarrow> has_port p n (snd (nativeSetInt p (Some ''port'') port s))"
  by (auto simp: has_port_def nativeSetInt_def with_config_def set_signed_def set_unsigned_def INT16_MAX_def)

text \<open>
  The deprecated constructor accepts every port up to 65535, but one above 32767 is refused by the configuration,
  which is only logged: the service starts with the port it had before.
\<close>

theorem java_port_ignored:
  assumes "p \<noteq> 0" "has_port p n s" "32767 < sint port" "sint port \<le> 65535" "0 \<le> sint blockSize"
  shows "has_port p n (snd (java_configure p path host port blockSize s))"
    and "fst (java_configure p path host port blockSize s) = JReturn ()"
  using assms by (auto simp: java_configure_def Let_def has_port_string has_port_blockSize has_port_large)


text \<open>
  Deleting and opening from Java. For a running node, \<open>delete\<close> returns true whether or not the object
  exists, and \<open>open\<close> of the same object afterwards throws \<open>FileNotFoundException\<close>; it makes no file object,
  native or Java, and leaves those that exist as they are.
\<close>

theorem java_delete_then_open:
  assumes "p \<noteq> 0" "js_container s = Some p" "j_world (js_vm s) = g"
    and "node_coherent g" "map_sorted (g_fileHandles g)" "g_state g = Running"
    and "status_ok (isValid_name b k)" "ho_stub ho = server_stub peer reg"
  shows "\<exists>s1 s2 e. nativeDelete (heap_service ho) p (Some b) (Some k) s = Some (JReturn True, s1) \<and>
    java_open (heap_service ho) addr ob p (Some b) (Some k) s1 = Some (JThrow ''java/io/FileNotFoundException'' e, s2) \<and>
    j_files (js_vm s2) = j_files (js_vm s) \<and> j_objects (js_vm s2) = j_objects (js_vm s)"
proof -
  obtain st g1 where d: "GEDS_deleteObject (heap_service ho) b k g = (st, g1)" by fastforce
  note eff = deleteObject_effect [OF assms(4,5,8) d]
  have "node_coherent g1" "g_state g1 = Running" "map_of (g_fileHandles g1) (getPath b k) = None"
      "entry (node_view g1) b k = None"
    using eff assms(6) by (auto simp: entry_step simp del: spec_kvs_step.simps)
  then obtain e g2 where opened: "GEDS_open (heap_service ho) b k True g1 = (Inl e, g2)" "status_code e = kNotFound"
    using open_missing [of g1 b k ho peer reg True] assms(7,8) by blast
  have "nativeDelete (heap_service ho) p (Some b) (Some k) s = Some (JReturn True, set_geds g1 s)"
    using d eff assms(1-3) by (simp add: nativeDelete_def with_geds_def with_strings_def bool_result_def)
  moreover have "java_open (heap_service ho) addr ob p (Some b) (Some k) (set_geds g1 s) =
      Some (JThrow ''java/io/FileNotFoundException'' (c_str (status_message e)), set_geds g2 (set_geds g1 s))"
    using opened assms(1,2)
    by (simp add: java_open_def new_GEDSFile_def nativeOpen_def with_geds_def with_strings_def set_geds_def throw_defs)
  ultimately show ?thesis
    by (intro exI [of _ "set_geds g1 s"] exI [of _ "set_geds g2 (set_geds g1 s)"]) (auto simp: set_geds_def)
qed

definition sample_java where
  "sample_java = \<lparr>js_vm = \<lparr>j_files = Map.empty, j_arrays = Map.empty, j_memory = Map.empty, j_objects = Map.empty,
     j_world = sample_node\<rparr>, js_container = Some 64, js_configs = Map.empty, js_os = \<lparr>os_entries = Map.empty, os_fds = []\<rparr>\<rparr>"

theorem java_delete_then_open_witness:
  "\<exists>s1 s2 e. nativeDelete (heap_service sample_host) 64 (Some ''abc'') (Some ''x'') sample_java = Some (JReturn True, s1) \<and>
    java_open (heap_service sample_host) 128 0 64 (Some ''abc'') (Some ''x'') s1 =
      Some (JThrow ''java/io/FileNotFoundException'' e, s2) \<and> j_files (js_vm s2) = Map.empty"
proof -
  have sorted: "map_sorted (g_fileHandles sample_node)" using sample_node_ok by (simp add: table_ok_def)
  have run: "g_state sample_node = Running" "status_ok (isValid_name ''abc'' ''x'')" by code_simp+
  have stub: "ho_stub sample_host = server_stub ''ipv4:10.0.0.1:5'' unimplemented" by (simp add: sample_host_def)
  have java: "(64 :: jlong) \<noteq> 0" "js_container sample_java = Some 64" "j_world (js_vm sample_java) = sample_node"
    "j_files (js_vm sample_java) = Map.empty"
    by (simp_all add: sample_java_def)
  from java_delete_then_open [OF java(1-3) sample_node_coherent sorted run stub, of 128 0] java(4) show ?thesis
    by metis
qed

text \<open>
  A virtual machine whose service could not bind the port of its web server runs, but \<open>stopGEDS\<close> ends the
  process.
\<close>

theorem java_stop_undefined:
  assumes "initGEDS sv bo addr cp s = (JReturn p, s1)" "js_configs s cp = Some config" "cp \<noteq> 0" "addr \<noteq> 0"
    and "se_http (bo_events bo) \<noteq> None" "\<not> gc_force_relocation_when_stopping config"
  shows "nativeStopGEDS sv stop p s1 = Some (JUndefined, s1)"
proof -
  obtain geds os' st g where n: "GEDS_factory (bo_fault bo) (bo_candidates bo) config (bo_uuid bo) (bo_mkdirError bo)
      (bo_server bo) (bo_s3 bo) (bo_heap bo) (js_os s) = (Returns geds, os')"
    and st: "GEDS_start sv (bo_events bo) geds = (st, g)" "status_ok st" "p = addr"
    "s1 = set_geds g (s\<lparr>js_os := os', js_container := Some addr\<rparr>)"
    using assms(1-3)
    by (auto simp: initGEDS_def throw_defs split: option.splits prod.splits outcome.splits if_splits)
  have "g_state geds = Stopped" "hs_acceptor (g_httpServer geds) = None"
    "\<not> gc_force_relocation_when_stopping (g_config geds)"
    using n assms(6) by (auto simp: GEDS_factory_def GEDS_new_def HttpServer_new_def split: prod.splits outcome.splits option.splits)
  with GEDS_start_keeps [OF st(1,2)] assms(5) have "GEDS_stop sv stop g = Some (Raises ''null pointer'')"
    by (auto simp: GEDS_stop_def HttpServer_stop_def HttpServer_start_def split: prod.splits)
  with assms(4) st(3,4) show ?thesis by (simp add: nativeStopGEDS_def with_geds_def set_geds_def)
qed

end
