(* ===== verification/Python_Binding.thy ===== *)
theory Python_Binding
  imports Java_Service
begin

text \<open>
  The functions that \<^verbatim>\<open>src/python/wrapper.cpp\<close> defines itself; all others are methods of \<open>GEDS\<close> and \<open>GEDSFile\<close> under
  a Python name. A buffer has a number of dimensions and its bytes; a \<open>str\<close> argument arrives as its
  bytes in UTF-8 with a null byte behind them. \<^const>\<open>None\<close> is an access outside of an argument or the use of an empty
  optional, a status on the left becomes a Python exception.
\<close>

section \<open>Methods of GEDSFile\<close>

record py_buffer =
  pb_ndim :: nat
  pb_bytes :: "byte list"

abbreviation wrong_dimensions :: Status where
  "wrong_dimensions \<equiv> FailedPreconditionError ''Buffer has wrong dimensions!''"

definition py_metadata_bytes where
  "py_metadata_bytes m fh w =
     (case GEDSFile_metadata m fh w of
        None \<Rightarrow> None
      | Some s \<Rightarrow> Some (if s = [] then None else Some (string_bytes s)))"

definition py_set_metadata where
  "py_set_metadata m fh metadata seal w = GEDSFile_setMetadata m fh metadata seal w"

definition py_set_metadata_buffer where
  "py_set_metadata_buffer m fh buffer lengthArg seal w =
     (if pb_ndim buffer \<noteq> 1 then (wrong_dimensions, w)
      else let length' = (case lengthArg of None \<Rightarrow> length (pb_bytes buffer) | Some n \<Rightarrow> min (length (pb_bytes buffer)) n)
           in GEDSFile_setMetadata m fh (Some (bytes_string (take length' (pb_bytes buffer)))) seal w)"

definition py_set_metadata_str where
  "py_set_metadata_str m fh buffer lengthArg seal w =
     (let length' = (case lengthArg of None \<Rightarrow> length (c_str buffer) | Some n \<Rightarrow> n)
      in if length' > length buffer + 1 then None
         else Some (GEDSFile_setMetadata m fh (Some (take length' (buffer @ [CHR 0x00]))) seal w))"

text \<open>\<open>read1\<close> makes an array of the requested length and cuts it to the bytes that were read.\<close>

definition py_read1 where
  "py_read1 m fh position length' w =
     (case typed_read 1 (GEDSFile_readBytes m fh) position length' w of
        (Inl s, w') \<Rightarrow> Some (Inl s, w')
      | (Inr (n, bytes), w') \<Rightarrow>
          if length bytes > length' then None
          else Some (Inr (take n (bytes @ replicate (length' - length bytes) 0)), w'))"

definition py_readinto1 where
  "py_readinto1 m fh buffer position w =
     (if pb_ndim buffer \<noteq> 1 then Some (Inl wrong_dimensions, buffer, w)
      else case typed_read 1 (GEDSFile_readBytes m fh) position (length (pb_bytes buffer)) w of
          (Inl s, w') \<Rightarrow> Some (Inl s, buffer, w')
        | (Inr (n, bytes), w') \<Rightarrow>
            if length bytes > length (pb_bytes buffer) then None
            else Some (Inr n, buffer\<lparr>pb_bytes := bytes @ drop (length bytes) (pb_bytes buffer)\<rparr>, w'))"

definition py_write_buffer where
  "py_write_buffer m fh buffer position length' w =
     (if pb_ndim buffer \<noteq> 1 then Some (wrong_dimensions, w)
      else if length (pb_bytes buffer) < length'
      then Some (FailedPreconditionError ''The buffer does not have sufficient space!'', w)
      else typed_write 1 (GEDSFile_writeBytes m fh) (pb_bytes buffer) position (min (length (pb_bytes buffer)) length') w)"

definition py_write_str where
  "py_write_str m fh array position length' w =
     typed_write 1 (GEDSFile_writeBytes m fh) (string_bytes array @ [0]) position length' w"

section \<open>Methods of GEDS and GEDSFileStatus\<close>

text \<open>The defaults of the keyword arguments, and the printed form of a status.\<close>

definition py_GEDSConfig_init where
  "py_GEDSConfig_init cores metadata_service_address = GEDSConfig_new cores metadata_service_address"

definition py_GEDS_init where
  "py_GEDS_init config uuid mkdirError server s3 heap = GEDS_new config uuid mkdirError server s3 heap"

definition py_create where
  "py_create sv bucket key overwrite g =
     GEDS_create sv bucket key (case overwrite of None \<Rightarrow> True | Some b \<Rightarrow> b) g"

definition py_open where
  "py_open sv bucket key retry g = GEDS_open sv bucket key (case retry of None \<Rightarrow> False | Some b \<Rightarrow> b) g"

definition py_mkdirs where
  "py_mkdirs sv bucket path g = GEDS_mkdirs sv bucket path CHR ''/'' g"

definition py_list where
  "py_list sv bucket key g = GEDS_list sv bucket key g"

definition py_status where
  "py_status sv bucket key g = GEDS_status sv bucket key g"

definition py_rename where
  "py_rename sv srcBucket srcKey destBucket destKey g = GEDS_rename sv srcBucket srcKey destBucket destKey g"

definition py_rename_prefix where
  "py_rename_prefix sv srcBucket srcPrefix destBucket destPrefix g =
     GEDS_renamePrefix sv srcBucket srcPrefix destBucket destPrefix g"

definition py_copy where
  "py_copy sv srcBucket srcKey destBucket destKey g = GEDS_copy sv srcBucket srcKey destBucket destKey g"

definition py_copy_prefix where
  "py_copy_prefix sv srcBucket srcPrefix destBucket destPrefix g =
     GEDS_copyPrefix sv srcBucket srcPrefix destBucket destPrefix g"

definition py_relocate where
  "py_relocate sv force g = GEDS_relocate sv (case force of None \<Rightarrow> False | Some b \<Rightarrow> b) g"

definition py_FileStatus_repr :: "GEDSFileStatus \<Rightarrow> string" where
  "py_FileStatus_repr st =
     ''{'' @ fs_key st @ '', '' @ show_nat (unat (fs_size st)) @ '' bytes, '' @
     (if fs_isDirectory st then ''directory'' else ''file'') @ ''}''"

section \<open>Results\<close>

text \<open>
  A read into a new array returns exactly the bytes of the file that were available; a write of a buffer hands over
  exactly the first bytes of the buffer or refuses.
\<close>

theorem py_read1_exact:
  assumes "reads_as (GEDSFile_readBytes m fh) src dst ok" "ok w" "position + n < INT64_MAX"
  shows "\<exists>k w'. k \<le> n \<and> (k = 0 \<longrightarrow> n = 0 \<or> length src \<le> position) \<and>
    py_read1 m fh position n w = Some (Inr (file_read position k src), w')"
proof -
  obtain k w' where k: "GEDSFile_readBytes m fh position n w = (Inr (k, file_read position k src), w')"
    "k \<le> n" "position + k \<le> max position (length src)" "k = 0 \<longrightarrow> n = 0 \<or> length src \<le> position"
    using assms unfolding reads_as_def by blast
  have "wrap64 position = position" "wrap64 n = n"
    using assms(3) by (simp_all add: INT64_MAX_def)
  then have "typed_read 1 (GEDSFile_readBytes m fh) position n w = (Inr (k, file_read position k src), w')"
    using k(1) by (simp add: typed_read_def)
  moreover have "length (file_read position k src) = k" using k(3) by (rule file_read_length)
  ultimately have "py_read1 m fh position n w = Some (Inr (file_read position k src), w')"
    using k(2) by (simp add: py_read1_def)
  with k(2,4) show ?thesis by blast
qed

theorem py_write_buffer_bounds:
  assumes "length (pb_bytes buffer) < 2 ^ 64" "position < 2 ^ 64" "pb_ndim buffer = 1"
  shows "py_write_buffer m fh buffer position n w =
    Some (if length (pb_bytes buffer) < n then (FailedPreconditionError ''The buffer does not have sufficient space!'', w)
      else GEDSFile_writeBytes m fh (take n (pb_bytes buffer)) position w)"
  using assms by (simp add: py_write_buffer_def typed_write_def min_def)

text \<open>A \<open>str\<close> is written with the length the caller names, beyond its end as well.\<close>

theorem py_write_str_undefined:
  assumes "length array + 1 < n" "n < 2 ^ 64"
  shows "py_write_str m fh array position n w = None"
  using assms by (simp add: py_write_str_def typed_write_def string_bytes_def)

text \<open>
  The Python constructor of a service is the C++ constructor, not \<open>GEDS::factory\<close>: the placeholders of the default
  storage path are never replaced. Any two such nodes of a host, made from configurations with the same path, keep
  the first object each of them creates in a bucket in the same file, whatever its key is.
\<close>

theorem python_shared_storage:
  assumes "py_GEDS_init config uuid None server x heap = Returns g" "py_GEDS_init config' uuid' None server' x' heap' = Returns g'"
    and "gc_localStoragePath config' = gc_localStoragePath config"
  shows "fst (GEDS_getLocalPath b k g) = fst (GEDS_getLocalPath b k' g')"
  using assms
  by (auto simp: py_GEDS_init_def GEDS_new_def GEDS_getLocalPath_def getLocalPath_def no_names_def ConcurrentMap_get_def
      ConcurrentMap_insertOrExists_def)

end
