(* ===== verification/Node_Program.thy ===== *)
theory Node_Program
  imports Java_Service Statistics
begin

text \<open>
  \<^verbatim>\<open>src/geds/main.cpp\<close>, the program that runs a node: it makes and starts a service and either serves two files or
  downloads one and prints it. It ends with an exit code, serves until a signal arrives, is
  aborted by an exception, or reads memory behind a buffer; \<open>NReturned\<close> is a part that goes on. Lines go to the standard and the error output. The name of the host,
  the contents of an uninitialised buffer and the file names are parameters.
\<close>

section \<open>The parts of the program\<close>

datatype node_end = NExit nat | NServing | NReturned | NAbort string | NUndefined

record node_output =
  no_end :: node_end
  no_out :: "string list"
  no_err :: "string list"

definition serveFile where
  "serveFile sv hostName g =
     (let bucket = hostName; key = ''testfile'' in
      case GEDS_createBucket sv bucket g of (bucketStatus, g1) \<Rightarrow>
      let err = (if status_ok bucketStatus then [] else [''Unable to create bucket '' @ bucket]) in
      case GEDS_create sv bucket key False g1 of
        (Inl s, g2) \<Rightarrow>
          (\<lparr>no_end = NExit 1, no_out = [],
            no_err = err @ [''Unable to create file '' @ bucket @ ''/'' @ key @ '': '' @ status_message s]\<rparr>, g2)
      | (Inr file, g2) \<Rightarrow>
          let text' = ''Hello from '' @ bucket @ newline in
          case typed_write 1 (GEDSFile_writeBytes (sv_handle sv) file) (string_bytes text' @ [0]) 0 (length text') g2 of
            None \<Rightarrow> (\<lparr>no_end = NUndefined, no_out = [], no_err = err\<rparr>, g2)
          | Some (_, g3) \<Rightarrow>
              (case GEDS_getLocalPath bucket key g3 of (path, g4) \<Rightarrow>
               let out = [''Created file '' @ bucket @ ''/'' @ key @ '' at path '' @ [CHR 0x27] @ path @ [CHR 0x27] @ ''.''] in
               case GEDSFile_seal (sv_handle sv) file g4 of (sealStatus, g5) \<Rightarrow>
               if status_ok sealStatus then (\<lparr>no_end = NServing, no_out = out, no_err = err\<rparr>, g5)
               else (\<lparr>no_end = NExit 1, no_out = out, no_err = err @ [''Could not seal file: '' @ status_message sealStatus]\<rparr>, g5)))"

text \<open>A \<open>std::string\<close> made of a pointer ends before the first null byte; without one the reader leaves the buffer.\<close>

definition pointer_string :: "byte list \<Rightarrow> string option" where
  "pointer_string buffer = (if 0 \<in> set buffer then Some (bytes_string (takeWhile (\<lambda>b. b \<noteq> 0) buffer)) else None)"

definition ends_with :: "string \<Rightarrow> string \<Rightarrow> bool" where
  "ends_with s suffix' \<longleftrightarrow> length suffix' \<le> length s \<and> drop (length s - length suffix') s = suffix'"

definition downloadFile where
  "downloadFile sv bucket key g =
     (case GEDS_open sv bucket key True g of
        (Inl s, g1) \<Rightarrow>
          (\<lparr>no_end = NExit 1, no_out = [],
            no_err = [''Unable to open file '' @ [CHR 0x27] @ bucket @ ''/'' @ key @ [CHR 0x27] @ '': '' @ status_message s]\<rparr>, g1)
      | (Inr file, g1) \<Rightarrow>
          (case typed_read_vector 1 (GEDSFile_readBytes (sv_handle sv) file) [] 0 0 (GEDSFile_size (sv_handle sv) file g1) g1 of
             None \<Rightarrow> (\<lparr>no_end = NUndefined, no_out = [], no_err = []\<rparr>, g1)
           | Some (Inl s, buffer, g2) \<Rightarrow>
               (\<lparr>no_end = NExit 0, no_out = [], no_err = [''Unable to read from file: '' @ status_message s]\<rparr>, g2)
           | Some (Inr n, buffer, g2) \<Rightarrow>
               let err = (if n \<noteq> GEDSFile_size (sv_handle sv) file g2 then [''File has unexpected length!''] else []);
                   out = [''Read file with length '' @ show_nat n]
               in if \<not> ends_with key ''.txt'' then (\<lparr>no_end = NExit 0, no_out = out, no_err = err\<rparr>, g2)
                  else case pointer_string buffer of
                      None \<Rightarrow> (\<lparr>no_end = NUndefined, no_out = out, no_err = err\<rparr>, g2)
                    | Some message \<Rightarrow>
                        (\<lparr>no_end = NExit 0,
                          no_out = out @ [''The file '' @ sv_bucket sv file g2 @ ''/'' @ sv_key sv file g2 @
                            '' has the following content: '' @ newline @ message],
                          no_err = err\<rparr>, g2)))"

text \<open>The numbers of the loop are C integers; the position is converted to 64 bits. \<open>noise off\<close> is what the buffer holds.\<close>

definition BIG_FILE_SIZE :: int where
  "BIG_FILE_SIZE = 1024 * 1024 * 1024"

function big_file_loop where
  "big_file_loop wr noise size' off w =
     (if 0 < size'
      then case typed_write 1 wr (noise off :: byte list) (unat (word_of_int off :: 64 word)) 40960 w of
          None \<Rightarrow> None
        | Some (_, w1) \<Rightarrow> big_file_loop wr noise (size' - (40960 :: int)) (off + (40960 :: int)) w1
      else Some w)"
  by pat_completeness auto
termination by (relation "measure (\<lambda>(wr, noise, size', off, w). nat size')") auto

declare big_file_loop.simps [simp del]

definition createBigFile where
  "createBigFile sv noise bucket key g =
     (case GEDS_createBucket sv bucket g of (bucketStatus, g1) \<Rightarrow>
      if \<not> status_ok bucketStatus
      then (\<lparr>no_end = NExit 1, no_out = [], no_err = [''Unable to create bucket '' @ bucket]\<rparr>, g1)
      else case GEDS_create sv bucket key False g1 of
        (Inl s, g2) \<Rightarrow>
          (\<lparr>no_end = NExit 1, no_out = [],
            no_err = [''Unable to create file '' @ bucket @ ''/'' @ key @ '': '' @ status_message s]\<rparr>, g2)
      | (Inr file, g2) \<Rightarrow>
          (case big_file_loop (GEDSFile_writeBytes (sv_handle sv) file) noise BIG_FILE_SIZE 0 g2 of
             None \<Rightarrow> (\<lparr>no_end = NUndefined, no_out = [], no_err = []\<rparr>, g2)
           | Some g3 \<Rightarrow>
               (case GEDS_getLocalPath bucket key g3 of (path, g4) \<Rightarrow>
                let out = [''Created file '' @ bucket @ ''/'' @ key @ '' at path '' @ [CHR 0x27] @ path @ [CHR 0x27] @ ''.''] in
                case GEDSFile_seal (sv_handle sv) file g4 of (sealStatus, g5) \<Rightarrow>
                if \<not> status_ok sealStatus
                then (\<lparr>no_end = NExit 1, no_out = out,
                       no_err = [''Could not seal big file: '' @ status_message sealStatus]\<rparr>, g5)
                else (\<lparr>no_end = NReturned,
                       no_out = out @ [''Created Big File, size: '' @ show_nat (GEDSFile_size (sv_handle sv) file g5)],
                       no_err = []\<rparr>, g5))))"

definition then_output :: "string list \<Rightarrow> string list \<Rightarrow> node_output \<Rightarrow> node_output" where
  "then_output out err r = r\<lparr>no_out := out @ no_out r, no_err := err @ no_err r\<rparr>"

text \<open>Where the path of the file to download has no slash, \<open>find\<close> returns \<open>npos\<close> and \<open>npos + 1\<close> is 0.\<close>

definition split_path :: "string \<Rightarrow> string \<times> string" where
  "split_path path =
     (case str_find CHR ''/'' path of
        None \<Rightarrow> (path, path)
      | Some loc \<Rightarrow> (take loc path, drop (Suc loc) path))"

definition node_run where
  "node_run sv noise hostName downloadFlag g =
     (if downloadFlag = []
      then let hello = [''GEDS is running.'', ''Creating big file at nase/baer''] in
           case createBigFile sv noise ''nase'' ''baer'' g of (r, g1) \<Rightarrow>
             if no_end r \<noteq> NReturned then (then_output hello [] r, g1)
             else case serveFile sv hostName g1 of (r', g2) \<Rightarrow> (then_output (hello @ no_out r) (no_err r) r', g2)
      else case split_path downloadFlag of (bucket, key) \<Rightarrow>
             apfst (then_output [''GEDS is running.''] []) (downloadFile sv bucket key g))"

definition node_main where
  "node_main sv bo cores noise hostName serverAddress serverPort port gedsRoot downloadFlag os =
     (let config = (GEDSConfig_new cores (serverAddress @ '':'' @ serverPort))\<lparr>gc_port := port, gc_localStoragePath := gedsRoot\<rparr> in
      case GEDS_factory (bo_fault bo) (bo_candidates bo) config (bo_uuid bo) (bo_mkdirError bo) (bo_server bo) (bo_s3 bo)
             (bo_heap bo) os of
        (Raises what, os') \<Rightarrow> (\<lparr>no_end = NAbort what, no_out = [], no_err = []\<rparr>, None, os')
      | (Returns geds, os') \<Rightarrow>
          (case GEDS_start sv (bo_events bo) geds of (status, g) \<Rightarrow>
             if \<not> status_ok status
             then (\<lparr>no_end = NExit 1, no_out = [''Unable to start GEDS: '' @ status_message status], no_err = []\<rparr>, Some g, os')
             else case node_run sv noise hostName downloadFlag g of (r, g') \<Rightarrow> (r, Some g', os')))"

section \<open>Results\<close>

text \<open>The loop in closed form: one write per block, at ascending positions, as long as the integers do not overflow.\<close>

lemma big_file_loop_fold:
  assumes "\<And>off. length (noise off) = 40960" "0 \<le> off" "off + int n * 40960 < 2 ^ 31"
    and "(int n - 1) * 40960 < size'" "size' \<le> int n * 40960"
  shows "big_file_loop wr noise size' off w =
    Some (fold (\<lambda>i w. snd (wr (noise (off + 40960 * int i)) (nat off + 40960 * i) w)) [0..<n] w)"
  using assms(2-)
proof (induction n arbitrary: size' off w)
  case 0
  then show ?case by (simp add: big_file_loop.simps)
next
  case (Suc n)
  have pos: "0 < size'" using Suc.prems(3) by simp
  have "uint (word_of_int off :: 64 word) = off"
    using Suc.prems(1,2) by (subst uint_word_of_int) simp
  then have off: "unat (word_of_int off :: 64 word) = nat off" by (simp add: unat_eq_nat_uint)
  have "nat off < 2 ^ 31" using Suc.prems(1,2) by (simp add: nat_less_iff)
  then have "typed_write 1 wr (noise off) (unat (word_of_int off :: 64 word)) 40960 w = Some (wr (noise off) (nat off) w)"
    unfolding off typed_write_def Let_def using assms(1) by (simp add: wrap64_def)
  then have "big_file_loop wr noise size' off w =
      big_file_loop wr noise (size' - 40960) (off + 40960) (snd (wr (noise off) (nat off) w))"
    using pos by (subst big_file_loop.simps) (simp split: prod.splits)
  also have "\<dots> = Some (fold (\<lambda>i w. snd (wr (noise (off + 40960 + 40960 * int i)) (nat (off + 40960) + 40960 * i) w))
      [0..<n] (snd (wr (noise off) (nat off) w)))"
    using Suc.prems by (intro Suc.IH) (simp_all add: algebra_simps)
  also have "[0..<Suc n] = 0 # map Suc [0..<n]" by (simp add: map_Suc_upt upt_conv_Cons del: upt_Suc)
  then have "fold (\<lambda>i w. snd (wr (noise (off + 40960 + 40960 * int i)) (nat (off + 40960) + 40960 * i) w))
      [0..<n] (snd (wr (noise off) (nat off) w)) =
      fold (\<lambda>i w. snd (wr (noise (off + 40960 * int i)) (nat off + 40960 * i) w)) [0..<Suc n] w"
    using Suc.prems(1) by (simp add: fold_map comp_def nat_add_distrib algebra_simps)
  finally show ?case .
qed

lemma fold_blocks:
  assumes "\<And>off. length (noise off) = 40960" "\<And>b p w. content (snd (wr b p w)) = file_write p b (content w)" "content w = []"
  shows "content (fold (\<lambda>i w. snd (wr (noise (40960 * int i)) (40960 * i) w)) [0..<n] w) =
      concat (map (\<lambda>i. noise (40960 * int i)) [0..<n])"
proof (induction n)
  case (Suc n)
  have "length (concat (map (\<lambda>i. noise (40960 * int i)) [0..<n])) = 40960 * n"
    by (induction n) (simp_all add: assms(1))
  with Suc assms(2) show ?case by (simp add: file_write_def)
qed (simp add: assms(3))

text \<open>
  The big file: the loop ends without integer overflow after 26215 writes, and over writes that succeed the file holds
  the blocks one after the other. Its size is not the constant but the next multiple of the block, 24576 bytes more.
\<close>

theorem big_file_content:
  assumes "\<And>off. length (noise off) = 40960" "\<And>b p w. content (snd (wr b p w)) = file_write p b (content w)" "content w = []"
  shows "\<exists>w'. big_file_loop wr noise BIG_FILE_SIZE 0 w = Some w' \<and>
    content w' = concat (map (\<lambda>i. noise (40960 * int i)) [0..<26215]) \<and> int (length (content w')) = BIG_FILE_SIZE + 24576"
proof -
  define n :: nat where "n = 26215"
  have "int n = 26215" by (simp add: n_def)
  then have "big_file_loop wr noise BIG_FILE_SIZE 0 w =
      Some (fold (\<lambda>i w. snd (wr (noise (40960 * int i)) (40960 * i) w)) [0..<n] w)"
    using big_file_loop_fold [of noise 0 n BIG_FILE_SIZE wr w, OF assms(1)] by (simp add: BIG_FILE_SIZE_def)
  moreover have "length (concat (map (\<lambda>i. noise (40960 * int i)) [0..<n])) = 40960 * n" for n
    by (induction n) (simp_all add: assms(1))
  then have "int (length (concat (map (\<lambda>i. noise (40960 * int i)) [0..<n]))) = BIG_FILE_SIZE + 24576"
    by (simp add: BIG_FILE_SIZE_def \<open>int n = 26215\<close>)
  ultimately show ?thesis
    unfolding n_def [symmetric] using fold_blocks [of noise content wr w n, OF assms] by simp
qed

text \<open>A download of a text is printed exactly only if the file itself holds a null byte; else the program reads on.\<close>

theorem download_text_undefined:
  assumes "GEDS_open sv b k True g = (Inr fh, g1)" "ends_with k ''.txt''"
    and "typed_read_vector 1 (GEDSFile_readBytes (sv_handle sv) fh) [] 0 0 (GEDSFile_size (sv_handle sv) fh g1) g1 =
      Some (Inr n, buffer, g2)" "0 \<notin> set buffer"
  shows "no_end (fst (downloadFile sv b k g)) = NUndefined"
  using assms by (simp add: downloadFile_def pointer_string_def Let_def)

text \<open>The path of the file to download is split at its first slash; one without is bucket and key at once.\<close>

theorem split_path_join:
  "CHR ''/'' \<notin> set b \<Longrightarrow> split_path (b @ CHR ''/'' # k) = (b, k)"
  "CHR ''/'' \<notin> set path \<Longrightarrow> split_path path = (path, path)"
  by (simp_all add: split_path_def str_find_append_notin str_find_None [THEN iffD2])

end
