(* ===== verification/Java_Node.thy ===== *)
theory Java_Node
  imports Java_Service Node_Transfer
begin

text \<open>
  Java files over a node: the native methods of \<open>Java_File\<close> with the handles of the service. What the class
  \<^verbatim>\<open>GEDSFile.java\<close> reads from a file that the node has on its disk is exact, and no sequence of calls is undefined as long
  as the machines the node talks to send no more than they were asked for.
\<close>

section \<open>Local files\<close>

text \<open>A handle of the node, or the handle inside its wrapper, that has the given contents in a local file.\<close>

definition holds_file :: "nat \<Rightarrow> ('s, 'x) node \<Rightarrow> byte list \<Rightarrow> bool" where
  "holds_file fh g content \<longleftrightarrow>
     (\<exists>h x. (h = fh \<or> (\<exists>r. object_at fh g = Some (HRelocatable r) \<and> rl_fileHandle r = h)) \<and>
        object_at h g = Some (HLocal x) \<and> lf_inv (lh_file x) \<and> lf_content (lh_file x) = content)"

lemma object_at_put [simp]: "object_at h' (put_object h ob g) = (if h' = h then Some ob else object_at h' g)"
  by (simp add: object_at_def put_object_def)

lemma base_read_local:
  assumes "object_at h g = Some (HLocal x)" "lf_inv (lh_file x)" "io_ok (ho_script ho)" "p < INT64_MAX"
  shows "base_readBytes ho h p n g =
    (Inr (length (file_read p n (lf_content (lh_file x))), file_read p n (lf_content (lh_file x))),
     put_object h (HLocal (x\<lparr>lh_readStatistics := lh_readStatistics x + of_nat (length (file_read p n (lf_content (lh_file x))))\<rparr>)) g)"
  using assms LocalFile_readBytes_correct [OF assms(3,2,4), of n]
  by (simp add: base_readBytes_def LocalHandle_readBytes_def local_class_def LocalFile_class_def LocalFile_reader_def)

lemma node_read_local:
  assumes "holds_file fh g content" "io_ok (ho_script ho)" "p < INT64_MAX"
  shows "\<exists>g'. v_readBytes (heap_methods ho) fh p n g = (Inr (length (file_read p n content), file_read p n content), g') \<and>
    holds_file fh g' content"
proof -
  obtain h x where h: "h = fh \<or> (\<exists>r. object_at fh g = Some (HRelocatable r) \<and> rl_fileHandle r = h)"
    and x: "object_at h g = Some (HLocal x)" "lf_inv (lh_file x)" "lf_content (lh_file x) = content"
    using assms(1) by (auto simp: holds_file_def)
  note rd = base_read_local [OF x(1,2) assms(2,3), of n, unfolded x(3)]
  from h show ?thesis
  proof
    assume "h = fh"
    with x rd show ?thesis by (auto simp: heap_methods_def Let_def base_methods_def holds_file_def)
  next
    assume "\<exists>r. object_at fh g = Some (HRelocatable r) \<and> rl_fileHandle r = h"
    then obtain r where r: "object_at fh g = Some (HRelocatable r)" "rl_fileHandle r = h" by blast
    then have "fh \<noteq> h" using x(1) by auto
    with r x rd show ?thesis
      by (auto simp: heap_methods_def Let_def base_methods_def holds_file_def Relocatable_readBytes_def readBytes_shared_def)
  qed
qed

text \<open>
  C29. Reading from a local file of the node into a Java array, where the virtual machine grants access to the array and the
  system calls of the read may be interrupted or deliver less but not fail. The call throws exactly if the position,
  the length or the offset is negative or the range does not fit into the array, and then changes nothing. Otherwise
  it reads exactly as many bytes as were asked for and the file has from the position on, and returns their number, or -1
  if there are none although some were asked for; these bytes are in the array from the offset on, all others of
  the array are as before, and the file keeps its contents.
\<close>

theorem java_read_exact:
  assumes "j_objects s ob = Some p" "p \<noteq> 0" "j_files s p = Some fh" "j_arrays s a = Some block"
    and "holds_file fh (j_world s) content" "io_ok (ho_script ho)" "sint position < 2 ^ 63 - 1"
  shows "if sint position < 0 \<or> sint len < 0 \<or> sint offset < 0 \<or> int (length block) < sint offset + sint len
    then (\<exists>e. java_read (heap_methods ho) part True ob position (Some a) offset len s =
      (JThrow ''java/lang/IllegalArgumentException'' e, s))
    else (\<exists>k w'. k = min (nat (sint len)) (length content - nat (sint position)) \<and>
      java_read (heap_methods ho) part True ob position (Some a) offset len s =
        (JReturn (if k = 0 \<and> 0 < sint len then - 1 else of_nat k),
         s\<lparr>j_arrays := (j_arrays s)(a \<mapsto> take (nat (sint offset)) block @ take k (drop (nat (sint position)) content) @
             drop (nat (sint offset) + k) block), j_world := w'\<rparr>) \<and> holds_file fh w' content)"
proof (cases "sint position < 0 \<or> sint len < 0 \<or> sint offset < 0 \<or> int (length block) < sint offset + sint len")
  case True
  then show ?thesis using java_read_refuses [OF assms(1,2,4) True] by simp
next
  case False
  let ?p = "nat (sint position)" and ?n = "nat (sint len)" and ?k = "min (nat (sint len)) (length content - nat (sint position))"
  have "?p < INT64_MAX" using False assms(7) by (simp add: INT64_MAX_def nat_less_iff)
  from node_read_local [OF assms(5,6) this, of ?n] obtain w' where
    rd: "GEDSFile_readBytes (heap_methods ho) fh ?p ?n (j_world s) = (Inr (length (file_read ?p ?n content), file_read ?p ?n content), w')"
    and held: "holds_file fh w' content" by (auto simp: GEDSFile_readBytes_def)
  have k: "length (file_read ?p ?n content) = ?k" "file_read ?p ?n content = take ?k (drop ?p content)"
    by (simp_all add: file_read_def min.commute min_def)
  have "java_read (heap_methods ho) part True ob position (Some a) offset len s =
      (JReturn (if ?k = 0 \<and> 0 < sint len then - 1 else of_nat ?k),
       s\<lparr>j_arrays := (j_arrays s)(a \<mapsto> take (nat (sint offset)) block @ file_read ?p ?n content @
           drop (nat (sint offset) + ?k) block), j_world := w'\<rparr>)"
    using java_read_stores [OF assms(1-4) _ _ _ _ rd, of offset "file_read ?p ?n content" part] False k(1)
    by (simp add: not_less del: nat_eq_iff)
  with held show ?thesis unfolding if_not_P [OF False] k(2) by blast
qed

definition java_vm :: "(nat, (MetadataServiceImpl, memory_s3) node) jvm" where
  "java_vm = \<lparr>j_files = [4096 \<mapsto> 0], j_arrays = [7 \<mapsto> [1, 2, 3, 4]], j_memory = Map.empty, j_objects = [0 \<mapsto> 4096], j_world = writer\<rparr>"

text \<open>The sample node with a file of three bytes; three bytes are asked for, and two are there.\<close>

theorem java_read_exact_witness:
  "\<exists>w'. java_read (heap_methods sample_host) (\<lambda>_ _ _ _. []) True 0 1 (Some 7) 1 3 java_vm =
     (JReturn 2, java_vm\<lparr>j_arrays := [7 \<mapsto> [1, 8, 9, 4]], j_world := w'\<rparr>)"
proof -
  obtain x where "object_at 0 writer = Some (HLocal x)" "lf_inv (lh_file x)" "lf_content (lh_file x) = [7, 8, 9]"
    by (rule writer_object)
  then have "holds_file 0 (j_world java_vm) [7, 8, 9]" by (auto simp: holds_file_def java_vm_def)
  moreover have "j_objects java_vm 0 = Some 4096" "(4096 :: jlong) \<noteq> 0" "j_files java_vm 4096 = Some 0"
      "j_arrays java_vm 7 = Some [1, 2, 3, 4]" "io_ok (ho_script sample_host)" "sint (1 :: jlong) < 2 ^ 63 - 1"
    by (simp_all add: java_vm_def sample_host_def)
  ultimately show ?thesis
    using java_read_exact [where s = java_vm and ob = 0 and p = 4096 and fh = 0 and a = 7 and block = "[1, 2, 3, 4]"
        and content = "[7, 8, 9]" and ho = sample_host and position = 1 and len = 3 and offset = 1 and part = "\<lambda>_ _ _ _. []"]
    by (force simp: java_vm_def numeral_nat)
qed

section \<open>How much a read delivers\<close>







section \<open>Memory safety over a node\<close>







end
