(* ===== verification/Shared_Path.thy ===== *)
theory Shared_Path
  imports File_System
begin

text \<open>
  What the separate bytes of every \<open>LocalFile\<close> of the model leave out: two files with one path share an inode. A second
  \<open>create\<close> of an object asks for the path of the first (\<^verbatim>\<open>GEDS.cpp\<close>, \<open>getLocalPath\<close>), the constructor of its \<open>LocalFile\<close> opens
  this path with \<open>O_TRUNC\<close>, and when the service then refuses the object because it exists, the destructor of the temporary
  file unlinks the path. The data of the object that exists are gone although its handle is still registered. The operating
  system is here a table of names for inodes and a table of the bytes of each inode.
\<close>

section \<open>Names and inodes\<close>

record disk =
  dk_names :: "string \<rightharpoonup> nat"
  dk_bytes :: "nat \<rightharpoonup> byte list"
  dk_next :: nat

text \<open>\<open>open\<close> with \<open>O_RDWR | O_CREAT\<close>, and \<open>O_TRUNC\<close> if the file is to be overwritten.\<close>

definition disk_open :: "string \<Rightarrow> bool \<Rightarrow> disk \<Rightarrow> nat \<times> disk" where
  "disk_open path overwrite d =
     (case dk_names d path of
        Some i \<Rightarrow> (i, if overwrite then d\<lparr>dk_bytes := (dk_bytes d)(i \<mapsto> [])\<rparr> else d)
      | None \<Rightarrow>
          (dk_next d, \<lparr>dk_names = (dk_names d)(path \<mapsto> dk_next d), dk_bytes = (dk_bytes d)(dk_next d \<mapsto> []), dk_next = dk_next d + 1\<rparr>))"

definition disk_unlink :: "string \<Rightarrow> disk \<Rightarrow> disk" where
  "disk_unlink path d = d\<lparr>dk_names := (dk_names d)(path := None)\<rparr>"

definition disk_write :: "nat \<Rightarrow> byte list \<Rightarrow> disk \<Rightarrow> disk" where
  "disk_write i bs d = d\<lparr>dk_bytes := (dk_bytes d)(i \<mapsto> bs)\<rparr>"

text \<open>A \<open>create\<close> that is refused: the constructor of the temporary \<open>LocalFile\<close>, then its destructor.\<close>

definition refused_create :: "string \<Rightarrow> disk \<Rightarrow> disk" where
  "refused_create path d = (case disk_open path True d of (_, d1) \<Rightarrow> disk_unlink path d1)"

section \<open>The second create\<close>

text \<open>The path of an object does not change.\<close>

lemma getLocalPath_again:
  assumes "map_sorted (fn_names fn)" "getLocalPath p b k fn = (path, fn1)"
  shows "fst (getLocalPath p b k fn1) = path"
proof (cases "map_of (fn_names fn) (b @ ''/'' @ k)")
  case None
  have "b @ ''/'' @ k \<noteq> k" by (metis append_self_conv2 append_is_Nil_conv append.assoc list.distinct(1))
  with None assms show ?thesis
    by (auto simp: getLocalPath_def ConcurrentMap_get_def ConcurrentMap_insertOrExists_def split: option.splits prod.splits)
qed (use assms(2) in \<open>auto simp: getLocalPath_def ConcurrentMap_get_def\<close>)

text \<open>
  An object was created and its file holds \<open>bs\<close>; a second \<open>create\<close> without \<open>overwrite\<close> is refused. It was for the same path; the file of the
  first is empty and has no name any more, and its handle, which remembers the size, reads nothing from it.
\<close>

lemma second_create_destroys:
  fixes bs :: "byte list"
  assumes "map_sorted (fn_names fn)" "getLocalPath p b k fn = (path, fn1)" "getLocalPath p b k fn1 = (path2, fn2)"
    and "disk_open path True d = (i, d1)" "io_ok script" "pos < INT64_MAX"
  defines "d2 \<equiv> refused_create path2 (disk_write i bs d1)"
  shows "path2 = path" "dk_bytes d2 i = Some []" "dk_names d2 path = None"
    "lf_size f = length bs \<Longrightarrow> LocalFile_readBytes script (f\<lparr>lf_content := the (dk_bytes d2 i)\<rparr>) pos n = Inr (0, [])"
proof -
  show path: "path2 = path" using getLocalPath_again [OF assms(1,2)] assms(3) by simp
  have "dk_names d1 path = Some i" using assms(4) by (auto simp: disk_open_def split: option.splits)
  then show bytes: "dk_bytes d2 i = Some []" and "dk_names d2 path = None"
    by (simp_all add: d2_def refused_create_def disk_open_def disk_write_def disk_unlink_def path)
  have empty: "LocalFile_read_loop (f\<lparr>lf_content := []\<rparr>) pos l script [] = Inr (0, [])" if "0 < l" for l
  proof -
    have "0 < min l SSIZE_MAX" using that by (simp add: SSIZE_MAX_def)
    from retry_ok [OF assms(5) this] obtain m rest where "retry_eintr script (min l SSIZE_MAX) = (Moved m, rest)" by blast
    with that show ?thesis by (simp add: LocalFile_read_loop.simps file_read_def Let_def)
  qed
  show "LocalFile_readBytes script (f\<lparr>lf_content := the (dk_bytes d2 i)\<rparr>) pos n = Inr (0, [])"
    unfolding bytes using assms(6) empty by (simp add: LocalFile_readBytes_def Let_def)
qed

end
