(* ===== verification/Peer_Sender.thy ===== *)
theory Peer_Sender
  imports Tcp_Protocol Concurrent
begin

text \<open>
  The sending half of the peer-to-peer transport of \<^verbatim>\<open>src/libgeds/TcpTransport.{h,cpp}\<close>, the multiplexed binary
  protocol that the text requests of \<open>Tcp_Protocol\<close> have replaced: the wire format of its messages and the state
  machine that writes the messages of a queue to a non-blocking socket, resuming
  after partial writes. What the socket accepts is a script; whatever it does, the bytes on the
  wire are the messages of the queue in order.
\<close>

section \<open>Messages\<close>

datatype SockProcessingState = PROC_IDLE | PROC_HDR | PROC_DATA | PROC_FAILED

datatype TcpRpcOp = GET_REQ | GET_REPLY | INFO_REQ | INFO_REPLY

fun op_code :: "TcpRpcOp \<Rightarrow> nat" where
  "op_code GET_REQ = 1"
| "op_code GET_REPLY = 2"
| "op_code INFO_REQ = 3"
| "op_code INFO_REPLY = 4"

record SocketSendWork =
  sw_objName :: "byte list"
  sw_reqId :: nat
  sw_va :: nat
  sw_in_fd :: int
  sw_off :: size_t
  sw_len :: size_t
  sw_type :: TcpRpcOp
  sw_error :: nat

text \<open>The header travels as it lies in memory; its last four bytes are padding that is never set.\<close>

record TcpCtlHdr =
  h_reqid :: nat
  h_datalen :: nat
  h_offset :: nat
  h_hdrlen :: nat
  h_type :: nat
  h_error :: nat

definition hdr_size :: nat where
  "hdr_size = 32"

definition encode_hdr :: "TcpCtlHdr \<Rightarrow> byte list" where
  "encode_hdr h =
     le_bytes 8 (h_reqid h) @ le_bytes 8 (h_datalen h) @ le_bytes 8 (h_offset h) @ le_bytes 2 (h_hdrlen h) @
     le_bytes 1 (h_type h) @ le_bytes 1 (h_error h) @ le_bytes 4 0"

definition decode_hdr :: "byte list \<Rightarrow> TcpCtlHdr" where
  "decode_hdr bs =
     \<lparr>h_reqid = le_value (take 8 bs), h_datalen = le_value (take 8 (drop 8 bs)), h_offset = le_value (take 8 (drop 16 bs)),
      h_hdrlen = le_value (take 2 (drop 24 bs)), h_type = le_value (take 1 (drop 26 bs)),
      h_error = le_value (take 1 (drop 27 bs))\<rparr>"

text \<open>Unsigned integers of 16 and 8 bits; for evaluation the modulus is computed on binary integers.\<close>

definition wrap16 :: "nat \<Rightarrow> nat" where
  "wrap16 n = n mod 2 ^ 16"

definition wrap8 :: "nat \<Rightarrow> nat" where
  "wrap8 n = n mod 2 ^ 8"

lemma wrap_code [code]: "wrap16 n = nat (int n mod 65536)" "wrap8 n = nat (int n mod 256)"
  by (simp_all add: wrap16_def wrap8_def nat_mod_as_int)

lemma le_bytes_code [code]: "le_bytes 0 n = []" "le_bytes (Suc k) n = of_nat n # le_bytes k (nat (int n div 256))"
proof -
  have "nat (int n div 256) = n div 256" by (simp add: nat_div_as_int)
  then show "le_bytes (Suc k) n = of_nat n # le_bytes k (nat (int n div 256))" by (simp only: le_bytes_Suc)
qed (simp add: le_bytes_def)

definition hdr_ok :: "TcpCtlHdr \<Rightarrow> bool" where
  "hdr_ok h \<longleftrightarrow> h_reqid h < 2 ^ 64 \<and> h_datalen h < 2 ^ 64 \<and> h_offset h < 2 ^ 64 \<and> h_hdrlen h < 2 ^ 16 \<and>
     h_type h < 2 ^ 8 \<and> h_error h < 2 ^ 8"

lemma length_encode_hdr [simp]: "length (encode_hdr h) = hdr_size"
  by (simp add: encode_hdr_def hdr_size_def)

lemma decode_encode_hdr: "hdr_ok h \<Longrightarrow> decode_hdr (encode_hdr h) = h"
  by (simp add: decode_hdr_def encode_hdr_def le_value_le_bytes hdr_ok_def)

section \<open>The state of a sender\<close>

abbreviation ERRNO_AGAIN :: nat where "ERRNO_AGAIN \<equiv> 11"
abbreviation ERRNO_INVAL :: nat where "ERRNO_INVAL \<equiv> 22"
abbreviation ERRNO_IO :: nat where "ERRNO_IO \<equiv> 5"

text \<open>
  \<open>ss_tx_bytes\<close> is the counter of the endpoint the state belongs to. The socket accepts at most the named number of bytes
  or fails with an error number; a socket about which nothing is said would block.
\<close>

record TcpSendState =
  ss_state :: SockProcessingState
  ss_hdr :: TcpCtlHdr
  ss_va :: nat
  ss_in_fd :: int
  ss_objName :: "byte list"
  ss_progress :: nat
  ss_tx_bytes :: size_t

datatype write_event = Accepts nat | WriteError nat

record sender =
  sd_queue :: "SocketSendWork list"
  sd_ctx :: TcpSendState
  sd_script :: "write_event list"
  sd_wire :: "byte list"
  sd_released :: "nat list"

definition TcpSendState_new :: TcpSendState where
  "TcpSendState_new =
     \<lparr>ss_state = PROC_IDLE, ss_hdr = \<lparr>h_reqid = 0, h_datalen = 0, h_offset = 0, h_hdrlen = 0, h_type = 0, h_error = 0\<rparr>,
      ss_va = 0, ss_in_fd = 0, ss_objName = [], ss_progress = 0, ss_tx_bytes = 0\<rparr>"

definition sock_write :: "byte list \<Rightarrow> write_event list \<Rightarrow> (nat + nat) \<times> write_event list" where
  "sock_write avail script =
     (case script of
        [] \<Rightarrow> (Inl ERRNO_AGAIN, [])
      | Accepts k # r \<Rightarrow> (Inr (min k (length avail)), r)
      | WriteError e # r \<Rightarrow> (Inl e, r))"

section \<open>processEndpointSend\<close>

text \<open>A new message: \<open>hdrlen\<close> has 16 bits, the error number is cut to 8.\<close>

definition load_work :: "SocketSendWork \<Rightarrow> TcpSendState \<Rightarrow> TcpSendState" where
  "load_work work ctx =
     ctx\<lparr>ss_state := PROC_HDR,
       ss_hdr := \<lparr>h_reqid = sw_reqId work, h_datalen = sw_len work, h_offset = sw_off work,
                  h_hdrlen = wrap16 (hdr_size + length (sw_objName work)),
                  h_type = op_code (sw_type work), h_error = wrap8 (sw_error work)\<rparr>,
       ss_objName := sw_objName work, ss_va := sw_va work, ss_in_fd := sw_in_fd work, ss_progress := 0\<rparr>"

text \<open>The vectors of the header: what is left of the header itself and of the name.\<close>

definition header_iov :: "TcpSendState \<Rightarrow> byte list" where
  "header_iov ctx =
     (let name = (if h_hdrlen (ss_hdr ctx) > hdr_size then take (h_hdrlen (ss_hdr ctx) - hdr_size) (ss_objName ctx) else [])
      in if ss_progress ctx < hdr_size then drop (ss_progress ctx) (encode_hdr (ss_hdr ctx)) @ name
         else drop (ss_progress ctx - hdr_size) name)"

text \<open>How one round of the loop ends: it returns, goes to the test with the number of bytes sent, or breaks.\<close>

datatype send_end = SReturn bool | SContinue nat | SBreak nat

definition emit :: "byte list \<Rightarrow> write_event list \<Rightarrow> sender \<Rightarrow> sender" where
  "emit bs r s = s\<lparr>sd_script := r, sd_wire := sd_wire s @ bs\<rparr>"

definition write_header :: "sender \<Rightarrow> (send_end + nat) \<times> sender" where
  "write_header s =
     (let iov = header_iov (sd_ctx s) in
      case sock_write iov (sd_script s) of
        (Inl e, r) \<Rightarrow> (Inl (SBreak e), emit [] r s)
      | (Inr sent, r) \<Rightarrow>
          let s1 = emit (take sent iov) r s;
              ctx = (sd_ctx s)\<lparr>ss_tx_bytes := wrap64 (ss_tx_bytes (sd_ctx s) + sent)\<rparr>
          in if sent < length iov
             then (Inl (SContinue sent), s1\<lparr>sd_ctx := ctx\<lparr>ss_progress := ss_progress ctx + sent\<rparr>\<rparr>)
             else (Inr sent, s1\<lparr>sd_ctx := ctx\<lparr>ss_progress := 0\<rparr>\<rparr>))"

text \<open>
  The payload. \<open>data fd va\<close> are the bytes of the file \<open>fd\<close> from position \<open>va\<close> on, or those in memory from the address \<open>va\<close> on
  if there is no file; \<open>sendfile\<close> ends with the file. A buffer in memory goes back to the pool when
  it was sent.
\<close>

definition write_data :: "(int \<Rightarrow> nat \<Rightarrow> byte list) \<Rightarrow> nat \<Rightarrow> sender \<Rightarrow> send_end \<times> sender" where
  "write_data data sent s =
     (let ctx = sd_ctx s; hdr = ss_hdr ctx in
      if h_type hdr \<noteq> op_code GET_REPLY \<or> h_error hdr \<noteq> 0
      then (SContinue sent, s\<lparr>sd_ctx := ctx\<lparr>ss_state := PROC_IDLE\<rparr>\<rparr>)
      else
        let data_to_send = h_datalen hdr - ss_progress ctx in
        if data_to_send = 0 then (SContinue sent, s\<lparr>sd_ctx := ctx\<lparr>ss_state := PROC_IDLE\<rparr>\<rparr>)
        else
          let ctx1 = ctx\<lparr>ss_state := PROC_DATA\<rparr>;
              avail = take data_to_send (drop (ss_progress ctx) (data (ss_in_fd ctx) (ss_va ctx)))
          in case sock_write avail (sd_script s) of
               (Inl e, r) \<Rightarrow> (SBreak e, (emit [] r s)\<lparr>sd_ctx := ctx1\<rparr>)
             | (Inr n, r) \<Rightarrow>
                 let s1 = emit (take n avail) r s in
                 if n = data_to_send
                 then (SContinue n,
                   s1\<lparr>sd_released := sd_released s @ (if ss_in_fd ctx > 0 then [] else [ss_va ctx]),
                      sd_ctx := ctx1\<lparr>ss_tx_bytes := wrap64 (ss_tx_bytes ctx + h_datalen hdr), ss_state := PROC_IDLE\<rparr>\<rparr>)
                 else (SContinue n, s1\<lparr>sd_ctx := ctx1\<lparr>ss_progress := ss_progress ctx + n\<rparr>\<rparr>))"

definition send_round :: "(int \<Rightarrow> nat \<Rightarrow> byte list) \<Rightarrow> sender \<Rightarrow> send_end \<times> sender" where
  "send_round data s =
     (case (if ss_state (sd_ctx s) = PROC_IDLE
            then (case ConcurrentQueue_pop (sd_queue s) of
                    (None, _) \<Rightarrow> None
                  | (Some work, q) \<Rightarrow> Some (s\<lparr>sd_queue := q, sd_ctx := load_work work (sd_ctx s)\<rparr>))
            else Some s) of
        None \<Rightarrow> (SReturn True, s)
      | Some s1 \<Rightarrow>
          if ss_state (sd_ctx s1) = PROC_HDR
          then (case write_header s1 of
                  (Inl end', s2) \<Rightarrow> (end', s2)
                | (Inr sent, s2) \<Rightarrow> write_data data sent s2)
          else write_data data 0 s1)"

lemma sock_write_script: "snd (sock_write avail script) = tl script"
  by (auto simp: sock_write_def split: list.splits write_event.splits)

lemma sock_write_Inr: "sock_write avail script = (Inr n, r) \<Longrightarrow> script \<noteq> [] \<and> r = tl script \<and> n \<le> length avail"
  by (auto simp: sock_write_def split: list.splits write_event.splits)

lemma write_header_script:
  "write_header s = (x, s1) \<Longrightarrow> sd_script s1 = tl (sd_script s) \<and>
     (case x of Inl (SContinue n) \<Rightarrow> sd_script s \<noteq> [] | Inr n \<Rightarrow> sd_script s \<noteq> [] | _ \<Rightarrow> True)"
  by (auto simp: write_header_def emit_def Let_def split: prod.splits sum.splits if_splits
      dest!: sock_write_Inr dest: arg_cong [where f = snd] simp: sock_write_script
      intro: sock_write_script [symmetric, THEN trans])

text \<open>A round that goes on has used up a part of the script, unless it sent nothing.\<close>

lemma write_data_script:
  "write_data data sent s = (SContinue n, s1) \<Longrightarrow> n = sent \<and> sd_script s1 = sd_script s \<or>
     sd_script s \<noteq> [] \<and> sd_script s1 = tl (sd_script s)"
  by (auto simp: write_data_def emit_def Let_def split: prod.splits sum.splits if_splits dest!: sock_write_Inr)

lemma send_round_script:
  assumes "send_round data s = (SContinue n, s1)" "0 < n"
  shows "length (sd_script s1) < length (sd_script s)"
  using assms
  by (auto simp: send_round_def split: option.splits if_splits prod.splits sum.splits
      dest!: write_header_script write_data_script)

function send_loop :: "(int \<Rightarrow> nat \<Rightarrow> byte list) \<Rightarrow> sender \<Rightarrow> bool \<times> sender" where
  "send_loop data s =
     (case send_round data s of
        (SReturn b, s1) \<Rightarrow> (b, s1)
      | (SContinue n, s1) \<Rightarrow> if 0 < n then send_loop data s1 else (True, s1)
      | (SBreak e, s1) \<Rightarrow>
          if e = ERRNO_AGAIN then (True, s1) else (False, s1\<lparr>sd_ctx := (sd_ctx s1)\<lparr>ss_state := PROC_FAILED\<rparr>\<rparr>))"
  by pat_completeness auto
termination
  by (relation "measure (\<lambda>(data, s). length (sd_script s))") (auto intro: send_round_script [OF sym])

declare send_loop.simps [simp del]

definition processEndpointSend :: "(int \<Rightarrow> nat \<Rightarrow> byte list) \<Rightarrow> sender \<Rightarrow> bool \<times> sender" where
  "processEndpointSend data s = (if ss_state (sd_ctx s) = PROC_FAILED then (False, s) else send_loop data s)"


section \<open>What is on the wire\<close>

text \<open>
  The bytes of a message, field by field in the order of the packed header, then its name and its data, and the
  bytes that a sender still has to write. Together with what it has written
  they make up the stream of the sender, which no call changes.
\<close>

definition payload :: "(int \<Rightarrow> nat \<Rightarrow> byte list) \<Rightarrow> TcpSendState \<Rightarrow> byte list" where
  "payload data ctx =
     (if h_type (ss_hdr ctx) = op_code GET_REPLY \<and> h_error (ss_hdr ctx) = 0
      then take (h_datalen (ss_hdr ctx)) (data (ss_in_fd ctx) (ss_va ctx)) else [])"

definition work_bytes :: "(int \<Rightarrow> nat \<Rightarrow> byte list) \<Rightarrow> SocketSendWork \<Rightarrow> byte list" where
  "work_bytes data work =
     (let hdrlen = wrap16 (hdr_size + length (sw_objName work))
      in le_bytes 8 (sw_reqId work) @ le_bytes 8 (sw_len work) @ le_bytes 8 (sw_off work) @ le_bytes 2 hdrlen @
         le_bytes 1 (op_code (sw_type work)) @ le_bytes 1 (wrap8 (sw_error work)) @ le_bytes 4 0 @
         take (hdrlen - hdr_size) (sw_objName work) @
         (if sw_type work = GET_REPLY \<and> wrap8 (sw_error work) = 0 then take (sw_len work) (data (sw_in_fd work) (sw_va work)) else []))"

definition pending :: "(int \<Rightarrow> nat \<Rightarrow> byte list) \<Rightarrow> TcpSendState \<Rightarrow> byte list" where
  "pending data ctx =
     (case ss_state ctx of
        PROC_HDR \<Rightarrow> header_iov ctx @ payload data ctx
      | PROC_DATA \<Rightarrow> drop (ss_progress ctx) (payload data ctx)
      | _ \<Rightarrow> [])"

definition queued :: "(int \<Rightarrow> nat \<Rightarrow> byte list) \<Rightarrow> sender \<Rightarrow> byte list" where
  "queued data s = concat (map (work_bytes data) (sd_queue s))"

definition stream :: "(int \<Rightarrow> nat \<Rightarrow> byte list) \<Rightarrow> sender \<Rightarrow> byte list" where
  "stream data s = sd_wire s @ pending data (sd_ctx s) @ queued data s"

text \<open>A payload is only under way for a reply without error, and not beyond its end.\<close>

definition send_ok :: "TcpSendState \<Rightarrow> bool" where
  "send_ok ctx \<longleftrightarrow> (ss_state ctx = PROC_DATA \<longrightarrow>
     h_type (ss_hdr ctx) = op_code GET_REPLY \<and> h_error (ss_hdr ctx) = 0 \<and> ss_progress ctx < h_datalen (ss_hdr ctx))"

lemma header_iov_cong [simp]: "header_iov (ctx\<lparr>ss_tx_bytes := m\<rparr>) = header_iov ctx"
  "header_iov (ctx\<lparr>ss_tx_bytes := m, ss_progress := p\<rparr>) = header_iov (ctx\<lparr>ss_progress := p\<rparr>)"
  by (simp_all add: header_iov_def)

lemma header_iov_progress:
  "n \<le> length (header_iov ctx) \<Longrightarrow> header_iov (ctx\<lparr>ss_progress := ss_progress ctx + n\<rparr>) = drop n (header_iov ctx)"
  by (auto simp: header_iov_def Let_def hdr_size_def add.commute)

lemma payload_cong [simp]:
  "payload data (ctx\<lparr>ss_progress := p\<rparr>) = payload data ctx"
  "payload data (ctx\<lparr>ss_tx_bytes := m\<rparr>) = payload data ctx"
  "payload data (ctx\<lparr>ss_state := st\<rparr>) = payload data ctx"
  by (simp_all add: payload_def)

lemma load_work_bytes: "header_iov (load_work work ctx) @ payload data (load_work work ctx) = work_bytes data work"
  by (cases "sw_type work") (simp_all add: work_bytes_def load_work_def header_iov_def payload_def encode_hdr_def hdr_size_def Let_def)

lemma write_header_cases:
  obtains e r where "write_header s = (Inl (SBreak e), s\<lparr>sd_script := r\<rparr>)"
  | n r m where "n < length (header_iov (sd_ctx s))"
      "write_header s = (Inl (SContinue n), s\<lparr>sd_script := r, sd_wire := sd_wire s @ take n (header_iov (sd_ctx s)),
         sd_ctx := (sd_ctx s)\<lparr>ss_tx_bytes := m, ss_progress := ss_progress (sd_ctx s) + n\<rparr>\<rparr>)"
  | r m where "write_header s = (Inr (length (header_iov (sd_ctx s))), s\<lparr>sd_script := r,
      sd_wire := sd_wire s @ header_iov (sd_ctx s), sd_ctx := (sd_ctx s)\<lparr>ss_tx_bytes := m, ss_progress := 0\<rparr>\<rparr>)"
proof (cases "sock_write (header_iov (sd_ctx s)) (sd_script s)")
  case (Pair x r)
  then show thesis
  proof (cases x)
    case (Inl e)
    with Pair show thesis by (intro that(1)) (simp add: write_header_def emit_def)
  next
    case (Inr n)
    with Pair have le: "n \<le> length (header_iov (sd_ctx s))" by (auto dest: sock_write_Inr)
    show thesis
    proof (cases "n < length (header_iov (sd_ctx s))")
      case True
      with Pair Inr show thesis by (intro that(2)) (auto simp: write_header_def emit_def Let_def)
    next
      case False
      with Pair Inr le show thesis by (intro that(3)) (simp add: write_header_def emit_def Let_def)
    qed
  qed
qed

lemma write_header_stream:
  assumes "write_header s = (x, s1)" "ss_state (sd_ctx s) = PROC_HDR"
  shows "ss_state (sd_ctx s1) = PROC_HDR" "sd_queue s1 = sd_queue s" "payload data (sd_ctx s1) = payload data (sd_ctx s)"
    "case x of
       Inl _ \<Rightarrow> stream data s1 = stream data s
     | Inr _ \<Rightarrow> sd_wire s1 = sd_wire s @ header_iov (sd_ctx s) \<and> ss_progress (sd_ctx s1) = 0"
proof -
  have "ss_state (sd_ctx s1) = PROC_HDR \<and> sd_queue s1 = sd_queue s \<and> payload data (sd_ctx s1) = payload data (sd_ctx s) \<and>
    (case x of
       Inl _ \<Rightarrow> stream data s1 = stream data s
     | Inr _ \<Rightarrow> sd_wire s1 = sd_wire s @ header_iov (sd_ctx s) \<and> ss_progress (sd_ctx s1) = 0)"
  proof (cases rule: write_header_cases [of s])
    case (2 n r m)
    then show ?thesis using assms by (auto simp: stream_def queued_def pending_def header_iov_progress)
  qed (use assms in \<open>auto simp: stream_def queued_def pending_def\<close>)
  then show "ss_state (sd_ctx s1) = PROC_HDR" "sd_queue s1 = sd_queue s" "payload data (sd_ctx s1) = payload data (sd_ctx s)"
    "case x of
       Inl _ \<Rightarrow> stream data s1 = stream data s
     | Inr _ \<Rightarrow> sd_wire s1 = sd_wire s @ header_iov (sd_ctx s) \<and> ss_progress (sd_ctx s1) = 0"
    by blast+
qed


lemma write_data_stream:
  assumes "write_data data sent s = (e, s1)" "send_ok (sd_ctx s)"
  shows "sd_queue s1 = sd_queue s" "send_ok (sd_ctx s1)" "ss_state (sd_ctx s1) \<in> {PROC_IDLE, PROC_DATA}"
    "sd_wire s1 @ pending data (sd_ctx s1) = sd_wire s @ drop (ss_progress (sd_ctx s)) (payload data (sd_ctx s))"
proof -
  let ?ctx = "sd_ctx s" and ?n = "h_datalen (ss_hdr (sd_ctx s)) - ss_progress (sd_ctx s)"
  define avail where "avail = take ?n (drop (ss_progress ?ctx) (data (ss_in_fd ?ctx) (ss_va ?ctx)))"
  have "sd_queue s1 = sd_queue s \<and> send_ok (sd_ctx s1) \<and> ss_state (sd_ctx s1) \<in> {PROC_IDLE, PROC_DATA} \<and>
    sd_wire s1 @ pending data (sd_ctx s1) = sd_wire s @ drop (ss_progress ?ctx) (payload data ?ctx)"
  proof (cases "h_type (ss_hdr ?ctx) \<noteq> op_code GET_REPLY \<or> h_error (ss_hdr ?ctx) \<noteq> 0 \<or> ?n = 0")
    case True
    then show ?thesis
      using assms(1) by (auto simp: write_data_def Let_def send_ok_def pending_def payload_def split: if_splits)
  next
    case False
    then have pay: "drop (ss_progress ?ctx) (payload data ?ctx) = avail" by (simp add: payload_def drop_take avail_def)
    obtain x r where w: "sock_write avail (sd_script s) = (x, r)" by fastforce
    show ?thesis
    proof (cases x)
      case (Inl b)
      with False w pay assms(1) show ?thesis
        by (auto simp: write_data_def Let_def emit_def send_ok_def pending_def avail_def [symmetric])
    next
      case (Inr n)
      with w have n: "n \<le> length avail" by (auto dest: sock_write_Inr)
      have le: "n \<le> ?n" using n by (simp add: avail_def)
      have rest: "drop (ss_progress ?ctx + n) (payload data ?ctx) = drop n avail"
        unfolding pay [symmetric] by (simp add: add.commute)
      show ?thesis
      proof (cases "n = ?n")
        case True
        then have "take n avail = avail" by (simp add: avail_def)
        with True False w Inr assms(1) show ?thesis
          unfolding pay by (auto simp: write_data_def Let_def emit_def send_ok_def pending_def avail_def [symmetric])
      next
        case less: False
        then have "ss_progress ?ctx + n < h_datalen (ss_hdr ?ctx)" using le False by linarith
        with less False w Inr assms(1) show ?thesis
          unfolding pay
          by (auto simp: write_data_def Let_def emit_def send_ok_def pending_def avail_def [symmetric] rest)
      qed
    qed
  qed
  then show "sd_queue s1 = sd_queue s" "send_ok (sd_ctx s1)" "ss_state (sd_ctx s1) \<in> {PROC_IDLE, PROC_DATA}"
    "sd_wire s1 @ pending data (sd_ctx s1) = sd_wire s @ drop (ss_progress ?ctx) (payload data ?ctx)"
    by blast+
qed

lemma send_round_stream:
  assumes "send_round data s = (e, s1)" "send_ok (sd_ctx s)" "ss_state (sd_ctx s) \<noteq> PROC_FAILED"
  shows "stream data s1 = stream data s \<and> send_ok (sd_ctx s1) \<and> ss_state (sd_ctx s1) \<noteq> PROC_FAILED"
proof -
  have hdr: "stream data s3 = stream data s2 \<and> send_ok (sd_ctx s3) \<and> ss_state (sd_ctx s3) \<noteq> PROC_FAILED"
    if "ss_state (sd_ctx s2) = PROC_HDR"
      and "(case write_header s2 of (Inl e, s) \<Rightarrow> (e, s) | (Inr n, s) \<Rightarrow> write_data data n s) = (e, s3)" for s2 s3
  proof -
    obtain x s4 where w: "write_header s2 = (x, s4)" by fastforce
    note h = write_header_stream(1,2) [OF w that(1)] write_header_stream(3,4) [where data = data, OF w that(1)]
    show ?thesis
    proof (cases x)
      case (Inl e')
      with that(2) w h show ?thesis by (auto simp: send_ok_def)
    next
      case (Inr n)
      with that(2) w have d: "write_data data n s4 = (e, s3)" by simp
      have "send_ok (sd_ctx s4)" using h(1) by (simp add: send_ok_def)
      note d = write_data_stream [OF d this]
      have "stream data s3 = (sd_wire s3 @ pending data (sd_ctx s3)) @ queued data s3" by (simp add: stream_def)
      also have "\<dots> = stream data s2"
        using d(1,4) h Inr that(1) by (simp add: stream_def queued_def pending_def)
      finally show ?thesis using d(2,3) by auto
    qed
  qed
  show ?thesis
  proof (cases "ss_state (sd_ctx s)")
    case PROC_IDLE
    show ?thesis
    proof (cases "sd_queue s")
      case Nil
      with PROC_IDLE assms show ?thesis by (auto simp: send_round_def ConcurrentQueue_pop_def)
    next
      case (Cons work q)
      let ?s = "s\<lparr>sd_queue := q, sd_ctx := load_work work (sd_ctx s)\<rparr>"
      have st: "ss_state (load_work work (sd_ctx s)) = PROC_HDR" by (simp add: load_work_def)
      have "stream data ?s = stream data s"
        using PROC_IDLE Cons st load_work_bytes [of work "sd_ctx s" data]
        by (simp add: stream_def queued_def pending_def)
      with hdr [of ?s s1] assms(1) PROC_IDLE Cons st show ?thesis
        by (simp add: send_round_def ConcurrentQueue_pop_def)
    qed
  next
    case PROC_HDR
    with hdr [of s s1] assms(1) show ?thesis by (simp add: send_round_def)
  next
    case PROC_DATA
    then have "write_data data 0 s = (e, s1)" using assms(1) by (simp add: send_round_def)
    note d = write_data_stream [OF this assms(2)]
    have "stream data s1 = (sd_wire s1 @ pending data (sd_ctx s1)) @ queued data s1" by (simp add: stream_def)
    also have "\<dots> = stream data s" using d(1,4) PROC_DATA by (simp add: stream_def queued_def pending_def)
    finally show ?thesis using d(2,3) by auto
  qed (use assms in simp)
qed

text \<open>A call keeps the stream; after a failure the rest of it is lost.\<close>

lemma send_loop_stream:
  assumes "send_loop data s = (b, s1)" "send_ok (sd_ctx s)" "ss_state (sd_ctx s) \<noteq> PROC_FAILED"
  shows "prefix (sd_wire s1) (stream data s) \<and> send_ok (sd_ctx s1) \<and> (b \<longleftrightarrow> ss_state (sd_ctx s1) \<noteq> PROC_FAILED) \<and>
    (b \<longrightarrow> stream data s1 = stream data s)"
  using assms
proof (induction data s arbitrary: b s1 rule: send_loop.induct)
  case (1 data s)
  obtain e s2 where r: "send_round data s = (e, s2)" by fastforce
  note inv = send_round_stream [OF r "1.prems"(2,3)]
  have pre: "prefix (sd_wire s2) (stream data s)" using inv unfolding prefix_def stream_def by metis
  show ?case
  proof (cases e)
    case (SReturn c)
    moreover have "c" using r SReturn
      by (auto simp: send_round_def write_header_def write_data_def Let_def split: option.splits if_splits prod.splits sum.splits)
    ultimately show ?thesis using r inv pre "1.prems"(1) by (simp add: send_loop.simps)
  next
    case (SContinue n)
    show ?thesis
    proof (cases "0 < n")
      case True
      with SContinue r "1.prems"(1) have "send_loop data s2 = (b, s1)" by (simp add: send_loop.simps [of data s])
      with "1.IH" [OF r [symmetric] SContinue True] inv show ?thesis by simp
    next
      case False
      with SContinue r inv pre "1.prems"(1) show ?thesis by (simp add: send_loop.simps)
    qed
  next
    case (SBreak c)
    with r inv pre "1.prems"(1) show ?thesis by (auto simp: send_loop.simps [of data s] send_ok_def split: if_splits)
  qed
qed


section \<open>Histories of a sender\<close>

datatype send_event = Enqueue SocketSendWork | Ready "write_event list"

fun send_step :: "(int \<Rightarrow> nat \<Rightarrow> byte list) \<Rightarrow> send_event \<Rightarrow> sender \<Rightarrow> sender" where
  "send_step data (Enqueue work) s = s\<lparr>sd_queue := ConcurrentQueue_push work (sd_queue s)\<rparr>"
| "send_step data (Ready script) s = snd (processEndpointSend data (s\<lparr>sd_script := script\<rparr>))"

definition sender_new :: sender where
  "sender_new = \<lparr>sd_queue = [], sd_ctx = TcpSendState_new, sd_script = [], sd_wire = [], sd_released = []\<rparr>"

fun enqueued :: "send_event list \<Rightarrow> SocketSendWork list" where
  "enqueued [] = []"
| "enqueued (Enqueue work # evs) = work # enqueued evs"
| "enqueued (Ready script # evs) = enqueued evs"

lemma enqueued_append [simp]: "enqueued (evs @ evs') = enqueued evs @ enqueued evs'"
  by (induction evs rule: enqueued.induct) simp_all

definition send_run :: "(int \<Rightarrow> nat \<Rightarrow> byte list) \<Rightarrow> send_event list \<Rightarrow> sender" where
  "send_run data evs = fold (send_step data) evs sender_new"

lemma send_history:
  "send_ok (sd_ctx (send_run data evs)) \<and> prefix (sd_wire (send_run data evs)) (concat (map (work_bytes data) (enqueued evs))) \<and>
    (ss_state (sd_ctx (send_run data evs)) \<noteq> PROC_FAILED \<longrightarrow> stream data (send_run data evs) = concat (map (work_bytes data) (enqueued evs)))"
proof (induction evs rule: rev_induct)
  case Nil
  show ?case by (simp add: send_run_def sender_new_def TcpSendState_new_def send_ok_def stream_def pending_def queued_def)
next
  case (snoc ev evs)
  let ?s = "send_run data evs"
  have step: "send_run data (evs @ [ev]) = send_step data ev ?s" by (simp add: send_run_def)
  show ?case
  proof (cases ev)
    case (Enqueue work)
    with snoc step show ?thesis
      by (auto simp: ConcurrentQueue_push_def stream_def queued_def intro: prefix_prefix)
  next
    case (Ready script)
    let ?start = "?s\<lparr>sd_script := script\<rparr>"
    have eq: "stream data ?start = stream data ?s" "sd_ctx ?start = sd_ctx ?s" by (simp_all add: stream_def queued_def)
    obtain b s1 where p: "processEndpointSend data ?start = (b, s1)" by fastforce
    show ?thesis
    proof (cases "ss_state (sd_ctx ?s) = PROC_FAILED")
      case True
      with p have "s1 = ?start" by (simp add: processEndpointSend_def)
      with True snoc step Ready p show ?thesis by simp
    next
      case False
      with p have loop: "send_loop data ?start = (b, s1)" by (simp add: processEndpointSend_def)
      have "send_ok (sd_ctx ?start)" "ss_state (sd_ctx ?start) \<noteq> PROC_FAILED" using False snoc by simp_all
      note q = send_loop_stream [OF loop this]
      have "stream data ?start = concat (map (work_bytes data) (enqueued evs))" using eq(1) False snoc by simp
      with q have "prefix (sd_wire s1) (concat (map (work_bytes data) (enqueued evs)))" "send_ok (sd_ctx s1)"
        "ss_state (sd_ctx s1) \<noteq> PROC_FAILED \<longrightarrow> stream data s1 = concat (map (work_bytes data) (enqueued evs))"
        by auto
      with step Ready p show ?thesis by simp
    qed
  qed
qed

text \<open>
  C19. What the sender puts on the wire. Messages are queued and the socket becomes ready at any moments; each time it
  accepts any number of bytes, nothing, or fails. At every moment the bytes on the wire are a prefix of
  the messages in the order in which they were queued, each with header, name and payload: none is
  interleaved, repeated or left out, wherever a write was interrupted. Once the sender is idle with an empty queue, all of them
  are on the wire.
\<close>

theorem send_stream_exact:
  "prefix (sd_wire (send_run data evs)) (concat (map (work_bytes data) (enqueued evs))) \<and>
   (ss_state (sd_ctx (send_run data evs)) = PROC_IDLE \<and> sd_queue (send_run data evs) = [] \<longrightarrow>
      sd_wire (send_run data evs) = concat (map (work_bytes data) (enqueued evs)))"
  using send_history [of data evs] by (auto simp: stream_def queued_def pending_def)

definition sample_request :: SocketSendWork where
  "sample_request = \<lparr>sw_objName = [97, 47, 98], sw_reqId = 1, sw_va = 0, sw_in_fd = - 1, sw_off = 0, sw_len = 2, sw_type = GET_REQ, sw_error = 0\<rparr>"

definition sample_reply :: SocketSendWork where
  "sample_reply = \<lparr>sw_objName = [], sw_reqId = 7, sw_va = 3, sw_in_fd = 5, sw_off = 0, sw_len = 2, sw_type = GET_REPLY, sw_error = 0\<rparr>"

theorem send_stream_exact_witness:
  "sd_wire (send_run (\<lambda>_ va. drop va [1, 2, 3, 4, 5]) [Enqueue sample_request, Ready [Accepts 33], Enqueue sample_reply,
       Ready [WriteError 11], Ready [Accepts 1, Accepts 40, Accepts 30, Accepts 9, Accepts 1, Accepts 1]]) =
     [1, 0, 0, 0, 0, 0, 0, 0, 2, 0, 0, 0, 0, 0, 0, 0, 0, 0, 0, 0, 0, 0, 0, 0, 35, 0, 1, 0, 0, 0, 0, 0, 97, 47, 98,
      7, 0, 0, 0, 0, 0, 0, 0, 2, 0, 0, 0, 0, 0, 0, 0, 0, 0, 0, 0, 0, 0, 0, 0, 32, 0, 2, 0, 0, 0, 0, 0, 4, 5]"
proof -
  let ?evs = "[Enqueue sample_request, Ready [Accepts 33], Enqueue sample_reply, Ready [WriteError 11],
      Ready [Accepts 1, Accepts 40, Accepts 30, Accepts 9, Accepts 1, Accepts 1]]"
  let ?data = "\<lambda>_ va. drop va [1, 2, 3, 4, 5 :: byte]"
  have "ss_state (sd_ctx (send_run ?data ?evs)) = PROC_IDLE" "sd_queue (send_run ?data ?evs) = []" by code_simp+
  moreover have "concat (map (work_bytes ?data) (enqueued ?evs)) =
     [1, 0, 0, 0, 0, 0, 0, 0, 2, 0, 0, 0, 0, 0, 0, 0, 0, 0, 0, 0, 0, 0, 0, 0, 35, 0, 1, 0, 0, 0, 0, 0, 97, 47, 98,
      7, 0, 0, 0, 0, 0, 0, 0, 2, 0, 0, 0, 0, 0, 0, 0, 0, 0, 0, 0, 0, 0, 0, 0, 32, 0, 2, 0, 0, 0, 0, 0, 4, 5]"
    by code_simp
  ultimately show ?thesis using send_stream_exact [of ?data ?evs] by simp
qed

section \<open>Progress\<close>

text \<open>The file or buffer of a reply holds as many bytes as its header announces.\<close>

definition full_work :: "(int \<Rightarrow> nat \<Rightarrow> byte list) \<Rightarrow> SocketSendWork \<Rightarrow> bool" where
  "full_work data work \<longleftrightarrow>
     (sw_type work = GET_REPLY \<and> wrap8 (sw_error work) = 0 \<longrightarrow> sw_len work \<le> length (data (sw_in_fd work) (sw_va work)))"

definition full_ctx :: "(int \<Rightarrow> nat \<Rightarrow> byte list) \<Rightarrow> TcpSendState \<Rightarrow> bool" where
  "full_ctx data ctx \<longleftrightarrow>
     (ss_state ctx \<in> {PROC_HDR, PROC_DATA} \<and> h_type (ss_hdr ctx) = op_code GET_REPLY \<and> h_error (ss_hdr ctx) = 0 \<longrightarrow>
        h_datalen (ss_hdr ctx) \<le> length (data (ss_in_fd ctx) (ss_va ctx))) \<and>
     (ss_state ctx = PROC_HDR \<longrightarrow> header_iov ctx \<noteq> [])"

definition generous :: "write_event list \<Rightarrow> bool" where
  "generous script \<longleftrightarrow> list_all (\<lambda>e. case e of Accepts k \<Rightarrow> 0 < k | WriteError _ \<Rightarrow> False) script"

lemma sock_write_generous:
  assumes "generous script" "script \<noteq> []" "avail \<noteq> []"
  obtains n where "sock_write avail script = (Inr n, tl script)" "0 < n" "n \<le> length avail" "generous (tl script)"
  using assms by (cases script) (auto simp: sock_write_def generous_def split: write_event.splits)


lemma header_iov_load [simp]: "header_iov (load_work work ctx) \<noteq> []"
  by (simp add: header_iov_def load_work_def Let_def hdr_size_def) (metis length_encode_hdr hdr_size_def list.size(3) zero_neq_numeral)

text \<open>The bytes that are left, and how a round that the socket does not hinder reduces them.\<close>

definition unsent :: "(int \<Rightarrow> nat \<Rightarrow> byte list) \<Rightarrow> sender \<Rightarrow> byte list" where
  "unsent data s = pending data (sd_ctx s) @ queued data s"

definition full :: "(int \<Rightarrow> nat \<Rightarrow> byte list) \<Rightarrow> sender \<Rightarrow> bool" where
  "full data s \<longleftrightarrow> full_ctx data (sd_ctx s) \<and> list_all (full_work data) (sd_queue s) \<and> send_ok (sd_ctx s) \<and>
     ss_state (sd_ctx s) \<noteq> PROC_FAILED \<and> generous (sd_script s) \<and> length (unsent data s) \<le> length (sd_script s)"

lemma full_load: "full_work data work \<Longrightarrow> full_ctx data (load_work work ctx)"
  using header_iov_load [of work ctx]
  by (cases "sw_type work") (simp_all add: full_ctx_def full_work_def, simp_all add: load_work_def)


text \<open>A round goes on and leaves enough of the script for the bytes that remain.\<close>

definition advances :: "(int \<Rightarrow> nat \<Rightarrow> byte list) \<Rightarrow> sender \<Rightarrow> send_end \<times> sender \<Rightarrow> bool" where
  "advances data s = (\<lambda>(e, s1). (\<exists>n > 0. e = SContinue n) \<and> generous (sd_script s1) \<and> full_ctx data (sd_ctx s1) \<and>
     sd_queue s1 = sd_queue s \<and> length (sd_wire s) + length (sd_script s) \<le> length (sd_wire s1) + length (sd_script s1))"

lemma write_data_advances:
  assumes "full_ctx data (sd_ctx s)" "ss_state (sd_ctx s) \<in> {PROC_HDR, PROC_DATA}" "generous (sd_script s)"
    and "0 < sent \<or> ss_state (sd_ctx s) = PROC_DATA" "send_ok (sd_ctx s)"
    and "length (drop (ss_progress (sd_ctx s)) (payload data (sd_ctx s))) \<le> length (sd_script s)"
  shows "advances data s (write_data data sent s)"
proof -
  let ?ctx = "sd_ctx s" and ?n = "h_datalen (ss_hdr (sd_ctx s)) - ss_progress (sd_ctx s)"
  define avail where "avail = take ?n (drop (ss_progress ?ctx) (data (ss_in_fd ?ctx) (ss_va ?ctx)))"
  show ?thesis
  proof (cases "h_type (ss_hdr ?ctx) \<noteq> op_code GET_REPLY \<or> h_error (ss_hdr ?ctx) \<noteq> 0 \<or> ?n = 0")
    case True
    then have "ss_state ?ctx \<noteq> PROC_DATA" using assms(5) by (auto simp: send_ok_def)
    with True assms(1-4) show ?thesis by (auto simp: advances_def write_data_def Let_def full_ctx_def)
  next
    case False
    then have "drop (ss_progress ?ctx) (payload data ?ctx) = avail" by (simp add: payload_def drop_take avail_def)
    moreover have len: "length avail = ?n" using False assms(1,2) by (auto simp: avail_def full_ctx_def)
    ultimately have "avail \<noteq> []" "sd_script s \<noteq> []" using False assms(6) by auto
    from sock_write_generous [OF assms(3) this(2,1)] obtain n
      where w: "sock_write avail (sd_script s) = (Inr n, tl (sd_script s))" "0 < n" "n \<le> length avail" "generous (tl (sd_script s))"
      by blast
    obtain ev r where script: "sd_script s = ev # r" using \<open>sd_script s \<noteq> []\<close> by (cases "sd_script s") auto
    have ctx: "full_ctx data (?ctx\<lparr>ss_state := PROC_DATA, ss_progress := p\<rparr>)" "full_ctx data (?ctx\<lparr>ss_tx_bytes := m, ss_state := PROC_IDLE\<rparr>)"
      for p m using assms(1,2) by (auto simp: full_ctx_def)
    show ?thesis
      using False w len script ctx by (auto simp: advances_def write_data_def Let_def avail_def [symmetric] emit_def)
  qed
qed

definition send_message :: "(int \<Rightarrow> nat \<Rightarrow> byte list) \<Rightarrow> sender \<Rightarrow> send_end \<times> sender" where
  "send_message data s = (case write_header s of (Inl e, s1) \<Rightarrow> (e, s1) | (Inr sent, s1) \<Rightarrow> write_data data sent s1)"

lemma send_message_advances:
  assumes "full_ctx data (sd_ctx s)" "ss_state (sd_ctx s) = PROC_HDR" "generous (sd_script s)"
    and "length (pending data (sd_ctx s)) \<le> length (sd_script s)"
  shows "advances data s (send_message data s)"
proof -
  let ?ctx = "sd_ctx s" and ?iov = "header_iov (sd_ctx s)"
  have iov: "?iov \<noteq> []" using assms(1,2) by (simp add: full_ctx_def)
  with assms(2,4) have ne: "sd_script s \<noteq> []" by (auto simp: pending_def)
  from sock_write_generous [OF assms(3) ne iov] obtain n
    where w: "sock_write ?iov (sd_script s) = (Inr n, tl (sd_script s))" "0 < n" "n \<le> length ?iov" "generous (tl (sd_script s))"
    by blast
  obtain ev r where script: "sd_script s = ev # r" using ne by (cases "sd_script s") auto
  let ?m = "wrap64 (ss_tx_bytes ?ctx + n)"
  show ?thesis
  proof (cases "n < length ?iov")
    case True
    moreover have "full_ctx data (?ctx\<lparr>ss_tx_bytes := ?m, ss_progress := ss_progress ?ctx + n\<rparr>)"
      using assms(1,2) True header_iov_progress [of n ?ctx] by (auto simp: full_ctx_def)
    ultimately show ?thesis
      using w script by (simp add: advances_def send_message_def write_header_def Let_def emit_def)
  next
    case False
    define t where "t = (emit ?iov (tl (sd_script s)) s)\<lparr>sd_ctx := ?ctx\<lparr>ss_tx_bytes := ?m, ss_progress := 0\<rparr>\<rparr>"
    have t: "sd_script t = tl (sd_script s)" "sd_wire t = sd_wire s @ ?iov" "sd_queue t = sd_queue s" "ss_state (sd_ctx t) = PROC_HDR"
      "payload data (sd_ctx t) = payload data ?ctx" "ss_progress (sd_ctx t) = 0"
      using assms(2) by (simp_all add: t_def emit_def)
    have h: "write_header s = (Inr n, t)" using False w(1,3) by (simp add: write_header_def Let_def t_def)
    have "header_iov (?ctx\<lparr>ss_progress := 0\<rparr>) \<noteq> []"
      by (simp add: header_iov_def Let_def hdr_size_def) (metis length_encode_hdr hdr_size_def list.size(3) zero_neq_numeral)
    then have f: "full_ctx data (sd_ctx t)" using assms(1,2) by (auto simp: full_ctx_def t_def)
    have "0 < length ?iov" using iov by simp
    moreover have "length ?iov + length (payload data ?ctx) \<le> length (sd_script s)" using assms(2,4) by (simp add: pending_def)
    ultimately have "length (payload data ?ctx) \<le> length (tl (sd_script s))" using script by (cases ?iov) auto
    then have "advances data t (write_data data n t)"
      using w t by (intro write_data_advances f) (simp_all add: send_ok_def)
    then show ?thesis
      using h t script \<open>0 < length ?iov\<close> by (cases ?iov) (auto simp: advances_def send_message_def)
  qed
qed

lemma send_round_full:
  assumes "full data s"
  shows "if unsent data s = [] then send_round data s = (SReturn True, s) \<and> ss_state (sd_ctx s) = PROC_IDLE \<and> sd_queue s = []
    else \<exists>n s1. send_round data s = (SContinue n, s1) \<and> 0 < n \<and> full data s1"
proof -
  note f = assms [unfolded full_def]
  have keep: "\<exists>n s1. send_round data s = (SContinue n, s1) \<and> 0 < n \<and> full data s1"
    if adv: "advances data t (send_round data s)" and "list_all (full_work data) (sd_queue t)" "sd_wire t = sd_wire s"
      "sd_script t = sd_script s" for t
  proof -
    obtain e s1 where "send_round data s = (e, s1)" by fastforce
    moreover from this obtain n where "e = SContinue n" "0 < n" using adv by (auto simp: advances_def)
    ultimately have r: "send_round data s = (SContinue n, s1)" "0 < n" "generous (sd_script s1)" "full_ctx data (sd_ctx s1)"
      "sd_queue s1 = sd_queue t" "length (sd_wire s) + length (sd_script s) \<le> length (sd_wire s1) + length (sd_script s1)"
      using that by (simp_all add: advances_def)
    have inv: "stream data s1 = stream data s \<and> send_ok (sd_ctx s1) \<and> ss_state (sd_ctx s1) \<noteq> PROC_FAILED"
      using send_round_stream r(1) f by blast
    then have "length (sd_wire s1) + length (unsent data s1) = length (sd_wire s) + length (unsent data s)"
      unfolding stream_def unsent_def by (metis length_append)
    with that r f inv show ?thesis by (simp add: full_def)
  qed
  show ?thesis
  proof (cases "ss_state (sd_ctx s)")
    case PROC_IDLE
    show ?thesis
    proof (cases "sd_queue s")
      case Nil
      with PROC_IDLE show ?thesis by (simp add: unsent_def pending_def queued_def send_round_def ConcurrentQueue_pop_def)
    next
      case (Cons work q)
      let ?t = "s\<lparr>sd_queue := q, sd_ctx := load_work work (sd_ctx s)\<rparr>"
      have st: "ss_state (load_work work (sd_ctx s)) = PROC_HDR" by (simp add: load_work_def)
      have bytes: "pending data (load_work work (sd_ctx s)) = work_bytes data work"
        using st load_work_bytes [of work "sd_ctx s" data] by (simp add: pending_def)
      have "length (work_bytes data work) \<le> length (sd_script s)"
        using f PROC_IDLE Cons by (simp add: unsent_def pending_def queued_def)
      then have "advances data ?t (send_message data ?t)"
        using f Cons st bytes by (intro send_message_advances) (simp_all add: full_load)
      moreover have "send_round data s = send_message data ?t"
        using PROC_IDLE Cons st by (simp add: send_round_def ConcurrentQueue_pop_def send_message_def)
      moreover have "work_bytes data work \<noteq> []"
        using load_work_bytes [of work "sd_ctx s" data] header_iov_load [of work "sd_ctx s"] by (metis append_is_Nil_conv)
      then have "unsent data s \<noteq> []" using Cons by (simp add: unsent_def queued_def)
      ultimately show ?thesis using keep [of ?t] f Cons by simp
    qed
  next
    case PROC_HDR
    then have "send_round data s = send_message data s" by (simp add: send_round_def send_message_def)
    moreover have "unsent data s \<noteq> []" using PROC_HDR f by (simp add: unsent_def pending_def full_ctx_def)
    moreover have "advances data s (send_message data s)"
      using f PROC_HDR by (intro send_message_advances) (simp_all add: unsent_def)
    ultimately show ?thesis using keep [of s] f by simp
  next
    case PROC_DATA
    then have "send_round data s = write_data data 0 s" by (simp add: send_round_def)
    moreover have "unsent data s \<noteq> []"
      using PROC_DATA f by (auto simp: unsent_def pending_def payload_def full_ctx_def send_ok_def)
    moreover have "advances data s (write_data data 0 s)"
      using f PROC_DATA by (intro write_data_advances) (simp_all add: unsent_def pending_def)
    ultimately show ?thesis using keep [of s] f by simp
  qed (use f in simp)
qed

lemma send_loop_full:
  "full data s \<Longrightarrow> \<exists>s1. send_loop data s = (True, s1) \<and> ss_state (sd_ctx s1) = PROC_IDLE \<and> sd_queue s1 = []"
proof (induction data s rule: send_loop.induct)
  case (1 data s)
  show ?case
  proof (cases "unsent data s = []")
    case True
    with send_round_full [OF "1.prems"] show ?thesis by (simp add: send_loop.simps [of data s])
  next
    case False
    with send_round_full [OF "1.prems"] obtain n s1
      where r: "send_round data s = (SContinue n, s1)" "0 < n" "full data s1" by auto
    from "1.IH" [OF r(1) [symmetric] refl r(2,3)] r show ?thesis by (simp add: send_loop.simps [of data s])
  qed
qed

text \<open>
  C23. Progress of the sender. If every queued reply has the bytes its header announces and the socket goes on accepting at least
  one byte at a time, as often as there are bytes left, then the call ends with an empty queue and everything
  on the wire.
\<close>

theorem send_completes:
  assumes "ss_state (sd_ctx (send_run data evs)) \<noteq> PROC_FAILED" "full_ctx data (sd_ctx (send_run data evs))"
    and "list_all (full_work data) (sd_queue (send_run data evs))" "list_all (\<lambda>k. 0 < k) ks"
    and "length (concat (map (work_bytes data) (enqueued evs))) \<le> length ks"
  shows "sd_wire (send_run data (evs @ [Ready (map Accepts ks)])) = concat (map (work_bytes data) (enqueued evs)) \<and>
    sd_queue (send_run data (evs @ [Ready (map Accepts ks)])) = []"
proof -
  let ?t = "(send_run data evs)\<lparr>sd_script := map Accepts ks\<rparr>"
  have gen: "generous (map Accepts ks)" using assms(4) by (induction ks) (simp_all add: generous_def)
  have "length (unsent data (send_run data evs)) \<le> length (concat (map (work_bytes data) (enqueued evs)))"
    using send_history [of data evs] assms(1) unfolding stream_def unsent_def by (metis length_append le_add2)
  then have "full data ?t"
    using assms gen send_history [of data evs] by (simp add: full_def unsent_def queued_def)
  from send_loop_full [OF this] obtain s1
    where s1: "send_loop data ?t = (True, s1)" "ss_state (sd_ctx s1) = PROC_IDLE" "sd_queue s1 = []" by blast
  then have "send_run data (evs @ [Ready (map Accepts ks)]) = s1"
    using assms(1) by (simp add: send_run_def processEndpointSend_def)
  with s1 send_history [of data "evs @ [Ready (map Accepts ks)]"] show ?thesis
    by (simp add: stream_def queued_def pending_def)
qed


theorem send_completes_witness:
  "sd_wire (send_run (\<lambda>_ va. drop va [1, 2, 3, 4, 5]) [Enqueue sample_reply, Ready (map Accepts (replicate 34 1))]) =
     [7, 0, 0, 0, 0, 0, 0, 0, 2, 0, 0, 0, 0, 0, 0, 0, 0, 0, 0, 0, 0, 0, 0, 0, 32, 0, 2, 0, 0, 0, 0, 0, 4, 5]"
proof -
  let ?data = "\<lambda>_ va. drop va [1, 2, 3, 4, 5 :: byte]" and ?evs = "[Enqueue sample_reply]"
  have s: "ss_state (sd_ctx (send_run ?data ?evs)) \<noteq> PROC_FAILED" "list_all (full_work ?data) (sd_queue (send_run ?data ?evs))"
    "list_all (\<lambda>k. 0 < k) (replicate 34 (1 :: nat))"
    "concat (map (work_bytes ?data) (enqueued ?evs)) =
       [7, 0, 0, 0, 0, 0, 0, 0, 2, 0, 0, 0, 0, 0, 0, 0, 0, 0, 0, 0, 0, 0, 0, 0, 32, 0, 2, 0, 0, 0, 0, 0, 4, 5]"
    by code_simp+
  have "full_ctx ?data (sd_ctx (send_run ?data ?evs))"
    by (simp add: send_run_def sender_new_def TcpSendState_new_def full_ctx_def)
  from send_completes [OF s(1) this s(2,3)] s(4) show ?thesis by simp
qed

end
