(* ===== verification/Peer_Receiver.thy ===== *)
theory Peer_Receiver
  imports Peer_Sender
begin

text \<open>
  The receiving half of \<^verbatim>\<open>src/libgeds/TcpTransport.cpp\<close>: the state machine that reads messages from a
  non-blocking socket, in whatever pieces they arrive, answers requests and stores the data of replies where their caller
  wants it. What the socket delivers is a script. The machine is compared with a reference that takes
  single bytes. A connection that is closed in the middle of a reply keeps the machine busy for ever, so it has
  fuel.
\<close>

section \<open>State\<close>

record SocketRecvWork =
  rw_reqId :: nat
  rw_va :: nat
  rw_len :: size_t
  rw_p :: nat

text \<open>
  \<open>rv_hdr\<close> are the bytes of the header received so far; \<open>rv_rx_bytes\<close> is the counter of the endpoint. A promise is a
  number.
\<close>

record TcpRcvState =
  rv_state :: SockProcessingState
  rv_hdr :: "byte list"
  rv_va :: nat
  rv_objName :: "byte list"
  rv_progress :: nat
  rv_p :: "nat option"
  rv_rx_bytes :: size_t

definition TcpRcvState_new :: TcpRcvState where
  "TcpRcvState_new = \<lparr>rv_state = PROC_IDLE, rv_hdr = [], rv_va = 0, rv_objName = [], rv_progress = 0, rv_p = None, rv_rx_bytes = 0\<rparr>"

text \<open>The part of a peer that receiving changes: outstanding requests, the memory of the callers, their promises.\<close>

record rx_world =
  tp_recvQueue :: "(nat, SocketRecvWork) std_map"
  tp_memory :: "nat \<rightharpoonup> byte list"
  tp_promises :: "nat \<rightharpoonup> size_t StatusOr"

definition set_value :: "nat option \<Rightarrow> size_t StatusOr \<Rightarrow> 'a rx_world_scheme \<Rightarrow> 'a rx_world_scheme" where
  "set_value p v w = (case p of None \<Rightarrow> w | Some i \<Rightarrow> w\<lparr>tp_promises := (tp_promises w)(i \<mapsto> v)\<rparr>)"

definition store :: "nat \<Rightarrow> nat \<Rightarrow> byte list \<Rightarrow> 'a rx_world_scheme \<Rightarrow> 'a rx_world_scheme option" where
  "store va pos bs w =
     (case tp_memory w va of
        None \<Rightarrow> None
      | Some block \<Rightarrow>
          if pos + length bs \<le> length block
          then Some (w\<lparr>tp_memory := (tp_memory w)(va \<mapsto> file_write pos bs block)\<rparr>) else None)"

section \<open>The socket\<close>

text \<open>Bytes that have arrived, an error, or the end of the stream, with the error number that an earlier call has left.\<close>

datatype read_event = Arrived "byte list" | ReadError nat | PeerClosed nat

datatype read_result = Got "byte list" | RecvFailed nat | RecvClosed nat

fun sock_recv :: "nat \<Rightarrow> read_event list \<Rightarrow> read_result \<times> read_event list" where
  "sock_recv n [] = (RecvFailed ERRNO_AGAIN, [])"
| "sock_recv n (Arrived bs # r) =
     (if bs = [] then sock_recv n r
      else if length bs \<le> n then (Got bs, r) else (Got (take n bs), Arrived (drop n bs) # r))"
| "sock_recv n (ReadError e # r) = (RecvFailed e, r)"
| "sock_recv n (PeerClosed e # r) = (RecvClosed e, PeerClosed e # r)"

definition errno_of :: "nat \<Rightarrow> nat" where
  "errno_of e = (if e = 0 then ERRNO_IO else e)"

lemma sock_recv_Got: "0 < n \<Longrightarrow> sock_recv n script = (Got bs, r) \<Longrightarrow> bs \<noteq> [] \<and> length bs \<le> n"
  by (induction n script rule: sock_recv.induct) (auto split: if_splits)

text \<open>The loops over \<open>recv\<close> for the header and for the name: read \<open>n\<close> bytes unless an error or the end comes first.\<close>

function recv_some :: "nat \<Rightarrow> read_event list \<Rightarrow> byte list \<times> nat option \<times> read_event list" where
  "recv_some n script =
     (if n = 0 then ([], None, script)
      else case sock_recv n script of
          (Got bs, r) \<Rightarrow> (case recv_some (n - length bs) r of (bs', e, r') \<Rightarrow> (bs @ bs', e, r'))
        | (RecvFailed e, r) \<Rightarrow> ([], Some (errno_of e), r)
        | (RecvClosed e, r) \<Rightarrow> ([], Some (errno_of e), r))"
  by pat_completeness auto
termination
  by (relation "measure fst") (auto simp: not_less dest!: sym [of "(Got bs, r)" "sock_recv n s" for bs r n s] sock_recv_Got [rotated])

declare recv_some.simps [simp del]

section \<open>processEndpointRecv\<close>

definition RPC_TCP_MAX_HDR :: nat where
  "RPC_TCP_MAX_HDR = 4096 + hdr_size"

definition reset_rcv :: "TcpRcvState \<Rightarrow> TcpRcvState" where
  "reset_rcv ctx = ctx\<lparr>rv_state := PROC_HDR, rv_hdr := [], rv_progress := 0, rv_objName := []\<rparr>"

abbreviation rcv_hdr :: "TcpRcvState \<Rightarrow> TcpCtlHdr" where
  "rcv_hdr ctx \<equiv> decode_hdr (rv_hdr ctx)"

definition finish_header :: "TcpRcvState \<Rightarrow> TcpRcvState" where
  "finish_header ctx =
     ctx\<lparr>rv_state := PROC_DATA, rv_rx_bytes := wrap64 (rv_rx_bytes ctx + rv_progress ctx), rv_progress := 0\<rparr>"

text \<open>The header and the name; an error number means that the loop is left.\<close>

definition recv_name :: "TcpRcvState \<Rightarrow> read_event list \<Rightarrow> nat option \<times> TcpRcvState \<times> read_event list" where
  "recv_name ctx script =
     (let to_recv = sz_sub (h_hdrlen (rcv_hdr ctx)) (rv_progress ctx) in
      if h_type (rcv_hdr ctx) = op_code GET_REQ then
        if to_recv = 0 \<or> to_recv > RPC_TCP_MAX_HDR then (Some ERRNO_INVAL, ctx, script)
        else (case recv_some to_recv script of
            (bs, e, r) \<Rightarrow>
              let ctx1 = ctx\<lparr>rv_objName := rv_objName ctx @ bs, rv_progress := rv_progress ctx + length bs\<rparr>
              in (e, if e = None then finish_header ctx1 else ctx1, r))
      else if to_recv \<noteq> 0 then (Some ERRNO_INVAL, ctx, script)
      else (None, finish_header ctx, script))"

definition recv_header :: "TcpRcvState \<Rightarrow> read_event list \<Rightarrow> nat option \<times> TcpRcvState \<times> read_event list" where
  "recv_header ctx script =
     (case recv_some (hdr_size - rv_progress ctx) script of
        (bs, e, r) \<Rightarrow>
          let ctx1 = ctx\<lparr>rv_hdr := rv_hdr ctx @ bs, rv_progress := rv_progress ctx + length bs\<rparr>
          in if e \<noteq> None then (e, ctx1, r) else recv_name ctx1 r)"

text \<open>How a round ends: it returns, breaks with an error number, goes to the test with the last result, or is undefined.\<close>

datatype recv_end = RReturn bool | RBreak nat | RNext nat | RUndefined

definition reply_error :: "int \<Rightarrow> TcpCtlHdr \<Rightarrow> Status" where
  "reply_error sock hdr =
     UnknownError (''Error from GET_REPLY: '' @ show_nat (h_error hdr) @ ''length: '' @ show_nat (h_datalen hdr) @
       '' Ep: '' @ show_nat (nat sock))"

definition complete_reply :: "TcpRcvState \<Rightarrow> 'a rx_world_scheme \<Rightarrow> TcpRcvState \<times> 'a rx_world_scheme" where
  "complete_reply ctx w =
     (ctx\<lparr>rv_rx_bytes := wrap64 (rv_rx_bytes ctx + rv_progress ctx), rv_p := None, rv_state := PROC_IDLE\<rparr>,
      set_value (rv_p ctx) (Inr (h_datalen (rcv_hdr ctx))) w)"

text \<open>The first part of a reply: the request it belongs to, or the error it carries.\<close>

definition start_reply :: "int \<Rightarrow> TcpRcvState \<Rightarrow> 'a rx_world_scheme \<Rightarrow> recv_end option \<times> TcpRcvState \<times> 'a rx_world_scheme" where
  "start_reply sock ctx w =
     (case ConcurrentMap_getAndRemove (h_reqid (rcv_hdr ctx)) (tp_recvQueue w) of
        (None, q) \<Rightarrow> (Some (RBreak ERRNO_INVAL), ctx, w)
      | (Some work, q) \<Rightarrow>
          let w1 = w\<lparr>tp_recvQueue := q\<rparr>; ctx1 = ctx\<lparr>rv_va := rw_va work, rv_p := Some (rw_p work)\<rparr> in
          if h_error (rcv_hdr ctx) \<noteq> 0
          then (Some (RNext 0), ctx1\<lparr>rv_p := None, rv_state := PROC_IDLE, rv_progress := 0\<rparr>,
                set_value (rv_p ctx1) (Inl (reply_error sock (rcv_hdr ctx))) w1)
          else (None, ctx1, w1))"

fun recv_data :: "(int \<Rightarrow> string) \<Rightarrow> nat \<Rightarrow> nat \<Rightarrow> TcpRcvState \<Rightarrow> read_event list \<Rightarrow> 'a rx_world_scheme \<Rightarrow>
    (recv_end \<times> TcpRcvState \<times> read_event list \<times> 'a rx_world_scheme) option" where
  "recv_data strerror 0 rv ctx script w = None"
| "recv_data strerror (Suc fuel) rv ctx script w =
     (let datalen = h_datalen (rcv_hdr ctx) in
      if rv_progress ctx < datalen
      then (case sock_recv (datalen - rv_progress ctx) script of
          (Got bs, r) \<Rightarrow>
            (case store (rv_va ctx) (rv_progress ctx) bs w of
               None \<Rightarrow> Some (RUndefined, ctx, r, w)
             | Some w1 \<Rightarrow> recv_data strerror fuel (length bs) (ctx\<lparr>rv_progress := rv_progress ctx + length bs\<rparr>) r w1)
        | (RecvClosed e, r) \<Rightarrow> recv_data strerror fuel 0 ctx r w
        | (RecvFailed e, r) \<Rightarrow>
            if e = ERRNO_AGAIN then Some (RReturn True, ctx, r, w)
            else
              let message = ''Error during recv: '' @
                (if e \<noteq> 0 then ''got errno '' @ show_nat e @ '' '' @ strerror (int e) else ''got EIO '' @ show_nat ERRNO_IO)
              in Some (RReturn False, ctx\<lparr>rv_p := None, rv_state := PROC_FAILED\<rparr>, r,
                   set_value (rv_p ctx) (Inl (AbortedError message)) w))
      else (case complete_reply ctx w of (ctx1, w1) \<Rightarrow> Some (RNext rv, ctx1, script, w1)))"

text \<open>
  One round of the loop. \<open>get\<close> is \<open>TcpProcessRpcGet\<close>, with \<^const>\<open>None\<close> for an outcome that C++ leaves undefined.
\<close>

definition recv_switch where
  "recv_switch get strerror sock fuel start_data ctx script w =
     (let hdr = rcv_hdr ctx in
      if h_type hdr = op_code GET_REQ then
        (case get (h_reqid hdr) (rv_objName ctx) (h_datalen hdr) (h_offset hdr) w of
           None \<Rightarrow> Some (RUndefined, ctx, script, w)
         | Some w1 \<Rightarrow> Some (RNext 0, ctx\<lparr>rv_state := PROC_IDLE\<rparr>, script, w1))
      else if h_type hdr = op_code GET_REPLY then
        (case (if start_data then start_reply sock ctx w else (None, ctx, w)) of
           (Some e, ctx1, w1) \<Rightarrow> Some (e, ctx1, script, w1)
         | (None, ctx1, w1) \<Rightarrow> recv_data strerror fuel 0 ctx1 script w1)
      else Some (RReturn False, ctx, script, w))"

definition recv_round where
  "recv_round get strerror sock fuel ctx script w =
     (let ctx1 = (if rv_state ctx = PROC_IDLE then reset_rcv ctx else ctx) in
      if rv_state ctx1 = PROC_HDR
      then (case recv_header ctx1 script of
          (Some e, ctx2, r) \<Rightarrow> Some (RBreak e, ctx2, r, w)
        | (None, ctx2, r) \<Rightarrow> recv_switch get strerror sock fuel True ctx2 r w)
      else recv_switch get strerror sock fuel False ctx1 script w)"

text \<open>The loop; the result is what the method returns, or that its outcome is undefined.\<close>

fun recv_loop where
  "recv_loop get strerror sock 0 ctx script w = None"
| "recv_loop get strerror sock (Suc fuel) ctx script w =
     (case recv_round get strerror sock fuel ctx script w of
        None \<Rightarrow> None
      | Some (RReturn b, ctx1, r, w1) \<Rightarrow> Some (Some b, ctx1, r, w1)
      | Some (RNext rv, ctx1, r, w1) \<Rightarrow>
          if 0 < rv then recv_loop get strerror sock fuel ctx1 r w1 else Some (Some True, ctx1, r, w1)
      | Some (RBreak e, ctx1, r, w1) \<Rightarrow>
          if e = ERRNO_AGAIN then Some (Some True, ctx1, r, w1)
          else if rv_p ctx1 \<noteq> None
          then Some (Some False, ctx1\<lparr>rv_p := None, rv_state := PROC_FAILED\<rparr>, r,
                 set_value (rv_p ctx1) (Inl (AbortedError (''Protocol error: Aborted with -'' @ show_nat e @ '': '' @ strerror (- int e)))) w1)
          else Some (Some False, ctx1, r, w1)
      | Some (RUndefined, ctx1, r, w1) \<Rightarrow> Some (None, ctx1, r, w1))"

section \<open>A reference that takes single bytes\<close>

definition norm_rcv :: "TcpRcvState \<Rightarrow> TcpRcvState" where
  "norm_rcv ctx = (if rv_state ctx = PROC_IDLE then reset_rcv ctx else ctx)"

text \<open>What happens when a header is complete: a request is served, a reply finds its caller. \<^const>\<open>None\<close> drops the connection.\<close>

definition rx_begin where
  "rx_begin get sock ctx w =
     (let hdr = rcv_hdr ctx in
      if h_type hdr = op_code GET_REQ
      then map_option (\<lambda>w1. (ctx\<lparr>rv_state := PROC_IDLE\<rparr>, w1)) (get (h_reqid hdr) (rv_objName ctx) (h_datalen hdr) (h_offset hdr) w)
      else if h_type hdr = op_code GET_REPLY then
        (case start_reply sock ctx w of
           (Some (RNext _), ctx1, w1) \<Rightarrow> Some (ctx1, w1)
         | (Some _, _, _) \<Rightarrow> None
         | (None, ctx1, w1) \<Rightarrow> if h_datalen hdr = 0 then Some (complete_reply ctx1 w1) else Some (ctx1, w1))
      else None)"

definition rx_header where
  "rx_header get sock ctx w =
     (let hdr = rcv_hdr ctx in
      if h_type hdr = op_code GET_REQ
      then if hdr_size < h_hdrlen hdr \<and> h_hdrlen hdr \<le> hdr_size + RPC_TCP_MAX_HDR then Some (ctx, w) else None
      else if h_hdrlen hdr = hdr_size then rx_begin get sock (finish_header ctx) w else None)"

definition rx_byte where
  "rx_byte get sock b = (\<lambda>(ctx, w).
     let c = norm_rcv ctx in
     case rv_state c of
       PROC_HDR \<Rightarrow>
         if rv_progress c < hdr_size
         then let c1 = c\<lparr>rv_hdr := rv_hdr c @ [b], rv_progress := Suc (rv_progress c)\<rparr>
              in if rv_progress c1 < hdr_size then Some (c1, w) else rx_header get sock c1 w
         else let c1 = c\<lparr>rv_objName := rv_objName c @ [b], rv_progress := Suc (rv_progress c)\<rparr>
              in if rv_progress c1 < h_hdrlen (rcv_hdr c1) then Some (c1, w) else rx_begin get sock (finish_header c1) w
     | PROC_DATA \<Rightarrow>
         Option.bind (store (rv_va c) (rv_progress c) [b] w) (\<lambda>w1.
           let c1 = c\<lparr>rv_progress := Suc (rv_progress c)\<rparr>
           in if rv_progress c1 < h_datalen (rcv_hdr c1) then Some (c1, w1) else Some (complete_reply c1 w1))
     | _ \<Rightarrow> None)"

fun rx_run where
  "rx_run get sock [] (ctx, w) = Some (norm_rcv ctx, w)"
| "rx_run get sock (b # bs) (ctx, w) = Option.bind (rx_byte get sock b (ctx, w)) (rx_run get sock bs)"

lemma norm_rcv_idem [simp]: "norm_rcv (norm_rcv ctx) = norm_rcv ctx"
  by (simp add: norm_rcv_def reset_rcv_def)

lemma norm_rcv_id [simp]: "rv_state ctx \<noteq> PROC_IDLE \<Longrightarrow> norm_rcv ctx = ctx"
  by (simp add: norm_rcv_def)

lemma rx_run_norm [simp]: "rx_run get sock bs (norm_rcv ctx, w) = rx_run get sock bs (ctx, w)"
  by (cases bs) (simp_all add: rx_byte_def)

lemma rx_run_append: "rx_run get sock (as @ bs) s = Option.bind (rx_run get sock as s) (rx_run get sock bs)"
proof (induction as arbitrary: s)
  case Nil
  show ?case by (cases s) simp
next
  case (Cons a as)
  show ?case by (cases s; cases "rx_byte get sock a s") (simp_all add: Cons)
qed

text \<open>States between two bytes.\<close>

definition rcv_ok :: "TcpRcvState \<Rightarrow> bool" where
  "rcv_ok ctx \<longleftrightarrow>
     (rv_state ctx = PROC_HDR \<longrightarrow> length (rv_hdr ctx) = min (rv_progress ctx) hdr_size \<and>
        (hdr_size \<le> rv_progress ctx \<longrightarrow> h_type (rcv_hdr ctx) = op_code GET_REQ \<and>
           rv_progress ctx < h_hdrlen (rcv_hdr ctx) \<and> h_hdrlen (rcv_hdr ctx) \<le> hdr_size + RPC_TCP_MAX_HDR)) \<and>
     (rv_state ctx = PROC_DATA \<longrightarrow> h_type (rcv_hdr ctx) = op_code GET_REPLY \<and> rv_progress ctx < h_datalen (rcv_hdr ctx)) \<and>
     rv_state ctx \<noteq> PROC_FAILED"

lemma rcv_ok_norm [simp]: "rcv_ok (norm_rcv ctx) = rcv_ok ctx"
  by (auto simp: rcv_ok_def norm_rcv_def reset_rcv_def hdr_size_def)

text \<open>Several bytes at once.\<close>

lemma rx_run_header:
  assumes "rv_state ctx = PROC_HDR" "rv_progress ctx + length bs \<le> hdr_size" "rv_progress ctx < hdr_size"
  shows "rx_run get sock bs (ctx, w) =
    (let c1 = ctx\<lparr>rv_hdr := rv_hdr ctx @ bs, rv_progress := rv_progress ctx + length bs\<rparr> in
     if rv_progress c1 < hdr_size then Some (c1, w) else map_option (apfst norm_rcv) (rx_header get sock c1 w))"
  using assms
proof (induction bs arbitrary: ctx)
  case (Cons b bs)
  let ?c1 = "ctx\<lparr>rv_hdr := rv_hdr ctx @ [b], rv_progress := Suc (rv_progress ctx)\<rparr>"
  show ?case
  proof (cases "Suc (rv_progress ctx) < hdr_size")
    case True
    with Cons.IH [of ?c1] Cons.prems show ?thesis by (simp add: rx_byte_def Let_def)
  next
    case False
    with Cons.prems have "bs = []" "Suc (rv_progress ctx) = hdr_size" by (cases bs; auto)+
    with Cons.prems show ?thesis
      by (cases "rx_header get sock ?c1 w") (auto simp: rx_byte_def Let_def)
  qed
qed simp

lemma rx_run_name:
  assumes "rv_state ctx = PROC_HDR" "hdr_size \<le> rv_progress ctx" "rv_progress ctx + length bs \<le> h_hdrlen (rcv_hdr ctx)"
    and "rv_progress ctx < h_hdrlen (rcv_hdr ctx)"
  shows "rx_run get sock bs (ctx, w) =
    (let c1 = ctx\<lparr>rv_objName := rv_objName ctx @ bs, rv_progress := rv_progress ctx + length bs\<rparr> in
     if rv_progress c1 < h_hdrlen (rcv_hdr ctx) then Some (c1, w)
     else map_option (apfst norm_rcv) (rx_begin get sock (finish_header c1) w))"
  using assms
proof (induction bs arbitrary: ctx)
  case (Cons b bs)
  let ?c1 = "ctx\<lparr>rv_objName := rv_objName ctx @ [b], rv_progress := Suc (rv_progress ctx)\<rparr>"
  show ?case
  proof (cases "Suc (rv_progress ctx) < h_hdrlen (rcv_hdr ctx)")
    case True
    with Cons.IH [of ?c1] Cons.prems show ?thesis by (simp add: rx_byte_def Let_def)
  next
    case False
    with Cons.prems have "bs = []" "Suc (rv_progress ctx) = h_hdrlen (rcv_hdr ctx)" by (cases bs; auto)+
    with Cons.prems show ?thesis
      by (cases "rx_begin get sock (finish_header ?c1) w") (auto simp: rx_byte_def Let_def)
  qed
qed simp


lemma store_append:
  "bs \<noteq> [] \<Longrightarrow> store va p (bs @ cs) w = Option.bind (store va p bs w) (store va (p + length bs) cs)"
proof (cases "tp_memory w va")
  case (Some block)
  assume ne: "bs \<noteq> []"
  show ?thesis
  proof (cases "p + length (bs @ cs) \<le> length block")
    case True
    have "file_write p (bs @ cs) block = file_write (p + length bs) cs (file_write p bs block)"
      using True ne by (auto simp: file_write_def ac_simps)
    then show ?thesis using Some True ne by (simp add: store_def file_write_def)
  next
    case False
    then show ?thesis using Some ne by (auto simp: store_def file_write_def)
  qed
qed (simp add: store_def)

lemma rx_run_data:
  assumes "rv_state ctx = PROC_DATA" "bs \<noteq> []" "rv_progress ctx + length bs \<le> h_datalen (rcv_hdr ctx)"
  shows "rx_run get sock bs (ctx, w) =
    Option.bind (store (rv_va ctx) (rv_progress ctx) bs w) (\<lambda>w1.
      let c1 = ctx\<lparr>rv_progress := rv_progress ctx + length bs\<rparr> in
      if rv_progress c1 < h_datalen (rcv_hdr ctx) then Some (c1, w1) else Some (apfst norm_rcv (complete_reply c1 w1)))"
  using assms
proof (induction bs arbitrary: ctx w)
  case (Cons b bs)
  let ?c1 = "ctx\<lparr>rv_progress := Suc (rv_progress ctx)\<rparr>"
  have st: "store (rv_va ctx) (rv_progress ctx) (b # bs) w =
      Option.bind (store (rv_va ctx) (rv_progress ctx) [b] w) (store (rv_va ctx) (Suc (rv_progress ctx)) bs)"
    using store_append [of "[b]" "rv_va ctx" "rv_progress ctx" bs w] by simp
  show ?case
  proof (cases "store (rv_va ctx) (rv_progress ctx) [b] w")
    case None
    with Cons.prems(1) st show ?thesis by (simp add: rx_byte_def Let_def)
  next
    case (Some w1)
    show ?thesis
    proof (cases "bs = []")
      case True
      with Some Cons.prems show ?thesis by (auto simp: rx_byte_def Let_def complete_reply_def)
    next
      case False
      then have less: "Suc (rv_progress ctx) < h_datalen (rcv_hdr ctx)" using Cons.prems(3) by (cases bs) auto
      have "rx_run get sock (b # bs) (ctx, w) = rx_run get sock bs (?c1, w1)"
        using Cons.prems(1) Some less by (simp add: rx_byte_def Let_def)
      also have "\<dots> = Option.bind (store (rv_va ctx) (Suc (rv_progress ctx)) bs w1) (\<lambda>w1.
          let c1 = ?c1\<lparr>rv_progress := Suc (rv_progress ctx) + length bs\<rparr> in
          if rv_progress c1 < h_datalen (rcv_hdr ctx) then Some (c1, w1) else Some (apfst norm_rcv (complete_reply c1 w1)))"
        using Cons.IH [of ?c1 w1] Cons.prems(1,3) False by simp
      finally show ?thesis unfolding st Some by simp
    qed
  qed
qed simp

section \<open>Fragmentation\<close>

text \<open>A socket on which bytes have arrived in pieces, and no error.\<close>

fun arrived :: "read_event list \<Rightarrow> byte list option" where
  "arrived [] = Some []"
| "arrived (Arrived bs # r) = map_option (\<lambda>cs. bs @ cs) (arrived r)"
| "arrived (_ # r) = None"

lemma sock_recv_arrived:
  assumes "arrived script = Some bytes" "0 < n"
  shows "if bytes = [] then sock_recv n script = (RecvFailed ERRNO_AGAIN, [])
    else \<exists>bs r. sock_recv n script = (Got bs, r) \<and> bs \<noteq> [] \<and> length bs \<le> n \<and> (\<exists>rest. arrived r = Some rest \<and> bytes = bs @ rest)"
  using assms
proof (induction n script arbitrary: bytes rule: sock_recv.induct)
  case (2 n bs r)
  obtain cs where cs: "arrived r = Some cs" "bytes = bs @ cs" using "2.prems"(1) by auto
  show ?case
  proof (cases "bs = []")
    case True
    with "2.IH" [OF True cs(1) "2.prems"(2)] cs show ?thesis by simp
  next
    case False
    show ?thesis
    proof (cases "length bs \<le> n")
      case True
      with False cs show ?thesis by auto
    next
      case long: False
      with False cs "2.prems"(2) show ?thesis
        by (auto intro!: exI [of _ "take n bs"] exI [of _ "Arrived (drop n bs) # r"])
    qed
  qed
qed simp_all

lemma recv_some_arrived:
  assumes "arrived script = Some bytes"
  shows "\<exists>r. arrived r = Some (drop n bytes) \<and>
    recv_some n script = (take n bytes, if n \<le> length bytes then None else Some ERRNO_AGAIN, r)"
  using assms
proof (induction n arbitrary: script bytes rule: less_induct)
  case (less n)
  show ?case
  proof (cases "n = 0")
    case True
    with less.prems show ?thesis by (simp add: recv_some.simps)
  next
    case False
    show ?thesis
    proof (cases "bytes = []")
      case True
      with sock_recv_arrived [OF less.prems, of n] False show ?thesis
        by (intro exI [of _ "[]"]) (simp add: recv_some.simps errno_of_def)
    next
      case ne: False
      with sock_recv_arrived [OF less.prems, of n] False obtain bs r rest
        where r: "sock_recv n script = (Got bs, r)" "bs \<noteq> []" "length bs \<le> n" "arrived r = Some rest" "bytes = bs @ rest" by auto
      have "n - length bs < n" using r(2) False by (cases bs) auto
      from less.IH [OF this r(4)] obtain r' where
        "arrived r' = Some (drop (n - length bs) rest)"
        "recv_some (n - length bs) r =
           (take (n - length bs) rest, if n - length bs \<le> length rest then None else Some ERRNO_AGAIN, r')" by blast
      with r False show ?thesis by (intro exI [of _ r']) (auto simp: recv_some.simps [of n script])
    qed
  qed
qed


text \<open>Storing no bytes is nothing.\<close>

definition store_all :: "nat \<Rightarrow> nat \<Rightarrow> byte list \<Rightarrow> 'a rx_world_scheme \<Rightarrow> 'a rx_world_scheme option" where
  "store_all va p bs w = (if bs = [] then Some w else store va p bs w)"

lemma store_all_append: "store_all va p (bs @ cs) w = Option.bind (store_all va p bs w) (store_all va (p + length bs) cs)"
proof (cases "bs = []")
  case False
  show ?thesis
  proof (cases "cs = []")
    case True
    then show ?thesis by (cases "store va p bs w") (simp_all add: store_all_def)
  next
    case ne: False
    with False show ?thesis
      by (cases "store va p bs w") (simp_all add: store_all_def store_append)
  qed
qed (simp add: store_all_def)

definition data_result where
  "data_result ctx bytes w r rv =
     (let datalen = h_datalen (rcv_hdr ctx) in
      if datalen - rv_progress ctx \<le> length bytes
      then (case complete_reply (ctx\<lparr>rv_progress := datalen\<rparr>) w of (ctx1, w1) \<Rightarrow> (RNext rv, ctx1, r, w1))
      else (RReturn True, ctx\<lparr>rv_progress := rv_progress ctx + length bytes\<rparr>, r, w))"

lemma data_result_step:
  "length bs \<le> h_datalen (rcv_hdr ctx) - rv_progress ctx \<Longrightarrow>
     data_result (ctx\<lparr>rv_progress := rv_progress ctx + length bs\<rparr>) cs w r rv = data_result ctx (bs @ cs) w r rv"
  by (auto simp: data_result_def Let_def add.assoc)

lemma recv_data_arrived:
  assumes "arrived script = Some bytes" "length bytes < fuel" "rv_progress ctx \<le> h_datalen (rcv_hdr ctx)"
    and "store_all (rv_va ctx) (rv_progress ctx) (take (h_datalen (rcv_hdr ctx) - rv_progress ctx) bytes) w = Some w1"
  shows "\<exists>r rv'. arrived r = Some (drop (h_datalen (rcv_hdr ctx) - rv_progress ctx) bytes) \<and>
    (0 < h_datalen (rcv_hdr ctx) - rv_progress ctx \<longrightarrow> 0 < rv') \<and> (h_datalen (rcv_hdr ctx) - rv_progress ctx = 0 \<longrightarrow> rv' = rv) \<and>
    recv_data se fuel rv ctx script w = Some (data_result ctx bytes w1 r rv')"
  using assms
proof (induction fuel arbitrary: rv ctx script bytes w)
  case 0
  then show ?case by simp
next
  case (Suc fuel)
  let ?need = "h_datalen (rcv_hdr ctx) - rv_progress ctx"
  show ?case
  proof (cases "rv_progress ctx < h_datalen (rcv_hdr ctx)")
    case False
    then have "h_datalen (rcv_hdr ctx) = rv_progress ctx" using Suc.prems(3) by simp
    moreover from this have "w1 = w" using Suc.prems(4) by (simp add: store_all_def)
    ultimately have c: "?need = 0" "ctx\<lparr>rv_progress := h_datalen (rcv_hdr ctx)\<rparr> = ctx" "w1 = w" by simp_all
    obtain c1 w2 where "complete_reply ctx w = (c1, w2)" by fastforce
    with Suc.prems(1) False c show ?thesis
      by (intro exI [of _ script] exI [of _ rv]) (simp add: data_result_def)
  next
    case True
    then have pos: "0 < ?need" by simp
    show ?thesis
    proof (cases "bytes = []")
      case True
      with sock_recv_arrived [OF Suc.prems(1) pos] Suc.prems pos show ?thesis
        by (intro exI [of _ "[]"] exI [of _ 1]) (simp add: store_all_def data_result_def)
    next
      case False
      with sock_recv_arrived [OF Suc.prems(1) pos] obtain bs r rest
        where r: "sock_recv ?need script = (Got bs, r)" "bs \<noteq> []" "length bs \<le> ?need" "arrived r = Some rest" "bytes = bs @ rest"
        by auto
      let ?c = "ctx\<lparr>rv_progress := rv_progress ctx + length bs\<rparr>"
      have split: "take ?need bytes = bs @ take (?need - length bs) rest" using r(3,5) by simp
      obtain w2 where w2: "store (rv_va ctx) (rv_progress ctx) bs w = Some w2"
          "store_all (rv_va ctx) (rv_progress ctx + length bs) (take (?need - length bs) rest) w2 = Some w1"
        using Suc.prems(4) r(2) unfolding split store_all_append
        by (cases "store (rv_va ctx) (rv_progress ctx) bs w") (simp_all add: store_all_def)
      have fuel: "length rest < fuel" using Suc.prems(2) r(2,5) by (cases bs) auto
      have len: "rv_progress ?c \<le> h_datalen (rcv_hdr ?c)" using r(3) True by simp
      have st: "store_all (rv_va ?c) (rv_progress ?c) (take (h_datalen (rcv_hdr ?c) - rv_progress ?c) rest) w2 = Some w1"
        using w2(2) by simp
      have upd: "h_datalen (rcv_hdr ?c) - rv_progress ?c = ?need - length bs" by simp
      from Suc.IH [OF r(4) fuel len st, of "length bs", unfolded upd data_result_step [OF r(3)]]
      obtain r' rv' where ih: "arrived r' = Some (drop (?need - length bs) rest)"
          "0 < ?need - length bs \<longrightarrow> 0 < rv'" "?need - length bs = 0 \<longrightarrow> rv' = length bs"
          "recv_data se fuel (length bs) ?c r w2 = Some (data_result ctx (bs @ rest) w1 r' rv')"
        by (elim exE conjE) (rule that)
      have "0 < length bs" using r(2) by simp
      then have "0 < rv'" using ih(2,3) by (cases "?need - length bs = 0") auto
      then show ?thesis
        using ih(1,4) r(1,3,5) True w2(1) pos by (intro exI [of _ r'] exI [of _ rv']) simp
    qed
  qed
qed


text \<open>
  What the reading of a header amounts to: either all bytes are used up and the machine waits for more, or a header is complete
  and the reference is at the same point.
\<close>

definition header_step where
  "header_step get sock ctx bytes w res =
     (\<exists>pre rest c r. bytes = pre @ rest \<and> arrived r = Some rest \<and>
       (res = (Some ERRNO_AGAIN, c, r) \<and> rest = [] \<and> rx_run get sock pre (ctx, w) = Some (c, w) \<and> rcv_ok c \<and> rv_state c = PROC_HDR \<or>
        res = (None, c, r) \<and> pre \<noteq> [] \<and> rv_state c = PROC_DATA \<and> rv_progress c = 0 \<and>
          rx_run get sock pre (ctx, w) = map_option (apfst norm_rcv) (rx_begin get sock c w)))"

lemma header_step_waits:
  "arrived r = Some [] \<Longrightarrow> rx_run get sock bytes (ctx, w) = Some (c, w) \<Longrightarrow> rcv_ok c \<Longrightarrow> rv_state c = PROC_HDR \<Longrightarrow>
     header_step get sock ctx bytes w (Some ERRNO_AGAIN, c, r)"
  unfolding header_step_def by force

lemma header_step_done:
  "arrived r = Some rest \<Longrightarrow> rx_run get sock pre (ctx, w) = map_option (apfst norm_rcv) (rx_begin get sock (finish_header c) w) \<Longrightarrow>
     pre \<noteq> [] \<Longrightarrow> header_step get sock ctx (pre @ rest) w (None, finish_header c, r)"
  unfolding header_step_def finish_header_def by force

lemma header_step_extend:
  assumes "header_step get sock c rest w res" "rx_run get sock pre (ctx, w) = Some (c, w)"
  shows "header_step get sock ctx (pre @ rest) w res"
proof -
  have run: "rx_run get sock (pre @ p) (ctx, w) = rx_run get sock p (c, w)" for p
    using assms(2) by (simp add: rx_run_append)
  from assms(1) obtain p left c1 r where h: "rest = p @ left" "arrived r = Some left"
    "res = (Some ERRNO_AGAIN, c1, r) \<and> left = [] \<and> rx_run get sock p (c, w) = Some (c1, w) \<and> rcv_ok c1 \<and> rv_state c1 = PROC_HDR \<or>
     res = (None, c1, r) \<and> p \<noteq> [] \<and> rv_state c1 = PROC_DATA \<and> rv_progress c1 = 0 \<and>
       rx_run get sock p (c, w) = map_option (apfst norm_rcv) (rx_begin get sock c1 w)"
    unfolding header_step_def by blast
  show ?thesis unfolding header_step_def
    by (rule exI [of _ "pre @ p"], rule exI [of _ left], rule exI [of _ c1], rule exI [of _ r]) (use h in \<open>auto simp: run\<close>)
qed

lemma recv_some_split:
  assumes "arrived script = Some bytes"
  obtains bs rest r where "bytes = bs @ rest" "arrived r = Some rest" "length bs = n" "recv_some n script = (bs, None, r)"
  | r where "arrived r = Some []" "length bytes < n" "recv_some n script = (bytes, Some ERRNO_AGAIN, r)"
proof (cases "n \<le> length bytes")
  case True
  then show thesis using recv_some_arrived [OF assms, of n] by (auto intro: that(1) [of "take n bytes" "drop n bytes"])
next
  case False
  then show thesis using recv_some_arrived [OF assms, of n] by (auto intro: that(2))
qed

lemma recv_name_step:
  assumes "arrived script = Some bytes" "rv_state ctx = PROC_HDR" "rcv_ok ctx" "hdr_size \<le> rv_progress ctx"
  shows "header_step get sock ctx bytes w (recv_name ctx script)"
proof -
  let ?n = "h_hdrlen (rcv_hdr ctx) - rv_progress ctx"
  have ok: "h_type (rcv_hdr ctx) = op_code GET_REQ" "rv_progress ctx < h_hdrlen (rcv_hdr ctx)"
      "h_hdrlen (rcv_hdr ctx) \<le> hdr_size + RPC_TCP_MAX_HDR" "length (rv_hdr ctx) = hdr_size"
    using assms(2-4) by (auto simp: rcv_ok_def)
  have n: "sz_sub (h_hdrlen (rcv_hdr ctx)) (rv_progress ctx) = ?n" "?n \<noteq> 0" "\<not> ?n > RPC_TCP_MAX_HDR"
    using ok assms(4) by simp_all
  from assms(1) show ?thesis
  proof (cases rule: recv_some_split [of script bytes ?n])
    case (1 bs rest r)
    let ?c = "ctx\<lparr>rv_objName := rv_objName ctx @ bs, rv_progress := rv_progress ctx + length bs\<rparr>"
    have "recv_name ctx script = (None, finish_header ?c, r)" using ok(1) n 1(4) by (simp add: recv_name_def Let_def)
    moreover have "rx_run get sock bs (ctx, w) = map_option (apfst norm_rcv) (rx_begin get sock (finish_header ?c) w)"
      using rx_run_name [OF assms(2,4) _ ok(2), of bs get sock w] 1(3) ok(2) by (simp add: Let_def)
    moreover have "bs \<noteq> []" using 1(3) n(2) by auto
    ultimately show ?thesis using header_step_done [OF 1(2), of get sock bs ctx w ?c] 1(1) by simp
  next
    case (2 r)
    let ?c = "ctx\<lparr>rv_objName := rv_objName ctx @ bytes, rv_progress := rv_progress ctx + length bytes\<rparr>"
    have "recv_name ctx script = (Some ERRNO_AGAIN, ?c, r)" using ok(1) n 2(3) by (simp add: recv_name_def Let_def)
    moreover have "rx_run get sock bytes (ctx, w) = Some (?c, w)"
      using rx_run_name [OF assms(2,4) _ ok(2), of bytes get sock w] less_diff_conv [THEN iffD1, OF 2(2)]
      by (simp add: Let_def add.commute)
    moreover have "rcv_ok ?c" using 2(2) assms(2,4) ok by (auto simp: rcv_ok_def)
    ultimately show ?thesis using header_step_waits [OF 2(1), of get sock bytes ctx w ?c] assms(2) by simp
  qed
qed

lemma recv_header_step:
  assumes "arrived script = Some bytes" "rv_state ctx = PROC_HDR" "rcv_ok ctx" "rx_run get sock bytes (ctx, w) \<noteq> None"
  shows "header_step get sock ctx bytes w (recv_header ctx script)"
proof (cases "rv_progress ctx < hdr_size")
  case False
  then have "recv_header ctx script = recv_name ctx script"
    by (simp add: recv_header_def recv_some.simps)
  with recv_name_step [OF assms(1-3)] False show ?thesis by simp
next
  case True
  have len: "length (rv_hdr ctx) = rv_progress ctx" using assms(2,3) True by (simp add: rcv_ok_def)
  from assms(1) show ?thesis
  proof (cases rule: recv_some_split [of script bytes "hdr_size - rv_progress ctx"])
    case (2 r)
    let ?c = "ctx\<lparr>rv_hdr := rv_hdr ctx @ bytes, rv_progress := rv_progress ctx + length bytes\<rparr>"
    have "recv_header ctx script = (Some ERRNO_AGAIN, ?c, r)" using 2(3) by (simp add: recv_header_def Let_def)
    moreover have "rx_run get sock bytes (ctx, w) = Some (?c, w)"
      using rx_run_header [OF assms(2) _ True, of bytes get sock w] less_diff_conv [THEN iffD1, OF 2(2)]
      by (simp add: Let_def add.commute)
    moreover have "rcv_ok ?c" using 2(2) assms(2) len by (auto simp: rcv_ok_def)
    ultimately show ?thesis using header_step_waits [OF 2(1), of get sock bytes ctx w ?c] assms(2) by simp
  next
    case (1 bs rest r)
    define c where "c = ctx\<lparr>rv_hdr := rv_hdr ctx @ bs, rv_progress := rv_progress ctx + length bs\<rparr>"
    have c: "rv_progress c = hdr_size" "length (rv_hdr c) = hdr_size" "rv_state c = PROC_HDR"
      using 1(3) True assms(2) len by (auto simp: c_def)
    have head: "recv_header ctx script = recv_name c r" using 1(4) by (simp add: recv_header_def Let_def c_def)
    have run: "rx_run get sock bs (ctx, w) = map_option (apfst norm_rcv) (rx_header get sock c w)"
      using rx_run_header [OF assms(2) _ True, of bs get sock w] 1(3) True by (simp add: Let_def c_def)
    with assms(4) 1(1) obtain s where s: "rx_header get sock c w = Some s"
      by (cases "rx_header get sock c w") (auto simp: rx_run_append)
    show ?thesis
    proof (cases "h_type (rcv_hdr c) = op_code GET_REQ")
      case True
      then have okc: "rcv_ok c" "s = (c, w)"
        using s c by (auto simp: rx_header_def rcv_ok_def Let_def split: if_splits)
      then have "rx_run get sock bs (ctx, w) = Some (c, w)" using run s c by simp
      with header_step_extend recv_name_step [OF 1(2) c(3) okc(1)] c(1) show ?thesis
        unfolding head 1(1) by (metis order_refl)
    next
      case False
      then have hl: "h_hdrlen (rcv_hdr c) = hdr_size" "rx_header get sock c w = rx_begin get sock (finish_header c) w"
        using s by (auto simp: rx_header_def Let_def split: if_splits)
      then have "recv_name c r = (None, finish_header c, r)" using False c by (simp add: recv_name_def)
      moreover have "bs \<noteq> []" using True 1(3) by auto
      ultimately show ?thesis using header_step_done [OF 1(2), of get sock bs ctx w c] run hl(2) head 1(1) by simp
    qed
  qed
qed

text \<open>A round, or a part of one, that has handled the bytes \<open>pre\<close> as the reference does and has made progress if there was something to read.\<close>

inductive round_step for get sock ctx bytes w where
  RoundStep: "bytes = pre @ left \<Longrightarrow> arrived r = Some left \<Longrightarrow> rx_run get sock pre (ctx, w) = Some (norm_rcv c, w1) \<Longrightarrow>
    rcv_ok c \<Longrightarrow> (pre = [] \<Longrightarrow> bytes = []) \<Longrightarrow>
    e = RReturn True \<or> e = RBreak ERRNO_AGAIN \<or> pre \<noteq> [] \<and> (\<exists>n. e = RNext n) \<Longrightarrow>
    round_step get sock ctx bytes w (Some (e, c, r, w1))"

lemma round_step_extend:
  assumes "round_step get sock c left w1 res" "rx_run get sock pre (ctx, w) = Some (norm_rcv c, w1)" "pre \<noteq> []"
  shows "round_step get sock ctx (pre @ left) w res"
  using assms(1)
proof cases
  case (RoundStep p l r c' w2 e)
  have "rx_run get sock (pre @ p) (ctx, w) = Some (norm_rcv c', w2)"
    using assms(2) RoundStep(4) by (simp add: rx_run_append)
  with RoundStep assms(3) show ?thesis
    unfolding RoundStep(1) by (intro round_step.RoundStep [of _ "pre @ p" l]) auto
qed

lemma recv_data_step:
  assumes "arrived script = Some bytes" "rv_state ctx = PROC_DATA" "rcv_ok ctx" "length bytes < fuel"
    and "rx_run get sock bytes (ctx, w) \<noteq> None"
  shows "round_step get sock ctx bytes w (recv_data se fuel rv ctx script w)"
proof -
  let ?n = "h_datalen (rcv_hdr ctx) - rv_progress ctx"
  define pre where "pre = take ?n bytes"
  have n: "rv_progress ctx < h_datalen (rcv_hdr ctx)" "length pre \<le> ?n" using assms(2,3) by (auto simp: rcv_ok_def pre_def)
  have bytes: "bytes = pre @ drop ?n bytes" by (simp add: pre_def)
  have run: "rx_run get sock pre (ctx, w) \<noteq> None"
    using assms(5) by (subst (asm) bytes) (auto simp: rx_run_append bind_eq_Some_conv)
  have "\<exists>w1. store_all (rv_va ctx) (rv_progress ctx) pre w = Some w1 \<and> rx_run get sock pre (ctx, w) =
      (if ?n \<le> length bytes then Some (apfst norm_rcv (complete_reply (ctx\<lparr>rv_progress := h_datalen (rcv_hdr ctx)\<rparr>) w1))
       else Some (ctx\<lparr>rv_progress := rv_progress ctx + length bytes\<rparr>, w1))"
  proof (cases "pre = []")
    case True
    then have "bytes = []" using n by (auto simp: pre_def)
    with True n assms(2) show ?thesis by (simp add: store_all_def)
  next
    case False
    with run rx_run_data [OF assms(2) False, of get sock w] n obtain w1
      where "store (rv_va ctx) (rv_progress ctx) pre w = Some w1"
      by (cases "store (rv_va ctx) (rv_progress ctx) pre w") auto
    moreover have "length pre = (if ?n \<le> length bytes then ?n else length bytes)" by (simp add: pre_def)
    ultimately show ?thesis
      using rx_run_data [OF assms(2) False, of get sock w] n False by (auto simp: store_all_def Let_def)
  qed
  then obtain w1 where w1: "store_all (rv_va ctx) (rv_progress ctx) pre w = Some w1" "rx_run get sock pre (ctx, w) =
      (if ?n \<le> length bytes then Some (apfst norm_rcv (complete_reply (ctx\<lparr>rv_progress := h_datalen (rcv_hdr ctx)\<rparr>) w1))
       else Some (ctx\<lparr>rv_progress := rv_progress ctx + length bytes\<rparr>, w1))" by blast
  obtain r rv' where r: "arrived r = Some (drop ?n bytes)"
      "recv_data se fuel rv ctx script w = Some (data_result ctx bytes w1 r rv')"
    using recv_data_arrived [OF assms(1,4) less_imp_le [OF n(1)] w1(1) [unfolded pre_def], where se = se and rv = rv]
    by (elim exE conjE) (rule that)
  show ?thesis
  proof (cases "?n \<le> length bytes")
    case True
    obtain c w2 where c: "complete_reply (ctx\<lparr>rv_progress := h_datalen (rcv_hdr ctx)\<rparr>) w1 = (c, w2)" by fastforce
    have "rcv_ok c" using c by (auto simp: complete_reply_def rcv_ok_def)
    moreover have "recv_data se fuel rv ctx script w = Some (RNext rv', c, r, w2)" using r(2) c True by (simp add: data_result_def)
    moreover have "pre \<noteq> []" using True n(1) by (auto simp: pre_def)
    ultimately show ?thesis
      using bytes r(1) w1(2) c True by (auto intro: round_step.RoundStep [of _ pre "drop ?n bytes"])
  next
    case False
    let ?c = "ctx\<lparr>rv_progress := rv_progress ctx + length bytes\<rparr>"
    have "rcv_ok ?c" using False assms(2,3) by (auto simp: rcv_ok_def)
    moreover have "recv_data se fuel rv ctx script w = Some (RReturn True, ?c, r, w1)" using r(2) False by (simp add: data_result_def)
    ultimately show ?thesis
      using bytes r(1) w1(2) False assms(2) by (auto intro!: round_step.RoundStep [of _ pre "drop ?n bytes"])
  qed
qed

lemma start_reply_cases:
  assumes "start_reply sock ctx w = (e, c, w1)"
  obtains "e = Some (RBreak ERRNO_INVAL)" | "e = Some (RNext 0)" "rv_state c = PROC_IDLE"
  | "e = None" "rv_state c = rv_state ctx" "rv_hdr c = rv_hdr ctx" "rv_progress c = rv_progress ctx"
  using assms by (fastforce simp: start_reply_def Let_def split: prod.splits option.splits if_splits)

text \<open>A reply whose data are awaited has the promise of its request, so \<open>set_value\<close> is never applied to a null pointer there.\<close>

lemma start_reply_promise: "start_reply sock ctx w = (None, c, w1) \<Longrightarrow> \<exists>i. rv_p c = Some i"
  by (auto simp: start_reply_def Let_def split: prod.splits option.splits if_splits)

lemma recv_switch_step:
  assumes "arrived script = Some left" "rv_state c = PROC_DATA" "rv_progress c = 0" "length left < fuel"
    and "rx_begin get sock c w \<noteq> None" "rx_run get sock pre (ctx, w) = map_option (apfst norm_rcv) (rx_begin get sock c w)"
    and "pre \<noteq> []" "rx_run get sock (pre @ left) (ctx, w) \<noteq> None"
  shows "round_step get sock ctx (pre @ left) w (recv_switch get se sock fuel True c script w)"
proof -
  obtain c1 w1 where b: "rx_begin get sock c w = Some (c1, w1)" using assms(5) by auto
  have run: "rx_run get sock pre (ctx, w) = Some (norm_rcv c1, w1)" using assms(6) b by simp
  have finish: ?thesis if "recv_switch get se sock fuel True c script w = Some (RNext n, c1, script, w1)" "rcv_ok c1" for n
    unfolding that(1) using assms(1,7) run that(2) by (intro round_step.RoundStep [of _ pre left]) auto
  show ?thesis
  proof (cases "h_type (rcv_hdr c) = op_code GET_REQ")
    case True
    with b have "recv_switch get se sock fuel True c script w = Some (RNext 0, c1, script, w1)" "rcv_ok c1"
      by (auto simp: rx_begin_def recv_switch_def rcv_ok_def Let_def split: option.splits)
    then show ?thesis by (rule finish)
  next
    case False
    then have reply: "h_type (rcv_hdr c) = op_code GET_REPLY" using b by (auto simp: rx_begin_def Let_def split: if_splits)
    obtain e c2 w2 where st: "start_reply sock c w = (e, c2, w2)" by (metis prod_cases3)
    from st show ?thesis
    proof (cases rule: start_reply_cases)
      case 1
      with False reply st b show ?thesis by (simp add: rx_begin_def Let_def)
    next
      case 2
      with False reply st b have "recv_switch get se sock fuel True c script w = Some (RNext 0, c1, script, w1)" "rcv_ok c1"
        by (simp_all add: rx_begin_def Let_def recv_switch_def rcv_ok_def)
      then show ?thesis by (rule finish)
    next
      case 3
      with False reply st have sw: "recv_switch get se sock fuel True c script w = recv_data se fuel 0 c2 script w2"
        by (simp add: recv_switch_def)
      obtain f where f: "fuel = Suc f" using assms(4) by (cases fuel) auto
      show ?thesis
      proof (cases "h_datalen (rcv_hdr c) = 0")
        case True
        with 3 False reply st b have "complete_reply c2 w2 = (c1, w1)" by (simp add: rx_begin_def Let_def)
        moreover from this have "rcv_ok c1" by (auto simp: complete_reply_def rcv_ok_def)
        ultimately show ?thesis using finish sw 3 True assms(3) f by simp
      next
        case pos: False
        with 3 False reply st b have c1: "c1 = c2" "w1 = w2" by (simp_all add: rx_begin_def Let_def)
        have "rcv_ok c2" using 3 pos reply assms(2,3) by (simp add: rcv_ok_def)
        moreover have "rx_run get sock left (c2, w2) \<noteq> None"
          using assms(8) run c1 by (simp add: rx_run_append)
        ultimately have "round_step get sock c2 left w2 (recv_data se fuel 0 c2 script w2)"
          using recv_data_step [OF assms(1) _ _ assms(4)] 3 assms(2) by simp
        then show ?thesis unfolding sw using round_step_extend run c1 assms(7) by blast
      qed
    qed
  qed
qed

lemma recv_round_step:
  assumes "arrived script = Some bytes" "rcv_ok ctx" "length bytes < fuel" "rx_run get sock bytes (ctx, w) \<noteq> None"
  shows "round_step get sock ctx bytes w (recv_round get se sock fuel ctx script w)"
proof -
  define c where "c = norm_rcv ctx"
  have c: "rcv_ok c" "rx_run get sock bs (c, w) = rx_run get sock bs (ctx, w)" for bs using assms(2) by (simp_all add: c_def)
  show ?thesis
  proof (cases "rv_state c = PROC_HDR")
    case True
    have round: "recv_round get se sock fuel ctx script w =
        (case recv_header c script of
           (Some e, ctx2, r) \<Rightarrow> Some (RBreak e, ctx2, r, w)
         | (None, ctx2, r) \<Rightarrow> recv_switch get se sock fuel True ctx2 r w)"
      using True by (simp add: recv_round_def c_def norm_rcv_def Let_def)
    have "header_step get sock c bytes w (recv_header c script)"
      using assms(4) unfolding c(2) [symmetric] by (rule recv_header_step [OF assms(1) True c(1)])
    then obtain pre left c1 r where h: "bytes = pre @ left" "arrived r = Some left" and
      "recv_header c script = (Some ERRNO_AGAIN, c1, r) \<and> left = [] \<and> rx_run get sock pre (c, w) = Some (c1, w) \<and> rcv_ok c1 \<and> rv_state c1 = PROC_HDR \<or>
       recv_header c script = (None, c1, r) \<and> pre \<noteq> [] \<and> rv_state c1 = PROC_DATA \<and> rv_progress c1 = 0 \<and>
         rx_run get sock pre (c, w) = map_option (apfst norm_rcv) (rx_begin get sock c1 w)"
      unfolding header_step_def by blast
    then show ?thesis
    proof (elim disjE conjE)
      assume a: "recv_header c script = (Some ERRNO_AGAIN, c1, r)" "left = []" "rx_run get sock pre (c, w) = Some (c1, w)" "rcv_ok c1"
        "rv_state c1 = PROC_HDR"
      with h show ?thesis unfolding round by (auto simp: c(2) intro!: round_step.RoundStep [of _ pre left])
    next
      assume a: "recv_header c script = (None, c1, r)" "pre \<noteq> []" "rv_state c1 = PROC_DATA" "rv_progress c1 = 0"
        "rx_run get sock pre (c, w) = map_option (apfst norm_rcv) (rx_begin get sock c1 w)"
      have "rx_begin get sock c1 w \<noteq> None" using a(5) assms(4) unfolding h(1) c(2) by (auto simp: rx_run_append bind_eq_Some_conv)
      with a h assms(3,4) show ?thesis unfolding round
        by (auto simp: c(2) intro!: recv_switch_step)
    qed
  next
    case False
    then have st: "rv_state c = PROC_DATA" "c = ctx" "rv_state ctx = PROC_DATA"
      using c(1) by (cases "rv_state ctx"; auto simp: rcv_ok_def c_def norm_rcv_def reset_rcv_def)+
    then have "h_type (rcv_hdr ctx) = op_code GET_REPLY" using assms(2) by (simp add: rcv_ok_def)
    then have "recv_round get se sock fuel ctx script w = recv_data se fuel 0 ctx script w"
      using st by (simp add: recv_round_def recv_switch_def Let_def)
    then show ?thesis using recv_data_step [OF assms(1) st(3) assms(2-4)] by simp
  qed
qed

text \<open>
  One call of the method on bytes that the reference accepts returns \<^const>\<open>True\<close>, having handled a part of them, and not
  nothing unless nothing has arrived.
\<close>

lemma recv_loop_step:
  assumes "arrived script = Some bytes" "rcv_ok ctx" "length bytes + 1 < fuel" "rx_run get sock bytes (ctx, w) \<noteq> None"
  shows "\<exists>c r w1 pre left. recv_loop get se sock fuel ctx script w = Some (Some True, c, r, w1) \<and> bytes = pre @ left \<and>
    arrived r = Some left \<and> rx_run get sock pre (ctx, w) = Some (norm_rcv c, w1) \<and> rcv_ok c \<and> (pre = [] \<longrightarrow> bytes = [])"
  using assms
proof (induction fuel arbitrary: ctx script bytes w)
  case (Suc fuel)
  have "length bytes < fuel" using Suc.prems(3) by simp
  from recv_round_step [OF Suc.prems(1,2) this Suc.prems(4), of se] show ?case
  proof cases
    case (RoundStep pre left r c w1 e)
    show ?thesis
    proof (cases "\<exists>n > 0. e = RNext n")
      case False
      then have "recv_loop get se sock (Suc fuel) ctx script w = Some (Some True, c, r, w1)"
        using RoundStep(1,7) by (cases e) auto
      with RoundStep show ?thesis by blast
    next
      case True
      then have "pre \<noteq> []" and loop: "recv_loop get se sock (Suc fuel) ctx script w = recv_loop get se sock fuel c r w1"
        using RoundStep by auto
      then have "length left + 1 < fuel" using Suc.prems(3) RoundStep(2) by (cases pre) auto
      moreover have run: "rx_run get sock (pre @ p) (ctx, w) = rx_run get sock p (c, w1)" for p
        using RoundStep(4) by (simp add: rx_run_append)
      ultimately obtain c' r' w2 p l where ih: "recv_loop get se sock fuel c r w1 = Some (Some True, c', r', w2)" "left = p @ l"
          "arrived r' = Some l" "rx_run get sock p (c, w1) = Some (norm_rcv c', w2)" "rcv_ok c'"
        using Suc.IH [OF RoundStep(3) RoundStep(5)] Suc.prems(4) RoundStep(2) by metis
      show ?thesis
        by (rule exI [of _ c'], rule exI [of _ r'], rule exI [of _ w2], rule exI [of _ "pre @ p"], rule exI [of _ l])
          (use ih loop run RoundStep(2) \<open>pre \<noteq> []\<close> in simp)
    qed
  qed
qed simp

end
