(* ===== verification/Peer_Messages.thy ===== *)
theory Peer_Messages
  imports Peer_Receiver
begin

text \<open>
  The two halves of \<^verbatim>\<open>src/libgeds/TcpTransport.cpp\<close> together. A history of calls of the receiver, over any
  fragmentation of the bytes, ends where the reference ends that takes single bytes; the bytes of a message have the effect of
  the message. The connections of a peer take their messages from one queue, in any interleaving; what a connection has
  taken is what the other side of it handles.
\<close>

section \<open>A history of calls\<close>

text \<open>
  The receive thread calls the method whenever its level-triggered \<open>epoll\<close> reports the socket, that is, as long as there
  is something to read. Before each call further pieces have arrived.
\<close>

fun recv_calls where
  "recv_calls get se sock fuel [] (ctx, script, w) = Some (ctx, script, w)"
| "recv_calls get se sock fuel (evs # calls) (ctx, script, w) =
     (case recv_loop get se sock fuel ctx (script @ evs) w of
        Some (Some True, c, r, w1) \<Rightarrow> recv_calls get se sock fuel calls (c, r, w1)
      | _ \<Rightarrow> None)"

lemma arrived_append: "arrived (evs @ evs') = Option.bind (arrived evs) (\<lambda>bs. map_option (\<lambda>cs. bs @ cs) (arrived evs'))"
  by (induction evs rule: arrived.induct; cases "arrived evs'") (auto split: bind_split)

lemma arrived_map [simp]: "arrived (map Arrived pieces) = Some (concat pieces)"
  by (induction pieces) simp_all

text \<open>After a number of calls a part of the bytes is handled, and each call without new bytes handles at least one.\<close>

lemma recv_calls_step:
  assumes "arrived script = Some left" "rcv_ok ctx" "length (left @ concat (concat calls)) + 1 < fuel"
    and "rx_run get sock (left @ concat (concat calls)) (ctx, w) = Some s"
  shows "\<exists>c r w1 left'. recv_calls get se sock fuel (map (map Arrived) calls) (ctx, script, w) = Some (c, r, w1) \<and>
    arrived r = Some left' \<and> rcv_ok c \<and> rx_run get sock left' (c, w1) = Some s \<and>
    length left' \<le> length (left @ concat (concat calls)) \<and> (set calls \<subseteq> {[]} \<longrightarrow> length left' \<le> length left - length calls)"
  using assms
proof (induction calls arbitrary: ctx script left w)
  case Nil
  then show ?case by simp
next
  case (Cons pieces calls)
  let ?bytes = "left @ concat pieces"
  have arr: "arrived (script @ map Arrived pieces) = Some ?bytes" using Cons.prems(1) by (simp add: arrived_append)
  have run: "rx_run get sock ?bytes (ctx, w) \<noteq> None"
    using Cons.prems(4) by (auto simp: rx_run_append bind_eq_Some_conv)
  have "length ?bytes + 1 < fuel" using Cons.prems(3) by simp
  from recv_loop_step [OF arr Cons.prems(2) this run, of se]
  obtain c r w1 pre l where s: "recv_loop get se sock fuel ctx (script @ map Arrived pieces) w = Some (Some True, c, r, w1)"
      "?bytes = pre @ l" "arrived r = Some l" "rx_run get sock pre (ctx, w) = Some (norm_rcv c, w1)" "rcv_ok c" "pre = [] \<longrightarrow> ?bytes = []"
    by (elim exE conjE) (rule that)
  have split: "left @ concat (concat (pieces # calls)) = pre @ l @ concat (concat calls)" using s(2) by (metis append.assoc concat.simps(2) concat_append)
  have "rx_run get sock (l @ concat (concat calls)) (c, w1) = Some s"
    using Cons.prems(4) s(4) unfolding split by (simp add: rx_run_append)
  moreover have "length (l @ concat (concat calls)) + 1 < fuel" using Cons.prems(3) unfolding split by simp
  ultimately obtain c' r' w2 l' where ih: "recv_calls get se sock fuel (map (map Arrived) calls) (c, r, w1) = Some (c', r', w2)"
      "arrived r' = Some l'" "rcv_ok c'" "rx_run get sock l' (c', w2) = Some s" "length l' \<le> length (l @ concat (concat calls))"
      "set calls \<subseteq> {[]} \<longrightarrow> length l' \<le> length l - length calls"
    using Cons.IH [OF s(3,5)] by blast
  have "length l' \<le> length left - length (pieces # calls)" if "set (pieces # calls) \<subseteq> {[]}"
  proof -
    have "left = pre @ l" "pre = [] \<longrightarrow> left = []" using that s(2,6) by auto
    then have "length l \<le> length left - 1" by (cases pre) auto
    with ih(6) that show ?thesis by auto
  qed
  moreover have "length l' \<le> length (left @ concat (concat (pieces # calls)))" using ih(5) unfolding split by simp
  ultimately show ?case using s(1) ih(1-4) by (intro exI [of _ c'] exI [of _ r'] exI [of _ w2] exI [of _ l']) simp
qed

lemma recv_calls_append:
  "recv_calls get se sock fuel (as @ bs) s = Option.bind (recv_calls get se sock fuel as s) (recv_calls get se sock fuel bs)"
proof (induction as arbitrary: s)
  case Nil
  then show ?case by (cases s) simp
next
  case (Cons a as)
  then show ?case by (cases s) (simp split: option.splits bool.splits prod.splits)
qed

lemma recv_calls_drain:
  assumes "rx_run get sock bytes (ctx, w) = Some (c, w1)" "concat (concat calls) = bytes" "length bytes + 1 < fuel" "rcv_ok ctx"
  shows "\<exists>c' r. recv_calls get se sock fuel (map (map Arrived) calls @ replicate (length bytes) []) (ctx, [], w) = Some (c', r, w1) \<and>
    norm_rcv c' = c \<and> arrived r = Some [] \<and> rcv_ok c'"
proof -
  have start: "arrived [] = Some []" by simp
  from recv_calls_step [OF start assms(4), of calls fuel get sock w "(c, w1)" se] assms(1-3)
  obtain c1 r1 w2 l where a: "recv_calls get se sock fuel (map (map Arrived) calls) (ctx, [], w) = Some (c1, r1, w2)"
      "arrived r1 = Some l" "rcv_ok c1" "rx_run get sock l (c1, w2) = Some (c, w1)" "length l \<le> length bytes"
    by auto
  let ?more = "replicate (length bytes) []"
  have "concat (concat ?more) = []" by (induction "length bytes") simp_all
  with recv_calls_step [OF a(2,3), of ?more fuel get sock w2 "(c, w1)" se] a(4,5) assms(3)
  obtain c2 r2 w3 l' where b: "recv_calls get se sock fuel (map (map Arrived) ?more) (c1, r1, w2) = Some (c2, r2, w3)"
      "arrived r2 = Some l'" "rcv_ok c2" "rx_run get sock l' (c2, w3) = Some (c, w1)" "length l' \<le> length l - length bytes"
    by auto
  then have "l' = []" using a(5) by simp
  with a b show ?thesis by (auto simp: recv_calls_append)
qed

section \<open>Messages\<close>

text \<open>
  What a message is for the peer that receives it: a request is served; a reply goes to the request with its number, whose memory
  it fills and whose promise it keeps.
\<close>

definition handle_reply where
  "handle_reply sock hdr bytes w =
     (case ConcurrentMap_getAndRemove (h_reqid hdr) (tp_recvQueue w) of
        (None, _) \<Rightarrow> None
      | (Some rw, q) \<Rightarrow>
          let w1 = w\<lparr>tp_recvQueue := q\<rparr> in
          if h_error hdr \<noteq> 0 then Some (set_value (Some (rw_p rw)) (Inl (reply_error sock hdr)) w1)
          else map_option (set_value (Some (rw_p rw)) (Inr (h_datalen hdr))) (store_all (rw_va rw) 0 bytes w1))"

definition work_hdr :: "SocketSendWork \<Rightarrow> TcpCtlHdr" where
  "work_hdr work = ss_hdr (load_work work TcpSendState_new)"

definition handle where
  "handle get sock data work w =
     (case sw_type work of
        GET_REQ \<Rightarrow> get (sw_reqId work) (sw_objName work) (sw_len work) (sw_off work) w
      | GET_REPLY \<Rightarrow> handle_reply sock (work_hdr work) (take (sw_len work) (data (sw_in_fd work) (sw_va work))) w
      | _ \<Rightarrow> None)"

fun handle_all where
  "handle_all get sock data [] w = Some w"
| "handle_all get sock data (work # works) w = Option.bind (handle get sock data work w) (handle_all get sock data works)"

text \<open>Messages as \<open>sendRpcRequest\<close> and \<open>sendRpcReply\<close> make them: only a request has a name, and that is not too long.\<close>

definition work_ok :: "SocketSendWork \<Rightarrow> bool" where
  "work_ok work \<longleftrightarrow> sw_reqId work < 2 ^ 64 \<and> sw_len work < 2 ^ 64 \<and> sw_off work < 2 ^ 64 \<and>
     (case sw_type work of
        GET_REQ \<Rightarrow> sw_objName work \<noteq> [] \<and> length (sw_objName work) \<le> RPC_TCP_MAX_HDR
      | GET_REPLY \<Rightarrow> sw_objName work = []
      | _ \<Rightarrow> False)"

lemma work_ok_hdr:
  assumes "work_ok work"
  shows "decode_hdr (encode_hdr (work_hdr work)) = work_hdr work" "h_hdrlen (work_hdr work) = hdr_size + length (sw_objName work)"
    "work_bytes data work = encode_hdr (work_hdr work) @ sw_objName work @ payload data (load_work work TcpSendState_new)"
proof -
  have len: "hdr_size + length (sw_objName work) < 2 ^ 16"
    using assms by (cases "sw_type work") (auto simp: work_ok_def RPC_TCP_MAX_HDR_def hdr_size_def)
  have "op_code (sw_type work) < 2 ^ 8" by (cases "sw_type work") simp_all
  with assms len have "hdr_ok (work_hdr work)" by (simp add: hdr_ok_def work_hdr_def load_work_def work_ok_def wrap16_def wrap8_def)
  then show "decode_hdr (encode_hdr (work_hdr work)) = work_hdr work" by (rule decode_encode_hdr)
  show h: "h_hdrlen (work_hdr work) = hdr_size + length (sw_objName work)"
    using len by (simp add: work_hdr_def load_work_def wrap16_def)
  then have "header_iov (load_work work TcpSendState_new) = encode_hdr (work_hdr work) @ sw_objName work"
    by (simp add: header_iov_def Let_def work_hdr_def load_work_def hdr_size_def)
  then show "work_bytes data work = encode_hdr (work_hdr work) @ sw_objName work @ payload data (load_work work TcpSendState_new)"
    by (simp flip: load_work_bytes [of work TcpSendState_new])
qed

text \<open>The state between two messages.\<close>

definition fresh :: "TcpRcvState \<Rightarrow> bool" where
  "fresh ctx \<longleftrightarrow> norm_rcv ctx = reset_rcv ctx"

lemma fresh_new [simp]: "fresh TcpRcvState_new"
  by (simp add: fresh_def norm_rcv_def TcpRcvState_new_def)

lemma fresh_idle: "rv_state ctx = PROC_IDLE \<Longrightarrow> fresh (norm_rcv ctx)"
  by (simp add: fresh_def norm_rcv_def reset_rcv_def)

lemma reset_rcv_ok: "rcv_ok (reset_rcv ctx)"
  by (simp add: rcv_ok_def reset_rcv_def hdr_size_def)

lemma fresh_ok: "fresh ctx \<Longrightarrow> rcv_ok ctx"
  unfolding fresh_def by (metis rcv_ok_norm reset_rcv_ok)

lemma work_hdr_simps [simp]:
  "h_reqid (work_hdr work) = sw_reqId work" "h_datalen (work_hdr work) = sw_len work" "h_offset (work_hdr work) = sw_off work"
  "h_type (work_hdr work) = op_code (sw_type work)" "h_error (work_hdr work) = wrap8 (sw_error work)"
  by (simp_all add: work_hdr_def load_work_def)

text \<open>The header of a message, received in one piece.\<close>

lemma rx_run_work_hdr:
  assumes "work_ok work" "fresh ctx"
  defines "c \<equiv> (reset_rcv ctx)\<lparr>rv_hdr := encode_hdr (work_hdr work), rv_progress := hdr_size\<rparr>"
  shows "rx_run get sock (encode_hdr (work_hdr work) @ bs) (ctx, w) = Option.bind (rx_header get sock c w) (rx_run get sock bs)"
    "rcv_hdr c = work_hdr work" "rv_state c = PROC_HDR" "rv_progress c = hdr_size" "rv_objName c = []"
proof -
  have start: "rv_state (reset_rcv ctx) = PROC_HDR" "rv_progress (reset_rcv ctx) = 0" "rv_hdr (reset_rcv ctx) = []"
    by (simp_all add: reset_rcv_def)
  have "rx_run get sock (encode_hdr (work_hdr work)) (norm_rcv ctx, w) = map_option (apfst norm_rcv) (rx_header get sock c w)"
    using rx_run_header [OF start(1), of "encode_hdr (work_hdr work)" get sock w] start assms(2)
    by (simp add: fresh_def c_def Let_def hdr_size_def del: rx_run_norm)
  then show "rx_run get sock (encode_hdr (work_hdr work) @ bs) (ctx, w) = Option.bind (rx_header get sock c w) (rx_run get sock bs)"
    by (cases "rx_header get sock c w") (auto simp: rx_run_append)
  show "rcv_hdr c = work_hdr work" using work_ok_hdr(1) [OF assms(1)] by (simp add: c_def)
qed (simp_all add: c_def reset_rcv_def)

lemma rx_run_request:
  assumes "work_ok work" "fresh ctx" "sw_type work = GET_REQ" "handle get sock data work w = Some w1"
  shows "\<exists>c. rx_run get sock (work_bytes data work) (ctx, w) = Some (c, w1) \<and> fresh c"
proof -
  define c where "c = (reset_rcv ctx)\<lparr>rv_hdr := encode_hdr (work_hdr work), rv_progress := hdr_size\<rparr>"
  note h = rx_run_work_hdr [OF assms(1,2), folded c_def]
  have name: "sw_objName work \<noteq> []" "length (sw_objName work) \<le> RPC_TCP_MAX_HDR" using assms(1,3) by (auto simp: work_ok_def)
  note len = work_ok_hdr(2) [OF assms(1)]
  have "payload data (load_work work TcpSendState_new) = []" using assms(3) by (simp add: payload_def load_work_def)
  then have "rx_run get sock (work_bytes data work) (ctx, w) = Option.bind (rx_header get sock c w) (rx_run get sock (sw_objName work))"
    using h(1) work_ok_hdr(3) [OF assms(1), of data] by simp
  also have "rx_header get sock c w = Some (c, w)" using h(2) assms(3) name len by (simp add: rx_header_def Let_def)
  also have "Option.bind (Some (c, w)) (rx_run get sock (sw_objName work)) = rx_run get sock (sw_objName work) (c, w)" by simp
  also have "\<dots> = map_option (apfst norm_rcv) (rx_begin get sock (finish_header (c\<lparr>rv_objName := sw_objName work,
      rv_progress := hdr_size + length (sw_objName work)\<rparr>)) w)"
    using rx_run_name [OF h(3), of "sw_objName work" get sock w] h(2,4,5) len name by (simp add: Let_def)
  finally show ?thesis
    using assms(3,4) h(2) by (auto simp: rx_begin_def finish_header_def Let_def handle_def intro: fresh_idle)
qed

lemma rx_run_reply:
  assumes "work_ok work" "full_work data work" "fresh ctx" "sw_type work = GET_REPLY" "handle get sock data work w = Some w1"
  shows "\<exists>c. rx_run get sock (work_bytes data work) (ctx, w) = Some (c, w1) \<and> fresh c"
proof -
  define c where "c = (reset_rcv ctx)\<lparr>rv_hdr := encode_hdr (work_hdr work), rv_progress := hdr_size\<rparr>"
  note h = rx_run_work_hdr [OF assms(1,3), folded c_def]
  let ?f = "finish_header c" and ?pay = "payload data (load_work work TcpSendState_new)"
  have f: "rcv_hdr ?f = work_hdr work" "rv_state ?f = PROC_DATA" "rv_progress ?f = 0" using h(2) by (simp_all add: finish_header_def)
  have name: "sw_objName work = []" using assms(1,4) by (simp add: work_ok_def)
  have run: "rx_run get sock (work_bytes data work) (ctx, w) = Option.bind (rx_begin get sock ?f w) (rx_run get sock ?pay)"
    using h(1,2) work_ok_hdr(2) [OF assms(1)] work_ok_hdr(3) [OF assms(1), of data] name assms(4) by (simp add: rx_header_def Let_def)
  have pay: "?pay = (if wrap8 (sw_error work) = 0 then take (sw_len work) (data (sw_in_fd work) (sw_va work)) else [])"
    using assms(4) by (simp add: payload_def load_work_def)
  obtain rw q where rw: "ConcurrentMap_getAndRemove (sw_reqId work) (tp_recvQueue w) = (Some rw, q)"
    using assms(4,5) by (auto simp: handle_def handle_reply_def split: prod.splits option.splits)
  let ?w = "w\<lparr>tp_recvQueue := q\<rparr>" and ?g = "?f\<lparr>rv_va := rw_va rw, rv_p := Some (rw_p rw)\<rparr>"
  have hr: "handle_reply sock (work_hdr work) (take (sw_len work) (data (sw_in_fd work) (sw_va work))) w = Some w1"
    using assms(4,5) by (simp add: handle_def)
  show ?thesis
  proof (cases "wrap8 (sw_error work) = 0")
    case False
    with run pay rw f assms(4) hr show ?thesis
      by (auto simp: rx_begin_def start_reply_def handle_reply_def Let_def intro: fresh_idle)
  next
    case True
    have beg: "rx_begin get sock ?f w = (if sw_len work = 0 then Some (complete_reply ?g ?w) else Some (?g, ?w))"
      using True rw f assms(4) by (simp add: rx_begin_def start_reply_def Let_def)
    have g: "rcv_hdr ?g = work_hdr work" "rv_state ?g = PROC_DATA" "rv_progress ?g = 0" "rv_va ?g = rw_va rw" "rv_p ?g = Some (rw_p rw)"
      using f by simp_all
    show ?thesis
    proof (cases "sw_len work = 0")
      case zero: True
      with run beg pay True rw hr g show ?thesis
        by (auto simp: complete_reply_def handle_reply_def store_all_def Let_def intro: fresh_idle)
    next
      case False
      have len: "length ?pay = sw_len work" using assms(2,4) True pay by (simp add: full_work_def)
      then have ne: "?pay \<noteq> []" using False by auto
      obtain w2 where w2: "store (rw_va rw) 0 ?pay ?w = Some w2" "w1 = set_value (Some (rw_p rw)) (Inr (sw_len work)) w2"
        using hr rw True pay ne by (auto simp: handle_reply_def store_all_def Let_def)
      have "rx_run get sock ?pay (?g, ?w) = Some (apfst norm_rcv (complete_reply (?g\<lparr>rv_progress := sw_len work\<rparr>) w2))"
        using rx_run_data [OF g(2) ne, of get sock ?w] g w2(1) len by (simp add: Let_def)
      then show ?thesis using run beg False w2(2) g by (auto simp: complete_reply_def intro: fresh_idle)
    qed
  qed
qed

lemma rx_run_works:
  assumes "list_all work_ok works" "list_all (full_work data) works" "fresh ctx" "handle_all get sock data works w = Some w1"
  shows "\<exists>c. rx_run get sock (concat (map (work_bytes data) works)) (ctx, w) = Some (c, w1) \<and> fresh c"
  using assms
proof (induction works arbitrary: ctx w)
  case Nil
  then show ?case by (auto simp: fresh_def reset_rcv_def)
next
  case (Cons work works)
  then obtain w2 where w2: "handle get sock data work w = Some w2" "handle_all get sock data works w2 = Some w1"
    by (auto simp: bind_eq_Some_conv)
  have "sw_type work = GET_REQ \<or> sw_type work = GET_REPLY"
    using w2(1) by (cases "sw_type work") (simp_all add: handle_def)
  with rx_run_request rx_run_reply Cons.prems w2(1)
  obtain c where "rx_run get sock (work_bytes data work) (ctx, w) = Some (c, w2)" "fresh c" by (metis list.pred_inject(2))
  with Cons.IH [of c w2] Cons.prems w2(2) show ?case by (simp add: rx_run_append)
qed

section \<open>What the receiver guarantees\<close>

text \<open>
  C20. Reassembly. However the bytes of a stream are cut into pieces, and however the pieces are spread over the calls of the receiver, the
  calls, followed by enough further calls, end with everything read and with the effects of the reference that
  takes single bytes: the same requests served, the same memory filled, the same promises kept. Each call returns within
  a fuel that the number of bytes bounds.
\<close>

theorem recv_fragmentation:
  assumes "rx_run get sock (concat (concat calls)) (TcpRcvState_new, w) = Some (c, w1)" "length (concat (concat calls)) + 1 < fuel"
  shows "\<exists>c' r. recv_calls get se sock fuel (map (map Arrived) calls @ replicate (length (concat (concat calls))) [])
      (TcpRcvState_new, [], w) = Some (c', r, w1) \<and> norm_rcv c' = c \<and> arrived r = Some []"
  using recv_calls_drain [OF assms(1) refl assms(2) fresh_ok [OF fresh_new], of se] by blast

definition sample_world :: rx_world where
  "sample_world =
     \<lparr>tp_recvQueue = [(7, \<lparr>rw_reqId = 7, rw_va = 100, rw_len = 3, rw_p = 1\<rparr>)], tp_memory = [100 \<mapsto> [0, 0, 0]], tp_promises = Map.empty\<rparr>"

definition sample_stream :: "byte list" where
  "sample_stream = [7, 0, 0, 0, 0, 0, 0, 0, 2, 0, 0, 0, 0, 0, 0, 0, 0, 0, 0, 0, 0, 0, 0, 0, 32, 0, 2, 0, 0, 0, 0, 0, 4, 5]"

lemma sample_exchange:
  "map_option (\<lambda>(c, w). (rv_state c, tp_recvQueue w, tp_memory w 100, tp_promises w 1))
     (rx_run (\<lambda>_ _ _ _. Some) 3 sample_stream (TcpRcvState_new, sample_world)) = Some (PROC_HDR, [], Some [4, 5, 0], Some (Inr 2))"
  by code_simp

theorem recv_fragmentation_witness:
  "\<exists>c r w1. recv_calls (\<lambda>_ _ _ _. Some) (\<lambda>_. []) 3 100 (map (map Arrived) [[take 5 sample_stream], [drop 5 sample_stream]] @
      replicate (length (concat (concat [[take 5 sample_stream], [drop 5 sample_stream]]))) []) (TcpRcvState_new, [], sample_world) =
      Some (c, r, w1) \<and> arrived r = Some [] \<and> tp_memory w1 100 = Some [4, 5, 0] \<and> tp_promises w1 1 = Some (Inr 2)"
proof -
  let ?calls = "[[take 5 sample_stream], [drop 5 sample_stream]]"
  obtain c w1 where "rx_run (\<lambda>_ _ _ _. Some) 3 sample_stream (TcpRcvState_new, sample_world) = Some (c, w1)"
      "tp_memory w1 100 = Some [4, 5, 0]" "tp_promises w1 1 = Some (Inr 2)"
    using sample_exchange by (auto simp: map_option_eq_Some)
  moreover have "concat (concat ?calls) = sample_stream" by simp
  moreover have "length sample_stream + 1 < 100" by (simp add: sample_stream_def)
  ultimately show ?thesis using recv_fragmentation [of "\<lambda>_ _ _ _. Some" 3 ?calls sample_world c w1 100 "\<lambda>_. []"] by metis
qed

lemma norm_rcv_fresh: "norm_rcv c' = c \<Longrightarrow> fresh c \<Longrightarrow> fresh c'"
  by (cases "rv_state c' = PROC_IDLE") (auto simp: fresh_def norm_rcv_def)

section \<open>The connections of a peer share its queue\<close>

text \<open>
  A \<open>TcpPeer\<close> has one \<open>sendQueue\<close> and up to as many endpoints as there are threads. Every thread that may write to a socket, one
  of the transmit threads or a caller of \<open>sendRpcRequest\<close> and \<open>sendRpcReply\<close>, runs \<open>processEndpointSend\<close> on an endpoint under the lock
  of its send state, so that calls on one socket do not overlap; calls on different sockets do, and meet at the
  queue, whose \<open>pop\<close> is atomic. One step is a round of the loop on one socket, with at most one \<open>pop\<close>: any
  interleaving of calls is a list of such rounds and of messages that are queued. The buffer or file of a message
  is not changed while the message is sent (\<open>data\<close> is a function).
\<close>

datatype peer_event = PeerEnqueue SocketSendWork | PeerRound nat "write_event list"

type_synonym peer_sockets = "SocketSendWork list \<times> (nat \<Rightarrow> sender)"

definition peer_round :: "(int \<Rightarrow> nat \<Rightarrow> byte list) \<Rightarrow> nat \<Rightarrow> write_event list \<Rightarrow> peer_sockets \<Rightarrow> peer_sockets" where
  "peer_round data k script p =
     (case p of (q, socks) \<Rightarrow>
      if ss_state (sd_ctx (socks k)) = PROC_FAILED then p
      else case send_round data ((socks k)\<lparr>sd_queue := q, sd_script := script\<rparr>) of
        (end', s) \<Rightarrow> (sd_queue s, socks(k :=
           (case end' of
              SBreak e \<Rightarrow> if e = ERRNO_AGAIN then s else s\<lparr>sd_ctx := (sd_ctx s)\<lparr>ss_state := PROC_FAILED\<rparr>\<rparr>
            | _ \<Rightarrow> s))))"

fun peer_step :: "(int \<Rightarrow> nat \<Rightarrow> byte list) \<Rightarrow> peer_event \<Rightarrow> peer_sockets \<Rightarrow> peer_sockets" where
  "peer_step data (PeerEnqueue work) p = apfst (ConcurrentQueue_push work) p"
| "peer_step data (PeerRound k script) p = peer_round data k script p"

definition peer_run :: "(int \<Rightarrow> nat \<Rightarrow> byte list) \<Rightarrow> peer_event list \<Rightarrow> peer_sockets" where
  "peer_run data evs = fold (peer_step data) evs ([], \<lambda>_. sender_new)"

fun peer_enqueued :: "peer_event list \<Rightarrow> SocketSendWork list" where
  "peer_enqueued [] = []"
| "peer_enqueued (PeerEnqueue work # evs) = work # peer_enqueued evs"
| "peer_enqueued (PeerRound k script # evs) = peer_enqueued evs"

lemma peer_enqueued_append [simp]: "peer_enqueued (evs @ evs') = peer_enqueued evs @ peer_enqueued evs'"
  by (induction evs rule: peer_enqueued.induct) simp_all

text \<open>A call of \<open>processEndpointSend\<close> is a sequence of rounds on its socket.\<close>

lemma send_loop_rounds:
  assumes "send_loop data s = (b, s1)" "ss_state (sd_ctx s) \<noteq> PROC_FAILED" "send_ok (sd_ctx s)"
  shows "\<exists>scripts. fold (peer_step data) (map (PeerRound k) scripts) (sd_queue s, socks(k := s)) = (sd_queue s1, socks(k := s1))"
  using assms
proof (induction data s arbitrary: b s1 rule: send_loop.induct)
  case (1 data s)
  obtain e s2 where r: "send_round data s = (e, s2)" by fastforce
  have inv: "send_ok (sd_ctx s2)" "ss_state (sd_ctx s2) \<noteq> PROC_FAILED" using send_round_stream [OF r "1.prems"(3,2)] by simp_all
  have self: "s\<lparr>sd_queue := sd_queue s, sd_script := sd_script s\<rparr> = s" by simp
  have one: "peer_round data k (sd_script s) (sd_queue s, socks(k := s)) = (sd_queue s2, socks(k :=
      (case e of SBreak c \<Rightarrow> if c = ERRNO_AGAIN then s2 else s2\<lparr>sd_ctx := (sd_ctx s2)\<lparr>ss_state := PROC_FAILED\<rparr>\<rparr> | _ \<Rightarrow> s2)))"
    using r "1.prems"(2) by (simp add: peer_round_def self)
  show ?case
  proof (cases "\<exists>n. e = SContinue n \<and> 0 < n")
    case True
    then obtain n where n: "e = SContinue n" "0 < n" by blast
    with r "1.prems"(1) have "send_loop data s2 = (b, s1)" by (simp add: send_loop.simps [of data s])
    from "1.IH" [OF r [symmetric] n this inv(2,1)] obtain scripts where
      "fold (peer_step data) (map (PeerRound k) scripts) (sd_queue s2, socks(k := s2)) = (sd_queue s1, socks(k := s1))" by blast
    with one n show ?thesis
      by (intro exI [of _ "sd_script s # scripts"]) (simp only: list.map fold_simps peer_step.simps send_end.case)
  next
    case False
    with r "1.prems"(1) one show ?thesis
      by (intro exI [of _ "[sd_script s]"], simp only: list.map fold_simps peer_step.simps)
        (auto simp: send_loop.simps [of data s] split: send_end.splits if_splits)
  qed
qed

lemma processEndpointSend_rounds:
  assumes "processEndpointSend data s = (b, s1)" "send_ok (sd_ctx s)"
  shows "\<exists>scripts. fold (peer_step data) (map (PeerRound k) scripts) (sd_queue s, socks(k := s)) = (sd_queue s1, socks(k := s1))"
proof (cases "ss_state (sd_ctx s) = PROC_FAILED")
  case True
  with assms(1) show ?thesis by (intro exI [of _ "[]"]) (simp add: processEndpointSend_def)
next
  case False
  with assms send_loop_rounds show ?thesis by (simp add: processEndpointSend_def)
qed

text \<open>What a round takes from the queue, and what it does to the bytes of its socket.\<close>

lemma send_round_takes:
  assumes "send_round data s = (e, s1)" "send_ok (sd_ctx s)" "ss_state (sd_ctx s) \<noteq> PROC_FAILED"
  shows "\<exists>taken. sd_queue s = taken @ sd_queue s1 \<and>
    sd_wire s1 @ pending data (sd_ctx s1) = sd_wire s @ pending data (sd_ctx s) @ concat (map (work_bytes data) taken)"
proof -
  have wd: "sd_queue s3 = sd_queue s2" if "write_data data n s2 = (e, s3)" for n s2 s3
    using that by (auto simp: write_data_def emit_def Let_def split: prod.splits sum.splits if_splits)
  have wh: "sd_queue s3 = sd_queue s2" if "write_header s2 = (x, s3)" for x s2 s3
    using that by (auto simp: write_header_def emit_def Let_def split: prod.splits sum.splits if_splits)
  have hdr: "sd_queue s3 = sd_queue s2"
    if "(case write_header s2 of (Inl e, s) \<Rightarrow> (e, s) | (Inr n, s) \<Rightarrow> write_data data n s) = (e, s3)" for s2 s3
  proof -
    obtain x s4 where x: "write_header s2 = (x, s4)" by fastforce
    with that wd wh [OF x] show ?thesis by (cases x) auto
  qed
  have "\<exists>taken. sd_queue s = taken @ sd_queue s1"
  proof (cases "ss_state (sd_ctx s)")
    case PROC_IDLE
    show ?thesis
    proof (cases "sd_queue s")
      case Nil
      with PROC_IDLE assms(1) show ?thesis by (auto simp: send_round_def ConcurrentQueue_pop_def)
    next
      case (Cons work q)
      have "ss_state (load_work work (sd_ctx s)) = PROC_HDR" by (simp add: load_work_def)
      with hdr [of "s\<lparr>sd_queue := q, sd_ctx := load_work work (sd_ctx s)\<rparr>" s1] PROC_IDLE Cons assms(1) show ?thesis
        by (intro exI [of _ "[work]"]) (simp add: send_round_def ConcurrentQueue_pop_def)
    qed
  next
    case PROC_HDR
    with hdr [of s s1] assms(1) show ?thesis by (simp add: send_round_def)
  next
    case PROC_DATA
    with wd [of 0 s s1] assms(1) show ?thesis by (simp add: send_round_def)
  qed (use assms in simp)
  then obtain taken where taken: "sd_queue s = taken @ sd_queue s1" by blast
  have "stream data s1 = stream data s" using send_round_stream [OF assms] by simp
  then have "(sd_wire s1 @ pending data (sd_ctx s1)) @ queued data s1 =
      (sd_wire s @ pending data (sd_ctx s) @ concat (map (work_bytes data) taken)) @ queued data s1"
    by (simp add: stream_def queued_def taken)
  with taken show ?thesis unfolding append_same_eq by blast
qed

text \<open>
  The invariant of an interleaved history: there is a log of which socket took which message, in the order of the queue; what is on the wire
  of a socket, with what it has still to write, are the messages the log gives it.
\<close>

definition messages_of :: "nat \<Rightarrow> (nat \<times> SocketSendWork) list \<Rightarrow> SocketSendWork list" where
  "messages_of k log = map snd (filter (\<lambda>e. fst e = k) log)"

definition socket_inv :: "(int \<Rightarrow> nat \<Rightarrow> byte list) \<Rightarrow> SocketSendWork list \<Rightarrow> sender \<Rightarrow> bool" where
  "socket_inv data works s \<longleftrightarrow> send_ok (sd_ctx s) \<and> prefix (sd_wire s) (concat (map (work_bytes data) works)) \<and>
     (ss_state (sd_ctx s) \<noteq> PROC_FAILED \<longrightarrow> sd_wire s @ pending data (sd_ctx s) = concat (map (work_bytes data) works))"

lemma messages_of_append [simp]:
  "messages_of k (log @ map (Pair j) ws) = messages_of k log @ (if j = k then ws else [])"
  by (simp add: messages_of_def filter_map comp_def)

lemma peer_round_inv:
  assumes "peer_round data k script (q, socks) = (q', socks')" "map snd log @ q = works"
    and "\<And>j. socket_inv data (messages_of j log) (socks j)"
  shows "\<exists>log'. map snd log' @ q' = works \<and> (\<forall>j. socket_inv data (messages_of j log') (socks' j))"
proof (cases "ss_state (sd_ctx (socks k)) = PROC_FAILED")
  case True
  with assms show ?thesis by (intro exI [of _ log]) (simp add: peer_round_def)
next
  case False
  let ?s = "(socks k)\<lparr>sd_queue := q, sd_script := script\<rparr>"
  obtain e s1 where r: "send_round data ?s = (e, s1)" by fastforce
  have ok: "send_ok (sd_ctx ?s)" "ss_state (sd_ctx ?s) \<noteq> PROC_FAILED"
    "sd_wire ?s @ pending data (sd_ctx ?s) = concat (map (work_bytes data) (messages_of k log))"
    using assms(3) [of k] False by (simp_all add: socket_inv_def)
  obtain taken where t: "q = taken @ sd_queue s1"
    "sd_wire s1 @ pending data (sd_ctx s1) = sd_wire ?s @ pending data (sd_ctx ?s) @ concat (map (work_bytes data) taken)"
    using send_round_takes [OF r ok(1,2)] by auto
  have inv: "send_ok (sd_ctx s1)" "ss_state (sd_ctx s1) \<noteq> PROC_FAILED" using send_round_stream [OF r ok(1,2)] by simp_all
  let ?log = "log @ map (Pair k) taken"
  let ?f = "s1\<lparr>sd_ctx := (sd_ctx s1)\<lparr>ss_state := PROC_FAILED\<rparr>\<rparr>"
  have bytes: "sd_wire s1 @ pending data (sd_ctx s1) = concat (map (work_bytes data) (messages_of k ?log))"
    using t(2) ok(3) by simp
  then have "prefix (sd_wire s1) (concat (map (work_bytes data) (messages_of k ?log)))" by (metis prefixI)
  with bytes inv have s1: "socket_inv data (messages_of k ?log) s1" "socket_inv data (messages_of k ?log) ?f"
    by (simp_all add: socket_inv_def send_ok_def)
  have p': "q' = sd_queue s1" "socks' = socks(k := s1) \<or> socks' = socks(k := ?f)"
    using assms(1) False r by (auto simp: peer_round_def split: send_end.splits if_splits)
  have "socket_inv data (messages_of j ?log) (socks' j)" for j
    using p'(2) s1 assms(3) [of j] by (cases "j = k") auto
  moreover have "map snd ?log @ q' = works" using assms(2) t(1) p'(1) by (simp add: comp_def)
  ultimately show ?thesis by blast
qed

lemma peer_run_inv:
  "\<exists>log. map snd log @ fst (peer_run data evs) = peer_enqueued evs \<and>
     (\<forall>k. socket_inv data (messages_of k log) (snd (peer_run data evs) k))"
proof (induction evs rule: rev_induct)
  case Nil
  show ?case
    by (intro exI [of _ "[]"])
      (simp add: peer_run_def messages_of_def socket_inv_def sender_new_def TcpSendState_new_def send_ok_def pending_def)
next
  case (snoc ev evs)
  then obtain log where log: "map snd log @ fst (peer_run data evs) = peer_enqueued evs"
    "\<And>k. socket_inv data (messages_of k log) (snd (peer_run data evs) k)" by blast
  have step: "peer_run data (evs @ [ev]) = peer_step data ev (peer_run data evs)" by (simp add: peer_run_def)
  show ?case
  proof (cases ev)
    case (PeerEnqueue work)
    with log step show ?thesis by (intro exI [of _ log]) (simp add: ConcurrentQueue_push_def flip: append_assoc)
  next
    case (PeerRound k script)
    then have "peer_round data k script (fst (peer_run data evs), snd (peer_run data evs)) =
        (fst (peer_run data (evs @ [ev])), snd (peer_run data (evs @ [ev])))" using step by simp
    from peer_round_inv [OF this log] PeerRound show ?thesis by simp
  qed
qed

text \<open>
  C18. Two peers with any number of connections that share the queue of the sender. For every interleaving of queueing and of rounds of
  \<open>processEndpointSend\<close> on the sockets, over whatever partial writes, the messages taken from the queue are the first ones
  that were queued, in their order, and each went to exactly one connection. At every moment the bytes on the wire of a
  connection are a prefix of its messages, and all of them once its send state is idle. A receiver that has then read everything
  from such a connection, over whatever fragmentation, has handled exactly the messages of that connection, in their
  order, and is between two messages. There is an order per connection only: messages that went to
  different connections may be handled in any order. The messages are of the form the callers give
  them, with files that hold what the headers announce; the receiver of one connection is taken on its own.
\<close>

theorem peers_exchange:
  shows "\<exists>log. map snd log @ fst (peer_run data evs) = peer_enqueued evs \<and>
    (\<forall>k. let works = map snd (filter (\<lambda>e. fst e = k) log); s = snd (peer_run data evs) k; bytes = concat (map (work_bytes data) works)
      in prefix (sd_wire s) bytes \<and>
        (ss_state (sd_ctx s) = PROC_IDLE \<longrightarrow> sd_wire s = bytes \<and>
          (\<forall>w w1 calls fuel. list_all work_ok works \<and> list_all (full_work data) works \<and> handle_all get sock data works w = Some w1 \<and>
             concat (concat calls) = sd_wire s \<and> length (sd_wire s) + 1 < fuel \<longrightarrow>
             (\<exists>c r. recv_calls get se sock fuel (map (map Arrived) calls @ replicate (length (sd_wire s)) [])
                (TcpRcvState_new, [], w) = Some (c, r, w1) \<and> arrived r = Some [] \<and> fresh c))))"
proof -
  obtain log where log: "map snd log @ fst (peer_run data evs) = peer_enqueued evs"
    "\<And>k. socket_inv data (messages_of k log) (snd (peer_run data evs) k)" using peer_run_inv by blast
  have recv: "\<exists>c r. recv_calls get se sock fuel (map (map Arrived) calls @ replicate (length wire) []) (TcpRcvState_new, [], w) =
      Some (c, r, w1) \<and> arrived r = Some [] \<and> fresh c"
    if "list_all work_ok works" "list_all (full_work data) works" "handle_all get sock data works w = Some w1"
      "concat (concat calls) = wire" "length wire + 1 < fuel" "wire = concat (map (work_bytes data) works)" for works wire calls fuel w w1
  proof -
    note run = rx_run_works [OF that(1,2) fresh_new that(3), folded that(6)]
    obtain c where c: "rx_run get sock wire (TcpRcvState_new, w) = Some (c, w1)" "fresh c" using run by blast
    from recv_calls_drain [OF c(1) that(4,5) fresh_ok [OF fresh_new], of se] show ?thesis
      using norm_rcv_fresh [OF _ c(2)] by blast
  qed
  have idle: "sd_wire s = concat (map (work_bytes data) works)" if "socket_inv data works s" "ss_state (sd_ctx s) = PROC_IDLE" for works s
    using that by (simp add: socket_inv_def pending_def)
  have pre: "prefix (sd_wire s) (concat (map (work_bytes data) works))" if "socket_inv data works s" for works s
    using that by (simp add: socket_inv_def)
  show ?thesis
    unfolding Let_def messages_of_def [symmetric]
  proof (rule exI [of _ log], intro conjI allI impI)
    fix k w w1 calls fuel
    assume i: "ss_state (sd_ctx (snd (peer_run data evs) k)) = PROC_IDLE"
      and h: "list_all work_ok (messages_of k log) \<and> list_all (full_work data) (messages_of k log) \<and>
        handle_all get sock data (messages_of k log) w = Some w1 \<and> concat (concat calls) = sd_wire (snd (peer_run data evs) k) \<and>
        length (sd_wire (snd (peer_run data evs) k)) + 1 < fuel"
    show "\<exists>c r. recv_calls get se sock fuel (map (map Arrived) calls @ replicate (length (sd_wire (snd (peer_run data evs) k))) [])
        (TcpRcvState_new, [], w) = Some (c, r, w1) \<and> arrived r = Some [] \<and> fresh c"
      using h idle [OF log(2) i] by (intro recv) blast+
  qed (use log(1) pre [OF log(2)] idle [OF log(2)] in blast)+
qed

definition two_replies :: "peer_event list" where
  "two_replies = [PeerEnqueue sample_reply, PeerEnqueue (sample_reply\<lparr>sw_reqId := 8\<rparr>), PeerRound 4 [Accepts 20], PeerRound 5 [Accepts 33, Accepts 2],
     PeerRound 4 [Accepts 30, Accepts 1], PeerRound 4 [Accepts 1]]"

text \<open>Two replies on two connections, interleaved; the receiver of the first connection gets the first reply.\<close>

theorem peers_exchange_witness:
  "\<exists>c r w1. recv_calls (\<lambda>_ _ _ _. Some) (\<lambda>_. []) 3 100 (map (map Arrived) [[take 5 sample_stream, drop 5 sample_stream]] @
      replicate (length (sd_wire (snd (peer_run (\<lambda>_ va. drop va [1, 2, 3, 4, 5]) two_replies) 4))) [])
      (TcpRcvState_new, [], sample_world) = Some (c, r, w1) \<and> tp_memory w1 100 = Some [4, 5, 0] \<and> tp_promises w1 1 = Some (Inr 2)"
proof -
  let ?data = "\<lambda>_ va. drop va [1, 2, 3, 4, 5 :: byte]" and ?get = "\<lambda>_ _ _ _. Some :: rx_world \<Rightarrow> rx_world option"
  let ?calls = "[[take 5 sample_stream, drop 5 sample_stream]]" and ?r8 = "sample_reply\<lparr>sw_reqId := 8\<rparr>"
  let ?w4 = "sd_wire (snd (peer_run ?data two_replies) 4)" and ?w5 = "sd_wire (snd (peer_run ?data two_replies) 5)"
  have s: "ss_state (sd_ctx (snd (peer_run ?data two_replies) 4)) = PROC_IDLE" "fst (peer_run ?data two_replies) = []"
      "?w4 = sample_stream" "peer_enqueued two_replies = [sample_reply, ?r8]"
      "work_bytes ?data sample_reply = sample_stream" "hd (work_bytes ?data ?r8) = 8" "length (work_bytes ?data ?r8) = 34"
    by code_simp+
  obtain log where log: "map snd log @ fst (peer_run ?data two_replies) = peer_enqueued two_replies"
    and ex: "\<And>k. let works = map snd (filter (\<lambda>e. fst e = k) log); s = snd (peer_run ?data two_replies) k; bytes = concat (map (work_bytes ?data) works)
      in prefix (sd_wire s) bytes \<and>
        (ss_state (sd_ctx s) = PROC_IDLE \<longrightarrow> sd_wire s = bytes \<and>
          (\<forall>w w1 calls fuel. list_all work_ok works \<and> list_all (full_work ?data) works \<and> handle_all ?get 3 ?data works w = Some w1 \<and>
             concat (concat calls) = sd_wire s \<and> length (sd_wire s) + 1 < fuel \<longrightarrow>
             (\<exists>c r. recv_calls ?get (\<lambda>_. []) 3 fuel (map (map Arrived) calls @ replicate (length (sd_wire s)) [])
                (TcpRcvState_new, [], w) = Some (c, r, w1) \<and> arrived r = Some [] \<and> fresh c)))"
    using peers_exchange [of ?data two_replies ?get 3 "\<lambda>_. []"] by (elim exE conjE) (rule that, assumption, erule spec)
  define works where "works = map snd (filter (\<lambda>e. fst e = 4) log)"
  note e4 = ex [of 4, folded works_def, unfolded Let_def]
  have wire: "sample_stream = concat (map (work_bytes ?data) works)" using e4 s(1,3) by simp
  obtain j1 j2 where l: "log = [(j1, sample_reply), (j2, ?r8)]" using log s(2,4) by (auto simp: Cons_eq_map_conv)
  have "works = [sample_reply]"
  proof -
    have "length sample_stream = 34" "hd sample_stream = 7" by (simp_all add: sample_stream_def)
    with wire l s(5-7) show ?thesis by (auto simp: works_def split: if_splits)
  qed
  moreover have "list_all work_ok [sample_reply]" by (simp add: work_ok_def sample_reply_def)
  moreover have "list_all (full_work ?data) [sample_reply]" by code_simp
  moreover have "map_option (\<lambda>w. (tp_memory w 100, tp_promises w 1)) (handle_all ?get 3 ?data [sample_reply] sample_world) =
      Some (Some [4, 5, 0], Some (Inr 2))" by code_simp
  then obtain w1 where w1: "handle_all ?get 3 ?data [sample_reply] sample_world = Some w1"
      "tp_memory w1 100 = Some [4, 5, 0]" "tp_promises w1 1 = Some (Inr 2)"
    by (auto simp: map_option_eq_Some)
  moreover have "concat (concat ?calls) = ?w4" "length ?w4 + 1 < 100" unfolding s(3) by (simp_all add: sample_stream_def)
  ultimately show ?thesis using e4 s(1) by blast
qed

section \<open>A connection that ends\<close>

lemma recv_data_closed:
  "rv_progress ctx < h_datalen (rcv_hdr ctx) \<Longrightarrow> recv_data se fuel rv ctx (PeerClosed e # r) w = None"
  by (induction fuel arbitrary: rv) (simp_all add: Let_def)

text \<open>
  A connection that the other side closes while the data of a reply are outstanding keeps the receiver in its loop: no
  amount of fuel suffices, because \<open>recv\<close> goes on returning zero, which is neither an error nor progress.
\<close>

theorem recv_closed_in_reply:
  assumes "rv_state ctx = PROC_DATA" "h_type (rcv_hdr ctx) = op_code GET_REPLY" "rv_progress ctx < h_datalen (rcv_hdr ctx)"
  shows "recv_loop get se sock fuel ctx [PeerClosed e] w = None"
  using assms by (cases fuel) (simp_all add: recv_round_def recv_switch_def recv_data_closed)

theorem recv_closed_in_reply_witness:
  "recv_loop (\<lambda>_ _ _ _. Some) (\<lambda>_. []) 3 1000 (TcpRcvState_new\<lparr>rv_state := PROC_DATA, rv_hdr := take 32 sample_stream, rv_progress := 1\<rparr>)
     [PeerClosed 0] sample_world = None"
proof -
  let ?c = "TcpRcvState_new\<lparr>rv_state := PROC_DATA, rv_hdr := take 32 sample_stream, rv_progress := 1\<rparr>"
  have "rv_state ?c = PROC_DATA" "h_type (rcv_hdr ?c) = op_code GET_REPLY" "rv_progress ?c < h_datalen (rcv_hdr ?c)" by code_simp+
  then show ?thesis by (rule recv_closed_in_reply)
qed

end
