(* ===== verification/Peer_Transport.thy ===== *)
theory Peer_Transport
  imports Peer_Messages
begin

text \<open>
  The objects of \<^verbatim>\<open>src/libgeds/TcpTransport.{h,cpp}\<close> around the two state machines: the peer with its queues and its
  endpoints, remote procedure calls in both directions, the transport that connects and forgets peers, and what its
  threads do with an event. System calls have their outcomes as arguments.
\<close>

unbundle bit_operations_syntax

section \<open>Endpoints and peers\<close>

abbreviation ALL_OPEN :: "32 word" where "ALL_OPEN \<equiv> 0"
abbreviation TX_CLOSED :: "32 word" where "TX_CLOSED \<equiv> 1"
abbreviation RX_CLOSED :: "32 word" where "RX_CLOSED \<equiv> 2"
abbreviation ALL_CLOSED :: "32 word" where "ALL_CLOSED \<equiv> 3"

text \<open>The counters of an endpoint are part of its two states. \<open>ep_wire\<close> records what was written to the socket.\<close>

record TcpEndpoint =
  ep_sock :: int
  ep_state :: "32 word"
  ep_recv :: TcpRcvState
  ep_send :: TcpSendState
  ep_wire :: "byte list"

definition TcpEndpoint_new :: "int \<Rightarrow> TcpEndpoint" where
  "TcpEndpoint_new sock =
     \<lparr>ep_sock = sock, ep_state = ALL_OPEN, ep_recv = TcpRcvState_new, ep_send = TcpSendState_new, ep_wire = []\<rparr>"

text \<open>A \<open>char\<close> is signed.\<close>

definition char_value :: "char \<Rightarrow> int" where
  "char_value c = (let n = of_char c in if n < 128 then n else n - 256)"

definition SStringHash :: "string \<Rightarrow> 32 word" where
  "SStringHash name = fold (\<lambda>i hash. word_of_int (char_value i) + push_bit 6 hash + push_bit 16 hash - hash) name 0"

text \<open>
  \<open>pr_buffers\<close> are the free buffers of the transport and \<open>pr_heap\<close> is the next address of the allocator; \<open>pr_net\<close> is what the sockets
  will accept in the next calls.
\<close>

record TcpPeer = rx_world +
  pr_Id :: "32 word"
  pr_hostname :: string
  pr_rpcReqId :: nat
  pr_sendQueue :: "SocketSendWork list"
  pr_endpoints :: "(int, TcpEndpoint) std_map"
  pr_buffers :: "nat list"
  pr_heap :: nat
  pr_net :: "write_event list list"

definition TcpPeer_new :: "string \<Rightarrow> TcpPeer" where
  "TcpPeer_new name =
     \<lparr>tp_recvQueue = [], tp_memory = Map.empty, tp_promises = Map.empty, pr_Id = SStringHash name, pr_hostname = name, pr_rpcReqId = 0,
      pr_sendQueue = [], pr_endpoints = [], pr_buffers = [], pr_heap = 0, pr_net = []\<rparr>"

definition addEndpoint :: "TcpEndpoint \<Rightarrow> TcpPeer \<Rightarrow> TcpPeer" where
  "addEndpoint tep p =
     (if map_of (pr_endpoints p) (ep_sock tep) = None
      then p\<lparr>pr_endpoints := map_assign (ep_sock tep) tep (pr_endpoints p)\<rparr> else p)"

definition delEndpoint :: "TcpEndpoint \<Rightarrow> TcpPeer \<Rightarrow> TcpPeer" where
  "delEndpoint tep p = p\<lparr>pr_endpoints := map_erase (ep_sock tep) (pr_endpoints p)\<rparr>"

text \<open>The sockets that are closed are part of the result.\<close>

definition SocketStateChange :: "int \<Rightarrow> 32 word \<Rightarrow> TcpPeer \<Rightarrow> bool \<times> int list \<times> TcpPeer" where
  "SocketStateChange sock change p =
     (case map_of (pr_endpoints p) sock of
        None \<Rightarrow> (False, [sock], p)
      | Some tep \<Rightarrow>
          (case (if change \<noteq> 0 \<and> ep_state tep AND change = 0
                 then let state = ep_state tep OR change in
                   if state AND ALL_CLOSED = ALL_CLOSED
                   then (True, [sock], p\<lparr>pr_endpoints := map_erase sock (pr_endpoints p)\<rparr>)
                   else (False, [], p\<lparr>pr_endpoints := map_assign sock (tep\<lparr>ep_state := state\<rparr>) (pr_endpoints p)\<rparr>)
                 else (False, [], p)) of
             (dead, closed, p1) \<Rightarrow> (if pr_endpoints p1 \<noteq> [] then False else dead, closed, p1)))"

definition cleanup :: "TcpPeer \<Rightarrow> TcpPeer" where
  "cleanup p =
     (let p1 = p\<lparr>pr_endpoints := []\<rparr>;
          p2 = fold (\<lambda>(reqId, work). set_value (Some (rw_p work)) (Inl (UnavailableError ''TcpPeer closed''))) (tp_recvQueue p1) p1
      in p2\<lparr>tp_recvQueue := [], pr_sendQueue := []\<rparr>)"

definition updateIoStats :: "TcpPeer \<Rightarrow> TcpPeer" where
  "updateIoStats p = p\<lparr>pr_endpoints := map (map_prod id (\<lambda>tep.
     tep\<lparr>ep_send := (ep_send tep)\<lparr>ss_tx_bytes := ss_tx_bytes (ep_send tep) div 2\<rparr>,
         ep_recv := (ep_recv tep)\<lparr>rv_rx_bytes := rv_rx_bytes (ep_recv tep) div 2\<rparr>\<rparr>)) (pr_endpoints p)\<rparr>"

section \<open>Sending\<close>

text \<open>The loop over the endpoints: the candidate, the bytes it has sent, and the endpoint looked at last.\<close>

fun least_used :: "size_t \<Rightarrow> TcpEndpoint list \<Rightarrow> TcpEndpoint option \<Rightarrow> nat \<Rightarrow> TcpEndpoint option \<Rightarrow> TcpEndpoint option" where
  "least_used to_send [] send_tep min_sent tep = (if send_tep \<noteq> None then send_tep else tep)"
| "least_used to_send (e # eps) send_tep min_sent tep =
     (if ep_state e \<noteq> ALL_OPEN then least_used to_send eps send_tep min_sent None
      else if ss_state (ep_send e) = PROC_IDLE then Some e
      else if wrap64 (ss_tx_bytes (ep_send e) + to_send) < min_sent
      then least_used to_send eps (Some e) (ss_tx_bytes (ep_send e)) (Some e)
      else least_used to_send eps send_tep min_sent (Some e))"

definition getLeastUsedTx :: "size_t \<Rightarrow> TcpPeer \<Rightarrow> TcpEndpoint option" where
  "getLeastUsedTx to_send p = least_used to_send (map snd (pr_endpoints p)) None (2 ^ 32 - 1) None"

text \<open>The bytes behind a descriptor, or in the memory of the process.\<close>

definition send_data :: "(int \<Rightarrow> byte list) \<Rightarrow> TcpPeer \<Rightarrow> int \<Rightarrow> nat \<Rightarrow> byte list" where
  "send_data files p fd va =
     (if fd > 0 then drop va (files fd) else case tp_memory p va of None \<Rightarrow> [] | Some block \<Rightarrow> block)"

definition peer_send :: "(int \<Rightarrow> byte list) \<Rightarrow> TcpEndpoint \<Rightarrow> TcpPeer \<Rightarrow> bool \<times> TcpPeer" where
  "peer_send files tep p =
     (let script = (case pr_net p of [] \<Rightarrow> [] | s # _ \<Rightarrow> s) in
      case processEndpointSend (send_data files p)
          \<lparr>sd_queue = pr_sendQueue p, sd_ctx = ep_send tep, sd_script = script, sd_wire = ep_wire tep, sd_released = []\<rparr> of
        (ok, s) \<Rightarrow>
          (ok, p\<lparr>pr_net := tl (pr_net p), pr_sendQueue := sd_queue s, pr_buffers := rev (sd_released s) @ pr_buffers p,
             pr_endpoints := map_assign (ep_sock tep) (tep\<lparr>ep_send := sd_ctx s, ep_wire := sd_wire s\<rparr>) (pr_endpoints p)\<rparr>))"

definition SocketTxReady :: "(int \<Rightarrow> byte list) \<Rightarrow> int \<Rightarrow> TcpPeer \<Rightarrow> bool \<times> TcpPeer" where
  "SocketTxReady files sock p =
     (case map_of (pr_endpoints p) sock of None \<Rightarrow> (False, p) | Some tep \<Rightarrow> peer_send files tep p)"

definition send_work :: "(int \<Rightarrow> byte list) \<Rightarrow> SocketSendWork \<Rightarrow> TcpPeer \<Rightarrow> bool \<times> TcpPeer" where
  "send_work files work p =
     (let p1 = p\<lparr>pr_sendQueue := pr_sendQueue p @ [work]\<rparr> in
      case getLeastUsedTx (sw_len work) p1 of None \<Rightarrow> (False, p1) | Some tep \<Rightarrow> peer_send files tep p1)"

definition reply_work :: "nat \<Rightarrow> int \<Rightarrow> nat \<Rightarrow> size_t \<Rightarrow> nat \<Rightarrow> SocketSendWork" where
  "reply_work reqId in_fd start len status =
     \<lparr>sw_objName = [], sw_reqId = reqId, sw_va = start, sw_in_fd = in_fd, sw_off = 0, sw_len = len, sw_type = GET_REPLY, sw_error = status\<rparr>"

text \<open>\<open>errno\<close> is the error number that the last system call has left.\<close>

definition sendRpcReply ::
  "(int \<Rightarrow> byte list) \<Rightarrow> nat \<Rightarrow> nat \<Rightarrow> int \<Rightarrow> nat \<Rightarrow> size_t \<Rightarrow> nat \<Rightarrow> TcpPeer \<Rightarrow> int \<times> TcpPeer" where
  "sendRpcReply files errno reqId in_fd start len status p =
     (case send_work files (reply_work reqId in_fd start len status) p of
        (ok, p1) \<Rightarrow> (if ok then 0 else if errno \<noteq> 0 then - int errno else - int ERRNO_IO, p1))"

definition request_work :: "nat \<Rightarrow> byte list \<Rightarrow> size_t \<Rightarrow> size_t \<Rightarrow> SocketSendWork" where
  "request_work reqId name off len =
     \<lparr>sw_objName = name, sw_reqId = reqId, sw_va = 0, sw_in_fd = - 1, sw_off = off, sw_len = len, sw_type = GET_REQ, sw_error = 0\<rparr>"

text \<open>A request is registered before it is sent. Its promise is named by its number.\<close>

definition register_request :: "nat \<Rightarrow> size_t \<Rightarrow> TcpPeer \<Rightarrow> nat \<times> TcpPeer" where
  "register_request dest len p =
     (let reqId = wrap64 (pr_rpcReqId p + 1);
          work = \<lparr>rw_reqId = reqId, rw_va = dest, rw_len = len, rw_p = reqId\<rparr>
      in (reqId, p\<lparr>pr_rpcReqId := reqId, tp_recvQueue := ConcurrentMap_insertOrReplace reqId work (tp_recvQueue p)\<rparr>))"

definition withdraw_request :: "nat \<Rightarrow> TcpPeer \<Rightarrow> TcpPeer" where
  "withdraw_request reqId p =
     (case ConcurrentMap_remove reqId (tp_recvQueue p) of
        (True, q) \<Rightarrow> set_value (Some reqId) (Inl (AbortedError ''Unable to proceed: '')) (p\<lparr>tp_recvQueue := q\<rparr>)
      | (False, q) \<Rightarrow> p)"

definition sendRpcRequest :: "(int \<Rightarrow> byte list) \<Rightarrow> nat \<Rightarrow> byte list \<Rightarrow> size_t \<Rightarrow> size_t \<Rightarrow> TcpPeer \<Rightarrow> nat \<times> TcpPeer" where
  "sendRpcRequest files dest name off len p =
     (case register_request dest len p of
        (reqId, p1) \<Rightarrow>
          (case send_work files (request_work reqId name off len) p1 of
             (ok, p2) \<Rightarrow> (reqId, if ok then p2 else withdraw_request reqId p2)))"

section \<open>Serving\<close>

definition MIN_SENDFILE_SIZE :: size_t where
  "MIN_SENDFILE_SIZE = 4096"

definition getBuffer :: "TcpPeer \<Rightarrow> nat \<times> TcpPeer" where
  "getBuffer p =
     (case pr_buffers p of
        b # bs \<Rightarrow> (b, p\<lparr>pr_buffers := bs\<rparr>)
      | [] \<Rightarrow> (pr_heap p, p\<lparr>pr_heap := pr_heap p + MIN_SENDFILE_SIZE\<rparr>))"

text \<open>What the handler sees of an open file: its size, its descriptor, and what a read stores in the buffer.\<close>

record served_file =
  sf_size :: size_t
  sf_rawFd :: "int StatusOr"
  sf_read :: "nat \<Rightarrow> nat \<Rightarrow> byte list StatusOr"

text \<open>
  The arguments of the one call of \<open>sendRpcReply\<close> with which every branch of the handler ends: descriptor, start, length and
  status. \<^const>\<open>None\<close> is an outcome that C++ leaves undefined: the value of a failed read is used before its status
  is tested, and a read of more bytes than the buffer has.
\<close>

definition get_reply ::
  "(byte list \<Rightarrow> byte list \<Rightarrow> served_file StatusOr) \<Rightarrow> byte list \<Rightarrow> size_t \<Rightarrow> size_t \<Rightarrow> TcpPeer \<Rightarrow>
     ((int \<times> nat \<times> size_t \<times> nat) \<times> TcpPeer) option" where
  "get_reply localOpen objName len off p =
     (if 47 \<notin> set objName then Some ((- 1, 0, 0, ERRNO_INVAL), p)
      else
        let bucket = takeWhile (\<lambda>b. b \<noteq> 47) objName; key = drop (length bucket + 1) objName in
        case localOpen bucket key of
          Inl _ \<Rightarrow> Some ((- 1, 0, 0, ERRNO_INVAL), p)
        | Inr file \<Rightarrow>
            if off > sf_size file then Some ((- 1, 0, 0, ERRNO_INVAL), p)
            else
              let filesize = sf_size file - off; n = (if len = 0 then filesize else min filesize len) in
              if n = 0 then Some ((- 1, 0, 0, 0), p)
              else case (if n \<ge> MIN_SENDFILE_SIZE then sf_rawFd file else Inl (UnavailableError [])) of
                  Inr in_fd \<Rightarrow> Some ((in_fd, off, n, 0), p)
                | Inl _ \<Rightarrow>
                    (case getBuffer p of
                       (buffer, p1) \<Rightarrow>
                         (case sf_read file off n of
                            Inl _ \<Rightarrow> None
                          | Inr bs \<Rightarrow>
                              if length bs \<le> MIN_SENDFILE_SIZE
                              then Some ((- 1, buffer, length bs, 0), p1\<lparr>tp_memory := (tp_memory p1)(buffer \<mapsto> bs)\<rparr>) else None)))"

definition TcpProcessRpcGet where
  "TcpProcessRpcGet files localOpen reqId objName len off p =
     map_option (\<lambda>((in_fd, start, n, status), p1). snd (sendRpcReply files 0 reqId in_fd start n status p1))
       (get_reply localOpen objName len off p)"

text \<open>The receiver of an endpoint, with the bytes that its socket delivers.\<close>

definition processEndpointRecv where
  "processEndpointRecv files localOpen se fuel sock script p =
     (case map_of (pr_endpoints p) sock of
        None \<Rightarrow> Some (Some False, script, p)
      | Some tep \<Rightarrow>
          map_option (\<lambda>(result, ctx, r, p1).
              (result, r, case map_of (pr_endpoints p1) sock of
                 None \<Rightarrow> p1
               | Some tep1 \<Rightarrow> p1\<lparr>pr_endpoints := map_assign sock (tep1\<lparr>ep_recv := ctx\<rparr>) (pr_endpoints p1)\<rparr>))
            (recv_loop (TcpProcessRpcGet files localOpen) se sock fuel (ep_recv tep) script p))"

section \<open>The transport\<close>

text \<open>The interest lists of the \<open>epoll\<close> descriptors hold thread, socket and the number of the peer.\<close>

record TcpTransport =
  tr_peers :: "(32 word, TcpPeer) std_map"
  tr_num_proc :: nat
  tr_isServing :: bool
  tr_rfd :: "(nat \<times> int \<times> 32 word) list"
  tr_wfd :: "(nat \<times> int \<times> 32 word) list"
  tr_closed :: "int list"

definition TcpTransport_new :: TcpTransport where
  "TcpTransport_new = \<lparr>tr_peers = [], tr_num_proc = 0, tr_isServing = False, tr_rfd = [], tr_wfd = [], tr_closed = []\<rparr>"

definition MAX_IO_THREADS :: nat where
  "MAX_IO_THREADS = 8"

definition TcpTransport_start :: "bool \<Rightarrow> nat \<Rightarrow> TcpTransport \<Rightarrow> TcpTransport" where
  "TcpTransport_start hyperthreading hardware_concurrency t =
     (if tr_isServing t then t
      else let n = (if hyperthreading then hardware_concurrency div 2 else hardware_concurrency)
           in t\<lparr>tr_num_proc := min n MAX_IO_THREADS, tr_isServing := True\<rparr>)"

text \<open>The peers are cleaned up before the transport forgets them; the second component is what their owners see.\<close>

definition TcpTransport_stop :: "TcpTransport \<Rightarrow> TcpTransport \<times> TcpPeer list" where
  "TcpTransport_stop t = (t\<lparr>tr_isServing := False, tr_peers := []\<rparr>, map (\<lambda>(_, p). cleanup p) (tr_peers t))"

definition update_peer :: "32 word \<Rightarrow> (TcpPeer \<Rightarrow> TcpPeer) \<Rightarrow> TcpTransport \<Rightarrow> TcpTransport" where
  "update_peer epId f t =
     (case map_of (tr_peers t) epId of None \<Rightarrow> t | Some p \<Rightarrow> t\<lparr>tr_peers := map_assign epId (f p) (tr_peers t)\<rparr>)"

text \<open>The outcomes of \<open>setsockopt\<close> and of the two registrations.\<close>

type_synonym activation = "bool \<times> bool \<times> bool"

definition activateEndpoint :: "activation \<Rightarrow> int \<Rightarrow> TcpPeer \<Rightarrow> TcpTransport \<Rightarrow> bool \<times> TcpTransport" where
  "activateEndpoint = (\<lambda>(nodelay, rx, tx) sock peer t.
     let thread_id = length (pr_endpoints peer) mod tr_num_proc t; entry = (thread_id, sock, pr_Id peer) in
     if \<not> nodelay then (False, t)
     else if \<not> rx then (False, t)
     else if \<not> tx then (False, t)
     else (True, t\<lparr>tr_rfd := tr_rfd t @ [entry], tr_wfd := tr_wfd t @ [entry]\<rparr>))"

definition deactivate :: "nat \<Rightarrow> int \<Rightarrow> (nat \<times> int \<times> 32 word) list \<Rightarrow> (nat \<times> int \<times> 32 word) list" where
  "deactivate thread sock = filter (\<lambda>(th, s, _). (th, s) \<noteq> (thread, sock))"

text \<open>The peer of an address: known, or new.\<close>

definition find_peer :: "string \<Rightarrow> TcpTransport \<Rightarrow> TcpTransport" where
  "find_peer hostname t =
     (let epId = SStringHash hostname in
      if map_of (tr_peers t) epId = None then t\<lparr>tr_peers := map_assign epId (TcpPeer_new hostname) (tr_peers t)\<rparr> else t)"

text \<open>One more endpoint for the peer \<open>epId\<close>; it is taken back if it cannot be activated.\<close>

definition add_connection :: "32 word \<Rightarrow> int \<Rightarrow> activation \<Rightarrow> TcpTransport \<Rightarrow> bool \<times> TcpTransport" where
  "add_connection epId sock act t =
     (let tep = TcpEndpoint_new sock; t1 = update_peer epId (addEndpoint tep) t in
      case map_of (tr_peers t1) epId of
        None \<Rightarrow> (False, t1)
      | Some peer \<Rightarrow>
          (case activateEndpoint act sock peer t1 of
             (True, t2) \<Rightarrow> (True, t2)
           | (False, t2) \<Rightarrow> (False, update_peer epId (delEndpoint tep) t2)))"

definition num_endpoints :: "32 word \<Rightarrow> TcpTransport \<Rightarrow> nat" where
  "num_endpoints epId t = (case map_of (tr_peers t) epId of None \<Rightarrow> 0 | Some p \<Rightarrow> length (pr_endpoints p))"

text \<open>A connection that came in: the outcomes of \<open>fcntl\<close>, \<open>setsockopt\<close> and \<open>getpeername\<close>, the last with the address of the peer.\<close>

definition accept_check :: "bool \<Rightarrow> bool \<Rightarrow> string option \<Rightarrow> TcpTransport \<Rightarrow> 32 word option \<times> TcpTransport" where
  "accept_check nonblocking linger peername t =
     (if \<not> nonblocking \<or> \<not> linger then (None, t)
      else case peername of
          None \<Rightarrow> (None, t)
        | Some hostname \<Rightarrow>
            let epId = SStringHash hostname; t1 = find_peer hostname t in
            (if num_endpoints epId t1 < tr_num_proc t1 then Some epId else None, t1))"

text \<open>
  The call as a whole, for a caller that has the transport to itself. \<open>getWriteLock()\<close> is a temporary here and releases the
  lock at once, so that the check of one call and the endpoint that it adds can enclose the check of another: see
  \<open>overlapping_accepts\<close> below.
\<close>

definition addEndpointPassive :: "bool \<Rightarrow> bool \<Rightarrow> string option \<Rightarrow> activation \<Rightarrow> int \<Rightarrow> TcpTransport \<Rightarrow> bool \<times> TcpTransport" where
  "addEndpointPassive nonblocking linger peername act sock t =
     (case accept_check nonblocking linger peername t of
        (None, t1) \<Rightarrow> (False, t1)
      | (Some epId, t1) \<Rightarrow> add_connection epId sock act t1)"

text \<open>How an attempt to connect ends.\<close>

datatype connection_attempt = NoSocket | Refused int | NotNonblocking int | NoLinger int | Connected int activation

fun connect_peer :: "32 word \<Rightarrow> nat \<Rightarrow> connection_attempt list \<Rightarrow> TcpTransport \<Rightarrow> nat \<times> TcpTransport" where
  "connect_peer epId num_ep [] t = (num_ep, t)"
| "connect_peer epId num_ep (a # as) t =
     (if \<not> num_ep < tr_num_proc t then (num_ep, t)
      else case a of
          NoSocket \<Rightarrow> (num_ep, t)
        | Refused sock \<Rightarrow> (num_ep, t\<lparr>tr_closed := tr_closed t @ [sock]\<rparr>)
        | NotNonblocking sock \<Rightarrow> (num_ep, t\<lparr>tr_closed := tr_closed t @ [sock]\<rparr>)
        | NoLinger sock \<Rightarrow> (num_ep, t\<lparr>tr_closed := tr_closed t @ [sock]\<rparr>)
        | Connected sock act \<Rightarrow>
            (case add_connection epId sock act t of
               (True, t1) \<Rightarrow> connect_peer epId (num_ep + 1) as t1
             | (False, t1) \<Rightarrow> (num_ep, t1\<lparr>tr_closed := tr_closed t1 @ [sock]\<rparr>)))"

text \<open>The address family and the host of the address; the result is the number of the peer.\<close>

definition getPeer :: "bool \<Rightarrow> string \<Rightarrow> connection_attempt list \<Rightarrow> TcpTransport \<Rightarrow> 32 word option \<times> TcpTransport" where
  "getPeer inet hostname attempts t =
     (if \<not> inet then (None, t)
      else
        let epId = SStringHash hostname; t1 = find_peer hostname t in
        case connect_peer epId (num_endpoints epId t1) attempts t1 of
          (num_ep, t2) \<Rightarrow>
            if num_ep \<noteq> 0 then (Some epId, t2)
            else (None, t2\<lparr>tr_peers := map_erase epId (tr_peers t2)\<rparr>))"

section \<open>Events\<close>

text \<open>
  The bodies of the loops of the threads, for one event of \<open>epoll\<close> with its flags. A peer that a change of state
  leaves dead is removed.
\<close>

definition change_state :: "32 word \<Rightarrow> int \<Rightarrow> 32 word \<Rightarrow> TcpTransport \<Rightarrow> TcpTransport" where
  "change_state epId sock change t =
     (case map_of (tr_peers t) epId of
        None \<Rightarrow> t
      | Some p \<Rightarrow>
          (case SocketStateChange sock change p of
             (dead, closed, p1) \<Rightarrow>
               let t1 = t\<lparr>tr_peers := map_assign epId p1 (tr_peers t), tr_closed := tr_closed t @ closed\<rparr>
               in if dead then t1\<lparr>tr_peers := map_erase (pr_Id p1) (tr_peers t1)\<rparr> else t1))"

definition tx_event :: "(int \<Rightarrow> byte list) \<Rightarrow> nat \<Rightarrow> int \<Rightarrow> 32 word \<Rightarrow> bool \<Rightarrow> bool \<Rightarrow> TcpTransport \<Rightarrow> TcpTransport" where
  "tx_event files thread sock epId hangup out t =
     (let off = t\<lparr>tr_wfd := deactivate thread sock (tr_wfd t)\<rparr> in
      if sock < 0 then t
      else case map_of (tr_peers t) epId of
          None \<Rightarrow> off
        | Some p \<Rightarrow>
            if hangup then change_state epId sock TX_CLOSED off
            else if \<not> out then t
            else (case SocketTxReady files sock p of
                (ok, p1) \<Rightarrow>
                  if ok then update_peer epId (\<lambda>_. p1) t
                  else change_state epId sock TX_CLOSED (update_peer epId (\<lambda>_. p1) off)))"

text \<open>The receiving side has what its socket delivers as an argument; not returning and an undefined outcome are \<^const>\<open>None\<close>.\<close>

definition rx_event where
  "rx_event files localOpen se fuel script thread sock epId hangup readable t =
     (let off = t\<lparr>tr_rfd := deactivate thread sock (tr_rfd t)\<rparr> in
      if sock < 0 then Some t
      else case map_of (tr_peers t) epId of
          None \<Rightarrow> Some off
        | Some p \<Rightarrow>
            if hangup then Some (change_state epId sock RX_CLOSED off)
            else if \<not> readable then Some t
            else (case processEndpointRecv files localOpen se fuel sock script p of
                Some (Some True, r, p1) \<Rightarrow> Some (update_peer epId (\<lambda>_. p1) t)
              | Some (Some False, r, p1) \<Rightarrow> Some (change_state epId sock RX_CLOSED (update_peer epId (\<lambda>_. p1) off))
              | _ \<Rightarrow> None))"

section \<open>What receiving keeps\<close>

text \<open>
  A property of a peer that the outcome of requests and the serving of requests keep holds after a call of the receiver,
  however it ends.
\<close>

locale rx_invariant =
  fixes P :: "'a rx_world_scheme \<Rightarrow> bool"
    and get :: "nat \<Rightarrow> byte list \<Rightarrow> nat \<Rightarrow> nat \<Rightarrow> 'a rx_world_scheme \<Rightarrow> 'a rx_world_scheme option"
  assumes keeps_promises: "P w \<Longrightarrow> P (w\<lparr>tp_promises := ps\<rparr>)"
    and keeps_memory: "P w \<Longrightarrow> P (w\<lparr>tp_memory := m\<rparr>)"
    and keeps_queue: "P w \<Longrightarrow> P (w\<lparr>tp_recvQueue := q\<rparr>)"
    and keeps_get: "P w \<Longrightarrow> get reqId name len off w = Some w1 \<Longrightarrow> P w1"
begin

lemma set_value_keeps: "P w \<Longrightarrow> P (set_value p v w)"
  by (auto simp: set_value_def keeps_promises split: option.splits)

lemma store_keeps: "P w \<Longrightarrow> store va pos bs w = Some w1 \<Longrightarrow> P w1"
  by (auto simp: store_def keeps_memory split: option.splits if_splits)

lemma start_reply_keeps: "P w \<Longrightarrow> start_reply sock ctx w = (e, c, w1) \<Longrightarrow> P w1"
  by (auto simp: start_reply_def Let_def keeps_queue set_value_keeps split: prod.splits option.splits if_splits)

lemma recv_data_keeps: "P w \<Longrightarrow> recv_data se fuel rv ctx script w = Some (e, c, r, w1) \<Longrightarrow> P w1"
proof (induction fuel arbitrary: rv ctx script w)
  case (Suc fuel)
  show ?case
  proof (cases "rv_progress ctx < h_datalen (rcv_hdr ctx)")
    case True
    with Suc show ?thesis
      by (auto simp: Let_def set_value_keeps split: prod.splits read_result.splits option.splits if_splits dest: store_keeps)
  next
    case False
    with Suc.prems show ?thesis by (auto simp: complete_reply_def Let_def set_value_keeps)
  qed
qed simp

lemma recv_switch_keeps: "P w \<Longrightarrow> recv_switch get se sock fuel b ctx script w = Some (e, c, r, w1) \<Longrightarrow> P w1"
  by (auto simp: recv_switch_def Let_def split: if_splits option.splits prod.splits
      dest: keeps_get recv_data_keeps [rotated] start_reply_keeps [rotated])

lemma recv_round_keeps: "P w \<Longrightarrow> recv_round get se sock fuel ctx script w = Some (e, c, r, w1) \<Longrightarrow> P w1"
  by (auto simp: recv_round_def Let_def split: if_splits option.splits prod.splits dest: recv_switch_keeps)

lemma recv_loop_keeps: "P w \<Longrightarrow> recv_loop get se sock fuel ctx script w = Some (b, c, r, w1) \<Longrightarrow> P w1"
proof (induction fuel arbitrary: ctx script w)
  case (Suc fuel)
  then obtain e c1 r1 w2 where round: "recv_round get se sock fuel ctx script w = Some (e, c1, r1, w2)"
    by (auto split: option.splits prod.splits)
  with Suc show ?case
    using recv_round_keeps [OF Suc.prems(1) round]
    by (cases e) (auto simp: set_value_keeps split: if_splits)
qed simp

end

text \<open>The endpoints that a peer has stay the same while messages come and go.\<close>

definition peer_ok :: "TcpPeer \<Rightarrow> bool" where
  "peer_ok p \<longleftrightarrow> map_sorted (pr_endpoints p) \<and> (\<forall>(sock, tep) \<in> set (pr_endpoints p). ep_sock tep = sock)"

definition peer_is :: "32 word \<Rightarrow> int set \<Rightarrow> TcpPeer \<Rightarrow> bool" where
  "peer_is i socks p \<longleftrightarrow> peer_ok p \<and> pr_Id p = i \<and> dom (map_of (pr_endpoints p)) = socks"

lemma peer_ok_map_of: "peer_ok p \<longleftrightarrow> map_sorted (pr_endpoints p) \<and> (\<forall>sock tep. map_of (pr_endpoints p) sock = Some tep \<longrightarrow> ep_sock tep = sock)"
  by (auto simp: peer_ok_def map_of_in_sorted)

lemma peer_is_upd [simp]:
  "peer_is i socks (p\<lparr>tp_promises := ps\<rparr>) = peer_is i socks p" "peer_is i socks (p\<lparr>tp_memory := m\<rparr>) = peer_is i socks p"
  "peer_is i socks (p\<lparr>tp_recvQueue := q\<rparr>) = peer_is i socks p"
  by (simp_all add: peer_is_def peer_ok_def)

lemma least_used_found:
  "least_used n eps s k t = Some e \<Longrightarrow>
     (e \<in> set eps \<and> ep_state e = ALL_OPEN) \<or> s = Some e \<or> t = Some e"
  by (induction n eps s k t rule: least_used.induct) (auto split: if_splits)

lemma getLeastUsedTx_found:
  assumes "peer_ok p" "getLeastUsedTx n p = Some tep"
  shows "map_of (pr_endpoints p) (ep_sock tep) = Some tep" "ep_state tep = ALL_OPEN"
  using least_used_found [OF assms(2) [unfolded getLeastUsedTx_def]] assms(1)
  by (auto simp: peer_ok_def map_of_in_sorted)

lemma peer_send_is:
  assumes "peer_is i socks p" "map_of (pr_endpoints p) (ep_sock tep) = Some t"
  shows "peer_is i socks (snd (peer_send files tep p))"
  using assms by (auto simp: peer_send_def peer_is_def peer_ok_map_of Let_def split: prod.splits if_splits)

lemma send_work_is:
  assumes "peer_is i socks p"
  shows "peer_is i socks (snd (send_work files work p))"
proof -
  let ?p = "p\<lparr>pr_sendQueue := pr_sendQueue p @ [work]\<rparr>"
  have p: "peer_is i socks ?p" "peer_ok ?p" using assms by (simp_all add: peer_is_def peer_ok_def)
  show ?thesis
  proof (cases "getLeastUsedTx (sw_len work) ?p")
    case None
    then show ?thesis using p by (simp add: send_work_def)
  next
    case (Some tep)
    then show ?thesis using peer_send_is [OF p(1)] getLeastUsedTx_found(1) [OF p(2) Some] by (simp add: send_work_def Let_def)
  qed
qed

lemma TcpProcessRpcGet_is:
  assumes "peer_is i socks p" "TcpProcessRpcGet files localOpen reqId name len off p = Some p1"
  shows "peer_is i socks p1"
proof -
  obtain fd start n status p2 where g: "get_reply localOpen name len off p = Some ((fd, start, n, status), p2)"
      "p1 = snd (sendRpcReply files 0 reqId fd start n status p2)"
    using assms(2) by (auto simp: TcpProcessRpcGet_def)
  have "peer_is i socks p2"
    using g(1) assms(1)
    by (auto simp: get_reply_def getBuffer_def Let_def peer_is_def peer_ok_def split: if_splits sum.splits list.splits)
  then show ?thesis
    using send_work_is [of i socks p2] g(2) by (simp add: sendRpcReply_def split_beta)
qed

interpretation rxp: rx_invariant "peer_is i socks" "TcpProcessRpcGet files localOpen" for i socks files localOpen
  by unfold_locales (auto intro: TcpProcessRpcGet_is)

lemma processEndpointRecv_is:
  assumes "peer_is i socks p" "processEndpointRecv files localOpen se fuel sock script p = Some (b, r, p1)"
  shows "peer_is i socks p1"
proof (cases "map_of (pr_endpoints p) sock")
  case None
  with assms show ?thesis by (simp add: processEndpointRecv_def)
next
  case (Some tep)
  with assms(2) obtain c p2 where l: "recv_loop (TcpProcessRpcGet files localOpen) se sock fuel (ep_recv tep) script p = Some (b, c, r, p2)"
      "p1 = (case map_of (pr_endpoints p2) sock of None \<Rightarrow> p2
             | Some tep1 \<Rightarrow> p2\<lparr>pr_endpoints := map_assign sock (tep1\<lparr>ep_recv := c\<rparr>) (pr_endpoints p2)\<rparr>)"
    by (auto simp: processEndpointRecv_def)
  with rxp.recv_loop_keeps [OF assms(1) l(1)] show ?thesis
    by (auto simp: peer_is_def peer_ok_map_of split: option.splits if_splits)
qed

lemma sendRpcRequest_is: "peer_is i socks p \<Longrightarrow> peer_is i socks (snd (sendRpcRequest files dest name off len p))"
proof -
  assume p: "peer_is i socks p"
  obtain reqId p1 ok p2 where r: "register_request dest len p = (reqId, p1)" "send_work files (request_work reqId name off len) p1 = (ok, p2)"
    by (metis surj_pair)
  have "peer_is i socks p1" using r(1) p by (auto simp: register_request_def Let_def peer_is_def peer_ok_def)
  with send_work_is [of i socks p1 files "request_work reqId name off len"] r(2) have "peer_is i socks p2" by simp
  with r show ?thesis
    by (auto simp: sendRpcRequest_def withdraw_request_def set_value_def split: prod.splits bool.splits)
qed

section \<open>Histories of the transport\<close>

text \<open>
  Everything that the program and the threads of the transport can do, on a machine with the given processors, one call or event at
  a time. \<open>getPeer\<close> holds the lock of the transport to its end; that \<open>addEndpointPassive\<close> runs alone is an assumption on its
  callers.
\<close>

inductive transport_reach :: "bool \<Rightarrow> nat \<Rightarrow> TcpTransport \<Rightarrow> bool" for ht hw where
  made: "transport_reach ht hw TcpTransport_new"
| started: "transport_reach ht hw t \<Longrightarrow> transport_reach ht hw (TcpTransport_start ht hw t)"
| stopped: "transport_reach ht hw t \<Longrightarrow> transport_reach ht hw (fst (TcpTransport_stop t))"
| accepted: "transport_reach ht hw t \<Longrightarrow> transport_reach ht hw (snd (addEndpointPassive nb lg pn act sock t))"
| connected: "transport_reach ht hw t \<Longrightarrow> transport_reach ht hw (snd (getPeer inet hostname attempts t))"
| requested: "transport_reach ht hw t \<Longrightarrow>
    transport_reach ht hw (update_peer epId (\<lambda>p. snd (sendRpcRequest files dest name off len p)) t)"
| writable: "transport_reach ht hw t \<Longrightarrow> transport_reach ht hw (tx_event files thread sock epId hangup out t)"
| readable: "transport_reach ht hw t \<Longrightarrow>
    rx_event files localOpen se fuel script thread sock epId hangup rd t = Some t1 \<Longrightarrow> transport_reach ht hw t1"
| counted: "transport_reach ht hw t \<Longrightarrow> transport_reach ht hw (t\<lparr>tr_peers := map (map_prod id updateIoStats) (tr_peers t)\<rparr>)"

definition io_threads :: "bool \<Rightarrow> nat \<Rightarrow> nat" where
  "io_threads ht hw = min (if ht then hw div 2 else hw) MAX_IO_THREADS"

text \<open>A peer as the transport keeps it under its number, and the registrations.\<close>

definition kept :: "nat \<Rightarrow> 32 word \<Rightarrow> TcpPeer \<Rightarrow> bool" where
  "kept n i p \<longleftrightarrow> peer_ok p \<and> pr_Id p = i \<and> length (pr_endpoints p) \<le> n"

definition transport_ok :: "nat \<Rightarrow> TcpTransport \<Rightarrow> bool" where
  "transport_ok n t \<longleftrightarrow> (tr_num_proc t = 0 \<or> tr_num_proc t = n) \<and> map_sorted (tr_peers t) \<and>
     (\<forall>i p. map_of (tr_peers t) i = Some p \<longrightarrow> kept (tr_num_proc t) i p) \<and>
     (\<forall>(thread, _) \<in> set (tr_rfd t) \<union> set (tr_wfd t). thread < n)"

lemma length_std_map: "map_sorted m \<Longrightarrow> length m = card (dom (map_of m))"
  using distinct_card [OF map_sorted_distinct, of m] by (simp add: dom_map_of_conv_image_fst)

lemma kept_peer_is: "kept n i p \<longleftrightarrow> (\<exists>socks. peer_is i socks p \<and> card socks \<le> n)"
  by (auto simp: kept_def peer_is_def peer_ok_def length_std_map)

lemma transport_ok_assign:
  "transport_ok n t \<Longrightarrow> kept (tr_num_proc t) i p \<Longrightarrow> transport_ok n (t\<lparr>tr_peers := map_assign i p (tr_peers t)\<rparr>)"
  by (auto simp: transport_ok_def)

lemma transport_ok_erase: "transport_ok n t \<Longrightarrow> transport_ok n (t\<lparr>tr_peers := map_erase i (tr_peers t)\<rparr>)"
  by (auto simp: transport_ok_def)

lemma transport_ok_other [simp]: "transport_ok n (t\<lparr>tr_closed := cs\<rparr>) = transport_ok n t"
  by (simp add: transport_ok_def)

lemma transport_ok_deactivate:
  "transport_ok n t \<Longrightarrow> transport_ok n (t\<lparr>tr_rfd := deactivate th s (tr_rfd t)\<rparr>)"
  "transport_ok n t \<Longrightarrow> transport_ok n (t\<lparr>tr_wfd := deactivate th s (tr_wfd t)\<rparr>)"
  by (auto simp: transport_ok_def deactivate_def)

lemma transport_ok_update:
  assumes "transport_ok n t" "\<And>p. map_of (tr_peers t) i = Some p \<Longrightarrow> kept (tr_num_proc t) i p \<Longrightarrow> kept (tr_num_proc t) i (f p)"
  shows "transport_ok n (update_peer i f t)"
  using assms by (auto simp: update_peer_def transport_ok_assign transport_ok_def split: option.splits)

lemma update_peer_simps [simp]:
  "tr_num_proc (update_peer i f t) = tr_num_proc t" "tr_rfd (update_peer i f t) = tr_rfd t" "tr_wfd (update_peer i f t) = tr_wfd t"
  "tr_closed (update_peer i f t) = tr_closed t"
  by (simp_all add: update_peer_def split: option.splits)

lemma delEndpoint_kept: "kept n i p \<Longrightarrow> kept n i (delEndpoint tep p)"
proof -
  assume p: "kept n i p"
  then have "length (map_erase (ep_sock tep) (pr_endpoints p)) \<le> length (pr_endpoints p)"
    by (simp add: kept_def peer_ok_def map_erase_eq_filter)
  with p show ?thesis by (auto simp: kept_def peer_ok_map_of delEndpoint_def split: if_splits)
qed

lemma addEndpoint_kept: "kept n i p \<Longrightarrow> length (pr_endpoints p) < n \<Longrightarrow> kept n i (addEndpoint tep p)"
proof -
  assume p: "kept n i p" "length (pr_endpoints p) < n"
  then have "length (map_assign (ep_sock tep) tep (pr_endpoints p)) \<le> Suc (length (pr_endpoints p))"
    by (simp add: kept_def peer_ok_def length_std_map card_insert_if finite_dom_map_of)
  with p show ?thesis by (auto simp: kept_def peer_ok_map_of addEndpoint_def split: if_splits)
qed

lemma add_connection_ok:
  assumes "transport_ok n t" "num_endpoints i t < tr_num_proc t" "add_connection i sock act t = (b, t1)"
  shows "transport_ok n t1 \<and> tr_num_proc t1 = tr_num_proc t \<and> num_endpoints i t1 \<le> Suc (num_endpoints i t)"
proof (cases "map_of (tr_peers t) i")
  case None
  with assms show ?thesis by (simp add: add_connection_def update_peer_def)
next
  case (Some p)
  define q where "q = addEndpoint (TcpEndpoint_new sock) p"
  define t' where "t' = t\<lparr>tr_peers := map_assign i q (tr_peers t)\<rparr>"
  have sorted: "map_sorted (tr_peers t)" and p: "kept (tr_num_proc t) i p" using assms(1) Some by (auto simp: transport_ok_def)
  have less: "length (pr_endpoints p) < tr_num_proc t" using assms(2) Some by (simp add: num_endpoints_def)
  then have q: "kept (tr_num_proc t) i q" using p by (simp add: q_def addEndpoint_kept)
  have grow: "length (pr_endpoints q) \<le> Suc (length (pr_endpoints p))"
    using addEndpoint_kept [of "Suc (length (pr_endpoints p))" i p] p by (simp add: kept_def q_def)
  have t': "transport_ok n t'" "map_of (tr_peers t') i = Some q" "tr_num_proc t' = tr_num_proc t"
    using transport_ok_assign [OF assms(1) q] sorted by (simp_all add: t'_def)
  have upd: "update_peer i (addEndpoint (TcpEndpoint_new sock)) t = t'" using Some by (simp add: update_peer_def t'_def q_def)
  have thread: "length (pr_endpoints q) mod tr_num_proc t < n" using less assms(1) by (auto simp: transport_ok_def)
  obtain nd rx tx where act: "act = (nd, rx, tx)" by (cases act)
  show ?thesis
  proof (cases "nd \<and> rx \<and> tx")
    case True
    then have "t1 = t'\<lparr>tr_rfd := tr_rfd t' @ [(length (pr_endpoints q) mod tr_num_proc t, sock, pr_Id q)],
        tr_wfd := tr_wfd t' @ [(length (pr_endpoints q) mod tr_num_proc t, sock, pr_Id q)]\<rparr>"
      using assms(3) t' by (simp add: add_connection_def Let_def upd activateEndpoint_def act)
    with t' thread grow Some show ?thesis by (auto simp: transport_ok_def num_endpoints_def)
  next
    case False
    then have t1: "t1 = update_peer i (delEndpoint (TcpEndpoint_new sock)) t'"
      using assms(3) t' by (auto simp: add_connection_def Let_def upd activateEndpoint_def act split: if_splits)
    have "length (pr_endpoints (delEndpoint (TcpEndpoint_new sock) q)) \<le> length (pr_endpoints q)"
      using delEndpoint_kept [of "length (pr_endpoints q)" i q] q by (simp add: kept_def)
    then have "num_endpoints i t1 \<le> Suc (num_endpoints i t)"
      using t' grow Some sorted by (simp add: t1 num_endpoints_def update_peer_def t'_def)
    with t' show ?thesis unfolding t1 by (auto intro!: transport_ok_update delEndpoint_kept)
  qed
qed

lemma connect_peer_ok:
  "transport_ok n t \<Longrightarrow> num_endpoints i t \<le> k \<Longrightarrow> transport_ok n (snd (connect_peer i k as t))"
proof (induction i k as t rule: connect_peer.induct)
  case (2 i k a as t)
  show ?case
  proof (cases a)
    case (Connected sock act)
    obtain b t1 where c: "add_connection i sock act t = (b, t1)" by fastforce
    show ?thesis
    proof (cases "k < tr_num_proc t")
      case True
      with add_connection_ok [OF "2.prems"(1) _ c] "2.prems"(2)
      have ok: "transport_ok n t1" "num_endpoints i t1 \<le> k + 1" by simp_all
      show ?thesis using "2.IH" [OF _ Connected c [symmetric] _ ok] True Connected c ok by (cases b) simp_all
    qed (use "2.prems" in simp)
  qed (use "2.prems" in simp_all)
qed simp

lemma find_peer_ok: "transport_ok n t \<Longrightarrow> transport_ok n (find_peer hostname t)"
  by (auto simp: find_peer_def Let_def kept_def TcpPeer_new_def peer_ok_def intro: transport_ok_assign)

lemma addEndpointPassive_ok: "transport_ok n t \<Longrightarrow> transport_ok n (snd (addEndpointPassive nb lg pn act sock t))"
proof -
  assume t: "transport_ok n t"
  show ?thesis
  proof (cases pn)
    case (Some hostname)
    obtain b t1 where "add_connection (SStringHash hostname) sock act (find_peer hostname t) = (b, t1)" by fastforce
    with t Some add_connection_ok [OF find_peer_ok [OF t] _ this] show ?thesis
      by (simp add: addEndpointPassive_def accept_check_def Let_def find_peer_ok)
  qed (simp add: addEndpointPassive_def accept_check_def t)
qed

lemma getPeer_ok: "transport_ok n t \<Longrightarrow> transport_ok n (snd (getPeer inet hostname attempts t))"
proof -
  assume t: "transport_ok n t"
  let ?i = "SStringHash hostname" and ?t = "find_peer hostname t"
  have "transport_ok n (snd (connect_peer ?i (num_endpoints ?i ?t) attempts ?t))" by (simp add: connect_peer_ok find_peer_ok t)
  with t show ?thesis by (auto simp: getPeer_def Let_def transport_ok_erase split: prod.splits)
qed

lemma SocketStateChange_kept:
  assumes "kept n i p" "SocketStateChange sock change p = (dead, closed, p1)"
  shows "kept n i p1"
proof (cases "map_of (pr_endpoints p) sock")
  case None
  with assms show ?thesis by (simp add: SocketStateChange_def)
next
  case (Some tep)
  have sorted: "map_sorted (pr_endpoints p)" using assms(1) by (simp add: kept_def peer_ok_def)
  have "length (map_erase sock (pr_endpoints p)) \<le> length (pr_endpoints p)" using sorted by (simp add: map_erase_eq_filter)
  moreover have "length (map_assign sock e (pr_endpoints p)) = length (pr_endpoints p)" for e
    using sorted Some by (simp add: length_std_map insert_absorb domI)
  ultimately show ?thesis
    using assms Some by (auto simp: SocketStateChange_def Let_def kept_def peer_ok_map_of split: if_splits)
qed

lemma change_state_ok: "transport_ok n t \<Longrightarrow> transport_ok n (change_state i sock change t)"
proof (cases "map_of (tr_peers t) i")
  case (Some p)
  assume t: "transport_ok n t"
  then have "kept (tr_num_proc t) i p" using Some by (simp add: transport_ok_def)
  moreover obtain dead closed p1 where s: "SocketStateChange sock change p = (dead, closed, p1)" by (metis prod_cases3)
  ultimately have "transport_ok n (t\<lparr>tr_peers := map_assign i p1 (tr_peers t)\<rparr>)"
    using SocketStateChange_kept t by (blast intro: transport_ok_assign)
  with Some s show ?thesis
    using transport_ok_erase [of n "t\<lparr>tr_peers := map_assign i p1 (tr_peers t), tr_closed := tr_closed t @ closed\<rparr>"]
    by (simp add: change_state_def Let_def)
qed (simp add: change_state_def)

lemma ball_imp: "\<forall>x \<in> A. P x \<Longrightarrow> (\<And>x. P x \<Longrightarrow> Q x) \<Longrightarrow> \<forall>x \<in> A. Q x"
  by blast

lemma peer_step_ok:
  assumes "transport_ok n t" "\<And>p. map_of (tr_peers t) i = Some p \<Longrightarrow> (\<And>socks. peer_is i socks p \<Longrightarrow> peer_is i socks (f p))"
  shows "transport_ok n (update_peer i f t)"
  using assms by (intro transport_ok_update) (auto simp: kept_peer_is)

lemma SocketTxReady_is: "peer_is i socks p \<Longrightarrow> peer_is i socks (snd (SocketTxReady files sock p))"
proof (cases "map_of (pr_endpoints p) sock")
  case (Some tep)
  assume p: "peer_is i socks p"
  with Some have "ep_sock tep = sock" by (auto simp: peer_is_def peer_ok_map_of)
  with Some peer_send_is [OF p] show ?thesis by (simp add: SocketTxReady_def)
qed (simp add: SocketTxReady_def)

lemma tx_event_ok: "transport_ok n t \<Longrightarrow> transport_ok n (tx_event files thread sock i hangup out t)"
proof (cases "map_of (tr_peers t) i")
  case (Some p)
  assume t: "transport_ok n t"
  obtain ok p1 where s: "SocketTxReady files sock p = (ok, p1)" by fastforce
  have "peer_is i socks p \<Longrightarrow> peer_is i socks p1" for socks using SocketTxReady_is [of i socks p files sock] s by simp
  then have "transport_ok n (update_peer i (\<lambda>_. p1) t')" if "transport_ok n t'" "tr_peers t' = tr_peers t" for t'
    using that Some by (intro peer_step_ok) auto
  with Some s t show ?thesis
    by (simp add: tx_event_def Let_def transport_ok_deactivate change_state_ok)
qed (simp add: tx_event_def Let_def transport_ok_deactivate)

lemma rx_event_ok:
  assumes "transport_ok n t" "rx_event files localOpen se fuel script thread sock i hangup rd t = Some t1"
  shows "transport_ok n t1"
proof (cases "map_of (tr_peers t) i")
  case None
  with assms show ?thesis by (auto simp: rx_event_def Let_def transport_ok_deactivate split: if_splits)
next
  case (Some p)
  show ?thesis
  proof (cases "sock < 0 \<or> hangup \<or> \<not> rd")
    case True
    with Some assms show ?thesis
      by (auto simp: rx_event_def Let_def transport_ok_deactivate change_state_ok split: if_splits)
  next
    case False
    with Some assms(2) obtain b r p1 where s: "processEndpointRecv files localOpen se fuel sock script p = Some (Some b, r, p1)"
      by (auto simp: rx_event_def Let_def split: option.splits bool.splits)
    have "peer_is i socks p \<Longrightarrow> peer_is i socks p1" for socks using processEndpointRecv_is s by blast
    then have "transport_ok n (update_peer i (\<lambda>_. p1) t')" if "transport_ok n t'" "tr_peers t' = tr_peers t" for t'
      using that Some by (intro peer_step_ok) auto
    with False Some s assms show ?thesis
      by (cases b) (auto simp: rx_event_def Let_def transport_ok_deactivate change_state_ok)
  qed
qed

lemma updateIoStats_kept: "kept n i p \<Longrightarrow> kept n i (updateIoStats p)"
  by (auto simp: kept_def peer_ok_def updateIoStats_def map_sorted_def)

lemma map_of_map_prod: "map_of (map (map_prod id f) m) k = map_option f (map_of m k)"
  by (induction m) auto

lemma transport_reach_ok: "transport_reach ht hw t \<Longrightarrow> transport_ok (io_threads ht hw) t"
proof (induction rule: transport_reach.induct)
  case made
  show ?case by (simp add: transport_ok_def TcpTransport_new_def)
next
  case (started t)
  then show ?case
    by (cases "tr_num_proc t = 0")
      (auto simp: transport_ok_def TcpTransport_start_def Let_def io_threads_def kept_def)
next
  case (stopped t)
  then show ?case by (auto simp: transport_ok_def TcpTransport_stop_def)
next
  case (requested t epId files dest name off len)
  then show ?case by (intro peer_step_ok sendRpcRequest_is)
next
  case (counted t)
  then show ?case by (auto simp: transport_ok_def map_sorted_def updateIoStats_kept comp_def map_of_map_prod)
qed (blast intro: addEndpointPassive_ok getPeer_ok tx_event_ok rx_event_ok)+

text \<open>
  Two calls of \<open>addEndpointPassive\<close> for one peer that overlap: both make the check while there is room for one more endpoint,
  and both add theirs. The peer has then more endpoints than the transport has threads.
\<close>

lemma overlapping_accepts:
  "let t = TcpTransport_start False 1 TcpTransport_new;
       (i, t1) = accept_check True True (Some ''10.0.0.1'') t; (j, t2) = accept_check True True (Some ''10.0.0.1'') t1;
       (a, t3) = add_connection (the i) 3 (True, True, True) t2; (b, t4) = add_connection (the j) 4 (True, True, True) t3
   in i = j \<and> j = Some (SStringHash ''10.0.0.1'') \<and> a \<and> b \<and> tr_num_proc t4 < num_endpoints (the i) t4"
  by code_simp

text \<open>
  C22. The resources of the transport, as long as the calls that accept a connection do not overlap other calls. After any such history
  of connecting, accepting, requests, events and restarts no peer has more
  endpoints than the transport has threads, at most eight, every peer is filed under its own number,
  and every registration is with one of the descriptors that the two arrays have.
\<close>

theorem transport_bounded:
  assumes "transport_reach ht hw t"
  shows "tr_num_proc t \<le> MAX_IO_THREADS \<and>
    (\<forall>(i, p) \<in> set (tr_peers t). length (pr_endpoints p) \<le> tr_num_proc t \<and> pr_Id p = i) \<and>
    (\<forall>(thread, _) \<in> set (tr_rfd t) \<union> set (tr_wfd t). thread < MAX_IO_THREADS)"
proof -
  have ok: "transport_ok (io_threads ht hw) t" and n: "io_threads ht hw \<le> MAX_IO_THREADS"
    using transport_reach_ok [OF assms] by (simp_all add: io_threads_def)
  then have "tr_num_proc t \<le> MAX_IO_THREADS" by (auto simp: transport_ok_def)
  moreover have "kept (tr_num_proc t) i p" if "(i, p) \<in> set (tr_peers t)" for i p
    using ok that by (auto simp: transport_ok_def map_of_in_sorted)
  moreover from ok have "\<forall>(thread, _) \<in> set (tr_rfd t) \<union> set (tr_wfd t). thread < io_threads ht hw" by (simp add: transport_ok_def)
  then have "\<forall>(thread, _) \<in> set (tr_rfd t) \<union> set (tr_wfd t). thread < MAX_IO_THREADS"
    by (rule ball_imp) (use n in auto)
  ultimately show ?thesis by (auto simp: kept_def)
qed

theorem transport_bounded_witness:
  "(\<lambda>t. length (tr_rfd t) = 2 \<and> num_endpoints (SStringHash ''10.0.0.1'') t = 2 \<and> list_all (\<lambda>(thread, _). thread < MAX_IO_THREADS) (tr_rfd t))
     (snd (getPeer True ''10.0.0.1'' [Connected 3 (True, True, True), Connected 4 (True, True, True), NoSocket]
        (TcpTransport_start True 16 TcpTransport_new)))"
proof -
  let ?t = "snd (getPeer True ''10.0.0.1'' [Connected 3 (True, True, True), Connected 4 (True, True, True), NoSocket]
        (TcpTransport_start True 16 TcpTransport_new))"
  have "transport_reach True 16 ?t" by (intro transport_reach.intros)
  from transport_bounded [OF this] have "list_all (\<lambda>(thread, _). thread < MAX_IO_THREADS) (tr_rfd ?t)"
    unfolding list_all_iff by blast
  moreover have "length (tr_rfd ?t) = 2" "num_endpoints (SStringHash ''10.0.0.1'') ?t = 2" by code_simp+
  ultimately show ?thesis by simp
qed

end
