(* ===== verification/Peer_Rpc.thy ===== *)
theory Peer_Rpc
  imports Peer_Transport
begin

text \<open>
  Remote procedure calls over the transport of \<^verbatim>\<open>src/libgeds/TcpTransport.cpp\<close>: a request of one peer, served by
  the other, fills the memory of the caller with the range of the file; what happens to requests and sockets when a connection
  or a peer goes away; and the inputs for which the code does something else than it means to.
\<close>

section \<open>A read over the transport\<close>

text \<open>An open file with the given contents.\<close>

definition file_serves :: "(int \<Rightarrow> byte list) \<Rightarrow> served_file \<Rightarrow> byte list \<Rightarrow> bool" where
  "file_serves files f content \<longleftrightarrow> sf_size f = length content \<and> (\<forall>off n. sf_read f off n = Inr (take n (drop off content))) \<and>
     (\<forall>fd. sf_rawFd f = Inr fd \<longrightarrow> fd > 0 \<and> files fd = content)"

text \<open>The range that a request asks for; a length of zero is the rest of the file.\<close>

definition requested_range :: "size_t \<Rightarrow> size_t \<Rightarrow> byte list \<Rightarrow> byte list" where
  "requested_range len off content = (if len = 0 then drop off content else take len (drop off content))"

lemma split_name:
  assumes "47 \<notin> set bucket"
  shows "takeWhile (\<lambda>b. b \<noteq> 47) (bucket @ 47 # key) = bucket" "drop (length bucket + 1) (bucket @ 47 # key) = key"
  using assms by (induction bucket) auto

lemma get_reply_range:
  assumes "47 \<notin> set bucket" "localOpen bucket key = Inr f" "file_serves files f content" "off \<le> length content"
    and "length (requested_range len off content) \<le> MIN_SENDFILE_SIZE \<or> sf_rawFd f = Inr fd"
  shows "\<exists>fd va p1. get_reply localOpen (bucket @ 47 # key) len off p = Some ((fd, va, length (requested_range len off content), 0), p1) \<and>
    take (length (requested_range len off content)) (send_data files p1 fd va) = requested_range len off content"
proof -
  let ?n = "if len = 0 then length content - off else min (length content - off) len"
  have n: "length (requested_range len off content) = ?n" "take ?n (drop off content) = requested_range len off content"
    by (auto simp: requested_range_def min_def)
  have f: "sf_size f = length content" "sf_read f off ?n = Inr (requested_range len off content)"
    "\<And>fd. sf_rawFd f = Inr fd \<Longrightarrow> fd > 0 \<and> files fd = content"
    using assms(3) n(2) by (auto simp: file_serves_def)
  obtain buffer p2 where b: "getBuffer p = (buffer, p2)" by fastforce
  note opened = split_name [OF assms(1), of key] assms(2,4) f(1)
  show ?thesis
  proof (cases "?n = 0")
    case True
    then show ?thesis using opened n by (simp add: get_reply_def Let_def)
  next
    case pos: False
    show ?thesis
    proof (cases "\<exists>fd. ?n \<ge> MIN_SENDFILE_SIZE \<and> sf_rawFd f = Inr fd")
      case True
      then obtain fd where fd: "?n \<ge> MIN_SENDFILE_SIZE" "sf_rawFd f = Inr fd" by blast
      then have "get_reply localOpen (bucket @ 47 # key) len off p = Some ((fd, off, ?n, 0), p)"
        using opened pos unfolding get_reply_def by (simp add: Let_def)
      moreover have "take ?n (send_data files p fd off) = requested_range len off content"
        using f(3) [OF fd(2)] n(2) by (simp add: send_data_def)
      ultimately show ?thesis unfolding n(1) by blast
    next
      case False
      then have small: "length (requested_range len off content) \<le> MIN_SENDFILE_SIZE"
        and "\<exists>e. (if ?n \<ge> MIN_SENDFILE_SIZE then sf_rawFd f else Inl (UnavailableError [])) = Inl e"
        using assms(5) n(1) by (cases "sf_rawFd f"; auto)+
      then obtain e where e: "(if ?n \<ge> MIN_SENDFILE_SIZE then sf_rawFd f else Inl (UnavailableError [])) = Inl e" by blast
      let ?p = "p2\<lparr>tp_memory := (tp_memory p2)(buffer \<mapsto> requested_range len off content)\<rparr>"
      have "get_reply localOpen (bucket @ 47 # key) len off p = Some ((- 1, buffer, ?n, 0), ?p)"
        using opened pos e b f(2) small n(1) unfolding get_reply_def by (simp add: Let_def)
      moreover have "take ?n (send_data files ?p (- 1) buffer) = requested_range len off content"
        using n(1) by (simp add: send_data_def)
      ultimately show ?thesis unfolding n(1) by blast
    qed
  qed
qed

text \<open>Sending leaves what was asked for, and the memory, alone.\<close>

lemma send_work_world [simp]:
  "tp_recvQueue (snd (send_work files work p)) = tp_recvQueue p" "tp_memory (snd (send_work files work p)) = tp_memory p"
  "tp_promises (snd (send_work files work p)) = tp_promises p"
  by (simp_all add: send_work_def peer_send_def Let_def split: option.splits prod.splits)

lemma sendRpcRequest_entry:
  assumes "sendRpcRequest files dest name off len p = (reqId, p1)" "map_sorted (tp_recvQueue p)"
    and "map_of (tp_recvQueue p1) reqId \<noteq> None"
  shows "map_of (tp_recvQueue p1) reqId = Some \<lparr>rw_reqId = reqId, rw_va = dest, rw_len = len, rw_p = reqId\<rparr>"
    "tp_memory p1 = tp_memory p" "map_sorted (tp_recvQueue p1)"
proof -
  obtain p2 ok p3 where r: "register_request dest len p = (reqId, p2)" "send_work files (request_work reqId name off len) p2 = (ok, p3)"
      "p1 = (if ok then p3 else withdraw_request reqId p3)"
    using assms(1) by (auto simp: sendRpcRequest_def split: prod.splits)
  have p3: "tp_recvQueue p3 = tp_recvQueue p2" "tp_memory p3 = tp_memory p2"
    using send_work_world [of files "request_work reqId name off len" p2] r(2) by simp_all
  have p2: "map_sorted (tp_recvQueue p2)" "tp_memory p2 = tp_memory p"
      "map_of (tp_recvQueue p2) reqId = Some \<lparr>rw_reqId = reqId, rw_va = dest, rw_len = len, rw_p = reqId\<rparr>"
    using r(1) assms(2) by (auto simp: register_request_def Let_def ConcurrentMap_insertOrReplace_def)
  have "map_of (tp_recvQueue (withdraw_request reqId p3)) reqId = None"
    using p2 p3 by (simp add: withdraw_request_def ConcurrentMap_remove_def set_value_def)
  then have "p1 = p3" using r(3) assms(3) by (cases ok) auto
  with p2 p3 show "map_of (tp_recvQueue p1) reqId = Some \<lparr>rw_reqId = reqId, rw_va = dest, rw_len = len, rw_p = reqId\<rparr>"
    "tp_memory p1 = tp_memory p" "map_sorted (tp_recvQueue p1)" by simp_all
qed

lemma sendRpcRequest_id: "sendRpcRequest files dest name off len p = (reqId, p1) \<Longrightarrow> reqId < 2 ^ 64"
  by (auto simp: sendRpcRequest_def register_request_def wrap64_def Let_def split: prod.splits)

text \<open>
  C21. A read between two peers, over the wire. A caller has asked for a range of an object into a block of its memory, and the request
  is still registered; the other peer has the object with the given contents and a descriptor for ranges above the size of a buffer. The
  receiver of the other peer reads the bytes of the request, over whatever fragmentation: it ends between two messages and has
  queued and tried to send exactly one reply, without error. When the receiver of the caller has read the
  bytes of that reply, over whatever fragmentation, the block starts with exactly the range, the rest of it as before, the promise of
  the request is the number of bytes, and the request is no longer registered.
\<close>

theorem rpc_read_exact:
  assumes "sendRpcRequest cfiles dest (bucket @ 47 # key) off len c = (reqId, c1)" "map_sorted (tp_recvQueue c)"
    and "map_of (tp_recvQueue c1) reqId \<noteq> None" "tp_memory c dest = Some block"
    and "47 \<notin> set bucket" "length (bucket @ 47 # key) \<le> RPC_TCP_MAX_HDR" "off < 2 ^ 64" "len < 2 ^ 64"
    and "localOpen bucket key = Inr f" "file_serves files f content" "off \<le> length content" "length content < 2 ^ 64"
    and "length (requested_range len off content) \<le> MIN_SENDFILE_SIZE \<or> sf_rawFd f = Inr rawFd"
    and "length (requested_range len off content) \<le> length block" "fresh sctx" "fresh cctx"
    and "concat (concat requested) = work_bytes (send_data cfiles c1) (request_work reqId (bucket @ 47 # key) off len)"
    and "length (concat (concat requested)) + 1 < fuel"
  shows "\<exists>fd va n s1 sctx1 r1. n = length (requested_range len off content) \<and>
    recv_calls (TcpProcessRpcGet files localOpen) se ssock fuel (map (map Arrived) requested @ replicate (length (concat (concat requested))) [])
      (sctx, [], s) = Some (sctx1, r1, snd (send_work files (reply_work reqId fd va n 0) s1)) \<and> fresh sctx1 \<and> arrived r1 = Some [] \<and>
    (\<forall>replied cfuel. concat (concat replied) = work_bytes (send_data files s1) (reply_work reqId fd va n 0) \<and>
       length (concat (concat replied)) + 1 < cfuel \<longrightarrow>
       (\<exists>c2 cctx1 r2. recv_calls (TcpProcessRpcGet cfiles clocalOpen) cse csock cfuel
            (map (map Arrived) replied @ replicate (length (concat (concat replied))) []) (cctx, [], c1) = Some (cctx1, r2, c2) \<and>
          fresh cctx1 \<and> arrived r2 = Some [] \<and> tp_memory c2 dest = Some (requested_range len off content @ drop n block) \<and>
          tp_promises c2 reqId = Some (Inr n) \<and> map_of (tp_recvQueue c2) reqId = None))"
proof -
  let ?range = "requested_range len off content" and ?name = "bucket @ 47 # key"
  let ?n = "length (requested_range len off content)" and ?rq = "request_work reqId (bucket @ 47 # key) off len"
  note c1 = sendRpcRequest_entry [OF assms(1-3)]
  obtain fd va s1 where g: "get_reply localOpen ?name len off s = Some ((fd, va, ?n, 0), s1)"
      "take ?n (send_data files s1 fd va) = ?range"
    using get_reply_range [where localOpen = localOpen and key = key and p = s, OF assms(5,9,10,11,13)] by blast
  let ?rp = "reply_work reqId fd va ?n 0" and ?s2 = "snd (send_work files (reply_work reqId fd va ?n 0) s1)"
  have id: "reqId < 2 ^ 64" using sendRpcRequest_id [OF assms(1)] .
  have n: "?n < 2 ^ 64" using assms(12) by (auto simp: requested_range_def)
  have ok: "work_ok ?rq" "work_ok ?rp" using id n assms(6-8) by (simp_all add: work_ok_def request_work_def reply_work_def)
  have "handle (TcpProcessRpcGet files localOpen) ssock (send_data cfiles c1) ?rq s = Some ?s2"
    using g(1) by (simp add: handle_def request_work_def TcpProcessRpcGet_def sendRpcReply_def split_beta)
  moreover have types: "sw_type ?rq = GET_REQ" "sw_type ?rp = GET_REPLY" by (simp_all add: request_work_def reply_work_def)
  ultimately obtain x where
    x: "rx_run (TcpProcessRpcGet files localOpen) ssock (work_bytes (send_data cfiles c1) ?rq) (sctx, s) = Some (x, ?s2)" "fresh x"
    using rx_run_request [OF ok(1) assms(15)] by blast
  obtain sctx1 r1 where server: "recv_calls (TcpProcessRpcGet files localOpen) se ssock fuel
      (map (map Arrived) requested @ replicate (length (concat (concat requested))) []) (sctx, [], s) = Some (sctx1, r1, ?s2)"
      "norm_rcv sctx1 = x" "arrived r1 = Some []"
    using recv_calls_drain [OF x(1) assms(17) _ fresh_ok [OF assms(15)], of fuel se] assms(17,18) by auto
  have full: "full_work (send_data files s1) ?rp"
    using arg_cong [OF g(2), of length] by (simp add: full_work_def reply_work_def min_def split: if_splits)
  let ?w = "c1\<lparr>tp_recvQueue := map_erase reqId (tp_recvQueue c1)\<rparr>"
  have mem: "tp_memory ?w dest = Some block" using c1(2) assms(4) by simp
  obtain c2 where st: "store_all dest 0 ?range ?w = Some c2" "tp_memory c2 dest = Some (?range @ drop ?n block)"
      "tp_recvQueue c2 = tp_recvQueue ?w"
    using mem assms(14) by (cases "?range = []") (auto simp: store_all_def store_def file_write_def)
  let ?c2 = "set_value (Some reqId) (Inr ?n) c2"
  have hd: "handle (TcpProcessRpcGet cfiles clocalOpen) csock (send_data files s1) ?rp c1 = Some ?c2"
    using c1(1) g(2) st(1)
    by (simp add: handle_def handle_reply_def reply_work_def work_hdr_def load_work_def ConcurrentMap_getAndRemove_def wrap8_def)
  have end': "tp_memory ?c2 dest = Some (?range @ drop ?n block)" "tp_promises ?c2 reqId = Some (Inr ?n)" "map_of (tp_recvQueue ?c2) reqId = None"
    using st(2,3) c1(3) by (simp_all add: set_value_def)
  obtain y where y: "rx_run (TcpProcessRpcGet cfiles clocalOpen) csock (work_bytes (send_data files s1) ?rp) (cctx, c1) = Some (y, ?c2)" "fresh y"
    using rx_run_reply [OF ok(2) full assms(16) types(2) hd] by blast
  have client: "\<exists>c2 cctx1 r2. recv_calls (TcpProcessRpcGet cfiles clocalOpen) cse csock cfuel
        (map (map Arrived) replied @ replicate (length (concat (concat replied))) []) (cctx, [], c1) = Some (cctx1, r2, c2) \<and>
      fresh cctx1 \<and> arrived r2 = Some [] \<and> tp_memory c2 dest = Some (?range @ drop ?n block) \<and>
      tp_promises c2 reqId = Some (Inr ?n) \<and> map_of (tp_recvQueue c2) reqId = None"
    if "concat (concat replied) = work_bytes (send_data files s1) ?rp" "length (concat (concat replied)) + 1 < cfuel" for replied cfuel
    using recv_calls_drain [OF y(1) that(1) _ fresh_ok [OF assms(16)], of cfuel cse] that norm_rcv_fresh [OF _ y(2)] end' by metis
  show ?thesis
    by (rule exI [of _ fd], rule exI [of _ va], rule exI [of _ ?n], rule exI [of _ s1], rule exI [of _ sctx1], rule exI [of _ r1])
      (use server client norm_rcv_fresh [OF server(2) x(2)] in blast)
qed

definition sample_peer :: TcpPeer where
  "sample_peer = (TcpPeer_new ''10.0.0.2'')\<lparr>tp_memory := [100 \<mapsto> [0, 0, 0, 0]], pr_endpoints := [(3, TcpEndpoint_new 3)]\<rparr>"

definition sample_file :: served_file where
  "sample_file = \<lparr>sf_size = 5, sf_rawFd = Inl (UnavailableError []), sf_read = \<lambda>off n. Inr (take n (drop off [1, 2, 3, 4, 5]))\<rparr>"

text \<open>An idle sender on a socket that accepts nothing keeps the message and reports no error.\<close>

lemma send_would_block: "sd_script s = [] \<Longrightarrow> ss_state (sd_ctx s) = PROC_IDLE \<Longrightarrow> fst (processEndpointSend data s)"
  by (cases "sd_queue s")
    (simp_all add: processEndpointSend_def send_loop.simps [of data s] send_round_def ConcurrentQueue_pop_def write_header_def
      sock_write_def load_work_def Let_def)

lemma sample_request_sent:
  "fst (sendRpcRequest files 100 name 1 2 sample_peer) = 1" "map_of (tp_recvQueue (snd (sendRpcRequest files 100 name 1 2 sample_peer))) 1 \<noteq> None"
proof -
  let ?p = "sample_peer\<lparr>pr_rpcReqId := 1, tp_recvQueue := [(1, \<lparr>rw_reqId = 1, rw_va = 100, rw_len = 2, rw_p = 1\<rparr>)]\<rparr>"
  have reg: "register_request 100 2 sample_peer = (1, ?p)"
    by (simp add: register_request_def sample_peer_def TcpPeer_new_def wrap64_def ConcurrentMap_insertOrReplace_def map_assign_def)
  have least: "getLeastUsedTx k (?p\<lparr>pr_sendQueue := q\<rparr>) = Some (TcpEndpoint_new 3)" for k q
    by (simp add: getLeastUsedTx_def sample_peer_def TcpEndpoint_new_def TcpSendState_new_def)
  have "fst (peer_send files (TcpEndpoint_new 3) (?p\<lparr>pr_sendQueue := q\<rparr>))" for q
    by (simp add: peer_send_def split_beta send_would_block sample_peer_def TcpPeer_new_def TcpEndpoint_new_def TcpSendState_new_def)
  then have "fst (send_work files (request_work 1 name 1 2) ?p)" unfolding send_work_def Let_def least by simp
  moreover have "tp_recvQueue (snd (send_work files (request_work 1 name 1 2) ?p)) = tp_recvQueue ?p" by simp
  ultimately show "fst (sendRpcRequest files 100 name 1 2 sample_peer) = 1"
      "map_of (tp_recvQueue (snd (sendRpcRequest files 100 name 1 2 sample_peer))) 1 \<noteq> None"
    by (simp_all add: sendRpcRequest_def reg split_beta)
qed

theorem rpc_read_exact_witness:
  "\<exists>fd va s1 sctx1 r1 c2 cctx1 r2.
    recv_calls (TcpProcessRpcGet (\<lambda>_. []) (\<lambda>_ _. Inr sample_file)) (\<lambda>_. []) 3 100
      ([[Arrived (work_bytes (\<lambda>_ _. []) (request_work 1 ([97] @ 47 # [98]) 1 2))]] @
        replicate (length (work_bytes (\<lambda>_ _. []) (request_work 1 ([97] @ 47 # [98]) 1 2))) [])
      (TcpRcvState_new, [], sample_peer) = Some (sctx1, r1, snd (send_work (\<lambda>_. []) (reply_work 1 fd va 2 0) s1)) \<and>
    recv_calls (TcpProcessRpcGet (\<lambda>_. []) (\<lambda>_ _. Inr sample_file)) (\<lambda>_. []) 4 (length (work_bytes (send_data (\<lambda>_. []) s1) (reply_work 1 fd va 2 0)) + 2)
      ([[Arrived (work_bytes (send_data (\<lambda>_. []) s1) (reply_work 1 fd va 2 0))]] @
        replicate (length (work_bytes (send_data (\<lambda>_. []) s1) (reply_work 1 fd va 2 0))) [])
      (TcpRcvState_new, [], snd (sendRpcRequest (\<lambda>_. []) 100 ([97] @ 47 # [98]) 1 2 sample_peer)) = Some (cctx1, r2, c2) \<and>
    tp_memory c2 100 = Some [2, 3, 0, 0] \<and> tp_promises c2 1 = Some (Inr 2)"
proof -
  let ?name = "[97] @ 47 # [98 :: byte]" and ?files = "\<lambda>_ :: int. [] :: byte list"
  let ?c1 = "snd (sendRpcRequest ?files 100 ?name 1 2 sample_peer)" and ?rq = "request_work 1 ([97] @ 47 # [98]) 1 2"
  let ?get = "TcpProcessRpcGet ?files (\<lambda>_ _. Inr sample_file)"
  have r: "sendRpcRequest ?files 100 ?name 1 2 sample_peer = (1, ?c1)" "map_of (tp_recvQueue ?c1) 1 \<noteq> None"
    using sample_request_sent by (metis prod.collapse)+
  have peer: "map_sorted (tp_recvQueue sample_peer)" "tp_memory sample_peer 100 = Some [0, 0, 0, 0]"
    by (simp_all add: sample_peer_def TcpPeer_new_def)
  have range: "requested_range 2 1 [1, 2, 3, 4, 5 :: byte] = [2, 3]" by (simp add: requested_range_def)
  have f: "file_serves ?files sample_file [1, 2, 3, 4, 5]" by (simp add: file_serves_def sample_file_def)
  have rest: "47 \<notin> set [97 :: byte]" "length ?name \<le> RPC_TCP_MAX_HDR" "(1 :: nat) < 2 ^ 64" "(2 :: nat) < 2 ^ 64"
    "(\<lambda>_ _. Inr sample_file :: served_file StatusOr) [97] [98] = Inr sample_file" "(1 :: nat) \<le> length [1, 2, 3, 4, 5 :: byte]"
    "length [1, 2, 3, 4, 5 :: byte] < 2 ^ 64"
    "length (requested_range 2 1 [1, 2, 3, 4, 5 :: byte]) \<le> MIN_SENDFILE_SIZE \<or> sf_rawFd sample_file = Inr 0"
    "length (requested_range 2 1 [1, 2, 3, 4, 5 :: byte]) \<le> length [0, 0, 0, 0 :: byte]"
    by (simp_all add: requested_range_def MIN_SENDFILE_SIZE_def RPC_TCP_MAX_HDR_def)
  have wb: "work_bytes (\<lambda>_ _. []) ?rq = work_bytes (send_data ?files ?c1) ?rq"
    by (simp add: work_bytes_def request_work_def Let_def)
  have len: "length (work_bytes (\<lambda>_ _. []) ?rq) = 35" by code_simp
  have sent: "concat (concat [[work_bytes (\<lambda>_ _. []) ?rq]]) = work_bytes (send_data ?files ?c1) ?rq"
    "length (concat (concat [[work_bytes (\<lambda>_ _. []) ?rq]])) + 1 < 100" using wb len by simp_all
  obtain fd va n s1 sctx1 r1 where n: "n = length (requested_range 2 1 [1, 2, 3, 4, 5 :: byte])"
    and server: "recv_calls ?get (\<lambda>_. []) 3 100 (map (map Arrived) [[work_bytes (\<lambda>_ _. []) ?rq]] @
        replicate (length (concat (concat [[work_bytes (\<lambda>_ _. []) ?rq]]))) []) (TcpRcvState_new, [], sample_peer) =
      Some (sctx1, r1, snd (send_work ?files (reply_work 1 fd va n 0) s1))"
    and client: "\<forall>replied cfuel. concat (concat replied) = work_bytes (send_data ?files s1) (reply_work 1 fd va n 0) \<and>
       length (concat (concat replied)) + 1 < cfuel \<longrightarrow>
       (\<exists>c2 cctx1 r2. recv_calls ?get (\<lambda>_. []) 4 cfuel
            (map (map Arrived) replied @ replicate (length (concat (concat replied))) []) (TcpRcvState_new, [], ?c1) = Some (cctx1, r2, c2) \<and>
          fresh cctx1 \<and> arrived r2 = Some [] \<and> tp_memory c2 100 = Some (requested_range 2 1 [1, 2, 3, 4, 5] @ drop n [0, 0, 0, 0]) \<and>
          tp_promises c2 1 = Some (Inr n) \<and> map_of (tp_recvQueue c2) 1 = None)"
    using rpc_read_exact [where localOpen = "\<lambda>_ _. Inr sample_file" and key = "[98]" and s = sample_peer and se = "\<lambda>_. []" and ssock = 3
        and cse = "\<lambda>_. []" and csock = 4 and clocalOpen = "\<lambda>_ _. Inr sample_file",
      OF r(1) peer(1) r(2) peer(2) rest(1-5) f rest(6-9) fresh_new fresh_new sent]
    by (elim exE conjE) (rule that)
  have n2: "n = 2" using n range by simp
  let ?wire = "work_bytes (send_data ?files s1) (reply_work 1 fd va 2 0)"
  obtain c2 cctx1 r2 where c2: "recv_calls ?get (\<lambda>_. []) 4 (length ?wire + 2) (map (map Arrived) [[?wire]] @ replicate (length ?wire) [])
      (TcpRcvState_new, [], ?c1) = Some (cctx1, r2, c2)" "tp_memory c2 100 = Some ([2, 3] @ drop 2 [0, 0, 0, 0])" "tp_promises c2 1 = Some (Inr 2)"
    using spec [OF spec [OF client, of "[[?wire]]"], of "length ?wire + 2"] unfolding n2 range by auto
  show ?thesis
    by (rule exI [of _ fd], rule exI [of _ va], rule exI [of _ s1], rule exI [of _ sctx1], rule exI [of _ r1], rule exI [of _ c2],
        rule exI [of _ cctx1], rule exI [of _ r2]) (use server c2 in \<open>simp add: n2\<close>)
qed

section \<open>The end of a connection and of a peer\<close>

lemma fold_set_value:
  "tp_promises (fold (\<lambda>(reqId, work). set_value (Some (rw_p work)) v) q p) k =
     (if k \<in> rw_p ` snd ` set q then Some v else tp_promises p k)"
  by (induction q arbitrary: p) (auto simp: set_value_def)

lemma fold_set_value_queues [simp]:
  "pr_endpoints (fold (\<lambda>(reqId, work). set_value (Some (rw_p work)) v) q p) = pr_endpoints p"
  by (induction q arbitrary: p) (auto simp: set_value_def)

text \<open>Closing a peer answers every request that is outstanding and forgets sockets and messages.\<close>

lemma cleanup_resolves:
  "pr_endpoints (cleanup p) = [] \<and> tp_recvQueue (cleanup p) = [] \<and> pr_sendQueue (cleanup p) = [] \<and>
   (\<forall>k. tp_promises (cleanup p) k =
      (if k \<in> rw_p ` snd ` set (tp_recvQueue p) then Some (Inl (UnavailableError ''TcpPeer closed'')) else tp_promises p k))"
  by (simp add: cleanup_def Let_def fold_set_value)

text \<open>A socket is closed once both directions are, in either order, and the peer is dead with its last socket.\<close>

lemma socket_closed_after_both:
  assumes "peer_ok p" "map_of (pr_endpoints p) sock = Some tep" "ep_state tep = ALL_OPEN"
    and "(a, b) = (TX_CLOSED, RX_CLOSED) \<or> (a, b) = (RX_CLOSED, TX_CLOSED)"
  shows "\<exists>p1 p2. SocketStateChange sock a p = (False, [], p1) \<and> map_of (pr_endpoints p1) sock = Some (tep\<lparr>ep_state := a\<rparr>) \<and>
    SocketStateChange sock b p1 = (map_erase sock (pr_endpoints p1) = [], [sock], p2) \<and> map_of (pr_endpoints p2) sock = None"
proof -
  define p1 where "p1 = p\<lparr>pr_endpoints := map_assign sock (tep\<lparr>ep_state := a\<rparr>) (pr_endpoints p)\<rparr>"
  have sorted: "map_sorted (pr_endpoints p)" using assms(1) by (simp add: peer_ok_def)
  have ne: "pr_endpoints p1 \<noteq> []" by (simp add: p1_def map_assign_def)
  have bits: "a \<noteq> 0" "b \<noteq> 0" "a AND b = 0" "a AND ALL_CLOSED \<noteq> ALL_CLOSED" "(a OR b) AND ALL_CLOSED = ALL_CLOSED"
    using assms(4) by auto
  have p1: "map_of (pr_endpoints p1) sock = Some (tep\<lparr>ep_state := a\<rparr>)" "map_sorted (pr_endpoints p1)" using sorted by (simp_all add: p1_def)
  have "SocketStateChange sock a p = (False, [], p1)"
    using assms(2,3) bits ne by (simp add: SocketStateChange_def Let_def p1_def)
  moreover have "SocketStateChange sock b p1 = (map_erase sock (pr_endpoints p1) = [], [sock], p1\<lparr>pr_endpoints := map_erase sock (pr_endpoints p1)\<rparr>)"
    using p1 bits by (simp add: SocketStateChange_def Let_def)
  ultimately show ?thesis using p1 by auto
qed

section \<open>Inputs that the code does not expect\<close>

text \<open>
  A range above the size of a buffer is read into the buffer if the file has no descriptor, and the value of a failed read
  is used: both are undefined.
\<close>

lemma get_reply_undefined:
  assumes "47 \<notin> set bucket" "localOpen bucket key = Inr f" "off < sf_size f" "sf_rawFd f = Inl e"
    and "n = (if len = 0 then sf_size f - off else min (sf_size f - off) len)"
    and "sf_read f off n = Inl e' \<or> (\<exists>bs. sf_read f off n = Inr bs \<and> MIN_SENDFILE_SIZE < length bs)"
  shows "get_reply localOpen (bucket @ 47 # key) len off p = None"
proof -
  have n: "n \<noteq> 0" using assms(3,5) by auto
  obtain e1 where e1: "(if n \<ge> MIN_SENDFILE_SIZE then sf_rawFd f else Inl (UnavailableError [])) = Inl e1"
    using assms(4) by (cases "n \<ge> MIN_SENDFILE_SIZE") auto
  obtain buffer p1 where b: "getBuffer p = (buffer, p1)" by fastforce
  note opened = split_name [OF assms(1), of key] assms(2,3) assms(5) [symmetric] n e1 b
  from assms(6) show ?thesis
  proof
    assume "sf_read f off n = Inl e'"
    with opened show ?thesis unfolding get_reply_def by (simp add: Let_def)
  next
    assume "\<exists>bs. sf_read f off n = Inr bs \<and> MIN_SENDFILE_SIZE < length bs"
    with opened show ?thesis unfolding get_reply_def by (auto simp: Let_def)
  qed
qed

text \<open>A request that could not be sent is answered with an error but stays in the queue of the peer.\<close>

lemma request_left_in_queue:
  assumes "getLeastUsedTx len p = None" "map_sorted (tp_recvQueue p)" "sendRpcRequest files dest name off len p = (reqId, p1)"
  shows "pr_sendQueue p1 = pr_sendQueue p @ [request_work reqId name off len] \<and> map_of (tp_recvQueue p1) reqId = None \<and>
    tp_promises p1 reqId = Some (Inl (AbortedError ''Unable to proceed: ''))"
proof -
  obtain p2 where r: "register_request dest len p = (reqId, p2)" using assms(3) by (auto simp: sendRpcRequest_def split: prod.splits)
  have "sw_len (request_work reqId name off len) = len" by (simp add: request_work_def)
  moreover have "getLeastUsedTx len (p2\<lparr>pr_sendQueue := q\<rparr>) = None" for q
    using assms(1) r by (auto simp: getLeastUsedTx_def register_request_def Let_def)
  ultimately have "p1 = withdraw_request reqId (p2\<lparr>pr_sendQueue := pr_sendQueue p2 @ [request_work reqId name off len]\<rparr>)"
    using assms(3) r by (simp add: sendRpcRequest_def send_work_def)
  with r assms(2) show ?thesis
    by (auto simp: withdraw_request_def register_request_def Let_def ConcurrentMap_insertOrReplace_def ConcurrentMap_remove_def set_value_def)
qed

text \<open>A reply to a request that is not, or no longer, registered ends the connection.\<close>

lemma unexpected_reply:
  assumes "map_of (tp_recvQueue w) (h_reqid (rcv_hdr ctx)) = None"
  shows "start_reply sock ctx w = (Some (RBreak ERRNO_INVAL), ctx, w)"
  using assms by (simp add: start_reply_def ConcurrentMap_getAndRemove_def)

text \<open>
  An endpoint that is open but busy is not found if the message has four gigabytes or more and the last endpoint
  of the peer is half closed.
\<close>

lemma getLeastUsedTx_misses:
  assumes "pr_endpoints p = [(s, e), (s', e')]" "ep_state e = ALL_OPEN" "ss_state (ep_send e) \<noteq> PROC_IDLE" "ep_state e' \<noteq> ALL_OPEN"
    and "2 ^ 32 - 1 \<le> wrap64 (ss_tx_bytes (ep_send e) + n)"
  shows "getLeastUsedTx n p = None"
  using assms by (simp add: getLeastUsedTx_def)

text \<open>Peers are told apart by the hash of their address alone, so two hosts can be one peer.\<close>

lemma SStringHash_collision: "SStringHash ''10.3.159.0'' = SStringHash ''10.9.152.100''"
  by code_simp

lemma getPeer_known:
  assumes "map_of (tr_peers t) (SStringHash hostname) = Some p" "length (pr_endpoints p) = tr_num_proc t" "0 < tr_num_proc t"
  shows "getPeer True hostname attempts t = (Some (SStringHash hostname), t)"
proof -
  have "find_peer hostname t = t" "num_endpoints (SStringHash hostname) t = tr_num_proc t"
    using assms by (simp_all add: find_peer_def num_endpoints_def)
  moreover have "connect_peer i (tr_num_proc t) attempts t = (tr_num_proc t, t)" for i by (cases attempts) simp_all
  ultimately show ?thesis using assms(3) by (simp add: getPeer_def Let_def)
qed

lemma getPeer_other_host:
  assumes "map_of (tr_peers t) (SStringHash ''10.3.159.0'') = Some p"
    and "length (pr_endpoints p) = tr_num_proc t" "0 < tr_num_proc t"
  shows "getPeer True ''10.9.152.100'' attempts t = (Some (SStringHash ''10.3.159.0''), t)"
  using getPeer_known [of t "''10.9.152.100''" p attempts] assms SStringHash_collision by simp

text \<open>On a machine with one processor that reports hyperthreading there are no threads, and no peer can be reached.\<close>

lemma no_peer_without_threads:
  "fst (getPeer inet hostname attempts (TcpTransport_start True 1 TcpTransport_new)) = None"
proof -
  have "connect_peer i 0 as t = (0, t)" if "tr_num_proc t = 0" for i as t using that by (cases as) simp_all
  then show ?thesis
    by (simp add: getPeer_def Let_def find_peer_def num_endpoints_def TcpTransport_start_def TcpTransport_new_def TcpPeer_new_def map_assign_def)
qed

text \<open>The end of the stream between two messages is taken for an empty socket if an earlier call has left that error number.\<close>

lemma orderly_close_stale_errno:
  "map_option fst (recv_loop get se sock (Suc fuel) TcpRcvState_new [PeerClosed e] w) = Some (Some (errno_of e = ERRNO_AGAIN))"
  by (simp add: recv_round_def TcpRcvState_new_def reset_rcv_def recv_header_def recv_some.simps hdr_size_def Let_def)

text \<open>A reply that announces more data than the block of the caller has writes behind the block.\<close>

lemma reply_overruns_block:
  assumes "rv_state ctx = PROC_DATA" "h_type (rcv_hdr ctx) = op_code GET_REPLY" "rv_progress ctx + length bs \<le> h_datalen (rcv_hdr ctx)"
    and "tp_memory w (rv_va ctx) = Some block" "length block < rv_progress ctx + length bs" "bs \<noteq> []"
  shows "map_option fst (recv_loop get se sock (Suc (Suc fuel)) ctx [Arrived bs] w) = Some None"
proof -
  have "rv_progress ctx < h_datalen (rcv_hdr ctx)" "length bs \<le> h_datalen (rcv_hdr ctx) - rv_progress ctx" using assms(3,6) by (cases bs; simp)+
  with assms show ?thesis by (simp add: recv_round_def recv_switch_def Let_def store_def)
qed

end
