(* ===== verification/Peer_Request.thy ===== *)
theory Peer_Request
  imports Tcp_Protocol
begin

text \<open>
  The text requests of \<^verbatim>\<open>src/libgeds/Request.{h,cpp}\<close>, an older copy of those in \<open>Tcp_Protocol\<close>. Its
  parser takes the groups of the match from one place too far left: the bucket is the whole request, the key is the bucket, and
  both numbers are read from the key.
\<close>

text \<open>The expression \<open>GET ([a-z\d][a-z\d\.\-]+[a-z\d])/(.+)\nRANGE (\d+) (\d+)\<close>; the first group is the whole match.\<close>

definition match_numbers :: "string \<Rightarrow> (string \<times> string) option" where
  "match_numbers s =
     (case strip ''RANGE '' s of
        None \<Rightarrow> None
      | Some s1 \<Rightarrow>
          let first = takeWhile is_digit s1 in
          if first = [] then None
          else case strip '' '' (dropWhile is_digit s1) of
              None \<Rightarrow> None
            | Some second \<Rightarrow> if second \<noteq> [] \<and> list_all is_digit second then Some (first, second) else None)"

definition match_request :: "string \<Rightarrow> (string \<times> string \<times> string \<times> string \<times> string) option" where
  "match_request s =
     (case strip ''GET '' s of
        None \<Rightarrow> None
      | Some s1 \<Rightarrow>
          let bucket = takeWhile (\<lambda>c. c \<noteq> CHR ''/'') s1; s2 = dropWhile (\<lambda>c. c \<noteq> CHR ''/'') s1 in
          if \<not> bucket_regex bucket \<or> s2 = [] then None
          else
            let key = takeWhile (\<lambda>c. c \<noteq> CHR 0x0A \<and> c \<noteq> CHR 0x0D) (tl s2);
                s3 = dropWhile (\<lambda>c. c \<noteq> CHR 0x0A \<and> c \<noteq> CHR 0x0D) (tl s2)
            in if key = [] \<or> \<not> prefix [CHR 0x0A] s3 then None
               else map_option (\<lambda>(p, n). (s, bucket, key, p, n)) (match_numbers (tl s3)))"

text \<open>
  \<open>std::stoull\<close> skips white space and a sign, reads as many digits as there are and throws if there are none, or if the value
  does not fit; a minus sign negates modulo the word.
\<close>

definition std_space :: "char \<Rightarrow> bool" where
  "std_space c \<longleftrightarrow> c = CHR '' '' \<or> of_char c \<in> {9 .. 13 :: nat}"

definition std_stoull :: "string \<Rightarrow> size_t outcome" where
  "std_stoull s =
     (let s1 = dropWhile std_space s;
          negative = prefix ''-'' s1;
          digits = takeWhile is_digit (if prefix ''-'' s1 \<or> prefix ''+'' s1 then tl s1 else s1)
      in if digits = [] \<or> read_nat digits \<ge> 2 ^ 64 then Raises ''stoull''
         else Returns (if negative then sz_sub 0 (read_nat digits) else read_nat digits))"

definition request_parseRequestType :: "string \<Rightarrow> RequestType StatusOr" where
  "request_parseRequestType message =
     (if prefix ''GET'' message then Inr GET else Inl (InvalidArgumentError ''Invalid request!''))"

definition request_parseGetRequest :: "string \<Rightarrow> (string \<times> string \<times> size_t \<times> size_t) StatusOr outcome" where
  "request_parseGetRequest request =
     (case match_request request of
        None \<Rightarrow> Returns (Inl (InvalidArgumentError (''Unable to parse '' @ request)))
      | Some (m0, m1, m2, m3, m4) \<Rightarrow>
          (case std_stoull m2 of
             Raises e \<Rightarrow> Raises e
           | Returns position \<Rightarrow>
               (case std_stoull m2 of
                  Raises e \<Rightarrow> Raises e
                | Returns len \<Rightarrow> Returns (Inr (m0, m1, position, len)))))"

definition request_createGetRequest :: "string \<Rightarrow> string \<Rightarrow> size_t \<Rightarrow> size_t \<Rightarrow> string" where
  "request_createGetRequest bucket key position len =
     ''GET '' @ bucket @ ''/'' @ key @ [CHR 0x0A] @ ''RANGE '' @ show_nat position @ '' '' @ show_nat len"

lemma match_request_groups:
  "match_request s = Some (m0, m1, m2, m3, m4) \<Longrightarrow> m0 = s \<and> bucket_regex m1 \<and> prefix ''GET '' s"
  by (auto simp: match_request_def Let_def strip_def split: option.splits if_splits)

text \<open>No request is parsed to the bucket, key and range it was made from.\<close>

lemma request_never_roundtrips:
  "request_parseGetRequest (request_createGetRequest bucket key position len) \<noteq> Returns (Inr (bucket, key, position', len'))"
proof
  let ?s = "request_createGetRequest bucket key position len"
  assume "request_parseGetRequest ?s = Returns (Inr (bucket, key, position', len'))"
  then obtain m1 m2 m3 m4 where "match_request ?s = Some (bucket, m1, m2, m3, m4)"
    by (auto simp: request_parseGetRequest_def split: option.splits prod.splits outcome.splits)
  then have "bucket = ?s" using match_request_groups by blast
  then have "length bucket = length ?s" by (rule arg_cong)
  then show False by (simp add: request_createGetRequest_def)
qed

text \<open>For a key that does not start with a number the parser throws, although the request is well formed.\<close>

lemma request_key_not_a_number:
  "request_parseGetRequest (request_createGetRequest ''abc'' ''x/y'' 5 9) = Raises ''stoull''"
  by code_simp

end
