(* ===== verification/Spec2Isabelle.thy ===== *)
theory Spec2Isabelle
  imports Node_Transfer Relocation_Pool Http_Session Command_Line Python_Binding Node_Program Java_Node Shared_Path Peer_Rpc Peer_Request
begin

text \<open>
  \<^bold>\<open>GEDS, a distributed ephemeral data store.\<close>

  A GEDS deployment is a set of nodes that keep the files they create on local storage, a metadata server
  that knows where every object is, and optionally S3 as a slower tier. A node creates and writes an object
  locally, seals it (which publishes location and size at the metadata server), and other nodes that open
  the object read it from the first node over TCP, or from S3 after it has been relocated there. This library models
  the C++ implementation (\<^verbatim>\<open>src/src\<close>; paths below are relative to it) and proves the properties that
  make these parts correct, alone and composed.

  \<^bold>\<open>Theories and sources\<close>, from the bottom up. Each theory opens with its own description.

  \<^item> \<open>GEDS_Prelude\<close>: machine types, \<open>std::string\<close> operations, decimal printing, generic list lemmas.
  \<^item> \<open>Absl_Status\<close>, \<open>Objects\<close>: \<open>absl::Status\<close> and the protocol data of \<^verbatim>\<open>protos/\<close>.
  \<^item> \<open>Std_Map\<close>, \<open>Path\<close>, \<open>Concurrent\<close>: ordered maps with heterogeneous lookup, \<^verbatim>\<open>utility/Path.cpp\<close>, and the
    containers \<^verbatim>\<open>utility/Concurrent{Map,Set,Queue}.h\<close>. Every method of a container holds its lock for its
    whole body and is one atomic step; histories of threads are lists of steps.
  \<^item> \<open>Metadata_Store\<close>: \<^verbatim>\<open>utility/MDSKVS.cpp\<close>, \<^verbatim>\<open>MDSKVSBucket.cpp\<close>, refined to a partial function from bucket and key.
  \<^item> \<open>S3_Endpoint\<close>, \<open>Object_Stores\<close>: \<^verbatim>\<open>s3/S3Endpoint.cpp\<close>, \<^verbatim>\<open>S3ObjectStores.cpp\<close> over an S3 client that is a parameter.
  \<^item> \<open>Metadata_Server\<close>: the handlers of \<^verbatim>\<open>metadataservice/GRPCServer.cpp\<close>, \<^verbatim>\<open>ObjectStoreHandler.cpp\<close>, \<^verbatim>\<open>S3Helper.cpp\<close>.
  \<^item> \<open>Metadata_Client\<close>: \<^verbatim>\<open>libgeds/MetadataService.cpp\<close> with its cache, over a stub; with the server as the stub it
    answers like the store.
  \<^item> \<open>Local_File\<close>, \<open>MMAP_File\<close>: \<^verbatim>\<open>LocalFile.cpp\<close>, \<^verbatim>\<open>MMAPFile.cpp\<close> over scripts of system call results, two
    implementations of the interface \<open>file_backend\<close>.
  \<^item> \<open>File_Handle\<close>, \<open>Typed_IO\<close>: the base class \<^verbatim>\<open>GEDSFileHandle.cpp\<close> with downloads, and \<^verbatim>\<open>GEDSFile.{h,cpp}\<close> with
    reference counts and the templates for arrays and vectors.
  \<^item> \<open>Remote_Handles\<close>, \<open>Local_Handle\<close>, \<open>Cached_Handle\<close>, \<open>Relocatable_Handle\<close>: the handle classes of the same
    names (\<^verbatim>\<open>GEDSS3FileHandle.cpp\<close>, \<^verbatim>\<open>GEDSRemoteFileHandle.cpp\<close>, \<^verbatim>\<open>GEDSAbstractFileHandle.h\<close>,
    \<^verbatim>\<open>GEDSCachedFileHandle.cpp\<close>, \<^verbatim>\<open>GEDSRelocatableFileHandle.cpp\<close>).
  \<^item> \<open>GEDS_Config\<close>, \<open>Object_Names\<close>: \<^verbatim>\<open>GEDSConfig.cpp\<close>, \<^verbatim>\<open>StorageCounter.h\<close>; names, paths and local files of \<^verbatim>\<open>GEDS.cpp\<close>.
  \<^item> \<open>Acceptors\<close>: \<^verbatim>\<open>TcpServer.cpp\<close>, \<^verbatim>\<open>HttpServer.cpp\<close>; their accept loops are two interpretations of the locale \<open>accept_loop\<close>.
  \<^item> \<open>GEDS_Service\<close>: all operations of \<^verbatim>\<open>GEDS.cpp\<close>. The state is the record \<open>GEDS\<close> with the members of the class;
    what the operations call on handles is the record \<open>service\<close>. A shared pointer to a handle is its number.
  \<^item> \<open>Service_Contract\<close>: the locale \<open>handle_provider\<close>, what the service relies on (factories make new handles
    and leave the tables alone), and the table invariants proved from it.
  \<^item> \<open>Handle_Heap\<close>: the handle classes in a heap, as an implementation of \<open>service\<close>; it interprets \<open>handle_provider\<close>
    and closes the circle of calls between service and handles.
  \<^item> \<open>Node_Metadata\<close>: the node with the real metadata server as its stub; opening gives a handle of the object asked for.
  \<^item> \<open>Tcp_Protocol\<close>: \<^verbatim>\<open>TcpDataTransport.cpp\<close>, \<^verbatim>\<open>TcpConnection.cpp\<close>, \<^verbatim>\<open>TcpClient.cpp\<close>; the locale \<open>file_provider\<close> states
    what a connection needs of the node it serves.
  \<^item> \<open>Transfer_Service\<close>: \<^verbatim>\<open>FileTransferService.cpp\<close> and \<^verbatim>\<open>Server.cpp\<close>.
  \<^item> \<open>Node_Transfer\<close>: the node interprets \<open>file_provider\<close>; sealing, opening and reading across two nodes.
  \<^item> \<open>Service_Operation\<close>, \<open>Relocation_Pool\<close>: life cycle and storage monitor of a node; the thread pool of
    \<open>GEDS::relocate\<close> as a transition system.
  \<^item> \<open>File_System\<close>: \<^verbatim>\<open>Filesystem.cpp\<close> over a table of directory entries, the destructors of the file classes and \<open>GEDS::factory\<close>.
  \<^item> \<open>Statistics\<close>, \<open>Http_Session\<close>: \<^verbatim>\<open>statistics/\<close>, and \<^verbatim>\<open>HttpSession.cpp\<close> with its loop over the requests of a connection.
  \<^item> \<open>Java_File\<close>, \<open>Java_Service\<close>: the native methods of \<^verbatim>\<open>java/com_ibm_geds_GEDSFile.cpp\<close>, \<^verbatim>\<open>com_ibm_geds_GEDS.cpp\<close>,
    \<^verbatim>\<open>com_ibm_geds_GEDSConfig.cpp\<close> and the Java classes that call them. Native pointers, arrays and direct buffers are addresses
    into tables; a use C++ leaves undefined is an outcome of its own. \<open>Java_Node\<close>: these methods over the handles of a node.
  \<^item> \<open>Shared_Path\<close>: two local files with one path, which the bytes that every \<open>LocalFile\<close> of the model has for itself leave out.
  \<^item> \<open>Python_Binding\<close>: the functions \<^verbatim>\<open>python/wrapper.cpp\<close> defines itself.
  \<^item> \<open>Command_Line\<close>: \<^verbatim>\<open>geds_cmd/main.cpp\<close>, one operation of the metadata client per run.
  \<^item> \<open>Node_Program\<close>: \<^verbatim>\<open>geds/main.cpp\<close>, the program of a node.
  \<^item> \<open>Peer_Sender\<close>, \<open>Peer_Receiver\<close>, \<open>Peer_Messages\<close>: the two state machines of \<^verbatim>\<open>TcpTransport.cpp\<close>, the binary transport
    that is not part of a build target, over sockets that accept and deliver bytes in any pieces. The connections of a peer
    share its queue: each message goes to one of them, and a connection carries its messages in order.
  \<^item> \<open>Peer_Transport\<close>, \<open>Peer_Rpc\<close>: the peers, endpoints, threads and remote procedure calls of the same file; the locale
    \<open>rx_invariant\<close> states what a property of a peer must satisfy to survive a call of the receiver. \<open>Peer_Request\<close>: \<^verbatim>\<open>Request.cpp\<close>.

  \<^bold>\<open>What is shown.\<close> Refinement: histories of map calls, of store calls and of client calls answer as partial functions,
  an object sealed on one node is read byte for byte on another, a run of the command line client is one step of the store, what a
  connection of the binary transport takes from the queue is what the other side handles. Exactness of data
  paths: local and mapped files, downloads, ranges from S3, uploads before relocation. Safety
  under concurrency: who inserts first wins, readers that fail together reopen once, open counts count
  references and those that assignments lost, relocation tasks are bounded. Termination: listings, downloads, port search and relocation end, with the
  conditions under which they do not. Errors: statuses cross the wire unchanged, failed starts, invalid
  requests, stopping a node whose web server has no port, exceptions in Java. Round trips: names and paths, locations, requests. Types: sequential
  use of the Java class for files never reaches a dangling pointer nor leaves a buffer, as long as other nodes send no more
  than they were asked for. Where the code
  behaves differently from its intention the theorem states what it does (stale cache entries after
  \<open>createObject\<close>, waiting for ever after skipped handles or lost connections, keys with line terminators, wrapped
  range checks, accept loops that end with the first failure, metadata that is read without being there,
  replies that repeat the earlier ones of a connection, a receiver that spins when its peer goes away).

  \<^bold>\<open>Conventions.\<close> Errors are values: \<open>StatusOr\<close> is a sum with the status on the left, a C++ exception is the constructor
  \<open>Raises\<close> of \<open>outcome\<close>, a call that never returns is \<^const>\<open>None\<close>. A \<open>size_t\<close> is a natural number whose
  arithmetic goes through \<open>wrap64\<close> and \<open>sz_sub\<close>, or a 64-bit word where it is only stored. Loops are recursive
  functions with termination proofs; loops that may not end take fuel: \<open>download_loop\<close> needs one unit more
  than the file has bytes (each round moves at least one), the page loop of S3 listings one per page, the port search
  \<open>2 ^ 16\<close>, the receiver of the binary transport two more than the bytes that have arrived, and the theorems show that this is enough. What the environment decides (system calls, sockets, S3, gRPC
  channels, time) is an argument: scripts, records of functions, or steps of a transition relation.
  The threshold of the storage monitor is rounded as \<open>double\<close> arithmetic rounds it (\<open>double_round\<close>: 53 bits, ties to even, no subnormal or infinite
  values, which do not occur for sizes and fractions).
  A \<open>std::sort\<close> by release time is modelled by a stable sort; the theorem on it holds for any sorted order.

  \<^bold>\<open>Not modelled.\<close> The gRPC, Boost.Asio, Boost.Beast and AWS libraries (parameters); requests that a web
  client sends ahead of a reply; the threads, locks and gauges of \<^verbatim>\<open>TcpTransport.cpp\<close>: its calls are
  atomic here, but for the rounds of senders that share a queue (\<open>Peer_Messages\<close>) and two calls that accept a connection
  (\<open>overlapping_accepts\<close>); the Go
  metadata service, benchmarks and logging. A Java string is its bytes in modified UTF-8; numbers that are no
  subscription type are left out; what a failed read left in a buffer is an argument. The heap of \<open>Handle_Heap\<close> leaves the
  factory of cached handles a parameter, since their blocks are objects of another bucket; \<open>Cached_Handle\<close> models them
  on their own, over a block service whose laws are assumed. Every \<open>LocalFile\<close> has bytes of its own: a second \<open>create\<close> of an object, which
  truncates and unlinks the file of the first, is shown on an explicit disk in \<open>Shared_Path\<close> only. The stack buffers that \<^verbatim>\<open>TcpConnection.cpp\<close> hands to asynchronous writes are taken as they are when the
  write starts, and allocations do not fail.
\<close>

end
